(* ===== verification/Go_Prelude.thy ===== *)
theory Go_Prelude
  imports
    "HOL-Library.Word" "HOL-Library.Sublist" "HOL-Library.Char_ord"
    "HOL-Library.List_Lexorder" "HOL-Library.Finite_Map"
begin

text \<open>
  What the Go sources use of the language and of its standard library: byte strings and the
  functions of package \<open>strings\<close>, the line scanner of \<open>bufio\<close>, instants and durations of
  package \<open>time\<close>, files replaced through a temporary name, and the lemma collections the
  component theories share.

  A Go string is a sequence of bytes, here a \<^typ>\<open>string\<close> (one \<^typ>\<open>char\<close> per byte).
  Code that is not in the repository (package \<open>miekg/dns\<close>) and the Unicode case tables are
  the fields of the record \<open>lib\<close> below, an argument of the definitions that use them.
\<close>

named_theorems go_simps \<open>unfolding equations of the Go library model\<close>
named_theorems go_intros \<open>introduction rules shared by the components\<close>

type_synonym bytes = string
type_synonym u32 = "32 word"
type_synonym time = int      \<comment> \<open>nanoseconds since Go's zero instant, which is 0\<close>
type_synonym duration = int  \<comment> \<open>nanoseconds\<close>

subsection \<open>Code outside the repository\<close>

record lib =
  uni_lower :: "string \<Rightarrow> string"             \<comment> \<open>\<open>strings.Map(unicode.ToLower, s)\<close>\<close>
  uni_fold :: "string \<Rightarrow> string \<Rightarrow> bool"     \<comment> \<open>\<open>strings.EqualFold\<close> beyond ASCII\<close>
  dns_fqdn :: "string \<Rightarrow> string"              \<comment> \<open>\<open>dns.Fqdn\<close>\<close>
  dns_is_name :: "string \<Rightarrow> bool"             \<comment> \<open>the flag of \<open>dns.IsDomainName\<close>\<close>
  dns_is_sub :: "string \<Rightarrow> string \<Rightarrow> bool"    \<comment> \<open>\<open>dns.IsSubDomain(parent, child)\<close>\<close>
  dns_pack :: "string \<Rightarrow> bytes option"        \<comment> \<open>\<open>dns.PackDomainName\<close> into a 256 byte buffer\<close>
  sha256_hex :: "bytes \<Rightarrow> string"             \<comment> \<open>hex digest of \<open>crypto/sha256\<close>\<close>
  cdb_image :: "(bytes \<times> bytes) list \<Rightarrow> bytes" \<comment> \<open>file written by \<open>colinmarc/cdb\<close>\<close>

subsection \<open>Bytes and strings\<close>

definition LF :: char where "LF = char_of (10::nat)"
definition CR :: char where "CR = char_of (13::nat)"
definition byte_of :: "nat \<Rightarrow> char" where "byte_of n = char_of n"

abbreviation byte :: "char \<Rightarrow> nat" where "byte c \<equiv> of_char c"

definition is_ascii :: "char \<Rightarrow> bool" where "is_ascii c \<longleftrightarrow> byte c < 128"

text \<open>\<open>strings.ToLower\<close>: bytewise on ASCII strings, through the Unicode tables otherwise.\<close>

definition lower_byte :: "char \<Rightarrow> char" where
  "lower_byte c = (if 65 \<le> byte c \<and> byte c \<le> 90 then char_of (byte c + 32) else c)"

definition to_lower :: "lib \<Rightarrow> string \<Rightarrow> string" where
  "to_lower L s = (if list_all is_ascii s then map lower_byte s else uni_lower L s)"

definition equal_fold :: "lib \<Rightarrow> string \<Rightarrow> string \<Rightarrow> bool" where
  "equal_fold L s t =
     (if list_all is_ascii s \<and> list_all is_ascii t then map lower_byte s = map lower_byte t
      else uni_fold L s t)"

text \<open>
  \<open>strings.TrimSpace\<close> strips the code points of \<open>unicode.IsSpace\<close>, in their UTF-8 form, at
  both ends.
\<close>

definition is_space_byte :: "char \<Rightarrow> bool" where
  "is_space_byte c \<longleftrightarrow> byte c = 32 \<or> (9 \<le> byte c \<and> byte c \<le> 13)"

definition wide_spaces :: "string list" where
  "wide_spaces = map (map byte_of)
     ([[194, 133], [194, 160], [225, 154, 128], [226, 128, 168], [226, 128, 169],
       [226, 128, 175], [226, 129, 159], [227, 128, 128]]
      @ map (\<lambda>k. [226, 128, 128 + k]) [0..<11])"

function trim_left_space :: "string \<Rightarrow> string" where
  "trim_left_space s =
     (case s of [] \<Rightarrow> []
      | c # s' \<Rightarrow>
          if is_space_byte c then trim_left_space s'
          else if is_ascii c then s
          else (case find (\<lambda>w. prefix w s) wide_spaces of
                  None \<Rightarrow> s
                | Some w \<Rightarrow> trim_left_space (drop (max 1 (length w)) s)))"
  by pat_completeness auto
termination
  by (relation "measure length") (auto simp: max_def)

function trim_right_space_rev :: "string \<Rightarrow> string" where
  "trim_right_space_rev s =
     (case s of [] \<Rightarrow> []
      | c # s' \<Rightarrow>
          if is_space_byte c then trim_right_space_rev s'
          else if is_ascii c then s
          else (case find (\<lambda>w. prefix (rev w) s) wide_spaces of
                  None \<Rightarrow> s
                | Some w \<Rightarrow> trim_right_space_rev (drop (max 1 (length w)) s)))"
  by pat_completeness auto
termination
  by (relation "measure length") (auto simp: max_def)

declare trim_left_space.simps [simp del] trim_right_space_rev.simps [simp del]

definition trim_space :: "string \<Rightarrow> string" where
  "trim_space s = rev (trim_right_space_rev (rev (trim_left_space s)))"

definition trim_prefix :: "string \<Rightarrow> string \<Rightarrow> string" where
  "trim_prefix s p = (if prefix p s then drop (length p) s else s)"

definition trim_suffix :: "string \<Rightarrow> string \<Rightarrow> string" where
  "trim_suffix s p = (if suffix p s then take (length s - length p) s else s)"

definition trim_right_byte :: "string \<Rightarrow> char \<Rightarrow> string" where
  "trim_right_byte s c = rev (dropWhile (\<lambda>d. d = c) (rev s))"

definition trim_byte :: "string \<Rightarrow> char \<Rightarrow> string" where
  "trim_byte s c = trim_right_byte (dropWhile (\<lambda>d. d = c) s) c"

text \<open>\<open>strings.Split\<close> on a one byte separator, and \<open>strings.Join\<close>.\<close>

fun split_on :: "char \<Rightarrow> string \<Rightarrow> string list" where
  "split_on c [] = [[]]"
| "split_on c (x # xs) =
     (if x = c then [] # split_on c xs
      else (case split_on c xs of [] \<Rightarrow> [[x]] | y # ys \<Rightarrow> (x # y) # ys))"

fun join :: "string \<Rightarrow> string list \<Rightarrow> string" where
  "join sep [] = []"
| "join sep [x] = x"
| "join sep (x # y # ys) = x @ sep @ join sep (y # ys)"

text \<open>
  \<open>bufio.Scanner\<close> over lines: the pieces between line feeds without a trailing carriage
  return, an unterminated last line included. A line of \<open>limit\<close> bytes or more stops the
  scan with an error.
\<close>

definition raw_lines :: "string \<Rightarrow> string list" where
  "raw_lines s = (let ps = split_on LF s in if last ps = [] then butlast ps else ps)"

definition drop_cr :: "string \<Rightarrow> string" where
  "drop_cr l = (if l \<noteq> [] \<and> last l = CR then butlast l else l)"

definition scan_lines :: "int \<Rightarrow> string \<Rightarrow> string list \<times> bool" where
  "scan_lines limit s =
     (map drop_cr (takeWhile (\<lambda>l. int (length l) < limit) (raw_lines s)),
      list_all (\<lambda>l. int (length l) < limit) (raw_lines s))"

definition unlines :: "string list \<Rightarrow> string" where
  "unlines ls = concat (map (\<lambda>l. l @ [LF]) ls)"

subsection \<open>Paths\<close>

text \<open>Package \<open>path/filepath\<close> on Unix: \<open>Clean\<close>, \<open>Dir\<close>, \<open>Base\<close> and \<open>Join\<close>.\<close>

definition clean_step :: "bool \<Rightarrow> string list \<Rightarrow> string \<Rightarrow> string list" where
  "clean_step rooted st c =
     (if c = [] \<or> c = ''.'' then st
      else if c = ''..'' then
        (if st \<noteq> [] \<and> last st \<noteq> ''..'' then butlast st else if rooted then st else st @ [c])
      else st @ [c])"

definition path_clean :: "string \<Rightarrow> string" where
  "path_clean p =
     (if p = [] then ''.''
      else let rooted = prefix ''/'' p;
               cs = foldl (clean_step rooted) [] (split_on (CHR ''/'') p)
           in if rooted then CHR ''/'' # join ''/'' cs
              else if cs = [] then ''.'' else join ''/'' cs)"

definition path_dir :: "string \<Rightarrow> string" where
  "path_dir p = path_clean (rev (dropWhile (\<lambda>c. c \<noteq> CHR ''/'') (rev p)))"

definition path_base :: "string \<Rightarrow> string" where
  "path_base p =
     (if p = [] then ''.''
      else let q = trim_right_byte p (CHR ''/'');
               b = rev (takeWhile (\<lambda>c. c \<noteq> CHR ''/'') (rev q))
           in if b = [] then ''/'' else b)"

definition path_join :: "string \<Rightarrow> string \<Rightarrow> string" where
  "path_join a b =
     (if a = [] \<and> b = [] then [] else path_clean (join ''/'' (filter (\<lambda>x. x \<noteq> []) [a, b])))"

subsection \<open>Time\<close>

definition max_dur :: int where "max_dur = 2 ^ 63 - 1"
definition min_dur :: int where "min_dur = - (2 ^ 63)"

text \<open>\<open>Time.Sub\<close> saturates at the ends of \<open>time.Duration\<close>.\<close>

definition time_sub :: "time \<Rightarrow> time \<Rightarrow> duration" where
  "time_sub a b = max min_dur (min max_dur (a - b))"

definition seconds :: "int \<Rightarrow> duration" where "seconds n = n * 1000000000"
definition minutes :: "int \<Rightarrow> duration" where "minutes n = n * 60000000000"
definition hours :: "int \<Rightarrow> duration" where "hours n = n * 3600000000000"

subsection \<open>Files\<close>

type_synonym fs = "string \<rightharpoonup> bytes"

text \<open>
  The outcome of \<open>os.WriteFile\<close>: on an error the file holds whatever was written so far,
  or was never created.
\<close>

datatype write_result = Written | WriteFailed "bytes option"

definition write_file :: "fs \<Rightarrow> string \<Rightarrow> bytes \<Rightarrow> write_result \<Rightarrow> fs \<times> bool" where
  "write_file fs p d w = (case w of Written \<Rightarrow> (fs(p \<mapsto> d), True)
                          | WriteFailed c \<Rightarrow> (fs(p := c), False))"

definition rename_file :: "fs \<Rightarrow> string \<Rightarrow> string \<Rightarrow> bool \<Rightarrow> fs \<times> bool" where
  "rename_file fs a b ok =
     (if ok \<and> fs a \<noteq> None then (fs(b := fs a, a := (if a = b then fs a else None)), True)
      else (fs, False))"

definition tmp_name :: "string \<Rightarrow> string" where "tmp_name p = p @ ''.tmp''"

text \<open>\<open>atomicWrite\<close> of \<open>panel/main.go\<close>: write \<open>path.tmp\<close>, then rename it.\<close>

definition atomic_write :: "fs \<Rightarrow> string \<Rightarrow> bytes \<Rightarrow> write_result \<Rightarrow> bool \<Rightarrow> fs \<times> bool" where
  "atomic_write fs p d w rn =
     (case write_file fs (tmp_name p) d w of
        (fs1, False) \<Rightarrow> (fs1, False)
      | (fs1, True) \<Rightarrow> rename_file fs1 (tmp_name p) p rn)"

subsection \<open>Facts about splitting and joining\<close>

lemma split_on_ne [simp]: "split_on c s \<noteq> []"
  by (induction s) (auto split: list.splits)

lemma split_on_none: "c \<notin> set s \<Longrightarrow> split_on c s = [s]"
  by (induction s) auto

lemma split_on_append:
  "c \<notin> set s \<Longrightarrow> split_on c (s @ c # t) = s # split_on c t"
  by (induction s) auto

lemma split_on_no_sep: "l \<in> set (split_on c s) \<Longrightarrow> c \<notin> set l"
  by (induction s arbitrary: l) (auto split: list.splits if_splits)

lemma join_Cons: "ls \<noteq> [] \<Longrightarrow> join sep (l # ls) = l @ sep @ join sep ls"
  by (cases ls) auto

lemma join_head: "join sep ((x # l) # ls) = x # join sep (l # ls)"
  by (cases ls) auto

lemma join_split: "join [c] (split_on c s) = s"
  by (induction s) (auto simp: join_Cons join_head split: list.splits)

lemma split_join:
  "ls \<noteq> [] \<Longrightarrow> \<forall>l \<in> set ls. c \<notin> set l \<Longrightarrow> split_on c (join [c] ls) = ls"
proof (induction ls)
  case Nil
  then show ?case by simp
next
  case (Cons l ls)
  then show ?case
    by (cases "ls = []") (auto simp: split_on_none join_Cons split_on_append)
qed

lemma set_split_on: "l \<in> set (split_on c s) \<Longrightarrow> set l \<subseteq> set s"
proof (induction s arbitrary: l)
  case Nil
  then show ?case by simp
next
  case (Cons x s)
  then show ?case
    by (cases "split_on c s") (fastforce split: if_splits)+
qed

subsection \<open>Facts about trimming\<close>

text \<open>Printable ASCII bytes: no trimming function of the model touches them.\<close>

definition is_plain :: "char \<Rightarrow> bool" where
  "is_plain c \<longleftrightarrow> 32 < byte c \<and> byte c < 127"

lemma trim_left_Nil [simp]: "trim_left_space [] = []"
  by (simp add: trim_left_space.simps)

lemma trim_right_Nil [simp]: "trim_right_space_rev [] = []"
  by (simp add: trim_right_space_rev.simps)

lemma trim_left_plain: "is_plain c \<Longrightarrow> trim_left_space (c # s) = c # s"
  by (subst trim_left_space.simps) (auto simp: is_space_byte_def is_plain_def is_ascii_def)

lemma trim_right_plain: "is_plain c \<Longrightarrow> trim_right_space_rev (c # s) = c # s"
  by (subst trim_right_space_rev.simps) (auto simp: is_space_byte_def is_plain_def is_ascii_def)

lemma trim_space_Nil [simp]: "trim_space [] = []"
  by (simp add: trim_space_def)

lemma trim_space_plain_ends:
  assumes "s \<noteq> []" and "is_plain (hd s)" and "is_plain (last s)"
  shows "trim_space s = s"
proof -
  from assms have "trim_left_space s = s" by (cases s) (auto simp: trim_left_plain)
  moreover from assms have "trim_right_space_rev (rev s) = rev s"
    by (cases "rev s") (auto simp: trim_right_plain hd_rev [symmetric])
  ultimately show ?thesis by (simp add: trim_space_def)
qed

lemma trim_space_plain: "list_all is_plain s \<Longrightarrow> trim_space s = s"
  by (cases "s = []") (auto simp: list_all_iff intro!: trim_space_plain_ends)

lemma trim_left_suffix: "suffix (trim_left_space s) s"
proof (induction s rule: trim_left_space.induct)
  case (1 s)
  show ?case
  proof (cases s)
    case Nil
    then show ?thesis by simp
  next
    case s: (Cons c s')
    let ?f = "find (\<lambda>w. prefix w s) wide_spaces"
    consider (ascii) "is_space_byte c" | (wide) w where "\<not> is_space_byte c" "\<not> is_ascii c" "?f = Some w"
      | (stop) "\<not> is_space_byte c" "is_ascii c \<or> ?f = None" by (cases ?f) auto
    then show ?thesis
    proof cases
      case ascii
      with 1(1) [OF s] s show ?thesis
        by (subst trim_left_space.simps) (auto intro: suffix_ConsI)
    next
      case wide
      then have "suffix (trim_left_space (drop (max 1 (length w)) s)) (drop (max 1 (length w)) s)"
        using 1(2) s by blast
      then have "suffix (trim_left_space (drop (max 1 (length w)) s)) s"
        using suffix_drop suffix_order.trans by blast
      with wide s show ?thesis by (subst trim_left_space.simps) auto
    next
      case stop
      with s show ?thesis by (subst trim_left_space.simps) auto
    qed
  qed
qed

lemma trim_right_suffix: "suffix (trim_right_space_rev s) s"
proof (induction s rule: trim_right_space_rev.induct)
  case (1 s)
  show ?case
  proof (cases s)
    case Nil
    then show ?thesis by simp
  next
    case s: (Cons c s')
    let ?f = "find (\<lambda>w. prefix (rev w) s) wide_spaces"
    consider (ascii) "is_space_byte c" | (wide) w where "\<not> is_space_byte c" "\<not> is_ascii c" "?f = Some w"
      | (stop) "\<not> is_space_byte c" "is_ascii c \<or> ?f = None" by (cases ?f) auto
    then show ?thesis
    proof cases
      case ascii
      with 1(1) [OF s] s show ?thesis
        by (subst trim_right_space_rev.simps) (auto intro: suffix_ConsI)
    next
      case wide
      then have "suffix (trim_right_space_rev (drop (max 1 (length w)) s)) (drop (max 1 (length w)) s)"
        using 1(2) s by blast
      then have "suffix (trim_right_space_rev (drop (max 1 (length w)) s)) s"
        using suffix_drop suffix_order.trans by blast
      with wide s show ?thesis by (subst trim_right_space_rev.simps) auto
    next
      case stop
      with s show ?thesis by (subst trim_right_space_rev.simps) auto
    qed
  qed
qed

lemma trim_space_sublist: "sublist (trim_space s) s"
proof -
  have "prefix (trim_space s) (trim_left_space s)"
    using trim_right_suffix [of "rev (trim_left_space s)"]
    by (simp add: trim_space_def suffix_to_prefix)
  then show ?thesis
    using trim_left_suffix [of s]
    by (meson prefix_imp_sublist suffix_imp_sublist sublist_order.order.trans)
qed

lemma set_trim_space: "set (trim_space s) \<subseteq> set s"
  by (rule set_mono_sublist [OF trim_space_sublist])

lemma trim_suffix_no: "\<not> suffix p s \<Longrightarrow> trim_suffix s p = s"
  by (simp add: trim_suffix_def)

lemma trim_suffix_append [simp]: "trim_suffix (s @ p) p = s"
  by (simp add: trim_suffix_def suffix_def)

lemma trim_prefix_append [simp]: "trim_prefix (p @ s) p = s"
  by (simp add: trim_prefix_def)

lemma set_trim_suffix: "set (trim_suffix s p) \<subseteq> set s"
  by (auto simp: trim_suffix_def dest: in_set_takeD)

lemma length_trim_suffix: "length (trim_suffix s p) \<le> length s"
  by (simp add: trim_suffix_def)

subsection \<open>Facts about lower case\<close>

lemma byte_lower_byte:
  "byte (lower_byte c) = (if 65 \<le> byte c \<and> byte c \<le> 90 then byte c + 32 else (byte c :: nat))"
  by (simp add: lower_byte_def)

lemma lower_byte_idem [simp]: "lower_byte (lower_byte c) = lower_byte c"
  by (simp add: lower_byte_def)

lemma to_lower_ascii: "list_all is_ascii s \<Longrightarrow> to_lower L s = map lower_byte s"
  by (simp add: to_lower_def)

lemma to_lower_Nil [simp]: "to_lower L [] = []"
  by (simp add: to_lower_def)

subsection \<open>Facts about lines\<close>

lemma split_unlines:
  "\<forall>l \<in> set ls. LF \<notin> set l \<Longrightarrow> split_on LF (unlines ls) = ls @ [[]]"
  by (induction ls) (auto simp: unlines_def split_on_append)

lemma raw_lines_unlines:
  "\<forall>l \<in> set ls. LF \<notin> set l \<Longrightarrow> raw_lines (unlines ls) = ls"
  by (simp add: raw_lines_def split_unlines)

lemma drop_cr_id: "CR \<notin> set l \<Longrightarrow> drop_cr l = l"
  by (metis drop_cr_def last_in_set)

lemma raw_lines_no_lf: "l \<in> set (raw_lines s) \<Longrightarrow> LF \<notin> set l"
  by (auto simp: raw_lines_def Let_def split_on_no_sep dest: in_set_butlastD split: if_splits)

lemma scan_unlines:
  assumes "\<forall>l \<in> set ls. LF \<notin> set l \<and> CR \<notin> set l \<and> int (length l) < limit"
  shows "scan_lines limit (unlines ls) = (ls, True)"
proof -
  have "map drop_cr (takeWhile (\<lambda>l. int (length l) < limit) ls) = ls"
    using assms by (simp add: takeWhile_eq_all_conv [THEN iffD2] drop_cr_id map_idI)
  with assms show ?thesis
    by (simp add: scan_lines_def raw_lines_unlines list_all_iff)
qed

lemma plain_not_control: "is_plain c \<Longrightarrow> c \<noteq> LF \<and> c \<noteq> CR"
  by (auto simp: is_plain_def LF_def CR_def)

subsection \<open>Facts about atomic file replacement\<close>

lemma tmp_name_neq [simp]: "tmp_name p \<noteq> p" "p \<noteq> tmp_name p"
  by (simp_all add: tmp_name_def)

lemma atomic_write_ok:
  "atomic_write fs p d Written True = (fs(p \<mapsto> d, tmp_name p := None), True)"
  by (auto simp: atomic_write_def write_file_def rename_file_def)

lemma atomic_write_cases:
  assumes "atomic_write fs p d w rn = (fs', ok)"
  shows "fs' p = (if ok then Some d else fs p)"
    and "q \<noteq> p \<Longrightarrow> q \<noteq> tmp_name p \<Longrightarrow> fs' q = fs q"
  using assms
  by (auto simp: atomic_write_def write_file_def rename_file_def split: write_result.splits if_splits)

text \<open>
  An interrupted or failed replacement never leaves a torn file: the path holds the old
  bytes or the new ones.
\<close>

lemma atomic_write_fst:
  "fst (atomic_write fs p d w rn) p = (if snd (atomic_write fs p d w rn) then Some d else fs p)"
  using atomic_write_cases(1) [of fs p d w rn] by (metis prod.collapse)

end
