(* ===== verification/Rpz_Domain.thy ===== *)
theory Rpz_Domain
  imports Go_Prelude
begin

text \<open>
  The data of \<open>tools/rpz-master\<close> (resource records, configuration, deltas, persistent state) and
  the functions its transfer client, file builder and DNS server share: the RFC 1982 comparison
  of serials, the normalisation of a policy domain and the extraction of policy owners from
  resource records (\<open>config.go\<close>, \<open>slave_client.go\<close>).
\<close>

subsection \<open>Resource records\<close>

record rr_hdr =
  rr_name :: string
  rr_type :: nat
  rr_class :: nat
  rr_ttl :: u32

record soa =
  soa_hdr :: rr_hdr
  soa_ns :: string
  soa_mbox :: string
  soa_serial :: u32
  soa_refresh :: u32
  soa_retry :: u32
  soa_expire :: u32
  soa_minttl :: u32

datatype rr = SOA soa | CNAME rr_hdr string | OtherRR rr_hdr

fun rr_header :: "rr \<Rightarrow> rr_hdr" where
  "rr_header (SOA s) = soa_hdr s"
| "rr_header (CNAME h t) = h"
| "rr_header (OtherRR h) = h"

fun is_soa :: "rr \<Rightarrow> bool" where
  "is_soa (SOA s) = True"
| "is_soa _ = False"

abbreviation type_A :: nat where "type_A \<equiv> 1"
abbreviation type_CNAME :: nat where "type_CNAME \<equiv> 5"
abbreviation type_SOA :: nat where "type_SOA \<equiv> 6"
abbreviation type_AAAA :: nat where "type_AAAA \<equiv> 28"
abbreviation type_IXFR :: nat where "type_IXFR \<equiv> 251"
abbreviation type_AXFR :: nat where "type_AXFR \<equiv> 252"
abbreviation class_INET :: nat where "class_INET \<equiv> 1"

subsection \<open>Configuration, deltas and state\<close>

record config =
  source_mode :: string
  zone :: string
  listen_dns :: string
  listen_http :: string
  cname_target :: string
  cdb_path :: string
  state_path :: string
  source_domain_url :: string
  upstream_master :: string
  tsig_key :: string
  tsig_secret :: string
  tsig_secret_file :: string
  tsig_algorithm :: string
  check_interval :: string
  max_transfers :: int
  max_transfer_records :: int
  raw_domain_file :: string
  transfer_acl :: "string list"

record delta =
  from_serial :: u32
  to_serial :: u32
  d_timestamp :: time
  full :: bool
  added :: "string list"
  deleted :: "string list"
  staged_raw :: string   \<comment> \<open>path of the staging file, empty when there is none\<close>

record state =
  serial :: u32
  last_update :: time
  total_domains :: nat
  cdb_sha256 :: string
  deltas :: "delta list"

datatype rpz_error =
  EmptyOrLong | BadDomain | OwnerOutside string | OwnerInvalid string rpz_error
| EmptyTransfer | NoOpeningSOA | CutAfterSOA | AxfrNotClosed | SoaOutside | RecordAfterSOA
| StartsElsewhere u32 | TargetNotNewer u32 | BadFromSOA u32 | DeleteCut | AddCut | BadToSOA
| BadNextSOA | PastTarget u32 | StreamError | OverLimit int | TransferStart | SerialMismatch u32 u32
| NoUpstream | SoaUnusable | NoSoaAnswer | QueryFailed | BadSecret
| IOError | NotFound | LineTooLong | PackFailed | CdbWrite | NoDelta | IsDirectory
| NoSource | SaveFailed

subsection \<open>Serial number arithmetic\<close>

text \<open>\<open>serialGreater\<close>: unsigned subtraction wraps around at 32 bits.\<close>

definition serial_greater :: "u32 \<Rightarrow> u32 \<Rightarrow> bool" where
  "serial_greater a b = (let diff = a - b in diff \<noteq> 0 \<and> diff < 2 ^ 31)"

text \<open>RFC 1982, section 3.2, for SERIAL\_BITS = 32: \<open>i1 > i2\<close> on the numbers themselves.\<close>

definition rfc1982_greater :: "nat \<Rightarrow> nat \<Rightarrow> bool" where
  "rfc1982_greater i1 i2 \<longleftrightarrow>
     (i1 < i2 \<and> i2 - i1 > 2 ^ 31) \<or> (i1 > i2 \<and> i1 - i2 < 2 ^ 31)"

subsection \<open>Policy domains\<close>

definition normalize_policy_domain :: "lib \<Rightarrow> string \<Rightarrow> rpz_error + string" where
  "normalize_policy_domain L v =
     (let value = to_lower L (trim_suffix (trim_space v) ''.'')
      in if value = [] \<or> 253 < length value then Inl EmptyOrLong
         else if \<not> dns_is_name L (dns_fqdn L value) then Inl BadDomain
         else Inr value)"

text \<open>
  One record of \<open>policyOwners\<close> (and of the \<open>process\<close> closure of the streaming reader): \<open>None\<close>
  when the record is skipped.
\<close>

definition policy_owner :: "lib \<Rightarrow> string \<Rightarrow> rr \<Rightarrow> rpz_error + string option" where
  "policy_owner L zn rc =
     (let owner = to_lower L (dns_fqdn L (rr_name (rr_header rc)))
      in if \<not> dns_is_sub L zn owner then Inl (OwnerOutside owner)
         else if owner = zn then Inr None
         else if rr_type (rr_header rc) \<notin> {type_CNAME, type_A, type_AAAA} then Inr None
         else (case normalize_policy_domain L (trim_suffix (trim_suffix owner zn) ''.'') of
                 Inl e \<Rightarrow> Inl (OwnerInvalid owner e)
               | Inr clean \<Rightarrow> Inr (Some clean)))"

fun policy_owner_list :: "lib \<Rightarrow> string \<Rightarrow> rr list \<Rightarrow> rpz_error + string list" where
  "policy_owner_list L zn [] = Inr []"
| "policy_owner_list L zn (rc # rs) =
     (case policy_owner L zn rc of
        Inl e \<Rightarrow> Inl e
      | Inr d \<Rightarrow> (case policy_owner_list L zn rs of
                   Inl e \<Rightarrow> Inl e
                 | Inr ds \<Rightarrow> Inr (case d of None \<Rightarrow> ds | Some x \<Rightarrow> x # ds)))"

definition policy_owners :: "lib \<Rightarrow> rr list \<Rightarrow> string \<Rightarrow> rpz_error + string list" where
  "policy_owners L rs zn =
     (case policy_owner_list L zn rs of
        Inl e \<Rightarrow> Inl e
      | Inr ds \<Rightarrow> Inr (sorted_list_of_set (set ds)))"

subsection \<open>Facts about serials\<close>

lemma unat_diff_word:
  "unat (a - b :: u32) = (if unat b \<le> unat a then unat a - unat b else 2 ^ 32 + unat a - unat b)"
  by (auto simp: unat_sub_if_size word_size word_le_nat_alt)

lemma serial_greater_unat: "serial_greater a b \<longleftrightarrow> a \<noteq> b \<and> unat (a - b) < 2 ^ 31"
  by (simp add: serial_greater_def Let_def word_less_nat_alt)

lemma serial_greater_irrefl [simp]: "\<not> serial_greater a a"
  by (simp add: serial_greater_def)

lemma serial_greater_rfc1982:
  "serial_greater a b \<longleftrightarrow> rfc1982_greater (unat a) (unat b)"
proof -
  have "unat a < 2 ^ 32" "unat b < 2 ^ 32"
    using unsigned_less [where ?'a = nat, of a] unsigned_less [where ?'a = nat, of b] by simp_all
  moreover have "a \<noteq> b \<longleftrightarrow> unat a \<noteq> unat b" by (simp add: word_unat_eq_iff)
  ultimately show ?thesis
    by (auto simp: serial_greater_unat rfc1982_greater_def unat_diff_word)
qed

lemma serial_greater_asym: "serial_greater a b \<Longrightarrow> \<not> serial_greater b a"
  by (auto simp: serial_greater_rfc1982 rfc1982_greater_def)

lemma serial_greater_total:
  assumes "a \<noteq> b" and "a - b \<noteq> 2 ^ 31"
  shows "serial_greater a b \<or> serial_greater b a"
proof -
  have "unat (a - b) \<noteq> 2 ^ 31"
  proof
    assume "unat (a - b) = 2 ^ 31"
    then have "of_nat (unat (a - b)) = (of_nat (2 ^ 31) :: u32)" by simp
    then have "a - b = of_nat (2 ^ 31)" by simp
    with assms(2) show False by simp
  qed
  with assms(1) show ?thesis
    by (auto simp: serial_greater_unat unat_diff_word word_unat_eq_iff split: if_splits)
qed

subsection \<open>Facts about policy domains\<close>

text \<open>A domain the normalisation leaves alone.\<close>

definition canonical :: "lib \<Rightarrow> string \<Rightarrow> bool" where
  "canonical L d \<longleftrightarrow> normalize_policy_domain L d = Inr d"

lemma normalize_policy_bounds:
  "normalize_policy_domain L v = Inr d \<Longrightarrow> d \<noteq> [] \<and> length d \<le> 253 \<and> dns_is_name L (dns_fqdn L d)"
  by (auto simp: normalize_policy_domain_def Let_def split: if_splits)

lemma canonical_bounds: "canonical L d \<Longrightarrow> d \<noteq> [] \<and> length d \<le> 253"
  unfolding canonical_def by (drule normalize_policy_bounds) simp

lemma policy_owner_list_append:
  "policy_owner_list L zn (rs @ ts) =
     (case policy_owner_list L zn rs of Inl e \<Rightarrow> Inl e
      | Inr ds \<Rightarrow> (case policy_owner_list L zn ts of Inl e \<Rightarrow> Inl e | Inr es \<Rightarrow> Inr (ds @ es)))"
  by (induction rs) (auto split: sum.splits option.splits)

lemma policy_owner_list_normal:
  "policy_owner_list L zn rs = Inr ds \<Longrightarrow> d \<in> set ds \<Longrightarrow> \<exists>v. normalize_policy_domain L v = Inr d"
  by (induction rs arbitrary: ds)
     (auto simp: policy_owner_def Let_def split: sum.splits option.splits if_splits)

lemma policy_owners_sorted:
  "policy_owners L rs zn = Inr ds \<Longrightarrow> sorted ds \<and> distinct ds"
  by (auto simp: policy_owners_def split: sum.splits)

lemma policy_owners_set:
  "policy_owner_list L zn rs = Inr ds \<Longrightarrow>
   \<exists>es. policy_owners L rs zn = Inr es \<and> set es = set ds"
  by (simp add: policy_owners_def)

subsection \<open>A concrete library\<close>

text \<open>
  An instance of the library record on which the definitions compute: names are compared and
  completed as \<open>miekg/dns\<close> does on names without escapes, a key is its own packed form, and
  the digest and the database are the data themselves.
\<close>

definition example_lib :: lib where
  "example_lib =
     \<lparr>uni_lower = id, uni_fold = (=), dns_fqdn = (\<lambda>s. if suffix ''.'' s then s else s @ ''.''),
      dns_is_name = (\<lambda>s. s \<noteq> []), dns_is_sub = (\<lambda>p c. suffix p c), dns_pack = Some,
      sha256_hex = id, cdb_image = (\<lambda>es. concat (map fst es))\<rparr>"

definition example_cfg :: config where
  "example_cfg =
     \<lparr>source_mode = ''rpz-slave'', zone = ''rpz.x.'', listen_dns = ''127.0.0.1:5353'', listen_http = [],
      cname_target = ''block.x.'', cdb_path = ''/d/t.cdb'', state_path = ''/d/state.json'',
      source_domain_url = [], upstream_master = ''10.0.0.1:53'', tsig_key = [], tsig_secret = [],
      tsig_secret_file = [], tsig_algorithm = ''hmac-sha256.'', check_interval = ''15m'',
      max_transfers = 2, max_transfer_records = 100, raw_domain_file = ''/d/raw.txt'',
      transfer_acl = [''10.0.0.0/8'']\<rparr>"

subsection \<open>Properties\<close>

text \<open>
  The comparison of serials by unsigned subtraction is the order of RFC 1982 on the
  numbers; it is irreflexive and asymmetric, and any two serials that are not equal and not
  exactly \<open>2 ^ 31\<close> apart are comparable.
\<close>

lemma serial_order:
  "(serial_greater a b \<longleftrightarrow> rfc1982_greater (unat a) (unat b))
   \<and> \<not> (serial_greater a b \<and> serial_greater b a)
   \<and> (a = b \<or> a - b = 2 ^ 31 \<or> serial_greater a b \<or> serial_greater b a)"
  using serial_greater_rfc1982 serial_greater_asym serial_greater_total by blast

end
