(* ===== verification/Rpz_Transfer.thy ===== *)
theory Rpz_Transfer
  imports Rpz_Domain
begin

text \<open>
  The transfer client of \<open>tools/rpz-master/slave_client.go\<close>: the choice between AXFR and IXFR,
  the parser of a record sequence into a delta, the streaming reader of a full transfer and the
  method \<open>SyncIXFR\<close> that puts them together. The network (\<open>dns.Transfer.In\<close>) is an argument:
  it maps a request to an error or to the envelopes the channel delivers before it is closed.
\<close>

subsection \<open>Requests\<close>

datatype xfr_kind = Axfr | Ixfr u32

record xfr_request =
  rq_kind :: xfr_kind
  rq_zone :: string
  rq_tsig :: "(string \<times> string) option"   \<comment> \<open>key name and algorithm\<close>

definition sign :: "lib \<Rightarrow> config \<Rightarrow> (string \<times> string) option" where
  "sign L cfg = (if tsig_key cfg \<noteq> [] then Some (dns_fqdn L (tsig_key cfg), dns_fqdn L (tsig_algorithm cfg))
                 else None)"

definition transfer_request :: "lib \<Rightarrow> config \<Rightarrow> u32 \<Rightarrow> xfr_request" where
  "transfer_request L cfg cur =
     \<lparr>rq_kind = (if cur = 0 then Axfr else Ixfr cur), rq_zone = dns_fqdn L (zone cfg), rq_tsig = sign L cfg\<rparr>"

subsection \<open>Parsing a record sequence\<close>

definition mark_all :: "bool \<Rightarrow> string list \<Rightarrow> (string, bool) fmap \<Rightarrow> (string, bool) fmap" where
  "mark_all b ds m = foldl (\<lambda>m d. fmupd d b m) m ds"

definition marked :: "bool \<Rightarrow> (string, bool) fmap \<Rightarrow> string list" where
  "marked b m = sorted_list_of_fset (fmdom (fmfilter (\<lambda>k. fmlookup m k = Some b) m))"

lemma dropWhile_Cons_length: "dropWhile P xs = y # ys \<Longrightarrow> length ys < length xs"
  by (metis Suc_le_lessD length_Cons length_dropWhile_le)

text \<open>
  The loop over the difference sequences of an IXFR response. The argument \<open>rs\<close> is
  \<open>records[i:]\<close>; each round reads a from-SOA, deletions, a to-SOA, additions and leaves the
  following SOA at the head for the next round.
\<close>

function ixfr_loop ::
  "lib \<Rightarrow> string \<Rightarrow> u32 \<Rightarrow> u32 \<Rightarrow> (string, bool) fmap \<Rightarrow> rr list \<Rightarrow> rpz_error + (string, bool) fmap" where
  "ixfr_loop L zn target expected ch rs =
     (case rs of
        SOA from_soa # rest \<Rightarrow>
          if \<not> equal_fold L (rr_name (soa_hdr from_soa)) zn \<or> soa_serial from_soa \<noteq> expected
          then Inl (BadFromSOA expected)
          else
            (case dropWhile (Not \<circ> is_soa) rest of
               SOA to_soa # rest2 \<Rightarrow>
                 if \<not> equal_fold L (rr_name (soa_hdr to_soa)) zn
                    \<or> \<not> serial_greater (soa_serial to_soa) (soa_serial from_soa)
                 then Inl BadToSOA
                 else
                   (case policy_owners L (takeWhile (Not \<circ> is_soa) rest) zn of
                      Inl e \<Rightarrow> Inl e
                    | Inr dels \<Rightarrow>
                        (case dropWhile (Not \<circ> is_soa) rest2 of
                           [] \<Rightarrow> Inl AddCut
                         | nx # rest4 \<Rightarrow>
                             (case policy_owners L (takeWhile (Not \<circ> is_soa) rest2) zn of
                                Inl e \<Rightarrow> Inl e
                              | Inr adds \<Rightarrow>
                                  (let ch' = mark_all True adds (mark_all False dels ch)
                                   in (case nx of
                                         SOA next_soa \<Rightarrow>
                                           if \<not> equal_fold L (rr_name (soa_hdr next_soa)) zn
                                              \<or> soa_serial next_soa \<noteq> soa_serial to_soa
                                           then Inl BadNextSOA
                                           else if soa_serial to_soa = target
                                           then (if rest4 \<noteq> [] then Inl RecordAfterSOA else Inr ch')
                                           else if \<not> serial_greater target (soa_serial to_soa)
                                           then Inl (PastTarget (soa_serial to_soa))
                                           else ixfr_loop L zn target (soa_serial to_soa) ch' (nx # rest4)
                                       | _ \<Rightarrow> Inl BadNextSOA)))))
             | [] \<Rightarrow> Inl DeleteCut
             | _ # _ \<Rightarrow> Inl BadToSOA)
      | _ \<Rightarrow> Inl (BadFromSOA expected))"
  by pat_completeness auto

termination
  by (relation "measure (\<lambda>(L, zn, t, e, ch, rs). length rs)")
     (auto dest!: dropWhile_Cons_length)

declare ixfr_loop.simps [simp del]

definition parse_transfer_records ::
  "lib \<Rightarrow> time \<Rightarrow> rr list \<Rightarrow> string \<Rightarrow> u32 \<Rightarrow> rpz_error + delta option" where
  "parse_transfer_records L now records zone0 cur =
     (let zn = to_lower L (dns_fqdn L zone0)
      in case records of
           [] \<Rightarrow> Inl EmptyTransfer
         | SOA first # rest \<Rightarrow>
             if \<not> equal_fold L (rr_name (soa_hdr first)) zn then Inl NoOpeningSOA
             else
               (case rest of
                  [] \<Rightarrow> (if cur = soa_serial first then Inr None else Inl CutAfterSOA)
                | SOA second # _ \<Rightarrow>
                    if \<not> equal_fold L (rr_name (soa_hdr second)) zn \<or> soa_serial second \<noteq> cur
                    then Inl (StartsElsewhere (soa_serial second))
                    else if \<not> serial_greater (soa_serial first) cur
                    then Inl (TargetNotNewer (soa_serial first))
                    else (case ixfr_loop L zn (soa_serial first) cur fmempty rest of
                            Inl e \<Rightarrow> Inl e
                          | Inr ch \<Rightarrow>
                              Inr (Some \<lparr>from_serial = cur, to_serial = soa_serial first,
                                         d_timestamp = now, full = False,
                                         added = marked True ch, deleted = marked False ch,
                                         staged_raw = []\<rparr>))
                | _ # _ \<Rightarrow>
                    (case last rest of
                       SOA l \<Rightarrow>
                         if soa_serial l \<noteq> soa_serial first \<or> \<not> equal_fold L (rr_name (soa_hdr l)) zn
                         then Inl AxfrNotClosed
                         else (case policy_owners L (butlast rest) zn of
                                 Inl e \<Rightarrow> Inl e
                               | Inr ads \<Rightarrow>
                                   Inr (Some \<lparr>from_serial = cur, to_serial = soa_serial first,
                                              d_timestamp = now, full = True,
                                              added = ads, deleted = [], staged_raw = []\<rparr>))
                     | _ \<Rightarrow> Inl AxfrNotClosed))
         | _ # _ \<Rightarrow> Inl NoOpeningSOA)"

subsection \<open>Streaming a full transfer to disk\<close>

datatype envelope = EnvError | EnvRRs "rr list"

text \<open>The file operations of the reader, and the outcome of each (\<open>True\<close>: it succeeds).\<close>

datatype axfr_io = MkRawDir | CreateStage | StageWrite nat | StageFlush | StageSync | StageClose

type_synonym axfr_oracle = "axfr_io \<Rightarrow> bool"

text \<open>The closure \<open>process\<close>: the state is \<open>(total, gotLast, lines written)\<close>.\<close>

type_synonym axfr_state = "nat \<times> bool \<times> string list"

definition axfr_process ::
  "lib \<Rightarrow> axfr_oracle \<Rightarrow> string \<Rightarrow> u32 \<Rightarrow> int \<Rightarrow> axfr_state \<Rightarrow> rr \<Rightarrow> rpz_error + axfr_state" where
  "axfr_process L io zn first_serial limit st rc =
     (let (total0, got_last, out) = st; total = Suc total0
      in if limit < int total then Inl (OverLimit limit)
         else
           (case rc of
              SOA s \<Rightarrow>
                if \<not> equal_fold L (rr_name (soa_hdr s)) zn then Inl SoaOutside
                else if soa_serial s \<noteq> first_serial then Inl AxfrNotClosed
                else Inr (total, True, out)
            | _ \<Rightarrow>
                if got_last then Inl RecordAfterSOA
                else (case policy_owner L zn rc of
                        Inl e \<Rightarrow> Inl e
                      | Inr None \<Rightarrow> Inr (total, got_last, out)
                      | Inr (Some clean) \<Rightarrow>
                          if io (StageWrite (length out)) then Inr (total, got_last, out @ [clean])
                          else Inl IOError)))"

fun axfr_records ::
  "lib \<Rightarrow> axfr_oracle \<Rightarrow> string \<Rightarrow> u32 \<Rightarrow> int \<Rightarrow> axfr_state \<Rightarrow> rr list \<Rightarrow> rpz_error + axfr_state" where
  "axfr_records L io zn fs limit st [] = Inr st"
| "axfr_records L io zn fs limit st (rc # rs) =
     (case axfr_process L io zn fs limit st rc of
        Inl e \<Rightarrow> Inl e | Inr st' \<Rightarrow> axfr_records L io zn fs limit st' rs)"

fun axfr_envelopes ::
  "lib \<Rightarrow> axfr_oracle \<Rightarrow> string \<Rightarrow> u32 \<Rightarrow> int \<Rightarrow> axfr_state \<Rightarrow> envelope list \<Rightarrow> rpz_error + axfr_state" where
  "axfr_envelopes L io zn fs limit st [] = Inr st"
| "axfr_envelopes L io zn fs limit st (EnvError # es) = Inl StreamError"
| "axfr_envelopes L io zn fs limit st (EnvRRs rs # es) =
     (case axfr_records L io zn fs limit st rs of
        Inl e \<Rightarrow> Inl e | Inr st' \<Rightarrow> axfr_envelopes L io zn fs limit st' es)"

text \<open>
  \<open>streamAXFRFromEnvelopes\<close>: the result and the file system. \<open>stage\<close> is the name
  \<open>os.CreateTemp\<close> picks. Every failure removes the staging file.
\<close>

definition stream_axfr ::
  "lib \<Rightarrow> time \<Rightarrow> axfr_oracle \<Rightarrow> string \<Rightarrow> config \<Rightarrow> u32 \<Rightarrow> rr list \<Rightarrow> u32 \<Rightarrow> envelope list \<Rightarrow> int \<Rightarrow> fs
   \<Rightarrow> (rpz_error + delta) \<times> fs" where
  "stream_axfr L now io stage cfg cur rest0 first_serial envs limit F =
     (let zn = to_lower L (dns_fqdn L (zone cfg))
      in if \<not> io MkRawDir \<or> \<not> io CreateStage then (Inl IOError, F)
         else
           (case (case axfr_records L io zn first_serial limit (0, False, []) rest0 of
                    Inl e \<Rightarrow> Inl e
                  | Inr st \<Rightarrow> axfr_envelopes L io zn first_serial limit st envs) of
              Inl e \<Rightarrow> (Inl e, F(stage := None))
            | Inr (_, got_last, out) \<Rightarrow>
                if \<not> got_last then (Inl AxfrNotClosed, F(stage := None))
                else if \<not> io StageFlush \<or> \<not> io StageSync \<or> \<not> io StageClose
                then (Inl IOError, F(stage := None))
                else (Inr \<lparr>from_serial = cur, to_serial = first_serial, d_timestamp = now, full = True,
                           added = [], deleted = [], staged_raw = stage\<rparr>,
                      F(stage \<mapsto> unlines out))))"

subsection \<open>SyncIXFR\<close>

fun is_ixfr_response :: "rr list \<Rightarrow> bool" where
  "is_ixfr_response (SOA a # SOA b # _) = (soa_serial b \<noteq> soa_serial a)"
| "is_ixfr_response _ = False"

text \<open>The first loop: envelopes are read until two records are buffered.\<close>

fun read_head :: "rr list \<Rightarrow> envelope list \<Rightarrow> rpz_error + rr list \<times> envelope list" where
  "read_head h es =
     (if 2 \<le> length h then Inr (h, es)
      else (case es of
              [] \<Rightarrow> Inr (h, [])
            | EnvError # _ \<Rightarrow> Inl StreamError
            | EnvRRs rs # es' \<Rightarrow> read_head (h @ rs) es'))"

declare read_head.simps [simp del]

text \<open>The accumulation of an IXFR response, bounded by \<open>limit\<close> records.\<close>

fun gather :: "int \<Rightarrow> rr list \<Rightarrow> envelope list \<Rightarrow> rpz_error + rr list" where
  "gather limit acc [] = Inr acc"
| "gather limit acc (EnvError # es) = Inl StreamError"
| "gather limit acc (EnvRRs rs # es) =
     (if limit < int (length acc + length rs) then Inl (OverLimit limit)
      else gather limit (acc @ rs) es)"

definition default_max_records :: int where "default_max_records = 10000000"

definition effective_limit :: "config \<Rightarrow> int" where
  "effective_limit cfg =
     (if max_transfer_records cfg \<le> 0 then default_max_records else max_transfer_records cfg)"

definition sync_request :: "lib \<Rightarrow> config \<Rightarrow> u32 \<Rightarrow> u32 \<Rightarrow> xfr_request" where
  "sync_request L cfg cur upstream =
     (if cur \<noteq> 0 \<and> upstream < cur \<and> serial_greater upstream cur
      then \<lparr>rq_kind = Axfr, rq_zone = dns_fqdn L (zone cfg), rq_tsig = sign L cfg\<rparr>
      else transfer_request L cfg cur)"

definition check_serial :: "u32 \<Rightarrow> (rpz_error + delta) \<times> fs \<Rightarrow> (rpz_error + delta option) \<times> fs" where
  "check_serial upstream res =
     (case res of
        (Inl e, F) \<Rightarrow> (Inl e, F)
      | (Inr d, F) \<Rightarrow>
          if upstream \<noteq> 0 \<and> to_serial d \<noteq> upstream
          then (Inl (SerialMismatch (to_serial d) upstream),
                if staged_raw d \<noteq> [] then F(staged_raw d := None) else F)
          else (Inr (Some d), F))"

definition sync_ixfr ::
  "lib \<Rightarrow> time \<Rightarrow> axfr_oracle \<Rightarrow> string \<Rightarrow> (xfr_request \<Rightarrow> envelope list option) \<Rightarrow> config \<Rightarrow> u32 \<Rightarrow> u32 \<Rightarrow> fs
   \<Rightarrow> (rpz_error + delta option) \<times> fs" where
  "sync_ixfr L now io stage xfer cfg cur upstream F =
     (case xfer (sync_request L cfg cur upstream) of
        None \<Rightarrow> (Inl TransferStart, F)
      | Some envs \<Rightarrow>
          (case read_head [] envs of
             Inl e \<Rightarrow> (Inl e, F)
           | Inr ([], _) \<Rightarrow> (Inl EmptyTransfer, F)
           | Inr (SOA first # hs, envs') \<Rightarrow>
               if \<not> equal_fold L (rr_name (soa_hdr first)) (to_lower L (dns_fqdn L (zone cfg)))
               then (Inl NoOpeningSOA, F)
               else if hs = []
               then (if cur = soa_serial first then (Inr None, F) else (Inl CutAfterSOA, F))
               else if is_ixfr_response (SOA first # hs)
               then (case gather (effective_limit cfg) (SOA first # hs) envs' of
                       Inl e \<Rightarrow> (Inl e, F)
                     | Inr records \<Rightarrow>
                         (case parse_transfer_records L now records (zone cfg) cur of
                            Inl e \<Rightarrow> (Inl e, F)
                          | Inr None \<Rightarrow> (Inr None, F)
                          | Inr (Some d) \<Rightarrow> check_serial upstream (Inr d, F)))
               else check_serial upstream
                      (stream_axfr L now io stage cfg cur hs (soa_serial first) envs' (effective_limit cfg) F)
           | Inr (_ # _, _) \<Rightarrow> (Inl NoOpeningSOA, F)))"

subsection \<open>Abstract meaning of an IXFR response\<close>

text \<open>
  What a response means for a set of domains: every difference sequence first removes its
  deletions, then inserts its additions. \<open>net\<close> is the effect of the change map the parser
  keeps instead.
\<close>

record diff =
  df_from :: soa
  df_dels :: "rr list"
  df_to :: soa
  df_adds :: "rr list"

definition owners_set :: "lib \<Rightarrow> string \<Rightarrow> rr list \<Rightarrow> string set" where
  "owners_set L zn rs = (case policy_owners L rs zn of Inl _ \<Rightarrow> {} | Inr ds \<Rightarrow> set ds)"

definition apply_diff :: "lib \<Rightarrow> string \<Rightarrow> string set \<Rightarrow> diff \<Rightarrow> string set" where
  "apply_diff L zn S d = (S - owners_set L zn (df_dels d)) \<union> owners_set L zn (df_adds d)"

definition net :: "(string, bool) fmap \<Rightarrow> string set \<Rightarrow> string set" where
  "net m S = (S - {d. fmlookup m d = Some False}) \<union> {d. fmlookup m d = Some True}"

text \<open>What a delta means for the set of domains a node publishes.\<close>

definition delta_effect :: "delta \<Rightarrow> string set \<Rightarrow> string set" where
  "delta_effect d S = (if full d then set (added d) - set (deleted d)
                       else (S - set (deleted d)) \<union> (set (added d) - set (deleted d)))"

text \<open>The records of a chain of difference sequences, and when the chain is well formed.\<close>

fun diff_records :: "diff list \<Rightarrow> rr list" where
  "diff_records [] = []"
| "diff_records (d # ds) =
     SOA (df_from d) # df_dels d @ SOA (df_to d) # df_adds d @ diff_records ds"

definition diff_ok :: "lib \<Rightarrow> string \<Rightarrow> diff \<Rightarrow> bool" where
  "diff_ok L zn d \<longleftrightarrow>
     equal_fold L (rr_name (soa_hdr (df_from d))) zn \<and> equal_fold L (rr_name (soa_hdr (df_to d))) zn
     \<and> serial_greater (soa_serial (df_to d)) (soa_serial (df_from d))
     \<and> list_all (Not \<circ> is_soa) (df_dels d) \<and> list_all (Not \<circ> is_soa) (df_adds d)
     \<and> \<not> isl (policy_owners L (df_dels d) zn) \<and> \<not> isl (policy_owners L (df_adds d) zn)"

fun chain_ok :: "lib \<Rightarrow> string \<Rightarrow> u32 \<Rightarrow> u32 \<Rightarrow> diff list \<Rightarrow> bool" where
  "chain_ok L zn cur target [] = False"
| "chain_ok L zn cur target [d] =
     (diff_ok L zn d \<and> soa_serial (df_from d) = cur \<and> soa_serial (df_to d) = target)"
| "chain_ok L zn cur target (d # e # ds) =
     (diff_ok L zn d \<and> soa_serial (df_from d) = cur \<and> soa_serial (df_to d) \<noteq> target
      \<and> serial_greater target (soa_serial (df_to d))
      \<and> chain_ok L zn (soa_serial (df_to d)) target (e # ds))"

subsection \<open>The change map\<close>

lemma mark_all_lookup [simp]:
  "fmlookup (mark_all b ds m) d = (if d \<in> set ds then Some b else fmlookup m d)"
  unfolding mark_all_def by (induction ds arbitrary: m) auto

lemma marked_props:
  "set (marked b m) = {d. fmlookup m d = Some b}" "sorted (marked b m)" "distinct (marked b m)"
proof -
  show "set (marked b m) = {d. fmlookup m d = Some b}"
    by (auto simp: marked_def fmlookup_dom_iff)
  show "sorted (marked b m)" "distinct (marked b m)"
    by (simp_all add: marked_def sorted_list_of_fset.rep_eq)
qed

lemma net_mark_all:
  "net (mark_all True as (mark_all False ds m)) S = (net m S - set ds) \<union> set as"
  by (auto simp: net_def split: if_splits)

lemma net_empty [simp]: "net fmempty S = S"
  by (simp add: net_def)

lemma owners_set_Inr: "policy_owners L rs zn = Inr ds \<Longrightarrow> owners_set L zn rs = set ds"
  by (simp add: owners_set_def)

lemma takeWhile_soa:
  assumes "list_all (Not \<circ> is_soa) xs"
  shows "takeWhile (Not \<circ> is_soa) (xs @ SOA s # ys) = xs"
    and "dropWhile (Not \<circ> is_soa) (xs @ SOA s # ys) = SOA s # ys"
  using assms by (induction xs) auto

lemma diff_records_head:
  "ds \<noteq> [] \<Longrightarrow> \<exists>tl. diff_records ds @ ts = SOA (df_from (hd ds)) # tl"
  by (cases ds) auto

text \<open>One round of the parser on one difference sequence.\<close>

lemma ixfr_loop_round:
  assumes ok: "diff_ok L zn d" and cur: "soa_serial (df_from d) = cur"
    and nx: "equal_fold L (rr_name (soa_hdr nx)) zn" "soa_serial nx = soa_serial (df_to d)"
  shows "\<exists>dels adds. owners_set L zn (df_dels d) = set dels \<and> owners_set L zn (df_adds d) = set adds \<and>
    ixfr_loop L zn target cur ch (SOA (df_from d) # df_dels d @ SOA (df_to d) # df_adds d @ SOA nx # ts) =
       (let ch' = mark_all True adds (mark_all False dels ch)
        in if soa_serial (df_to d) = target then (if ts \<noteq> [] then Inl RecordAfterSOA else Inr ch')
           else if \<not> serial_greater target (soa_serial (df_to d)) then Inl (PastTarget (soa_serial (df_to d)))
           else ixfr_loop L zn target (soa_serial (df_to d)) ch' (SOA nx # ts))"
proof -
  obtain dels adds where p: "policy_owners L (df_dels d) zn = Inr dels"
      "policy_owners L (df_adds d) zn = Inr adds"
    using ok by (cases "policy_owners L (df_dels d) zn"; cases "policy_owners L (df_adds d) zn")
                (auto simp: diff_ok_def)
  have nd: "list_all (Not \<circ> is_soa) (df_dels d)" "list_all (Not \<circ> is_soa) (df_adds d)"
    using ok by (auto simp: diff_ok_def)
  show ?thesis
    using ok cur nx
    by (intro exI [of _ dels] exI [of _ adds] conjI)
       (simp_all add: owners_set_Inr p ixfr_loop.simps [of L zn target cur ch]
         diff_ok_def takeWhile_soa nd)
qed

lemma ixfr_loop_chain:
  assumes "chain_ok L zn cur (soa_serial fin) ds" and "equal_fold L (rr_name (soa_hdr fin)) zn"
  shows "\<exists>ch'. ixfr_loop L zn (soa_serial fin) cur ch (diff_records ds @ [SOA fin]) = Inr ch'
            \<and> (\<forall>S. net ch' S = foldl (apply_diff L zn) (net ch S) ds)"
  using assms
proof (induction L zn cur "soa_serial fin" ds arbitrary: ch rule: chain_ok.induct)
  case (1 L zn cur)
  then show ?case by simp
next
  case (2 L zn cur d)
  from 2 ixfr_loop_round [of L zn d cur fin "soa_serial fin" ch "[]"]
  obtain dels adds where
      "owners_set L zn (df_dels d) = set dels" "owners_set L zn (df_adds d) = set adds"
      "ixfr_loop L zn (soa_serial fin) cur ch (diff_records [d] @ [SOA fin])
         = Inr (mark_all True adds (mark_all False dels ch))"
    by (auto simp: Let_def)
  then show ?case by (auto simp: net_mark_all apply_diff_def)
next
  case (3 L zn cur d e ds)
  have "chain_ok L zn (soa_serial (df_to d)) (soa_serial fin) (e # ds)" using "3.prems" by simp
  then have e: "equal_fold L (rr_name (soa_hdr (df_from e))) zn"
      "soa_serial (df_from e) = soa_serial (df_to d)"
    by (cases ds; simp add: diff_ok_def)+
  let ?ts = "df_dels e @ SOA (df_to e) # df_adds e @ diff_records ds @ [SOA fin]"
  from "3.prems" e ixfr_loop_round [of L zn d cur "df_from e" "soa_serial fin" ch ?ts]
  obtain dels adds where o: "owners_set L zn (df_dels d) = set dels"
      "owners_set L zn (df_adds d) = set adds"
    and r: "ixfr_loop L zn (soa_serial fin) cur ch (diff_records (d # e # ds) @ [SOA fin])
         = ixfr_loop L zn (soa_serial fin) (soa_serial (df_to d))
             (mark_all True adds (mark_all False dels ch)) (diff_records (e # ds) @ [SOA fin])"
    by (auto simp: Let_def)
  from "3.hyps" [OF \<open>chain_ok L zn (soa_serial (df_to d)) (soa_serial fin) (e # ds)\<close> "3.prems"(2),
      of "mark_all True adds (mark_all False dels ch)"]
  show ?case unfolding r by (simp add: net_mark_all o apply_diff_def)
qed

subsection \<open>What the parser returns\<close>

definition delta_wf :: "delta \<Rightarrow> bool" where
  "delta_wf d \<longleftrightarrow> sorted (added d) \<and> distinct (added d) \<and> sorted (deleted d) \<and> distinct (deleted d)
     \<and> set (added d) \<inter> set (deleted d) = {}"

lemma delta_wf_marked:
  "delta_wf \<lparr>from_serial = a, to_serial = b, d_timestamp = t, full = f,
             added = marked True ch, deleted = marked False ch, staged_raw = p\<rparr>"
  by (auto simp: delta_wf_def marked_props)

lemma delta_effect_marked:
  "delta_effect \<lparr>from_serial = a, to_serial = b, d_timestamp = t, full = False,
                 added = marked True ch, deleted = marked False ch, staged_raw = p\<rparr> S = net ch S"
  by (auto simp: delta_effect_def net_def marked_props)

text \<open>A chain of difference sequences between an opening and a closing SOA.\<close>

lemma parse_ixfr_chain:
  assumes ch: "chain_ok L (to_lower L (dns_fqdn L z)) cur (soa_serial fin) ds"
    and zn: "equal_fold L (rr_name (soa_hdr fin)) (to_lower L (dns_fqdn L z))"
    and gt: "serial_greater (soa_serial fin) cur"
  shows "\<exists>d. parse_transfer_records L now (SOA fin # diff_records ds @ [SOA fin]) z cur = Inr (Some d)
     \<and> from_serial d = cur \<and> to_serial d = soa_serial fin \<and> \<not> full d \<and> delta_wf d \<and> staged_raw d = []
     \<and> (\<forall>S. delta_effect d S = foldl (apply_diff L (to_lower L (dns_fqdn L z))) S ds)"
proof -
  let ?zn = "to_lower L (dns_fqdn L z)"
  obtain d ds' where ds: "ds = d # ds'" using ch by (cases ds) auto
  have h: "equal_fold L (rr_name (soa_hdr (df_from d))) ?zn" "soa_serial (df_from d) = cur"
    using ch by (cases ds'; simp add: ds diff_ok_def)+
  obtain m where m: "ixfr_loop L ?zn (soa_serial fin) cur fmempty (diff_records ds @ [SOA fin]) = Inr m"
      "\<forall>S. net m S = foldl (apply_diff L ?zn) S ds"
    using ixfr_loop_chain [OF ch zn, of fmempty] by auto
  let ?d = "\<lparr>from_serial = cur, to_serial = soa_serial fin, d_timestamp = now, full = False,
             added = marked True m, deleted = marked False m, staged_raw = []\<rparr>"
  have "parse_transfer_records L now (SOA fin # diff_records ds @ [SOA fin]) z cur = Inr (Some ?d)"
    using m(1) h zn gt by (simp add: parse_transfer_records_def Let_def ds)
  then show ?thesis using m(2) delta_effect_marked delta_wf_marked
    by (intro exI [of _ ?d]) simp
qed

lemma parse_transfer_wf:
  assumes "parse_transfer_records L now rs z cur = Inr (Some d)"
  shows "delta_wf d \<and> from_serial d = cur \<and> staged_raw d = [] \<and> d_timestamp d = now
     \<and> (\<exists>first tl. rs = SOA first # tl \<and> to_serial d = soa_serial first)
     \<and> (full d \<longrightarrow> deleted d = []) \<and> (\<not> full d \<longrightarrow> serial_greater (to_serial d) cur)"
  using assms
  by (auto simp: parse_transfer_records_def Let_def delta_wf_marked
        split: list.splits rr.splits if_splits sum.splits dest: policy_owners_sorted)
     (auto simp: delta_wf_def dest: policy_owners_sorted)

subsection \<open>What the streaming reader writes\<close>

text \<open>A successful pass appends exactly the policy owners, in order, duplicates included.\<close>

lemma axfr_records_owners:
  assumes "list_all (Not \<circ> is_soa) rs" and "policy_owner_list L zn rs = Inr ds"
    and "\<forall>k. io (StageWrite k)" and "int (n + length rs) \<le> limit"
  shows "axfr_records L io zn fs limit (n, False, out) rs = Inr (n + length rs, False, out @ ds)"
  using assms
proof (induction rs arbitrary: n out ds)
  case Nil
  then show ?case by simp
next
  case (Cons rc rs)
  then show ?case
    by (cases rc)
       (auto simp: axfr_process_def Let_def split: sum.splits option.splits)
qed

lemma axfr_records_append:
  "axfr_records L io zn fs limit st (rs @ ts) =
     (case axfr_records L io zn fs limit st rs of
        Inl e \<Rightarrow> Inl e | Inr st' \<Rightarrow> axfr_records L io zn fs limit st' ts)"
  by (induction rs arbitrary: st) (auto split: sum.splits)

text \<open>How the records are cut into envelopes does not matter.\<close>

lemma axfr_envelopes_concat:
  "axfr_envelopes L io zn fs limit st (map EnvRRs rss) = axfr_records L io zn fs limit st (concat rss)"
  by (induction rss arbitrary: st) (auto simp: axfr_records_append split: sum.splits)

lemma axfr_process_mono:
  assumes "axfr_process L io zn fs limit (n, g, out) rc = Inr (n', g', out')"
  shows "n' = Suc n \<and> int n' \<le> limit \<and> length out' \<le> Suc (length out)
     \<and> (\<forall>d \<in> set out'. d \<in> set out \<or> (\<exists>v. normalize_policy_domain L v = Inr d))"
  using assms
  by (auto simp: axfr_process_def policy_owner_def Let_def
        split: rr.splits sum.splits option.splits if_splits)

lemma axfr_records_bound:
  assumes "axfr_records L io zn fs limit (n, g, out) rs = Inr (n', g', out')"
    and "length out \<le> n" and "int n \<le> limit"
    and "\<forall>d \<in> set out. \<exists>v. normalize_policy_domain L v = Inr d"
  shows "length out' \<le> n' \<and> int n' \<le> limit \<and> (\<forall>d \<in> set out'. \<exists>v. normalize_policy_domain L v = Inr d)"
  using assms
proof (induction rs arbitrary: n g out)
  case Nil
  then show ?case by simp
next
  case (Cons rc rs)
  from Cons.prems(1) obtain n1 g1 out1
    where s: "axfr_process L io zn fs limit (n, g, out) rc = Inr (n1, g1, out1)"
      and r: "axfr_records L io zn fs limit (n1, g1, out1) rs = Inr (n', g', out')"
    by (auto split: sum.splits)
  from axfr_process_mono [OF s] Cons.prems show ?case by (intro Cons.IH [OF r]) auto
qed

lemma axfr_envelopes_bound:
  assumes "axfr_envelopes L io zn fs limit (n, g, out) es = Inr (n', g', out')"
    and "length out \<le> n" and "int n \<le> limit"
    and "\<forall>d \<in> set out. \<exists>v. normalize_policy_domain L v = Inr d"
  shows "length out' \<le> n' \<and> int n' \<le> limit \<and> (\<forall>d \<in> set out'. \<exists>v. normalize_policy_domain L v = Inr d)"
  using assms
proof (induction es arbitrary: n g out)
  case Nil
  then show ?case by simp
next
  case (Cons e es)
  show ?case
  proof (cases e)
    case EnvError
    with Cons.prems show ?thesis by simp
  next
    case (EnvRRs rs)
    with Cons.prems(1) obtain n1 g1 out1
      where s: "axfr_records L io zn fs limit (n, g, out) rs = Inr (n1, g1, out1)"
        and r: "axfr_envelopes L io zn fs limit (n1, g1, out1) es = Inr (n', g', out')"
      by (auto split: sum.splits)
    from axfr_records_bound [OF s Cons.prems(2-4)] show ?thesis by (intro Cons.IH [OF r]) auto
  qed
qed

subsection \<open>What SyncIXFR guarantees\<close>

lemma gather_ok:
  "gather limit acc es = Inr rs \<Longrightarrow>
   (\<exists>rss. es = map EnvRRs rss \<and> rs = acc @ concat rss) \<and> (es = [] \<or> int (length rs) \<le> limit)"
proof (induction limit acc es rule: gather.induct)
  case (3 limit acc rs' es)
  then have IH: "(\<exists>rss. es = map EnvRRs rss \<and> rs = (acc @ rs') @ concat rss)
      \<and> (es = [] \<or> int (length rs) \<le> limit)" and le: "int (length acc + length rs') \<le> limit"
    by (auto split: if_splits)
  then obtain rss where rss: "es = map EnvRRs rss" "rs = (acc @ rs') @ concat rss" by auto
  show ?case
  proof (intro conjI)
    show "\<exists>rss. EnvRRs rs' # es = map EnvRRs rss \<and> rs = acc @ concat rss"
      by (intro exI [of _ "rs' # rss"]) (simp add: rss)
    show "EnvRRs rs' # es = [] \<or> int (length rs) \<le> limit"
      using IH le rss by (cases "es = []") auto
  qed
qed auto

lemma gather_all:
  "int (length acc + length (concat rss)) \<le> limit \<Longrightarrow>
   gather limit acc (map EnvRRs rss) = Inr (acc @ concat rss)"
  by (induction rss arbitrary: acc) auto

lemma stream_axfr_ok:
  assumes "stream_axfr L now io stage cfg cur rest0 fsn envs limit F = (Inr d, F')"
  obtains n out where
    "d = \<lparr>from_serial = cur, to_serial = fsn, d_timestamp = now, full = True,
          added = [], deleted = [], staged_raw = stage\<rparr>"
    "F' = F(stage \<mapsto> unlines out)"
    "(case axfr_records L io (to_lower L (dns_fqdn L (zone cfg))) fsn limit (0, False, []) rest0 of
        Inl e \<Rightarrow> Inl e
      | Inr st \<Rightarrow> axfr_envelopes L io (to_lower L (dns_fqdn L (zone cfg))) fsn limit st envs) = Inr (n, True, out)"
  using assms
  by (auto simp: stream_axfr_def Let_def split: if_splits sum.splits)

lemma stream_axfr_error:
  "stream_axfr L now io stage cfg cur rest0 fsn envs limit F = (Inl e, F') \<Longrightarrow>
   F' = F \<or> F' = F(stage := None)"
  by (auto simp: stream_axfr_def Let_def split: if_splits sum.splits)

lemma stream_axfr_bound:
  assumes "stream_axfr L now io stage cfg cur rest0 fsn envs limit F = (Inr d, F')" and "0 \<le> limit"
  shows "\<exists>out. F' = F(stage \<mapsto> unlines out) \<and> int (length out) \<le> limit
     \<and> (\<forall>x \<in> set out. \<exists>v. normalize_policy_domain L v = Inr x)"
proof -
  let ?zn = "to_lower L (dns_fqdn L (zone cfg))"
  obtain n out where F': "F' = F(stage \<mapsto> unlines out)"
    and r: "(case axfr_records L io ?zn fsn limit (0, False, []) rest0 of
        Inl e \<Rightarrow> Inl e
      | Inr st \<Rightarrow> axfr_envelopes L io ?zn fsn limit st envs) = Inr (n, True, out)"
    using stream_axfr_ok [OF assms(1)] by metis
  obtain n1 g1 out1 where r1: "axfr_records L io ?zn fsn limit (0, False, []) rest0 = Inr (n1, g1, out1)"
    and r2: "axfr_envelopes L io ?zn fsn limit (n1, g1, out1) envs = Inr (n, True, out)"
    using r by (auto split: sum.splits)
  have "length out1 \<le> n1 \<and> int n1 \<le> limit \<and> (\<forall>d \<in> set out1. \<exists>v. normalize_policy_domain L v = Inr d)"
    using axfr_records_bound [OF r1] assms(2) by simp
  then have "length out \<le> n \<and> int n \<le> limit \<and> (\<forall>d \<in> set out. \<exists>v. normalize_policy_domain L v = Inr d)"
    using axfr_envelopes_bound [OF r2] by blast
  then show ?thesis using F' by (intro exI [of _ out]) auto
qed

lemma effective_limit_pos: "0 < effective_limit cfg"
  by (simp add: effective_limit_def default_max_records_def)

lemma check_serial_Some:
  assumes "check_serial up res = (Inr (Some d), F)"
  shows "res = (Inr d, F)" and "up = 0 \<or> to_serial d = up"
  using assms by (auto simp: check_serial_def split: prod.splits sum.splits if_splits)

lemma sync_ixfr_ok:
  assumes "sync_ixfr L now io stage xfer cfg cur up F = (Inr (Some d), F')"
  shows "from_serial d = cur \<and> (up = 0 \<or> to_serial d = up) \<and> d_timestamp d = now \<and>
    ((\<not> full d \<and> staged_raw d = [] \<and> F' = F \<and> delta_wf d \<and> serial_greater (to_serial d) cur) \<or>
     (full d \<and> staged_raw d = stage \<and> added d = [] \<and> deleted d = [] \<and>
      (\<exists>out. F' = F(stage \<mapsto> unlines out) \<and> int (length out) \<le> effective_limit cfg
         \<and> (\<forall>x \<in> set out. \<exists>v. normalize_policy_domain L v = Inr x))))"
proof -
  obtain envs first hs envs' where x: "xfer (sync_request L cfg cur up) = Some envs"
      "read_head [] envs = Inr (SOA first # hs, envs')" "hs \<noteq> []"
    using assms by (auto simp: sync_ixfr_def split: option.splits sum.splits list.splits rr.splits if_splits)
  show ?thesis
  proof (cases "is_ixfr_response (SOA first # hs)")
    case True
    then obtain second tl where hs: "hs = SOA second # tl" "soa_serial second \<noteq> soa_serial first"
      by (cases hs; cases "hd hs") auto
    obtain records where g: "gather (effective_limit cfg) (SOA first # hs) envs' = Inr records"
      and p: "parse_transfer_records L now records (zone cfg) cur = Inr (Some d)"
      and c: "check_serial up (Inr d, F) = (Inr (Some d), F')"
      using assms x True
      by (auto simp: sync_ixfr_def check_serial_def split: sum.splits option.splits if_splits)
    obtain rest where "records = SOA first # SOA second # rest"
      using gather_ok [OF g] hs by auto
    then have "\<not> full d"
      using p by (auto simp: parse_transfer_records_def Let_def split: if_splits sum.splits)
    with parse_transfer_wf [OF p] c show ?thesis
      by (auto simp: check_serial_def split: if_splits)
  next
    case False
    have sync_eq: "check_serial up (stream_axfr L now io stage cfg cur hs (soa_serial first) envs'
        (effective_limit cfg) F) = (Inr (Some d), F')"
      using assms x False by (simp add: sync_ixfr_def split: if_splits)
    note s = check_serial_Some [OF sync_eq]
    have "d = \<lparr>from_serial = cur, to_serial = soa_serial first, d_timestamp = now, full = True,
               added = [], deleted = [], staged_raw = stage\<rparr>"
      using stream_axfr_ok [OF s(1)] by metis
    with stream_axfr_bound [OF s(1)] effective_limit_pos [of cfg] s(2) show ?thesis by simp
  qed
qed

text \<open>Whatever happens, only the staging file can differ, and without a delta it is gone.\<close>

lemma sync_ixfr_none:
  assumes "sync_ixfr L now io stage xfer cfg cur up F = (r, F')" and "F stage = None" and "stage \<noteq> []"
    and "\<forall>d. r \<noteq> Inr (Some d)"
  shows "F' = F"
proof -
  have fresh: "F(stage := None) = F" using assms(2) by auto
  have ck: "check_serial up (stream_axfr L now io stage cfg cur hs fsn envs lim F) = (r, F') \<Longrightarrow> F' = F"
    for hs fsn envs lim
  proof (cases "stream_axfr L now io stage cfg cur hs fsn envs lim F")
    case (Pair y F1)
    assume c: "check_serial up (stream_axfr L now io stage cfg cur hs fsn envs lim F) = (r, F')"
    show "F' = F"
    proof (cases y)
      case (Inl e)
      with c Pair stream_axfr_error [of L now io stage cfg cur hs fsn envs lim F e F1] fresh
      show ?thesis by (auto simp: check_serial_def)
    next
      case (Inr d)
      from stream_axfr_ok [OF Pair [unfolded Inr]] obtain out
        where "staged_raw d = stage" "F1 = F(stage \<mapsto> unlines out)" by (metis delta.select_convs(7))
      with c Pair Inr assms(3,4) fresh show ?thesis
        by (auto simp: check_serial_def stream_axfr_def Let_def split: if_splits sum.splits)
    qed
  qed
  have ck2: "check_serial up (Inr d, F) = (r, F') \<Longrightarrow> staged_raw d = [] \<Longrightarrow> F' = F" for d
    by (auto simp: check_serial_def split: if_splits)
  show ?thesis
    using assms(1) ck ck2
    by (auto simp: sync_ixfr_def split: option.splits sum.splits list.splits rr.splits if_splits
          dest!: parse_transfer_wf)
qed

subsection \<open>Properties\<close>

text \<open>
  C2: The parser of an IXFR response refines the meaning of the response. For every well formed
  chain of difference sequences from the serial of the slave to the announced serial, it returns
  an incremental delta with the right serials and disjoint sorted lists, whose effect on any set
  of domains is that of removing and inserting the owners sequence by sequence.
\<close>

theorem ixfr_parser_refines:
  assumes "chain_ok L (to_lower L (dns_fqdn L z)) cur (soa_serial fin) ds"
    and "equal_fold L (rr_name (soa_hdr fin)) (to_lower L (dns_fqdn L z))"
    and "serial_greater (soa_serial fin) cur"
  shows "\<exists>d. parse_transfer_records L now (SOA fin # diff_records ds @ [SOA fin]) z cur = Inr (Some d)
     \<and> from_serial d = cur \<and> to_serial d = soa_serial fin \<and> \<not> full d \<and> delta_wf d
     \<and> (\<forall>S. delta_effect d S = foldl (apply_diff L (to_lower L (dns_fqdn L z))) S ds)"
  using parse_ixfr_chain [OF assms] by blast

definition example_soa :: "u32 \<Rightarrow> soa" where
  "example_soa s = \<lparr>soa_hdr = \<lparr>rr_name = ''rpz.x.'', rr_type = 6, rr_class = 1, rr_ttl = 300\<rparr>, soa_ns = ''n'',
     soa_mbox = ''h'', soa_serial = s, soa_refresh = 1, soa_retry = 1, soa_expire = 1, soa_minttl = 1\<rparr>"

definition example_rr :: "string \<Rightarrow> rr" where
  "example_rr n = CNAME \<lparr>rr_name = n, rr_type = 5, rr_class = 1, rr_ttl = 300\<rparr> ''block.x.''"

definition example_diffs :: "diff list" where
  "example_diffs =
     [\<lparr>df_from = example_soa 1, df_dels = [example_rr ''a.c.rpz.x.''], df_to = example_soa 2,
       df_adds = [example_rr ''b.c.rpz.x.'']\<rparr>,
      \<lparr>df_from = example_soa 2, df_dels = [example_rr ''b.c.rpz.x.''], df_to = example_soa 3,
       df_adds = [example_rr ''E.c.rpz.x.'']\<rparr>]"

lemma example_chain:
  "chain_ok example_lib (to_lower example_lib (dns_fqdn example_lib ''rpz.x'')) 1 (soa_serial (example_soa 3)) example_diffs"
  "equal_fold example_lib (rr_name (soa_hdr (example_soa 3))) (to_lower example_lib (dns_fqdn example_lib ''rpz.x''))"
  "serial_greater (soa_serial (example_soa 3)) 1"
  by code_simp+

theorem ixfr_parser_refines_witness:
  "\<exists>d. parse_transfer_records example_lib 5 (SOA (example_soa 3) # diff_records example_diffs @ [SOA (example_soa 3)]) ''rpz.x'' 1
        = Inr (Some d)
     \<and> from_serial d = 1 \<and> to_serial d = soa_serial (example_soa 3) \<and> \<not> full d \<and> delta_wf d
     \<and> (\<forall>S. delta_effect d S =
             foldl (apply_diff example_lib (to_lower example_lib (dns_fqdn example_lib ''rpz.x''))) S example_diffs)"
  by (rule ixfr_parser_refines [OF example_chain])

text \<open>
  A transfer that yields a delta yields one from the serial of the slave to the serial the
  SOA query announced. An incremental delta is normalised, moves the serial forward and leaves
  the files alone; a full one has written at most \<open>max_transfer_records\<close> normalised domains,
  one per line, to the staging file and nothing else.
\<close>

lemma transfer_contract:
  assumes "sync_ixfr L now io stage xfer cfg cur up F = (Inr (Some d), F')"
  shows "from_serial d = cur \<and> (up = 0 \<or> to_serial d = up) \<and> d_timestamp d = now \<and>
    ((\<not> full d \<and> staged_raw d = [] \<and> F' = F \<and> delta_wf d \<and> serial_greater (to_serial d) cur) \<or>
     (full d \<and> staged_raw d = stage \<and> added d = [] \<and> deleted d = [] \<and>
      (\<exists>out. F' = F(stage \<mapsto> unlines out) \<and> int (length out) \<le> effective_limit cfg
         \<and> (\<forall>x \<in> set out. \<exists>v. normalize_policy_domain L v = Inr x))))"
  by (rule sync_ixfr_ok [OF assms])

definition example_envelopes :: "envelope list" where
  "example_envelopes =
     [EnvRRs [SOA (example_soa 3)], EnvRRs [example_rr ''a.c.rpz.x.'', example_rr ''B.c.rpz.x.''],
      EnvRRs [SOA (example_soa 3)]]"

theorem transfer_contract_witness:
  "\<exists>d. fst (sync_ixfr example_lib 7 (\<lambda>_. True) ''/d/st'' (\<lambda>_. Some example_envelopes) example_cfg 0 3 Map.empty) = Inr (Some d)
     \<and> from_serial d = 0 \<and> to_serial d = 3 \<and> d_timestamp d = 7"
proof -
  have "fst (sync_ixfr example_lib 7 (\<lambda>_. True) ''/d/st'' (\<lambda>_. Some example_envelopes) example_cfg 0 3 Map.empty)
     = Inr (Some \<lparr>from_serial = 0, to_serial = 3, d_timestamp = 7, full = True, added = [], deleted = [],
                  staged_raw = ''/d/st''\<rparr>)" (is "fst ?r = Inr (Some ?d)") by code_simp
  then have "?r = (Inr (Some ?d), snd ?r)" by (metis prod.collapse)
  from transfer_contract [OF this] have "from_serial ?d = 0 \<and> ((3 :: u32) = 0 \<or> to_serial ?d = 3) \<and> d_timestamp ?d = 7"
    by blast
  then show ?thesis using \<open>fst ?r = Inr (Some ?d)\<close> by (intro exI [of _ ?d]) simp
qed

text \<open>
  A transfer that fails or brings nothing leaves every file as it was: the staging file is
  gone whatever step of the stream, the closing record, the flush or the serial check failed.
\<close>

lemma transfer_failure_clean:
  assumes "sync_ixfr L now io stage xfer cfg cur up F = (r, F')" and "F stage = None" and "stage \<noteq> []"
    and "\<forall>d. r \<noteq> Inr (Some d)"
  shows "F' = F"
  by (rule sync_ixfr_none [OF assms])

theorem transfer_failure_clean_witness:
  "snd (sync_ixfr example_lib 7 (\<lambda>_. True) ''/d/st'' (\<lambda>_. Some (butlast example_envelopes)) example_cfg 0 3
      [''/d/raw.txt'' \<mapsto> ''x'']) = [''/d/raw.txt'' \<mapsto> ''x'']"
proof -
  let ?r = "sync_ixfr example_lib 7 (\<lambda>_. True) ''/d/st'' (\<lambda>_. Some (butlast example_envelopes)) example_cfg 0 3
      [''/d/raw.txt'' \<mapsto> ''x'']"
  have f: "fst ?r = Inl AxfrNotClosed" by code_simp
  show ?thesis
    by (rule transfer_failure_clean [OF prod.collapse [symmetric]]) (simp_all add: f)
qed

end
