(* ===== verification/Rpz_Files.thy ===== *)
theory Rpz_Files
  imports Rpz_Transfer
begin

text \<open>
  The files of the RPZ master: \<open>ApplyDeltaToFile\<close> (\<open>slave_client.go\<close>), \<open>CompileDomainsToCDB\<close>,
  \<open>writeManifest\<close> and \<open>PublishDelta\<close> (\<open>builder.go\<close>). The file system is passed along; every
  system call can fail, as an oracle decides. Temporary files that the code removes again on
  every path do not show in the result.
\<close>

subsection \<open>ApplyDeltaToFile\<close>

definition max_line :: int where "max_line = 1048576"

datatype apply_io =
  ApMkdir | ApCreate | ApOpen | ApCloseIn | ApWrite nat | ApFlush | ApSync | ApClose | ApChmod | ApRename

text \<open>Validation of a list of domains into a set.\<close>

fun clean_all :: "lib \<Rightarrow> string list \<Rightarrow> rpz_error + string list" where
  "clean_all L [] = Inr []"
| "clean_all L (v # vs) =
     (case normalize_policy_domain L v of
        Inl e \<Rightarrow> Inl e
      | Inr d \<Rightarrow> (case clean_all L vs of Inl e \<Rightarrow> Inl e | Inr ds \<Rightarrow> Inr (d # ds)))"

text \<open>Lines that hold no domain: blank lines and comments.\<close>

definition skip_line :: "string \<Rightarrow> bool" where
  "skip_line l \<longleftrightarrow> trim_space l = [] \<or> prefix ''#'' (trim_space l)"

text \<open>The scan of the current file; the state is the lines written and the additions left.\<close>

fun apply_scan ::
  "lib \<Rightarrow> (apply_io \<Rightarrow> bool) \<Rightarrow> string set \<Rightarrow> string list \<times> string set \<Rightarrow> string list
   \<Rightarrow> rpz_error + string list \<times> string set" where
  "apply_scan L io del st [] = Inr st"
| "apply_scan L io del (out, add) (l # ls) =
     (if skip_line l then apply_scan L io del (out, add) ls
      else (case normalize_policy_domain L (trim_space l) of
              Inl e \<Rightarrow> Inl e
            | Inr clean \<Rightarrow>
                if clean \<in> del then apply_scan L io del (out, add) ls
                else if \<not> io (ApWrite (length out)) then Inl IOError
                else apply_scan L io del (out @ [clean], add - {clean}) ls))"

fun write_rest :: "(apply_io \<Rightarrow> bool) \<Rightarrow> string list \<Rightarrow> string list \<Rightarrow> rpz_error + string list" where
  "write_rest io out [] = Inr out"
| "write_rest io out (d # ds) =
     (if io (ApWrite (length out)) then write_rest io (out @ [d]) ds else Inl IOError)"

definition apply_lines ::
  "lib \<Rightarrow> (apply_io \<Rightarrow> bool) \<Rightarrow> delta \<Rightarrow> string set \<Rightarrow> string set \<Rightarrow> bytes option \<Rightarrow> rpz_error + string list" where
  "apply_lines L io d add del content =
     (case (if full d then Inr ([], add)
            else (case content of
                    None \<Rightarrow> Inl NotFound
                  | Some b \<Rightarrow>
                      if \<not> io ApOpen then Inl IOError
                      else (case apply_scan L io del ([], add) (fst (scan_lines max_line b)) of
                              Inl e \<Rightarrow> Inl e
                            | Inr st \<Rightarrow>
                                if \<not> snd (scan_lines max_line b) then Inl LineTooLong
                                else if \<not> io ApCloseIn then Inl IOError else Inr st))) of
        Inl e \<Rightarrow> Inl e
      | Inr (out, add') \<Rightarrow> write_rest io out (sorted_list_of_set (add' - del)))"

definition apply_delta_to_file ::
  "lib \<Rightarrow> (apply_io \<Rightarrow> bool) \<Rightarrow> string \<Rightarrow> delta \<Rightarrow> fs \<Rightarrow> (rpz_error + unit) \<times> fs" where
  "apply_delta_to_file L io raw d F =
     (case clean_all L (added d) of
        Inl e \<Rightarrow> (Inl e, F)
      | Inr ads \<Rightarrow>
          (case clean_all L (deleted d) of
             Inl e \<Rightarrow> (Inl e, F)
           | Inr dls \<Rightarrow>
               if \<not> io ApMkdir \<or> \<not> io ApCreate then (Inl IOError, F)
               else (case apply_lines L io d (set ads) (set dls) (F raw) of
                       Inl e \<Rightarrow> (Inl e, F)
                     | Inr out \<Rightarrow>
                         if io ApFlush \<and> io ApSync \<and> io ApClose \<and> io ApChmod \<and> io ApRename
                         then (Inr (), F(raw \<mapsto> unlines out))
                         else (Inl IOError, F))))"

subsection \<open>CompileDomainsToCDB and writeManifest\<close>

record build_result =
  total_entries :: nat
  sha256 :: string
  result_path :: string

datatype compile_io =
  CoOpen | CoMkdir | CoCreate | CoCdbCreate | CoPut nat | CoCdbClose | CoHash | CoChmod | CoRename
| CoManifest

record manifest =
  mf_sha256 :: string
  mf_entries :: nat
  mf_built_at :: time
  mf_cdb_file :: string

text \<open>
  \<open>enc\<close> renders the manifest (\<open>json.MarshalIndent\<close> and a line feed).
\<close>

definition manifest_path :: "string \<Rightarrow> string" where
  "manifest_path cdb = path_join (path_dir cdb) ''manifest.json''"

definition write_manifest ::
  "(manifest \<Rightarrow> bytes) \<Rightarrow> bool \<Rightarrow> string \<Rightarrow> string \<Rightarrow> nat \<Rightarrow> time \<Rightarrow> fs \<Rightarrow> bool \<times> fs" where
  "write_manifest enc ok cdb hash count now F =
     (if ok then (True, F(manifest_path cdb \<mapsto>
                            enc \<lparr>mf_sha256 = hash, mf_entries = count, mf_built_at = now,
                                 mf_cdb_file = path_base cdb\<rparr>))
      else (False, F))"

definition cdb_key :: "lib \<Rightarrow> bool \<Rightarrow> string \<Rightarrow> bytes option" where
  "cdb_key L wire d = (if wire then dns_pack L (d @ ''.'') else Some (d @ ''.''))"

fun compile_scan ::
  "lib \<Rightarrow> (compile_io \<Rightarrow> bool) \<Rightarrow> bool \<Rightarrow> (bytes \<times> bytes) list \<Rightarrow> string list
   \<Rightarrow> rpz_error + (bytes \<times> bytes) list" where
  "compile_scan L io wire acc [] = Inr acc"
| "compile_scan L io wire acc (l # ls) =
     (if skip_line l then compile_scan L io wire acc ls
      else (case normalize_policy_domain L (trim_space l) of
              Inl e \<Rightarrow> Inl e
            | Inr d \<Rightarrow>
                (case cdb_key L wire d of
                   None \<Rightarrow> Inl PackFailed
                 | Some k \<Rightarrow> if io (CoPut (length acc)) then compile_scan L io wire (acc @ [(k, [])]) ls
                              else Inl CdbWrite)))"

definition compile_domains_to_cdb ::
  "lib \<Rightarrow> (manifest \<Rightarrow> bytes) \<Rightarrow> (compile_io \<Rightarrow> bool) \<Rightarrow> time \<Rightarrow> string \<Rightarrow> string \<Rightarrow> bool \<Rightarrow> fs
   \<Rightarrow> (rpz_error + build_result) \<times> fs" where
  "compile_domains_to_cdb L enc io now raw cdb wire F =
     (case F raw of
        None \<Rightarrow> (Inl NotFound, F)
      | Some b \<Rightarrow>
          if \<not> io CoOpen \<or> \<not> io CoMkdir \<or> \<not> io CoCreate \<or> \<not> io CoCdbCreate then (Inl IOError, F)
          else
            (case compile_scan L io wire [] (fst (scan_lines max_line b)) of
               Inl e \<Rightarrow> (Inl e, F)
             | Inr entries \<Rightarrow>
                 if \<not> snd (scan_lines max_line b) then (Inl LineTooLong, F)
                 else if \<not> io CoCdbClose then (Inl CdbWrite, F)
                 else if \<not> io CoHash \<or> \<not> io CoChmod \<or> \<not> io CoRename then (Inl IOError, F)
                 else
                   (let img = cdb_image L entries; hash = sha256_hex L img; n = length entries
                    in case write_manifest enc (io CoManifest) cdb hash n now (F(cdb \<mapsto> img)) of
                         (False, F') \<Rightarrow> (Inl IOError, F')
                       | (True, F') \<Rightarrow>
                           (Inr \<lparr>total_entries = n, sha256 = hash, result_path = cdb\<rparr>, F'))))"

subsection \<open>PublishDelta\<close>

datatype publish_io =
  PuCdbUsable | PuRawUsable | PuMkRaw | PuStatStage | PuCreate | PuOpen | PuCopy | PuClose
| PuApply apply_io | PuMkCdb | PuMkStage | PuCompile compile_io
| PuRenameRaw | PuRenameCdb | PuRenameManifest

text \<open>
  Building the staged raw file: the file already written by the transfer, or a copy of the
  current one with the delta applied. The result is the staging path.
\<close>

definition stage_raw_file ::
  "lib \<Rightarrow> (publish_io \<Rightarrow> bool) \<Rightarrow> string \<Rightarrow> config \<Rightarrow> delta \<Rightarrow> fs \<Rightarrow> (rpz_error + string) \<times> fs" where
  "stage_raw_file L io tmp cfg d F =
     (if full d \<and> staged_raw d \<noteq> []
      then (if io PuStatStage \<and> F (staged_raw d) \<noteq> None then (Inr (staged_raw d), F)
            else (Inl NotFound, F(staged_raw d := None)))
      else if \<not> io PuCreate then (Inl IOError, F)
      else
        (case (if full d then Inr []
               else (case F (raw_domain_file cfg) of
                       None \<Rightarrow> Inl NotFound
                     | Some b \<Rightarrow> if io PuOpen \<and> io PuCopy then Inr b else Inl IOError)) of
           Inl e \<Rightarrow> (Inl e, F)
         | Inr b \<Rightarrow>
             if \<not> io PuClose then (Inl IOError, F)
             else (case apply_delta_to_file L (io \<circ> PuApply) tmp d (F(tmp \<mapsto> b)) of
                     (Inl e, F1) \<Rightarrow> (Inl e, F1(tmp := None))
                   | (Inr _, F1) \<Rightarrow> (Inr tmp, F1))))"

definition move_file :: "fs \<Rightarrow> string \<Rightarrow> string \<Rightarrow> fs" where
  "move_file F a b = (F(b := F a))(a := None)"

definition publish_delta ::
  "lib \<Rightarrow> (manifest \<Rightarrow> bytes) \<Rightarrow> (publish_io \<Rightarrow> bool) \<Rightarrow> time \<Rightarrow> string \<Rightarrow> string \<Rightarrow> config \<Rightarrow> delta \<Rightarrow> fs
   \<Rightarrow> (rpz_error + build_result) \<times> fs" where
  "publish_delta L enc io now tmp stage_dir cfg d F =
     (if \<not> io PuCdbUsable \<or> \<not> io PuRawUsable \<or> \<not> io PuMkRaw then (Inl IsDirectory, F)
      else
        (case stage_raw_file L io tmp cfg d F of
           (Inl e, F1) \<Rightarrow> (Inl e, F1)
         | (Inr staged, F1) \<Rightarrow>
             if \<not> io PuMkCdb \<or> \<not> io PuMkStage then (Inl IOError, F1(staged := None))
             else
               (let sc = path_join stage_dir (path_base (cdb_path cfg)); sm = path_join stage_dir ''manifest.json'';
                    clear = (\<lambda>G :: fs. G(staged := None, sc := None, sm := None))
                in case compile_domains_to_cdb L enc (io \<circ> PuCompile) now staged sc True F1 of
                     (Inl e, F2) \<Rightarrow> (Inl e, clear F2)
                   | (Inr res, F2) \<Rightarrow>
                       if \<not> io PuRenameRaw then (Inl IOError, clear F2)
                       else (let F3 = move_file F2 staged (raw_domain_file cfg)
                             in if \<not> io PuRenameCdb then (Inl IOError, F3(sc := None, sm := None))
                                else (let F4 = move_file F3 sc (cdb_path cfg)
                                      in if \<not> io PuRenameManifest \<or> F4 sm = None then (Inl IOError, F4(sm := None))
                                         else (Inr (res\<lparr>result_path := cdb_path cfg\<rparr>),
                                               move_file F4 sm (manifest_path (cdb_path cfg))))))))"

subsection \<open>The domains of a file\<close>

text \<open>
  The abstract value of a raw domain file: the domains of its lines, in order. A domain is
  \<open>clean\<close> when writing it as a line and reading it back gives the same domain.
\<close>

definition line_domain :: "lib \<Rightarrow> string \<Rightarrow> string option" where
  "line_domain L l = (if skip_line l then None
     else (case normalize_policy_domain L (trim_space l) of Inl _ \<Rightarrow> None | Inr d \<Rightarrow> Some d))"

definition domains_of_lines :: "lib \<Rightarrow> string list \<Rightarrow> string list" where
  "domains_of_lines L ls = List.map_filter (line_domain L) ls"

definition file_domains :: "lib \<Rightarrow> bytes \<Rightarrow> string list" where
  "file_domains L b = domains_of_lines L (fst (scan_lines max_line b))"

definition clean_domain :: "lib \<Rightarrow> string \<Rightarrow> bool" where
  "clean_domain L d \<longleftrightarrow> canonical L d \<and> list_all is_plain d \<and> \<not> prefix ''#'' d"

lemma clean_domainD:
  assumes "clean_domain L d"
  shows "trim_space d = d" "\<not> skip_line d" "normalize_policy_domain L d = Inr d"
    "line_domain L d = Some d" "int (length d) < max_line" "LF \<notin> set d" "CR \<notin> set d"
proof -
  have p: "list_all is_plain d" and c: "canonical L d" and h: "\<not> prefix ''#'' d"
    using assms by (auto simp: clean_domain_def)
  show t: "trim_space d = d" using p by (rule trim_space_plain)
  show s: "\<not> skip_line d" using t h canonical_bounds [OF c] by (simp add: skip_line_def)
  show n: "normalize_policy_domain L d = Inr d" using c by (simp add: canonical_def)
  show "line_domain L d = Some d" by (simp add: line_domain_def s t n)
  show "int (length d) < max_line" using canonical_bounds [OF c] by (simp add: max_line_def)
  show "LF \<notin> set d" "CR \<notin> set d"
    using p by (auto simp: list_all_iff is_plain_def LF_def CR_def)
qed

lemma file_domains_unlines:
  assumes "\<forall>d \<in> set ds. clean_domain L d"
  shows "file_domains L (unlines ds) = ds"
proof -
  have "scan_lines max_line (unlines ds) = (ds, True)"
    using assms by (intro scan_unlines) (auto dest: clean_domainD)
  moreover from assms have "domains_of_lines L ds = ds"
    by (induction ds) (auto simp: domains_of_lines_def map_filter_simps dest: clean_domainD)
  ultimately show ?thesis by (simp add: file_domains_def)
qed

lemma domains_of_lines_Cons [simp]:
  "domains_of_lines L [] = []"
  "domains_of_lines L (l # ls) =
     (case line_domain L l of None \<Rightarrow> domains_of_lines L ls | Some d \<Rightarrow> d # domains_of_lines L ls)"
  by (simp_all add: domains_of_lines_def map_filter_simps split: option.split)

subsection \<open>Applying a delta\<close>

lemma clean_all_clean:
  "\<forall>d \<in> set ds. clean_domain L d \<Longrightarrow> clean_all L ds = Inr ds"
  by (induction ds) (auto dest: clean_domainD)

lemma apply_scan_result:
  assumes "apply_scan L io del (out, add) ls = Inr (out', add')"
  shows "out' = out @ filter (\<lambda>d. d \<notin> del) (domains_of_lines L ls)
    \<and> add' = add - set (filter (\<lambda>d. d \<notin> del) (domains_of_lines L ls))"
  using assms
proof (induction ls arbitrary: out add)
  case Nil
  then show ?case by simp
next
  case (Cons l ls)
  then show ?case
    by (auto simp: line_domain_def split: if_splits sum.splits dest!: Cons.IH)
qed

lemma write_rest_result: "write_rest io out ds = Inr out' \<Longrightarrow> out' = out @ ds"
  by (induction ds arbitrary: out) (fastforce split: if_splits)+

lemma apply_lines_result:
  assumes "apply_lines L io d add del content = Inr out"
  shows "out = (if full d then sorted_list_of_set (add - del)
     else (let keep = filter (\<lambda>d. d \<notin> del) (file_domains L (the content))
           in keep @ sorted_list_of_set (add - set keep - del)))
     \<and> (full d \<or> content \<noteq> None)"
  using assms
  by (auto simp: apply_lines_def file_domains_def Let_def split: if_splits sum.splits option.splits
        dest!: apply_scan_result write_rest_result)

text \<open>The abstract transition: a delta acts on the set of domains of the file.\<close>

lemma apply_delta_refines:
  assumes run: "apply_delta_to_file L io raw d F = (Inr (), F')"
    and clean: "\<forall>x \<in> set (added d) \<union> set (deleted d). clean_domain L x"
    and old: "\<not> full d \<Longrightarrow> \<forall>x \<in> set (file_domains L (the (F raw))). clean_domain L x"
  shows "\<exists>b. F' = F(raw \<mapsto> b)
    \<and> set (file_domains L b) = delta_effect d (set (file_domains L (the (F raw))))
    \<and> (\<forall>x \<in> set (file_domains L b). clean_domain L x)
    \<and> (full d \<or> distinct (file_domains L (the (F raw))) \<longrightarrow> distinct (file_domains L b))"
proof -
  have ca: "clean_all L (added d) = Inr (added d)" "clean_all L (deleted d) = Inr (deleted d)"
    using clean by (auto intro: clean_all_clean)
  obtain out where o: "apply_lines L io d (set (added d)) (set (deleted d)) (F raw) = Inr out"
    and F': "F' = F(raw \<mapsto> unlines out)"
    using run by (auto simp: apply_delta_to_file_def ca split: if_splits sum.splits)
  note out = apply_lines_result [OF o]
  have "\<forall>x \<in> set out. clean_domain L x"
    using out clean old by (auto simp: Let_def split: if_splits)
  then have "file_domains L (unlines out) = out" by (rule file_domains_unlines)
  moreover have "set out = delta_effect d (set (file_domains L (the (F raw))))"
    using out by (auto simp: delta_effect_def Let_def split: if_splits)
  moreover have "full d \<or> distinct (file_domains L (the (F raw))) \<longrightarrow> distinct out"
    using out by (auto simp: Let_def split: if_splits)
  ultimately show ?thesis using F' \<open>\<forall>x \<in> set out. clean_domain L x\<close> by auto
qed

lemma apply_delta_error: "apply_delta_to_file L io raw d F = (Inl e, F') \<Longrightarrow> F' = F"
  by (auto simp: apply_delta_to_file_def split: if_splits sum.splits)

lemma delta_effect_idem: "delta_effect d (delta_effect d S) = delta_effect d S"
  by (auto simp: delta_effect_def)

subsection \<open>Compiling\<close>

definition entries_for :: "lib \<Rightarrow> bool \<Rightarrow> string list \<Rightarrow> (bytes \<times> bytes) list" where
  "entries_for L wire ds = map (\<lambda>d. (the (cdb_key L wire d), [])) ds"

lemma compile_scan_result:
  "compile_scan L io wire acc ls = Inr es \<Longrightarrow>
   es = acc @ entries_for L wire (domains_of_lines L ls)
   \<and> (\<forall>d \<in> set (domains_of_lines L ls). cdb_key L wire d \<noteq> None)"
proof (induction ls arbitrary: acc)
  case Nil
  then show ?case by (simp add: entries_for_def)
next
  case (Cons l ls)
  then show ?case
    by (auto simp: line_domain_def entries_for_def split: if_splits sum.splits option.splits
          dest!: Cons.IH)
qed

lemma compile_ok:
  assumes "compile_domains_to_cdb L enc io now raw cdb wire F = (Inr r, F')"
  obtains b img where "F raw = Some b" "img = cdb_image L (entries_for L wire (file_domains L b))"
    "\<forall>d \<in> set (file_domains L b). cdb_key L wire d \<noteq> None"
    "r = \<lparr>total_entries = length (file_domains L b), sha256 = sha256_hex L img, result_path = cdb\<rparr>"
    "F' = F(cdb \<mapsto> img, manifest_path cdb \<mapsto>
            enc \<lparr>mf_sha256 = sha256_hex L img, mf_entries = length (file_domains L b),
                 mf_built_at = now, mf_cdb_file = path_base cdb\<rparr>)"
proof -
  obtain b es where b: "F raw = Some b"
    and es: "compile_scan L (io) wire [] (fst (scan_lines max_line b)) = Inr es"
    and res: "r = \<lparr>total_entries = length es, sha256 = sha256_hex L (cdb_image L es), result_path = cdb\<rparr>"
      "F' = F(cdb \<mapsto> cdb_image L es, manifest_path cdb \<mapsto>
            enc \<lparr>mf_sha256 = sha256_hex L (cdb_image L es), mf_entries = length es,
                 mf_built_at = now, mf_cdb_file = path_base cdb\<rparr>)"
    using assms
    by (auto simp: compile_domains_to_cdb_def write_manifest_def Let_def
          split: option.splits if_splits sum.splits)
  note e = compile_scan_result [OF es, folded file_domains_def]
  then have "length es = length (file_domains L b)" by (simp add: entries_for_def)
  with b e res show thesis by (intro that [of b]) auto
qed

lemma compile_error_files:
  assumes "compile_domains_to_cdb L enc io now raw cdb wire F = (Inl e, F')"
    and "p \<noteq> cdb"
  shows "F' p = F p"
  using assms
  by (auto simp: compile_domains_to_cdb_def write_manifest_def Let_def
        split: option.splits if_splits sum.splits)

subsection \<open>Publishing\<close>

text \<open>
  The names a publication touches are pairwise different: the staging file, the staged image
  and manifest, and the three published files.
\<close>

definition staged_path :: "string \<Rightarrow> delta \<Rightarrow> string" where
  "staged_path tmp d = (if full d \<and> staged_raw d \<noteq> [] then staged_raw d else tmp)"

definition publish_paths :: "string \<Rightarrow> string \<Rightarrow> config \<Rightarrow> delta \<Rightarrow> bool" where
  "publish_paths tmp stage_dir cfg d \<longleftrightarrow>
     (let sc = path_join stage_dir (path_base (cdb_path cfg))
      in distinct [staged_path tmp d, sc, path_join stage_dir ''manifest.json'',
                   raw_domain_file cfg, cdb_path cfg, manifest_path (cdb_path cfg)]
         \<and> manifest_path sc = path_join stage_dir ''manifest.json''
         \<and> path_base sc = path_base (cdb_path cfg))"

text \<open>What the three published files say about each other.\<close>

definition published_ok :: "lib \<Rightarrow> (manifest \<Rightarrow> bytes) \<Rightarrow> config \<Rightarrow> time \<Rightarrow> build_result \<Rightarrow> fs \<Rightarrow> bool" where
  "published_ok L enc cfg now r F \<longleftrightarrow>
     (case F (raw_domain_file cfg) of
        None \<Rightarrow> False
      | Some b \<Rightarrow>
          (let ds = file_domains L b; img = cdb_image L (entries_for L True ds)
           in F (cdb_path cfg) = Some img
              \<and> F (manifest_path (cdb_path cfg)) =
                  Some (enc \<lparr>mf_sha256 = sha256_hex L img, mf_entries = length ds, mf_built_at = now,
                             mf_cdb_file = path_base (cdb_path cfg)\<rparr>)
              \<and> r = \<lparr>total_entries = length ds, sha256 = sha256_hex L img, result_path = cdb_path cfg\<rparr>
              \<and> (\<forall>d \<in> set ds. dns_pack L (d @ ''.'') \<noteq> None)))"

lemma stage_raw_result:
  assumes "stage_raw_file L io tmp cfg d F = (Inr staged, F1)"
  shows "staged = staged_path tmp d" "p \<noteq> staged \<Longrightarrow> F1 p = F p" "F1 staged \<noteq> None"
    "full d \<and> staged_raw d \<noteq> [] \<Longrightarrow> F1 = F"
    "\<not> (full d \<and> staged_raw d \<noteq> []) \<Longrightarrow>
       (full d \<or> F (raw_domain_file cfg) \<noteq> None) \<and>
       apply_delta_to_file L (io \<circ> PuApply) tmp d
         (F(tmp \<mapsto> if full d then [] else the (F (raw_domain_file cfg)))) = (Inr (), F1)"
  using assms
  by (auto simp: stage_raw_file_def staged_path_def apply_delta_to_file_def
        split: if_splits sum.splits option.splits prod.splits)

lemma stage_raw_error:
  assumes "stage_raw_file L io tmp cfg d F = (Inl e, F1)" and "p \<noteq> staged_path tmp d"
  shows "F1 p = F p"
  using assms
  by (auto simp: stage_raw_file_def staged_path_def apply_delta_to_file_def
        split: if_splits sum.splits option.splits prod.splits)

lemma move_file_apply [simp]:
  "move_file F a b p = (if p = a then None else if p = b then F a else F p)"
  by (simp add: move_file_def)

lemma publish_delta_ok:
  assumes run: "publish_delta L enc io now tmp stage_dir cfg d F = (Inr r, F')"
    and paths: "publish_paths tmp stage_dir cfg d"
  obtains F1 where "stage_raw_file L io tmp cfg d F = (Inr (staged_path tmp d), F1)"
    "published_ok L enc cfg now r F'" "F' (raw_domain_file cfg) = F1 (staged_path tmp d)"
    "F' (staged_path tmp d) = None"
proof -
  let ?sc = "path_join stage_dir (path_base (cdb_path cfg))"
  let ?sm = "path_join stage_dir ''manifest.json''"
  obtain F1 staged where st: "stage_raw_file L io tmp cfg d F = (Inr staged, F1)"
    using run by (auto simp: publish_delta_def split: if_splits prod.splits sum.splits)
  note sp = stage_raw_result (1,3) [OF st]
  obtain r0 F2 where c: "compile_domains_to_cdb L enc (io \<circ> PuCompile) now staged ?sc True F1 = (Inr r0, F2)"
    and r: "r = r0\<lparr>result_path := cdb_path cfg\<rparr>"
    and F': "F' = move_file (move_file (move_file F2 staged (raw_domain_file cfg)) ?sc (cdb_path cfg))
                    ?sm (manifest_path (cdb_path cfg))"
    using run st by (auto simp: publish_delta_def Let_def split: if_splits prod.splits sum.splits)
  from compile_ok [OF c] obtain b where b: "F1 staged = Some b"
    "\<forall>d \<in> set (file_domains L b). cdb_key L True d \<noteq> None"
    "r0 = \<lparr>total_entries = length (file_domains L b),
           sha256 = sha256_hex L (cdb_image L (entries_for L True (file_domains L b))), result_path = ?sc\<rparr>"
    "F2 = F1(?sc \<mapsto> cdb_image L (entries_for L True (file_domains L b)), manifest_path ?sc \<mapsto>
            enc \<lparr>mf_sha256 = sha256_hex L (cdb_image L (entries_for L True (file_domains L b))),
                 mf_entries = length (file_domains L b), mf_built_at = now, mf_cdb_file = path_base ?sc\<rparr>)"
    by metis
  show thesis
  proof (rule that)
    show "stage_raw_file L io tmp cfg d F = (Inr (staged_path tmp d), F1)" using st sp by simp
    show "published_ok L enc cfg now r F'"
      using paths b r sp
      by (auto simp: published_ok_def F' publish_paths_def Let_def cdb_key_def)
    show "F' (raw_domain_file cfg) = F1 (staged_path tmp d)" "F' (staged_path tmp d) = None"
      using paths b sp by (auto simp: F' publish_paths_def Let_def)
  qed
qed

text \<open>
  What a failed publication leaves: the three files as they were, or, when one of the two last renames
  failed, the new raw file, and the new CDB when its own rename did not fail.
\<close>

definition torn_publish :: "lib \<Rightarrow> (publish_io \<Rightarrow> bool) \<Rightarrow> string \<Rightarrow> config \<Rightarrow> delta \<Rightarrow> fs \<Rightarrow> fs \<Rightarrow> bool" where
  "torn_publish L io tmp cfg d F F' \<longleftrightarrow>
     \<not> (io PuRenameCdb \<and> io PuRenameManifest)
     \<and> (\<exists>F1 b. stage_raw_file L io tmp cfg d F = (Inr (staged_path tmp d), F1) \<and> F1 (staged_path tmp d) = Some b
          \<and> F' (raw_domain_file cfg) = Some b
          \<and> F' (cdb_path cfg) = (if io PuRenameCdb then Some (cdb_image L (entries_for L True (file_domains L b)))
                                 else F (cdb_path cfg)))
     \<and> F' (manifest_path (cdb_path cfg)) = F (manifest_path (cdb_path cfg))"

lemma publish_delta_fail:
  assumes run: "publish_delta L enc io now tmp stage_dir cfg d F = (Inl e, F')"
    and paths: "publish_paths tmp stage_dir cfg d"
  shows "(\<forall>p \<in> {raw_domain_file cfg, cdb_path cfg, manifest_path (cdb_path cfg)}. F' p = F p)
    \<or> torn_publish L io tmp cfg d F F'"
proof -
  let ?sc = "path_join stage_dir (path_base (cdb_path cfg))"
  let ?sm = "path_join stage_dir ''manifest.json''"
  let ?P = "{raw_domain_file cfg, cdb_path cfg, manifest_path (cdb_path cfg)}"
  have ne: "p \<noteq> staged_path tmp d" "p \<noteq> ?sc" "p \<noteq> ?sm" if "p \<in> ?P" for p
    using paths that by (auto simp: publish_paths_def Let_def)
  have sm: "manifest_path ?sc = ?sm" using paths by (auto simp: publish_paths_def Let_def)
  show ?thesis
  proof (cases "stage_raw_file L io tmp cfg d F")
    case (Pair x F1)
    show ?thesis
    proof (cases x)
      case (Inl e')
      with run Pair have "F' = F \<or> F' = F1" by (auto simp: publish_delta_def split: if_splits)
      with stage_raw_error [OF Pair [unfolded Inl]] ne(1) show ?thesis by blast
    next
      case (Inr staged)
      note st = stage_raw_result(1,2) [OF Pair [unfolded Inr]]
      obtain y F2 where c: "compile_domains_to_cdb L enc (io \<circ> PuCompile) now staged ?sc True F1 = (y, F2)"
        by fastforce
      show ?thesis
      proof (cases "\<exists>r. y = Inr r \<and> io PuCdbUsable \<and> io PuRawUsable \<and> io PuMkRaw \<and> io PuMkCdb \<and> io PuMkStage \<and> io PuRenameRaw")
        case False
        have "F2 p = F1 p" if "p \<in> ?P" for p
        proof (cases y)
          case (Inl e') with compile_error_files [OF c [unfolded Inl] ne(2) [OF that]] show ?thesis by simp
        next
          case (Inr r) with compile_ok [OF c [unfolded Inr]] ne [OF that] sm show ?thesis by (metis fun_upd_other)
        qed
        then have "F' p = F p" if "p \<in> ?P" for p
          using False run Pair Inr c st ne [OF that] that
          by (auto simp: publish_delta_def Let_def split: if_splits sum.splits)
        then show ?thesis by blast
      next
        case True
        then obtain r where c': "compile_domains_to_cdb L enc (io \<circ> PuCompile) now staged ?sc True F1 = (Inr r, F2)"
          using c by blast
        obtain b m where b: "F1 staged = Some b"
          "F2 = F1(?sc \<mapsto> cdb_image L (entries_for L True (file_domains L b)), ?sm \<mapsto> m)"
          using compile_ok [OF c'] sm by metis
        have dist: "distinct [staged, ?sc, ?sm, raw_domain_file cfg, cdb_path cfg, manifest_path (cdb_path cfg)]"
          using paths st(1) by (simp add: publish_paths_def Let_def)
        have "\<not> (io PuRenameCdb \<and> io PuRenameManifest) \<and> F' (raw_domain_file cfg) = Some b
          \<and> F' (cdb_path cfg) = (if io PuRenameCdb then Some (cdb_image L (entries_for L True (file_domains L b)))
                                 else F (cdb_path cfg))
          \<and> F' (manifest_path (cdb_path cfg)) = F (manifest_path (cdb_path cfg))"
          using run True Pair Inr c' st(2) b dist by (auto simp: publish_delta_def Let_def split: if_splits)
        then show ?thesis using Pair Inr b(1) st(1) by (simp add: torn_publish_def)
      qed
    qed
  qed
qed

lemma publish_delta_error:
  assumes "publish_delta L enc io now tmp stage_dir cfg d F = (Inl e, F')" and "publish_paths tmp stage_dir cfg d"
    and "io PuRenameCdb" "io PuRenameManifest" and "p \<in> {raw_domain_file cfg, cdb_path cfg, manifest_path (cdb_path cfg)}"
  shows "F' p = F p"
  using publish_delta_fail [OF assms(1,2)] assms(3-5) unfolding torn_publish_def by blast

subsection \<open>Properties\<close>

text \<open>
  C6: \<open>ApplyDeltaToFile\<close> implements the abstract transition of a delta on a set of domains: the
  file it publishes holds exactly the domains the delta leaves, each of them clean, and holds no
  domain twice when the old file did not; no other file changes.
\<close>

theorem apply_delta_correct:
  assumes "apply_delta_to_file L io raw d F = (Inr (), F')"
    and "\<forall>x \<in> set (added d) \<union> set (deleted d). clean_domain L x"
    and "\<not> full d \<Longrightarrow> \<forall>x \<in> set (file_domains L (the (F raw))). clean_domain L x"
  shows "\<exists>b. F' = F(raw \<mapsto> b)
    \<and> set (file_domains L b) = delta_effect d (set (file_domains L (the (F raw))))
    \<and> (\<forall>x \<in> set (file_domains L b). clean_domain L x)
    \<and> (full d \<or> distinct (file_domains L (the (F raw))) \<longrightarrow> distinct (file_domains L b))"
  by (rule apply_delta_refines [OF assms])

definition example_delta :: delta where
  "example_delta = \<lparr>from_serial = 1, to_serial = 2, d_timestamp = 0, full = False,
     added = [''c.d''], deleted = [''a.b''], staged_raw = []\<rparr>"

definition example_raw :: bytes where
  "example_raw = unlines [''# list'', ''a.b'', '' x.y '', []]"

lemma example_clean:
  "clean_domain example_lib ''c.d'' \<and> clean_domain example_lib ''a.b'' \<and> clean_domain example_lib ''x.y''"
  unfolding clean_domain_def canonical_def by code_simp

lemma example_raw_domains: "file_domains example_lib example_raw = [''a.b'', ''x.y'']"
  by code_simp

theorem apply_delta_correct_witness:
  "\<exists>b. snd (apply_delta_to_file example_lib (\<lambda>_. True) ''r'' example_delta [''r'' \<mapsto> example_raw]) = [''r'' \<mapsto> b]
     \<and> set (file_domains example_lib b) = {''c.d'', ''x.y''} \<and> distinct (file_domains example_lib b)"
proof -
  let ?F = "[''r'' \<mapsto> example_raw]"
  let ?r = "apply_delta_to_file example_lib (\<lambda>_. True) ''r'' example_delta ?F"
  have "fst ?r = Inr ()" by code_simp
  then have r: "?r = (Inr (), snd ?r)" by (metis prod.collapse)
  have "set (file_domains example_lib (the (?F ''r''))) = {''a.b'', ''x.y''}"
    "distinct (file_domains example_lib (the (?F ''r'')))" by (simp_all add: example_raw_domains)
  with apply_delta_correct [OF r] example_clean show ?thesis
    by (auto simp: example_delta_def delta_effect_def)
qed

text \<open>
  C7: When \<open>PublishDelta\<close> succeeds, the raw file is the staged one, the CDB holds the packed key of
  each of its domains in order, the manifest and the result carry the digest of that CDB and the
  number of its keys, and the staging file is gone.
\<close>

theorem publish_consistent:
  assumes "publish_delta L enc io now tmp stage_dir cfg d F = (Inr r, F')"
    and "publish_paths tmp stage_dir cfg d"
  shows "published_ok L enc cfg now r F' \<and> F' (staged_path tmp d) = None"
  by (rule publish_delta_ok [OF assms]) simp

definition example_files :: fs where "example_files = [''/d/raw.txt'' \<mapsto> example_raw]"

lemma example_paths: "publish_paths ''/d/.tmp'' ''/d/.pub'' example_cfg example_delta"
  by code_simp

theorem publish_consistent_witness:
  "\<exists>r. fst (publish_delta example_lib (\<lambda>m. mf_sha256 m) (\<lambda>_. True) 9 ''/d/.tmp'' ''/d/.pub'' example_cfg example_delta example_files) = Inr r
     \<and> published_ok example_lib (\<lambda>m. mf_sha256 m) example_cfg 9 r
          (snd (publish_delta example_lib (\<lambda>m. mf_sha256 m) (\<lambda>_. True) 9 ''/d/.tmp'' ''/d/.pub'' example_cfg example_delta example_files))"
proof -
  let ?r = "publish_delta example_lib (\<lambda>m. mf_sha256 m) (\<lambda>_. True) 9 ''/d/.tmp'' ''/d/.pub'' example_cfg example_delta example_files"
  have "\<not> isl (fst ?r)" by code_simp
  then obtain r where "fst ?r = Inr r" by (cases "fst ?r") auto
  then have "?r = (Inr r, snd ?r)" by (metis prod.collapse)
  from publish_consistent [OF this example_paths] \<open>fst ?r = Inr r\<close> show ?thesis by blast
qed

text \<open>
  C8: When \<open>PublishDelta\<close> fails, by validation, a full disk or any system call, the published raw file,
  CDB and manifest are what they were, unless one of the two last renames failed. Then the raw file is
  the complete staged one, the manifest is the old one, and the CDB is the old one when its rename
  failed, or the one compiled from the new raw file when only the rename of the manifest failed.
\<close>

theorem publish_failure_safe:
  assumes "publish_delta L enc io now tmp stage_dir cfg d F = (Inl e, F')"
    and "publish_paths tmp stage_dir cfg d"
  shows "(F' (raw_domain_file cfg) = F (raw_domain_file cfg) \<and> F' (cdb_path cfg) = F (cdb_path cfg)
       \<and> F' (manifest_path (cdb_path cfg)) = F (manifest_path (cdb_path cfg)))
    \<or> (\<not> (io PuRenameCdb \<and> io PuRenameManifest)
       \<and> (\<exists>F1 b. stage_raw_file L io tmp cfg d F = (Inr (staged_path tmp d), F1) \<and> F1 (staged_path tmp d) = Some b
            \<and> F' (raw_domain_file cfg) = Some b
            \<and> F' (cdb_path cfg) = (if io PuRenameCdb then Some (cdb_image L (entries_for L True (file_domains L b)))
                                   else F (cdb_path cfg)))
       \<and> F' (manifest_path (cdb_path cfg)) = F (manifest_path (cdb_path cfg)))"
  using publish_delta_fail [OF assms] unfolding torn_publish_def by simp

theorem publish_failure_safe_witness:
  "snd (publish_delta example_lib (\<lambda>m. mf_sha256 m) (\<lambda>x. x \<noteq> PuCompile CoHash) 9 ''/d/.tmp'' ''/d/.pub'' example_cfg
      example_delta example_files) ''/d/raw.txt'' = Some example_raw
   \<and> (\<exists>b. snd (publish_delta example_lib (\<lambda>m. mf_sha256 m) (\<lambda>x. x \<noteq> PuRenameManifest) 9 ''/d/.tmp'' ''/d/.pub'' example_cfg
        example_delta example_files) ''/d/t.cdb'' = Some (cdb_image example_lib (entries_for example_lib True (file_domains example_lib b))))"
proof -
  let ?r = "publish_delta example_lib (\<lambda>m. mf_sha256 m) (\<lambda>x. x \<noteq> PuCompile CoHash) 9 ''/d/.tmp'' ''/d/.pub'' example_cfg
      example_delta example_files"
  let ?s = "publish_delta example_lib (\<lambda>m. mf_sha256 m) (\<lambda>x. x \<noteq> PuRenameManifest) 9 ''/d/.tmp'' ''/d/.pub'' example_cfg
      example_delta example_files"
  have "isl (fst ?r)" by code_simp
  then obtain e where "fst ?r = Inl e" by (cases "fst ?r") auto
  then have "?r = (Inl e, snd ?r)" by (metis prod.collapse)
  from publish_failure_safe [OF this example_paths] have r: "snd ?r ''/d/raw.txt'' = Some example_raw"
    by (simp add: example_cfg_def example_files_def)
  have "isl (fst ?s)" "snd ?s ''/d/t.cdb'' \<noteq> None" by code_simp+
  then obtain e' where "fst ?s = Inl e'" by (cases "fst ?s") auto
  then have "?s = (Inl e', snd ?s)" by (metis prod.collapse)
  from publish_failure_safe [OF this example_paths] \<open>snd ?s ''/d/t.cdb'' \<noteq> None\<close>
  have "\<exists>b. snd ?s ''/d/t.cdb'' = Some (cdb_image example_lib (entries_for example_lib True (file_domains example_lib b)))"
    by (auto simp: example_cfg_def example_files_def)
  with r show ?thesis by blast
qed

end
