(* ===== verification/Go_Net.thy ===== *)
theory Go_Net
  imports Go_Prelude
begin

unbundle bit_operations_syntax

text \<open>
  What the sources use of packages \<open>net\<close> and \<open>strconv\<close>: parsing of IP addresses and CIDR
  prefixes, membership in a network, splitting of \<open>host:port\<close>, decimal numbers. An address is
  the byte slice Go holds: 4 or 16 bytes, or no byte at all for a nil \<open>net.IP\<close>.
\<close>

type_synonym ip = "8 word list"

datatype ip_net = IPNet (net_ip: ip) (net_mask: ip)

subsection \<open>Decimal and hexadecimal digits\<close>

definition is_digit :: "char \<Rightarrow> bool" where
  "is_digit c \<longleftrightarrow> 48 \<le> byte c \<and> byte c \<le> 57"

definition digit_val :: "char \<Rightarrow> int" where "digit_val c = of_char c - 48"

definition dec_val :: "string \<Rightarrow> int" where
  "dec_val s = foldl (\<lambda>n c. n * 10 + digit_val c) 0 s"

definition hex_val :: "char \<Rightarrow> int option" where
  "hex_val c = (if is_digit c then Some (digit_val c)
     else if 97 \<le> byte c \<and> byte c \<le> 102 then Some (of_char c - 87)
     else if 65 \<le> byte c \<and> byte c \<le> 70 then Some (of_char c - 55) else None)"

text \<open>\<open>strconv.Atoi\<close>: an optional sign, digits, a value that fits an \<open>int\<close>.\<close>

definition atoi :: "string \<Rightarrow> int option" where
  "atoi s =
     (let neg = prefix ''-'' s;
          t = (if prefix ''-'' s \<or> prefix ''+'' s then tl s else s)
      in if t = [] \<or> \<not> list_all is_digit t then None
         else (let v = (if neg then - dec_val t else dec_val t)
               in if v < - (2 ^ 63) \<or> 2 ^ 63 \<le> v then None else Some v))"

subsection \<open>Addresses\<close>

text \<open>An IPv4 address: four decimal fields without a leading zero, each at most 255.\<close>

definition ipv4_field :: "string \<Rightarrow> 8 word option" where
  "ipv4_field s =
     (if s = [] \<or> \<not> list_all is_digit s \<or> (1 < length s \<and> hd s = CHR ''0'') \<or> 255 < dec_val s then None
      else Some (word_of_int (dec_val s)))"

definition parse_ipv4 :: "string \<Rightarrow> ip option" where
  "parse_ipv4 s =
     (let fs = map ipv4_field (split_on (CHR ''.'') s)
      in if length fs = 4 \<and> None \<notin> set fs then Some (map the fs) else None)"

definition hex_prefix :: "string \<Rightarrow> string" where
  "hex_prefix s = takeWhile (\<lambda>c. hex_val c \<noteq> None) s"

definition hex_num :: "string \<Rightarrow> int" where
  "hex_num s = foldl (\<lambda>n c. n * 16 + the (hex_val c)) 0 s"

text \<open>
  The loop of the IPv6 parser. The state is the bytes read, the position of the ellipsis and
  the rest of the text; the result is that state at the end of the loop.
\<close>

function ipv6_loop :: "ip \<Rightarrow> nat option \<Rightarrow> string \<Rightarrow> (ip \<times> nat option \<times> string) option" where
  "ipv6_loop bs ell s =
     (if 16 \<le> length bs then Some (bs, ell, s)
      else
        (let h = hex_prefix s; off = length h; s' = drop off s; acc = hex_num h
         in if h = [] \<or> 4 < off then None
            else if s' \<noteq> [] \<and> hd s' = CHR ''.''
            then (if (ell = None \<and> length bs \<noteq> 12) \<or> 16 < length bs + 4 then None
                  else map_option (\<lambda>q. (bs @ q, ell, [])) (parse_ipv4 s))
            else
              (let bs' = bs @ [word_of_int (acc div 256), word_of_int acc]
               in if s' = [] then Some (bs', ell, [])
                  else if hd s' \<noteq> CHR '':'' \<or> length s' = 1 then None
                  else if hd (tl s') = CHR '':''
                  then (if ell \<noteq> None then None
                        else if length s' = 2 then Some (bs', Some (length bs'), [])
                        else ipv6_loop bs' (Some (length bs')) (drop 2 s'))
                  else ipv6_loop bs' ell (tl s'))))"
  by pat_completeness auto
termination
  by (relation "measure (\<lambda>(bs, ell, s). length s)") (auto simp: Let_def hex_prefix_def neq_Nil_conv)

declare ipv6_loop.simps [simp del]

definition parse_ipv6_body :: "string \<Rightarrow> ip option" where
  "parse_ipv6_body s =
     (let lead = prefix ''::'' s; s0 = (if lead then drop 2 s else s)
      in if lead \<and> s0 = [] then Some (replicate 16 0)
         else (case ipv6_loop [] (if lead then Some 0 else None) s0 of
                 None \<Rightarrow> None
               | Some (bs, ell, rest) \<Rightarrow>
                   if rest \<noteq> [] then None
                   else if length bs < 16
                   then (case ell of None \<Rightarrow> None
                         | Some e \<Rightarrow> Some (take e bs @ replicate (16 - length bs) 0 @ drop e bs))
                   else if ell \<noteq> None then None else Some bs))"

text \<open>
  \<open>netip.ParseAddr\<close>: the first of the bytes \<open>.\<close>, \<open>:\<close> and \<open>%\<close> decides. The result is the bytes
  and whether the text names an IPv6 zone.
\<close>

definition parse_addr :: "string \<Rightarrow> (ip \<times> bool) option" where
  "parse_addr s =
     (case find (\<lambda>c. c = CHR ''.'' \<or> c = CHR '':'' \<or> c = CHR ''%'') s of
        None \<Rightarrow> None
      | Some c \<Rightarrow>
          if c = CHR ''.'' then map_option (\<lambda>q. (q, False)) (parse_ipv4 s)
          else if c = CHR ''%'' then None
          else
            (let body = takeWhile (\<lambda>c. c \<noteq> CHR ''%'') s; z = drop (length body) s
             in if z = ''%'' then None
                else map_option (\<lambda>q. (q, z \<noteq> [])) (parse_ipv6_body body)))"

definition v4_in_v6 :: ip where "v4_in_v6 = replicate 10 0 @ [255, 255]"

definition as16 :: "ip \<Rightarrow> ip" where
  "as16 q = (if length q = 4 then v4_in_v6 @ q else q)"

text \<open>\<open>net.ParseIP\<close>: always 16 bytes; an empty slice stands for nil.\<close>

definition parse_ip :: "string \<Rightarrow> ip" where
  "parse_ip s = (case parse_addr s of Some (q, False) \<Rightarrow> as16 q | _ \<Rightarrow> [])"

definition to4 :: "ip \<Rightarrow> ip" where
  "to4 a = (if length a = 4 then a else if length a = 16 \<and> take 12 a = v4_in_v6 then drop 12 a else [])"

subsection \<open>Prefixes\<close>

text \<open>The mask byte number \<open>k\<close> of a prefix of \<open>n\<close> bits (\<open>net.CIDRMask\<close>).\<close>

definition mask_byte :: "int \<Rightarrow> nat \<Rightarrow> 8 word" where
  "mask_byte n k = (if 8 * (int k + 1) \<le> n then 255 else if n \<le> 8 * int k then 0
                    else word_of_int (256 - 2 ^ nat (8 - (n - 8 * int k))))"

definition cidr_mask :: "int \<Rightarrow> nat \<Rightarrow> ip" where
  "cidr_mask n len = map (mask_byte n) [0..<len]"

definition mask_ip :: "ip \<Rightarrow> ip \<Rightarrow> ip" where
  "mask_ip a m =
     (let m1 = (if length m = 16 \<and> length a = 4 \<and> take 12 m = replicate 12 255 then drop 12 m else m);
          a1 = (if length m1 = 4 \<and> length a = 16 \<and> take 12 a = v4_in_v6 then drop 12 a else a)
      in if length a1 \<noteq> length m1 then [] else map2 (AND) a1 m1)"

definition dtoi_big :: int where "dtoi_big = 16777215"

definition parse_cidr :: "string \<Rightarrow> (ip \<times> ip_net) option" where
  "parse_cidr s =
     (let addr = takeWhile (\<lambda>c. c \<noteq> CHR ''/'') s; rest = drop (length addr) s
      in if rest = [] then None
         else (case parse_addr addr of
                 Some (q, False) \<Rightarrow>
                   (let m = tl rest; n = dec_val m; mask = cidr_mask n (length q)
                    in if m = [] \<or> \<not> list_all is_digit m \<or> dtoi_big \<le> n \<or> 8 * int (length q) < n then None
                       else Some (as16 q, IPNet (mask_ip (as16 q) mask) mask))
               | _ \<Rightarrow> None))"

text \<open>\<open>(*IPNet).Contains\<close>.\<close>

definition network_number :: "ip_net \<Rightarrow> (ip \<times> ip) option" where
  "network_number n =
     (let a = (if to4 (net_ip n) \<noteq> [] then to4 (net_ip n) else net_ip n); m = net_mask n
      in if to4 (net_ip n) = [] \<and> length (net_ip n) \<noteq> 16 then None
         else if length m = 4 then (if length a \<noteq> 4 then None else Some (a, m))
         else if length m = 16 then Some (a, if length a = 4 then drop 12 m else m)
         else None)"

definition net_contains :: "ip_net \<Rightarrow> ip \<Rightarrow> bool" where
  "net_contains n a =
     (let x = (if to4 a \<noteq> [] then to4 a else a)
      in case network_number n of
           None \<Rightarrow> x = []
         | Some (nn, m) \<Rightarrow> length x = length nn \<and> map2 (AND) nn m = map2 (AND) x m)"

subsection \<open>Host and port\<close>

text \<open>
  \<open>net.SplitHostPort\<close>: the part after the last colon is the port; a host in brackets may hold
  colons.
\<close>

definition split_host_port :: "string \<Rightarrow> (string \<times> string) option" where
  "split_host_port hp =
     (if CHR '':'' \<notin> set hp then None
      else
        (let port = rev (takeWhile (\<lambda>c. c \<noteq> CHR '':'') (rev hp));
             front = take (length hp - length port - 1) hp
         in if prefix ''['' hp
            then (if CHR '']'' \<notin> set hp then None
                  else
                    (let host = takeWhile (\<lambda>c. c \<noteq> CHR '']'') (tl hp); after = drop (length host + 2) hp
                     in if after = CHR '':'' # port
                           \<and> CHR ''['' \<notin> set (tl hp) \<and> CHR '']'' \<notin> set after
                        then Some (host, port) else None))
            else if CHR '':'' \<in> set front \<or> CHR ''['' \<in> set hp \<or> CHR '']'' \<in> set hp then None
            else Some (front, port)))"

subsection \<open>Lengths\<close>

lemma length_cidr_mask [simp]: "length (cidr_mask n len) = len"
  by (simp add: cidr_mask_def)

lemma parse_ipv4_length: "parse_ipv4 s = Some q \<Longrightarrow> length q = 4"
  by (auto simp: parse_ipv4_def Let_def split: if_splits)

definition ell_ok :: "ip \<Rightarrow> nat option \<Rightarrow> bool" where
  "ell_ok bs ell \<longleftrightarrow> (case ell of None \<Rightarrow> True | Some e \<Rightarrow> e \<le> length bs)"

lemma ell_ok_simps [simp]:
  "ell_ok bs None" "ell_ok bs (Some e) \<longleftrightarrow> e \<le> length bs" "ell_ok bs ell \<Longrightarrow> ell_ok (bs @ cs) ell"
  by (auto simp: ell_ok_def split: option.splits)

lemma ipv6_loop_length:
  "ipv6_loop bs ell s = Some (bs', ell', rest) \<Longrightarrow> even (length bs) \<Longrightarrow> length bs \<le> 16 \<Longrightarrow>
   ell_ok bs ell \<Longrightarrow> length bs' \<le> 16 \<and> ell_ok bs' ell'"
proof (induction bs ell s rule: ipv6_loop.induct)
  case (1 bs ell s)
  show ?case
  proof (cases "16 \<le> length bs")
    case True
    with 1(3-) show ?thesis by (auto simp: ipv6_loop.simps [of bs])
  next
    case False
    then have le: "length bs \<le> 14" using \<open>even (length bs)\<close> by presburger
    note IH = 1(1) [OF False refl refl refl refl _ _ refl] 1(2) [OF False refl refl refl refl _ _ refl]
    show ?thesis
      using 1(3-6) False le IH
      by (subst (asm) ipv6_loop.simps)
         (simp add: Let_def split: if_splits option.splits; (auto dest!: parse_ipv4_length)[1])
  qed
qed

lemma parse_ipv6_length: "parse_ipv6_body s = Some q \<Longrightarrow> length q = 16"
  by (fastforce simp: parse_ipv6_body_def Let_def split: if_splits option.splits dest: ipv6_loop_length)

lemma parse_addr_length: "parse_addr s = Some (q, z) \<Longrightarrow> length q = 4 \<or> length q = 16"
  by (auto simp: parse_addr_def Let_def split: option.splits if_splits
        dest!: parse_ipv4_length parse_ipv6_length)

lemma parse_ip_length: "parse_ip s = [] \<or> length (parse_ip s) = 16"
  by (auto simp: parse_ip_def as16_def v4_in_v6_def split: option.splits bool.splits
        dest!: parse_addr_length)

subsection \<open>Addresses and networks\<close>

lemma to4_mapped [simp]: "length a = 4 \<Longrightarrow> to4 (v4_in_v6 @ a) = a"
  by (simp add: to4_def v4_in_v6_def)

lemma to4_four [simp]: "length a = 4 \<Longrightarrow> to4 a = a"
  by (simp add: to4_def)

text \<open>An IPv4 peer and its IPv4-mapped form are members of the same networks.\<close>

lemma net_contains_mapped: "length a = 4 \<Longrightarrow> net_contains n (v4_in_v6 @ a) = net_contains n a"
  by (cases "a = []") (simp_all add: net_contains_def)

subsection \<open>Prefixes and sockets of \<open>net/netip\<close>\<close>

definition is4 :: "ip \<times> bool \<Rightarrow> bool" where "is4 a \<longleftrightarrow> length (fst a) = 4"
definition is6 :: "ip \<times> bool \<Rightarrow> bool" where "is6 a \<longleftrightarrow> length (fst a) = 16"

text \<open>The parts before and after the last occurrence of a byte.\<close>

definition cut_last :: "char \<Rightarrow> string \<Rightarrow> (string \<times> string) option" where
  "cut_last c s =
     (if c \<notin> set s then None
      else (let b = rev (takeWhile (\<lambda>d. d \<noteq> c) (rev s)) in Some (take (length s - length b - 1) s, b)))"

text \<open>\<open>netip.ParsePrefix\<close>: no zone, no sign and no leading zero in the number of bits.\<close>

definition parse_prefix :: "string \<Rightarrow> (ip \<times> int) option" where
  "parse_prefix s =
     (case cut_last (CHR ''/'') s of
        None \<Rightarrow> None
      | Some (a, m) \<Rightarrow>
          (case parse_addr a of
             Some (q, False) \<Rightarrow>
               if 1 < length m \<and> (\<not> is_digit (hd m) \<or> hd m = CHR ''0'') then None
               else (case atoi m of
                       None \<Rightarrow> None
                     | Some n \<Rightarrow> if n < 0 \<or> 8 * int (length q) < n then None else Some (q, n))
           | _ \<Rightarrow> None))"

text \<open>\<open>netip.ParseAddrPort\<close>: brackets exactly around IPv6 addresses, a port of 16 bits.\<close>

definition parse_addr_port :: "string \<Rightarrow> (ip \<times> int) option" where
  "parse_addr_port s =
     (case cut_last (CHR '':'') s of
        None \<Rightarrow> None
      | Some (a, p) \<Rightarrow>
          (let v6 = prefix ''['' a; host = (if v6 then butlast (tl a) else a)
           in if a = [] \<or> p = [] \<or> (v6 \<and> (length a < 2 \<or> last a \<noteq> CHR '']'')) then None
              else if \<not> list_all is_digit p \<or> 65535 < dec_val p then None
              else (case parse_addr host of
                      None \<Rightarrow> None
                    | Some q \<Rightarrow> if v6 = is6 q then Some (fst q, dec_val p) else None)))"

lemma dec_val_nonneg: "list_all is_digit s \<Longrightarrow> 0 \<le> dec_val s"
proof -
  have "list_all is_digit s \<Longrightarrow> 0 \<le> n \<Longrightarrow> 0 \<le> foldl (\<lambda>n c. n * 10 + digit_val c) n s" for n
  proof (induction s arbitrary: n)
    case Nil
    then show ?case by simp
  next
    case (Cons c s)
    have "of_char c = int (byte c)" by (simp add: of_nat_of_char)
    with Cons.prems have "0 \<le> digit_val c" by (simp add: digit_val_def is_digit_def)
    with Cons show ?case by simp
  qed
  then show "list_all is_digit s \<Longrightarrow> 0 \<le> dec_val s" by (simp add: dec_val_def)
qed

lemma parse_addr_port_range:
  assumes "parse_addr_port s = Some (a, p)"
  shows "0 \<le> p" "p \<le> 65535" "length a = 4 \<or> length a = 16"
  using assms
  by (auto simp: parse_addr_port_def Let_def dec_val_nonneg dest: parse_addr_length split: option.splits if_splits prod.splits)

lemma parse_prefix_range:
  assumes "parse_prefix s = Some (a, n)"
  shows "0 \<le> n" "n \<le> 8 * int (length a)" "length a = 4 \<or> length a = 16"
  using assms
  by (auto simp: parse_prefix_def dest: parse_addr_length split: option.splits if_splits prod.splits bool.splits)

end
