(* ===== verification/Rpz_Server.thy ===== *)
theory Rpz_Server
  imports Rpz_Files Go_Net
begin

text \<open>
  The DNS server of \<open>tools/rpz-master/dns_server.go\<close>: the construction of the access list, the
  authorisation of a transfer, the dispatch of a query, and the envelopes that the AXFR and
  IXFR producers put on the channel of \<open>dns.Transfer.Out\<close>. A transfer runs while it holds one
  of \<open>max_transfers\<close> slots of a semaphore.
\<close>

subsection \<open>Requests, peers and responses\<close>

record question =
  q_name :: string
  q_type :: nat

record tsig_rr =
  ts_name :: string
  ts_alg :: string

record dns_request =
  questions :: "question list"
  authority :: "rr list"
  req_tsig :: "tsig_rr option"

datatype remote_addr = TCPAddr ip | UDPAddr ip | OtherAddr string

record peer =
  remote :: remote_addr
  tsig_verified :: bool   \<comment> \<open>\<open>w.TsigStatus() == nil\<close>\<close>

datatype rcode = FormatError | ServerFailure | NotImplemented | Refused

text \<open>
  A failure code, an authoritative answer, or a transfer: the record lists of the envelopes and
  whether the producer ran to the end.
\<close>

datatype response = Failure rcode | Answer "rr list" | Xfr "rr list list" bool

record rpz_server =
  sv_cfg :: config
  sv_slots :: nat
  sv_acl :: "ip_net list"

definition default_acl :: "string list" where
  "default_acl = [''127.0.0.0/8'', ''::1/128'']"

definition new_rpz_server :: "config \<Rightarrow> rpz_server" where
  "new_rpz_server cfg =
     \<lparr>sv_cfg = cfg,
      sv_slots = nat (if max_transfers cfg \<le> 0 then 10 else max_transfers cfg),
      sv_acl = List.map_filter (\<lambda>c. map_option snd (parse_cidr c))
                 (if transfer_acl cfg = [] then default_acl else transfer_acl cfg)\<rparr>"

subsection \<open>Authorisation\<close>

definition transfer_allowed :: "rpz_server \<Rightarrow> ip \<Rightarrow> bool" where
  "transfer_allowed sv a \<longleftrightarrow> (\<exists>n \<in> set (sv_acl sv). net_contains n a)"

fun remote_ip :: "remote_addr \<Rightarrow> ip" where
  "remote_ip (TCPAddr a) = a"
| "remote_ip (UDPAddr a) = a"
| "remote_ip (OtherAddr s) = (case split_host_port s of None \<Rightarrow> [] | Some (h, _) \<Rightarrow> parse_ip h)"

definition transfer_authorized :: "lib \<Rightarrow> rpz_server \<Rightarrow> peer \<Rightarrow> dns_request \<Rightarrow> bool" where
  "transfer_authorized L sv w r \<longleftrightarrow>
     (let cfg = sv_cfg sv
      in transfer_allowed sv (remote_ip (remote w)) \<and>
         (tsig_key cfg = [] \<or>
          (case req_tsig r of
             None \<Rightarrow> False
           | Some t \<Rightarrow> equal_fold L (ts_name t) (dns_fqdn L (tsig_key cfg))
                       \<and> equal_fold L (ts_alg t) (dns_fqdn L (tsig_algorithm cfg))
                       \<and> tsig_verified w)))"

subsection \<open>Records\<close>

definition header :: "string \<Rightarrow> nat \<Rightarrow> rr_hdr" where
  "header name ty = \<lparr>rr_name = name, rr_type = ty, rr_class = class_INET, rr_ttl = 300\<rparr>"

definition zone_soa :: "string \<Rightarrow> u32 \<Rightarrow> soa" where
  "zone_soa zn s =
     \<lparr>soa_hdr = header zn type_SOA, soa_ns = ''ns1.'' @ zn, soa_mbox = ''hostmaster.'' @ zn,
      soa_serial = s, soa_refresh = 3600, soa_retry = 600, soa_expire = 86400, soa_minttl = 300\<rparr>"

definition get_soa :: "state \<Rightarrow> string \<Rightarrow> soa" where
  "get_soa st zn = zone_soa zn (serial st)"

definition with_dot :: "string \<Rightarrow> string" where
  "with_dot s = (if suffix ''.'' s then s else s @ ''.'')"

definition cfg_zone :: "lib \<Rightarrow> config \<Rightarrow> string" where
  "cfg_zone L cfg = with_dot (to_lower L (zone cfg))"

definition policy_rr :: "config \<Rightarrow> string \<Rightarrow> string \<Rightarrow> rr" where
  "policy_rr cfg zn d = CNAME (header (d @ ''.'' @ zn) type_CNAME) (with_dot (cname_target cfg))"

subsection \<open>AXFR\<close>

definition chunk_size :: nat where "chunk_size = 200"

definition axfr_line :: "lib \<Rightarrow> string \<Rightarrow> string" where
  "axfr_line L l = trim_suffix (to_lower L (trim_space l)) ''.''"

text \<open>The scanning loop of the producer: \<open>chunk\<close> is the slice that is being filled.\<close>

fun axfr_chunks :: "lib \<Rightarrow> config \<Rightarrow> string \<Rightarrow> rr list \<Rightarrow> string list \<Rightarrow> rr list list" where
  "axfr_chunks L cfg zn chunk [] = (if chunk \<noteq> [] then [chunk] else [])"
| "axfr_chunks L cfg zn chunk (l # ls) =
     (if skip_line l then axfr_chunks L cfg zn chunk ls
      else (let chunk' = chunk @ [policy_rr cfg zn (axfr_line L l)]
            in if chunk_size \<le> length chunk' then chunk' # axfr_chunks L cfg zn [] ls
               else axfr_chunks L cfg zn chunk' ls))"

definition axfr_response :: "lib \<Rightarrow> config \<Rightarrow> string \<Rightarrow> u32 \<Rightarrow> bytes \<Rightarrow> response" where
  "axfr_response L cfg zn s content =
     (let soa = SOA (zone_soa zn s); (ls, ok) = scan_lines max_line content
      in Xfr ([soa] # axfr_chunks L cfg zn [] ls @ (if ok then [[soa]] else [])) ok)"

text \<open>
  \<open>used\<close> slots are taken. The state and the raw file are read under the publication lock, the
  scan works on the file as it was opened.
\<close>

definition handle_axfr :: "lib \<Rightarrow> rpz_server \<Rightarrow> nat \<Rightarrow> state \<Rightarrow> fs \<Rightarrow> string \<Rightarrow> response" where
  "handle_axfr L sv used st F zn =
     (if sv_slots sv \<le> used then Failure ServerFailure
      else (case F (raw_domain_file (sv_cfg sv)) of
              None \<Rightarrow> Failure ServerFailure
            | Some content \<Rightarrow> axfr_response L (sv_cfg sv) zn (serial st) content))"

subsection \<open>IXFR\<close>

fun client_serial :: "rr list \<Rightarrow> u32" where
  "client_serial [] = 0"
| "client_serial (SOA s # _) = soa_serial s"
| "client_serial (_ # rs) = client_serial rs"

definition matched_delta :: "state \<Rightarrow> u32 \<Rightarrow> delta option" where
  "matched_delta st cs = find (\<lambda>d. from_serial d = cs \<and> to_serial d = serial st) (rev (deltas st))"

definition ixfr_response :: "config \<Rightarrow> string \<Rightarrow> u32 \<Rightarrow> delta \<Rightarrow> response" where
  "ixfr_response cfg zn cs d =
     (let new = SOA (zone_soa zn (to_serial d)); old = SOA (zone_soa zn cs);
          env = (\<lambda>x. [policy_rr cfg zn (trim_suffix x ''.'')])
      in Xfr ([[new, old]] @ map env (deleted d) @ [[new]] @ map env (added d) @ [[new]]) True)"

definition handle_ixfr :: "lib \<Rightarrow> rpz_server \<Rightarrow> nat \<Rightarrow> state \<Rightarrow> fs \<Rightarrow> dns_request \<Rightarrow> string \<Rightarrow> response" where
  "handle_ixfr L sv used st F r zn =
     (let cs = client_serial (authority r)
      in if cs \<noteq> 0 \<and> \<not> serial_greater (serial st) cs then Answer [SOA (get_soa st zn)]
         else (case matched_delta st cs of
                 None \<Rightarrow> handle_axfr L sv used st F zn
               | Some d \<Rightarrow> if sv_slots sv \<le> used then Failure ServerFailure
                            else ixfr_response (sv_cfg sv) zn cs d))"

subsection \<open>ServeDNS\<close>

definition serve_dns :: "lib \<Rightarrow> rpz_server \<Rightarrow> nat \<Rightarrow> state \<Rightarrow> fs \<Rightarrow> peer \<Rightarrow> dns_request \<Rightarrow> response" where
  "serve_dns L sv used st F w r =
     (case questions r of
        [] \<Rightarrow> Failure FormatError
      | q # _ \<Rightarrow>
          (let zn = cfg_zone L (sv_cfg sv)
           in if to_lower L (q_name q) \<noteq> zn then Failure Refused
              else if q_type q = type_SOA then Answer [SOA (get_soa st zn)]
              else if q_type q = type_AXFR then
                (if transfer_authorized L sv w r then handle_axfr L sv used st F zn else Failure Refused)
              else if q_type q = type_IXFR then
                (if transfer_authorized L sv w r then handle_ixfr L sv used st F r zn else Failure Refused)
              else Failure NotImplemented))"

subsection \<open>Documented behaviour of the name functions\<close>

text \<open>Bytes of a host name as it is written in a file: no backslash, so nothing is escaped.\<close>

definition name_byte :: "char \<Rightarrow> bool" where
  "name_byte c \<longleftrightarrow> is_plain c \<and> lower_byte c = c \<and> c \<noteq> byte_of 92"

text \<open>
  \<open>dns.Fqdn\<close> appends the root dot to a name that does not end with an unescaped dot;
  \<open>dns.IsSubDomain\<close> holds when the labels of the parent are the last labels of the child.
\<close>

definition dns_documented :: "lib \<Rightarrow> bool" where
  "dns_documented L \<longleftrightarrow>
     (\<forall>s. byte_of 92 \<notin> set s \<longrightarrow> dns_fqdn L s = with_dot s)
     \<and> (\<forall>zn d. byte_of 92 \<notin> set zn \<and> byte_of 92 \<notin> set d \<and> suffix ''.'' zn
           \<longrightarrow> dns_is_sub L zn (d @ ''.'' @ zn))"

text \<open>A zone name in its canonical form, and a domain that a record of the zone can carry.\<close>

definition zone_name :: "string \<Rightarrow> bool" where
  "zone_name zn \<longleftrightarrow> list_all name_byte zn \<and> suffix ''.'' zn"

definition servable :: "lib \<Rightarrow> string \<Rightarrow> bool" where
  "servable L d \<longleftrightarrow> clean_domain L d \<and> byte_of 92 \<notin> set d"

lemma name_byteD: "name_byte c \<Longrightarrow> is_plain c \<and> is_ascii c \<and> lower_byte c = c \<and> c \<noteq> byte_of 92"
  by (auto simp: name_byte_def is_plain_def is_ascii_def)

lemma dot_name_byte [simp]: "name_byte (CHR ''.'')"
  by (simp add: name_byte_def is_plain_def lower_byte_def byte_of_def char_of_def)

lemma backslash_not_dot [simp]: "byte_of 92 \<noteq> CHR ''.''" "CHR ''.'' \<noteq> byte_of 92"
  by (simp_all add: byte_of_def char_of_def)

lemma to_lower_name: "list_all name_byte s \<Longrightarrow> to_lower L s = s"
  by (auto simp: to_lower_def list_all_iff dest: name_byteD intro!: map_idI)

lemma length_trim_suffix_dot:
  "length (trim_suffix d ''.'') = (if suffix ''.'' d then length d - 1 else length d)"
  by (auto simp: trim_suffix_def)

lemma clean_lower:
  assumes "clean_domain L d"
  shows "\<not> suffix ''.'' d" "map lower_byte d = d" "d \<noteq> []"
proof -
  have p: "list_all is_plain d" and n: "normalize_policy_domain L d = Inr d"
    using assms by (auto simp: clean_domain_def canonical_def)
  have "set (trim_suffix d ''.'') \<subseteq> set d" by (rule set_trim_suffix)
  then have "list_all is_ascii (trim_suffix d ''.'')"
    using p by (fastforce simp: list_all_iff is_plain_def is_ascii_def)
  then have e: "map lower_byte (trim_suffix d ''.'') = d"
    using n p by (simp add: normalize_policy_domain_def Let_def trim_space_plain to_lower_def split: if_splits)
  then have "length (trim_suffix d ''.'') = length d" by (metis length_map)
  moreover show "d \<noteq> []" using canonical_bounds clean_domain_def assms by blast
  ultimately show s: "\<not> suffix ''.'' d" by (cases d) (auto simp: length_trim_suffix_dot split: if_splits)
  show "map lower_byte d = d" using e s by (simp add: trim_suffix_def)
qed

lemma servable_name: "servable L d \<Longrightarrow> list_all name_byte d"
  using clean_lower(2) [of L d]
  by (auto simp: servable_def clean_domain_def list_all_iff name_byte_def
        map_eq_conv [of lower_byte d id, simplified])

text \<open>The client reads back from a record the domain the server put into it.\<close>

lemma policy_owner_served:
  assumes doc: "dns_documented L" and zn: "zone_name zn" and d: "servable L d"
  shows "policy_owner L zn (policy_rr cfg zn d) = Inr (Some d)"
proof -
  let ?o = "d @ ''.'' @ zn"
  have nb: "list_all name_byte ?o"
    using servable_name [OF d] zn
    by (simp add: zone_name_def dot_name_byte)
  then have bs: "byte_of 92 \<notin> set ?o"
    by (auto simp: list_all_iff dest: name_byteD)
  have sd: "suffix ''.'' ?o" using zn by (auto simp: zone_name_def suffix_def)
  have o: "to_lower L (dns_fqdn L ?o) = ?o"
    using doc bs sd nb by (auto simp: dns_documented_def with_dot_def to_lower_name)
  have sub: "dns_is_sub L zn ?o"
    using doc bs zn by (auto simp: dns_documented_def zone_name_def)
  have "trim_suffix (trim_suffix ?o zn) ''.'' = d"
    using trim_suffix_append [of "d @ ''.''" zn] trim_suffix_append [of d "''.''"] by simp
  then show ?thesis
    using o sub d by (simp add: policy_owner_def policy_rr_def header_def servable_def clean_domain_def canonical_def)
qed

lemma policy_owner_list_served:
  assumes "dns_documented L" and "zone_name zn" and "\<forall>d \<in> set ds. servable L d"
  shows "policy_owner_list L zn (map (policy_rr cfg zn) ds) = Inr ds"
  using assms(3) by (induction ds) (auto simp: policy_owner_served assms(1,2))

lemma policy_rr_not_soa [simp]: "list_all (Not \<circ> is_soa) (map (policy_rr cfg zn) ds)"
  by (auto simp: list_all_iff policy_rr_def)

lemma fold_zone:
  assumes "zone_name zn" and "to_lower L (dns_fqdn L z) = zn"
  shows "equal_fold L zn (to_lower L (dns_fqdn L z))"
  by (simp add: assms(2) equal_fold_def) (use assms in \<open>auto simp: zone_name_def list_all_iff dest: name_byteD\<close>)

subsection \<open>What the producers send\<close>

lemma axfr_chunks_concat:
  "concat (axfr_chunks L cfg zn chunk ls) =
   chunk @ map (policy_rr cfg zn \<circ> axfr_line L) (filter (Not \<circ> skip_line) ls)"
  by (induction ls arbitrary: chunk) (auto simp: Let_def)

lemma axfr_chunks_size:
  "length chunk < chunk_size \<Longrightarrow>
   \<forall>c \<in> set (axfr_chunks L cfg zn chunk ls). c \<noteq> [] \<and> length c \<le> chunk_size"
proof (induction ls arbitrary: chunk)
  case Nil
  then show ?case by simp
next
  case (Cons l ls)
  let ?c = "chunk @ [policy_rr cfg zn (axfr_line L l)]"
  show ?case
  proof (cases "skip_line l")
    case True
    with Cons show ?thesis by simp
  next
    case False
    have "\<forall>c \<in> set (axfr_chunks L cfg zn [] ls). c \<noteq> [] \<and> length c \<le> chunk_size"
      by (rule Cons.IH) (simp add: chunk_size_def)
    then show ?thesis
      using False Cons.prems Cons.IH [of ?c]
      by (auto simp: Let_def simp del: length_append_singleton)
  qed
qed

lemma axfr_line_clean: "servable L d \<Longrightarrow> axfr_line L d = d"
  using servable_name [of L d] clean_lower(1) [of L d] clean_domainD(1) [of L d]
  by (simp add: axfr_line_def servable_def to_lower_name trim_suffix_no)

text \<open>The AXFR of a file of clean domains, one per line.\<close>

lemma axfr_response_unlines:
  assumes "\<forall>d \<in> set ds. servable L d"
  shows "\<exists>rss. axfr_response L cfg zn s (unlines ds) =
            Xfr ([SOA (zone_soa zn s)] # rss @ [[SOA (zone_soa zn s)]]) True
          \<and> concat rss = map (policy_rr cfg zn) ds
          \<and> (\<forall>c \<in> set rss. c \<noteq> [] \<and> length c \<le> chunk_size)"
proof -
  have c: "\<forall>d \<in> set ds. clean_domain L d" using assms by (auto simp: servable_def)
  then have sc: "scan_lines max_line (unlines ds) = (ds, True)"
    by (intro scan_unlines) (auto dest: clean_domainD)
  have f: "filter (Not \<circ> skip_line) ds = ds" using c by (auto simp: filter_id_conv dest: clean_domainD)
  have "concat (axfr_chunks L cfg zn [] ds) = map (policy_rr cfg zn) ds"
    using assms by (simp add: axfr_chunks_concat f axfr_line_clean cong: map_cong)
  moreover have "\<forall>c \<in> set (axfr_chunks L cfg zn [] ds). c \<noteq> [] \<and> length c \<le> chunk_size"
    by (rule axfr_chunks_size) (simp add: chunk_size_def)
  ultimately show ?thesis
    by (intro exI [of _ "axfr_chunks L cfg zn [] ds"]) (simp add: axfr_response_def sc Let_def)
qed

subsection \<open>A slave connected to this server\<close>

text \<open>The message a client request stands for, and the channel it gets from the server.\<close>

definition request_msg :: "lib \<Rightarrow> xfr_request \<Rightarrow> dns_request" where
  "request_msg L rq =
     \<lparr>questions = [\<lparr>q_name = rq_zone rq,
                    q_type = (case rq_kind rq of Axfr \<Rightarrow> type_AXFR | Ixfr _ \<Rightarrow> type_IXFR)\<rparr>],
      authority = (case rq_kind rq of Axfr \<Rightarrow> [] | Ixfr s \<Rightarrow> [SOA (zone_soa (rq_zone rq) s)]),
      req_tsig = map_option (\<lambda>(n, a). \<lparr>ts_name = n, ts_alg = a\<rparr>) (rq_tsig rq)\<rparr>"

text \<open>
  Between the two ends miekg/dns packs the records of an envelope into one message and unpacks them
  again. That is the argument \<open>W\<close>: what the client gets for the answer section of one message, or nothing
  when the message cannot be packed. The server then closes the connection, which the client sees as an
  error of the stream.
\<close>

fun deliver :: "(rr list \<Rightarrow> rr list option) \<Rightarrow> bool \<Rightarrow> rr list list \<Rightarrow> envelope list" where
  "deliver W ok [] = (if ok then [] else [EnvError])"
| "deliver W ok (rs # rss) =
     (case W rs of None \<Rightarrow> [EnvError] | Some rs' \<Rightarrow> EnvRRs rs' # deliver W ok rss)"

definition link_server ::
  "lib \<Rightarrow> (rr list \<Rightarrow> rr list option) \<Rightarrow> rpz_server \<Rightarrow> nat \<Rightarrow> state \<Rightarrow> fs \<Rightarrow> peer \<Rightarrow> xfr_request \<Rightarrow> envelope list option" where
  "link_server L W sv used st F w rq =
     (case serve_dns L sv used st F w (request_msg L rq) of
        Failure _ \<Rightarrow> None
      | Answer rs \<Rightarrow> Some (deliver W True [rs])
      | Xfr rss ok \<Rightarrow> Some (deliver W ok rss))"

text \<open>
  What is documented of packing: a name of labels of at most 63 octets, together at most 255 on the
  wire, without the bytes that the text form escapes, comes back as it was, in records of the types used
  here, when the records take at most 64000 octets without compression (the rest of the 64 KiB of a
  message is left to its header, question and signature).
\<close>

definition wire_byte :: "char \<Rightarrow> bool" where
  "wire_byte c \<longleftrightarrow> 33 \<le> byte c \<and> byte c \<le> 126
     \<and> c \<notin> {CHR ''.'', CHR ''@'', CHR '';'', CHR ''('', CHR '')'', CHR 0x22, CHR 0x27, CHR 0x5C}"

definition wire_name :: "string \<Rightarrow> bool" where
  "wire_name s \<longleftrightarrow> suffix ''.'' s \<and> length s \<le> 254
     \<and> (\<forall>l \<in> set (split_on (CHR ''.'') (butlast s)). l \<noteq> [] \<and> length l \<le> 63 \<and> list_all wire_byte l)"

fun wire_rr :: "rr \<Rightarrow> bool" where
  "wire_rr (SOA s) = (wire_name (rr_name (soa_hdr s)) \<and> wire_name (soa_ns s) \<and> wire_name (soa_mbox s))"
| "wire_rr (CNAME h t) = (wire_name (rr_name h) \<and> wire_name t)"
| "wire_rr (OtherRR h) = False"

fun rr_octets :: "rr \<Rightarrow> nat" where
  "rr_octets (SOA s) = length (rr_name (soa_hdr s)) + length (soa_ns s) + length (soa_mbox s) + 33"
| "rr_octets (CNAME h t) = length (rr_name h) + length t + 12"
| "rr_octets (OtherRR h) = 0"

definition wire_documented :: "(rr list \<Rightarrow> rr list option) \<Rightarrow> bool" where
  "wire_documented W \<longleftrightarrow> (\<forall>rs. list_all wire_rr rs \<and> sum_list (map rr_octets rs) \<le> 64000 \<longrightarrow> W rs = Some rs)"

text \<open>A zone and domains whose records fit: a full chunk of 200 records with this target fills 64000 octets.\<close>

definition wire_zone :: "config \<Rightarrow> string \<Rightarrow> string set \<Rightarrow> bool" where
  "wire_zone cfg zn ds \<longleftrightarrow> wire_rr (SOA (zone_soa zn 0)) \<and> length (with_dot (cname_target cfg)) \<le> 54
     \<and> (\<forall>d \<in> ds. wire_rr (policy_rr cfg zn d))"

lemma deliver_all: "\<forall>rs \<in> set rss. W rs = Some rs \<Longrightarrow> deliver W ok rss = map EnvRRs rss @ (if ok then [] else [EnvError])"
  by (induction rss) auto

lemma wire_name_length: "wire_name s \<Longrightarrow> length s \<le> 254"
  by (simp add: wire_name_def)

lemma wire_soa_rr:
  assumes "wire_zone cfg zn ds"
  shows "wire_rr (SOA (zone_soa zn s))" "rr_octets (SOA (zone_soa zn s)) \<le> 795"
proof -
  show w: "wire_rr (SOA (zone_soa zn s))" using assms by (simp add: wire_zone_def zone_soa_def)
  show "rr_octets (SOA (zone_soa zn s)) \<le> 795"
    using w wire_name_length [of "rr_name (soa_hdr (zone_soa zn s))"] wire_name_length [of "soa_ns (zone_soa zn s)"]
      wire_name_length [of "soa_mbox (zone_soa zn s)"] by simp
qed

lemma wire_soa:
  assumes "wire_documented W" and "wire_zone cfg zn ds"
  shows "W [SOA (zone_soa zn s)] = Some [SOA (zone_soa zn s)]"
    "W [SOA (zone_soa zn s), SOA (zone_soa zn s')] = Some [SOA (zone_soa zn s), SOA (zone_soa zn s')]"
proof -
  note a = wire_soa_rr [OF assms(2), of s] and b = wire_soa_rr [OF assms(2), of s']
  show "W [SOA (zone_soa zn s)] = Some [SOA (zone_soa zn s)]"
    using assms(1) a by (simp add: wire_documented_def del: wire_rr.simps rr_octets.simps)
  show "W [SOA (zone_soa zn s), SOA (zone_soa zn s')] = Some [SOA (zone_soa zn s), SOA (zone_soa zn s')]"
    using assms(1) a b by (simp add: wire_documented_def del: wire_rr.simps rr_octets.simps)
qed

lemma wire_policy_rr:
  assumes "wire_zone cfg zn ds" and "d \<in> ds"
  shows "wire_rr (policy_rr cfg zn d)" "rr_octets (policy_rr cfg zn d) \<le> 320"
proof -
  show w: "wire_rr (policy_rr cfg zn d)" using assms by (simp add: wire_zone_def)
  then show "rr_octets (policy_rr cfg zn d) \<le> 320"
    using assms(1) by (auto simp: policy_rr_def wire_zone_def dest: wire_name_length)
qed

lemma wire_chunk:
  assumes "wire_documented W" and "wire_zone cfg zn ds" and "set rs \<subseteq> policy_rr cfg zn ` ds" and "length rs \<le> chunk_size"
  shows "W rs = Some rs"
proof -
  have o: "rr_octets r \<le> 320 \<and> wire_rr r" if "r \<in> set rs" for r
    using wire_policy_rr [OF assms(2)] assms(3) that by auto
  have "sum_list (map rr_octets rs) \<le> length rs * 320"
    using o by (induction rs) (auto simp: add_mono)
  also have "\<dots> \<le> 64000" using assms(4) by (simp add: chunk_size_def)
  finally show ?thesis using o assms(1) by (simp add: wire_documented_def list_all_iff)
qed

text \<open>
  A client and a server that agree on a zone, with the client on the access list and its
  signature accepted.
\<close>

definition linked :: "lib \<Rightarrow> rpz_server \<Rightarrow> peer \<Rightarrow> config \<Rightarrow> bool" where
  "linked L sv w cfg \<longleftrightarrow>
     (let zn = cfg_zone L (sv_cfg sv)
      in zone_name zn \<and> to_lower L (dns_fqdn L (zone cfg)) = zn
         \<and> transfer_allowed sv (remote_ip (remote w))
         \<and> (tsig_key (sv_cfg sv) = [] \<or>
             (tsig_key cfg \<noteq> [] \<and> tsig_verified w
              \<and> equal_fold L (dns_fqdn L (tsig_key cfg)) (dns_fqdn L (tsig_key (sv_cfg sv)))
              \<and> equal_fold L (dns_fqdn L (tsig_algorithm cfg)) (dns_fqdn L (tsig_algorithm (sv_cfg sv))))))"

lemma sync_request_fields [simp]:
  "rq_zone (sync_request L cfg cur up) = dns_fqdn L (zone cfg)"
  "rq_tsig (sync_request L cfg cur up) = sign L cfg"
  by (simp_all add: sync_request_def transfer_request_def)

lemma linked_authorized:
  assumes "linked L sv w cfg"
  shows "transfer_authorized L sv w (request_msg L (sync_request L cfg cur up))"
  using assms
  by (auto simp: linked_def transfer_authorized_def Let_def request_msg_def sign_def)

lemma serve_sync_request:
  assumes "linked L sv w cfg" and "sync_request L cfg cur up = rq"
  shows "serve_dns L sv used st F w (request_msg L rq) =
    (case rq_kind rq of
       Axfr \<Rightarrow> handle_axfr L sv used st F (cfg_zone L (sv_cfg sv))
     | Ixfr s \<Rightarrow> handle_ixfr L sv used st F (request_msg L rq) (cfg_zone L (sv_cfg sv)))"
  using assms linked_authorized [OF assms(1), of cur up]
  by (auto simp: serve_dns_def request_msg_def Let_def linked_def split: xfr_kind.splits)

lemma header_name [simp]: "rr_name (header a b) = a" "rr_type (header a b) = b"
  by (simp_all add: header_def)

lemma zone_soa_sel [simp]: "soa_serial (zone_soa zn s) = s" "soa_hdr (zone_soa zn s) = header zn type_SOA"
  by (simp_all add: zone_soa_def)

lemma ixfr_client_serial:
  "rq_kind rq = Ixfr s \<Longrightarrow> client_serial (authority (request_msg L rq)) = s"
  by (simp add: request_msg_def)

text \<open>Reading the head of a well formed AXFR stream.\<close>

lemma read_head_axfr:
  assumes "\<forall>c \<in> set rss. c \<noteq> []"
  shows "\<exists>hs envs. read_head [] (map EnvRRs ([a] # rss @ [[b]])) = Inr (a # hs, map EnvRRs envs)
            \<and> hs \<noteq> [] \<and> hs @ concat envs = concat rss @ [b] \<and> (rss = [] \<longrightarrow> hs = [b])
            \<and> (rss \<noteq> [] \<longrightarrow> hs = hd rss)"
proof (cases rss)
  case Nil
  then show ?thesis
    by (intro exI [of _ "[b]"] exI [of _ "[]"]) (simp add: read_head.simps)
next
  case (Cons c cs)
  then have "c \<noteq> []" using assms by simp
  then have "read_head [a] (EnvRRs c # map EnvRRs (cs @ [[b]])) = Inr (a # c, map EnvRRs (cs @ [[b]]))"
    by (cases c) (simp_all add: read_head.simps)
  then show ?thesis
    using \<open>c \<noteq> []\<close> Cons
    by (intro exI [of _ c] exI [of _ "cs @ [[b]]"]) (simp add: read_head.simps [of "[]"])
qed

lemma axfr_stream_whole:
  assumes doc: "dns_documented L" and zn: "zone_name zn" and ds: "\<forall>d \<in> set ds. servable L d"
    and io: "\<forall>k. io (StageWrite k)" and lim: "int (length ds + 1) \<le> limit"
    and split: "hs @ concat envs = map (policy_rr cfg zn) ds @ [SOA (zone_soa zn s)]"
  shows "(case axfr_records L io zn s limit (0, False, []) hs of Inl e \<Rightarrow> Inl e
          | Inr st \<Rightarrow> axfr_envelopes L io zn s limit st (map EnvRRs envs)) = Inr (length ds + 1, True, ds)"
proof -
  have e: "equal_fold L zn zn" by (simp add: equal_fold_def) (use zn in \<open>auto simp: zone_name_def list_all_iff dest: name_byteD\<close>)
  have "axfr_records L io zn s limit (0, False, []) (hs @ concat envs) = Inr (length ds + 1, True, ds)"
    unfolding split axfr_records_append
    using axfr_records_owners [OF policy_rr_not_soa policy_owner_list_served [OF doc zn ds], of io 0 cfg limit s "[]"]
      io lim e
    by (simp add: axfr_process_def)
  then show ?thesis unfolding axfr_envelopes_concat axfr_records_append .
qed

text \<open>A full transfer leaves, byte for byte, the domain list of the server in the staging file.\<close>

lemma axfr_replica:
  assumes doc: "dns_documented L" and lk: "linked L sv w cfg" and rq: "rq_kind (sync_request L cfg cur up) = Axfr"
    and raw: "G (raw_domain_file (sv_cfg sv)) = Some (unlines ds)" and ds: "\<forall>d \<in> set ds. servable L d"
    and free: "used < sv_slots sv" and up: "up = 0 \<or> up = serial st" and io: "\<forall>x. io x"
    and lim: "int (length ds + 1) \<le> effective_limit cfg"
    and wire: "wire_documented W" "wire_zone (sv_cfg sv) (cfg_zone L (sv_cfg sv)) (set ds)"
  shows "sync_ixfr L now io stage (link_server L W sv used st G w) cfg cur up F =
     (Inr (Some \<lparr>from_serial = cur, to_serial = serial st, d_timestamp = now, full = True,
                 added = [], deleted = [], staged_raw = stage\<rparr>), F(stage \<mapsto> unlines ds))"
proof -
  let ?zn = "cfg_zone L (sv_cfg sv)" and ?soa = "zone_soa (cfg_zone L (sv_cfg sv)) (serial st)"
  have zn: "zone_name ?zn" "to_lower L (dns_fqdn L (zone cfg)) = ?zn"
    using lk by (auto simp: linked_def Let_def)
  have eq: "equal_fold L ?zn ?zn" using fold_zone [OF zn] zn(2) by simp
  obtain rss where rss: "axfr_response L (sv_cfg sv) ?zn (serial st) (unlines ds) =
        Xfr ([SOA ?soa] # rss @ [[SOA ?soa]]) True" "concat rss = map (policy_rr (sv_cfg sv) ?zn) ds"
      "\<forall>c \<in> set rss. c \<noteq> [] \<and> length c \<le> chunk_size"
    using axfr_response_unlines [OF ds, of "sv_cfg sv" ?zn "serial st"] by blast
  then have ne: "\<forall>c \<in> set rss. c \<noteq> []" by blast
  have sub: "set c \<subseteq> policy_rr (sv_cfg sv) ?zn ` set ds" if "c \<in> set rss" for c
  proof -
    have "set c \<subseteq> set (concat rss)" using that by auto
    then show ?thesis by (simp add: rss(2))
  qed
  have "W c = Some c" if "c \<in> set ([SOA ?soa] # rss @ [[SOA ?soa]])" for c
    using that wire_chunk [OF wire sub] wire_soa(1) [OF wire] rss(3) by auto
  then have del: "deliver W True ([SOA ?soa] # rss @ [[SOA ?soa]]) = map EnvRRs ([SOA ?soa] # rss @ [[SOA ?soa]])"
    by (subst deliver_all) auto
  have "serve_dns L sv used st G w (request_msg L (sync_request L cfg cur up)) = Xfr ([SOA ?soa] # rss @ [[SOA ?soa]]) True"
    using serve_sync_request [OF lk refl, where cur = cur and up = up and used = used and st = st and F = G] rq free raw rss(1)
    by (simp add: handle_axfr_def)
  then have serve: "link_server L W sv used st G w (sync_request L cfg cur up)
      = Some (map EnvRRs ([SOA ?soa] # rss @ [[SOA ?soa]]))"
    by (simp only: link_server_def response.case del)
  obtain hs envs where h: "read_head [] (map EnvRRs ([SOA ?soa] # rss @ [[SOA ?soa]])) = Inr (SOA ?soa # hs, map EnvRRs envs)"
      "hs \<noteq> []" "hs @ concat envs = concat rss @ [SOA ?soa]" "rss = [] \<longrightarrow> hs = [SOA ?soa]" "rss \<noteq> [] \<longrightarrow> hs = hd rss"
    using read_head_axfr [OF ne, of "SOA ?soa" "SOA ?soa"] by metis
  have not_ixfr: "\<not> is_ixfr_response (SOA ?soa # hs)"
  proof (cases rss)
    case Nil
    with h(4) show ?thesis by simp
  next
    case (Cons c cs)
    then have "hs = c" using h(5) by simp
    moreover have "set c \<subseteq> set (map (policy_rr (sv_cfg sv) ?zn) ds)"
      using rss(2) Cons by (metis concat.simps(2) set_append Un_upper1)
    ultimately show ?thesis using h(2)
      by (cases hs) (auto simp: policy_rr_def)
  qed
  have split: "hs @ concat envs = map (policy_rr (sv_cfg sv) ?zn) ds @ [SOA ?soa]"
    using h(3) rss(2) by simp
  note whole = axfr_stream_whole [OF doc zn(1) ds _ lim split, of io]
  have "stream_axfr L now io stage cfg cur hs (serial st) (map EnvRRs envs) (effective_limit cfg) F =
     (Inr \<lparr>from_serial = cur, to_serial = serial st, d_timestamp = now, full = True,
           added = [], deleted = [], staged_raw = stage\<rparr>, F(stage \<mapsto> unlines ds))"
    using whole io unfolding stream_axfr_def Let_def zn(2) by simp
  then show ?thesis
    using serve h(1,2) not_ixfr zn(2) eq up
    by (auto simp: sync_ixfr_def check_serial_def)
qed

text \<open>An incremental transfer hands over exactly the delta of the server.\<close>

lemma ixfr_replica:
  assumes doc: "dns_documented L" and lk: "linked L sv w cfg" and rq: "rq_kind (sync_request L cfg cur up) = Ixfr cur"
    and d: "matched_delta st cur = Some d" "delta_wf d" "\<forall>x \<in> set (added d) \<union> set (deleted d). servable L x"
    and gt: "serial_greater (serial st) cur"
    and free: "used < sv_slots sv" and up: "up = 0 \<or> up = serial st"
    and lim: "int (length (added d) + length (deleted d) + 4) \<le> effective_limit cfg"
    and wire: "wire_documented W" "wire_zone (sv_cfg sv) (cfg_zone L (sv_cfg sv)) (set (added d) \<union> set (deleted d))"
  shows "\<exists>d'. sync_ixfr L now io stage (link_server L W sv used st G w) cfg cur up F = (Inr (Some d'), F)
     \<and> from_serial d' = cur \<and> to_serial d' = serial st \<and> \<not> full d' \<and> delta_wf d'
     \<and> (\<forall>S. delta_effect d' S = (S - set (deleted d)) \<union> set (added d))"
proof -
  let ?zn = "cfg_zone L (sv_cfg sv)" and ?rr = "policy_rr (sv_cfg sv) (cfg_zone L (sv_cfg sv))"
  let ?new = "zone_soa ?zn (serial st)" and ?old = "zone_soa ?zn cur"
  have zn: "zone_name ?zn" "to_lower L (dns_fqdn L (zone cfg)) = ?zn"
    using lk by (auto simp: linked_def Let_def)
  have eq: "equal_fold L ?zn ?zn" using fold_zone [OF zn] zn(2) by simp
  have to: "to_serial d = serial st" using d(1) by (auto simp: matched_delta_def find_Some_iff)
  have srv: "\<forall>x \<in> set (added d). servable L x" "\<forall>x \<in> set (deleted d). servable L x" using d(3) by auto
  have cut: "map (\<lambda>x. [?rr (trim_suffix x ''.'')]) xs = map (\<lambda>x. [?rr x]) xs" if "\<forall>x \<in> set xs. servable L x" for xs
    using that by (auto simp: servable_def clean_lower(1) trim_suffix_no)
  define rss where "rss = map (\<lambda>x. [?rr x]) (deleted d) @ [[SOA ?new]] @ map (\<lambda>x. [?rr x]) (added d) @ [[SOA ?new]]"
  have cs: "cur \<noteq> 0" using rq by (auto simp: sync_request_def transfer_request_def split: if_splits)
  have "W c = Some c" if "c \<in> set ([SOA ?new, SOA ?old] # rss)" for c
    using that wire_chunk [OF wire, of "[_]"] wire_soa [OF wire] by (auto simp: rss_def chunk_size_def)
  then have del: "deliver W True ([SOA ?new, SOA ?old] # rss) = map EnvRRs ([SOA ?new, SOA ?old] # rss)"
    by (subst deliver_all) auto
  have "serve_dns L sv used st G w (request_msg L (sync_request L cfg cur up)) = Xfr ([SOA ?new, SOA ?old] # rss) True"
    using serve_sync_request [OF lk refl, where cur = cur and up = up and used = used and st = st and F = G] rq free d(1) gt to
    by (simp add: handle_ixfr_def ixfr_client_serial ixfr_response_def cut srv rss_def Let_def)
  then have serve: "link_server L W sv used st G w (sync_request L cfg cur up) = Some (map EnvRRs ([SOA ?new, SOA ?old] # rss))"
    by (simp only: link_server_def response.case del)
  have conc: "concat rss = map ?rr (deleted d) @ SOA ?new # map ?rr (added d) @ [SOA ?new]"
    by (simp add: rss_def concat_map_singleton)
  define df where "df = \<lparr>df_from = ?old, df_dels = map ?rr (deleted d), df_to = ?new, df_adds = map ?rr (added d)\<rparr>"
  have po: "policy_owners L (map ?rr xs) ?zn = Inr (sorted_list_of_set (set xs))"
    if "\<forall>x \<in> set xs. servable L x" for xs
    using policy_owner_list_served [OF doc zn(1) that] by (simp add: policy_owners_def)
  have chain: "chain_ok L ?zn cur (soa_serial ?new) [df]"
    using eq gt by (simp add: df_def diff_ok_def po srv)
  have recs: "SOA ?new # diff_records [df] @ [SOA ?new] = [SOA ?new, SOA ?old] @ concat rss"
    by (simp add: conc df_def)
  obtain d' where d': "parse_transfer_records L now ([SOA ?new, SOA ?old] @ concat rss) (zone cfg) cur = Inr (Some d')"
    "from_serial d' = cur" "to_serial d' = serial st" "\<not> full d'" "delta_wf d'" "staged_raw d' = []"
    "\<forall>S. delta_effect d' S = foldl (apply_diff L ?zn) S [df]"
    using parse_ixfr_chain [of L "zone cfg" cur ?new "[df]" now, unfolded zn(2) recs] chain eq gt by auto
  have "gather (effective_limit cfg) [SOA ?new, SOA ?old] (map EnvRRs rss) = Inr ([SOA ?new, SOA ?old] @ concat rss)"
    using lim by (intro gather_all) (simp add: conc)
  moreover have "soa_serial ?old \<noteq> soa_serial ?new" using gt by auto
  moreover have "read_head [] (map EnvRRs ([SOA ?new, SOA ?old] # rss)) = Inr ([SOA ?new, SOA ?old], map EnvRRs rss)"
    by (simp add: read_head.simps)
  ultimately have "sync_ixfr L now io stage (link_server L W sv used st G w) cfg cur up F = (Inr (Some d'), F)"
    using serve d'(1,3) zn(2) eq up by (auto simp: sync_ixfr_def check_serial_def)
  moreover have "delta_effect d' S = (S - set (deleted d)) \<union> set (added d)" for S
    using d'(7) by (simp add: apply_diff_def df_def owners_set_def po srv)
  ultimately show ?thesis using d' by blast
qed

subsection \<open>Properties\<close>

text \<open>
  C9: No record of the zone leaves the server unless the peer address is in the access list, the
  request carries the configured TSIG key and algorithm with a verified signature (when a key is
  configured), the question names the zone and a transfer slot is free.
\<close>

theorem transfer_needs_authorization:
  assumes "serve_dns L sv used st F w r = Xfr rss ok"
  shows "(\<exists>n \<in> set (sv_acl sv). net_contains n (remote_ip (remote w)))
     \<and> (tsig_key (sv_cfg sv) = [] \<or>
         (\<exists>t. req_tsig r = Some t \<and> tsig_verified w
            \<and> equal_fold L (ts_name t) (dns_fqdn L (tsig_key (sv_cfg sv)))
            \<and> equal_fold L (ts_alg t) (dns_fqdn L (tsig_algorithm (sv_cfg sv)))))
     \<and> used < sv_slots sv
     \<and> (\<exists>q qs. questions r = q # qs \<and> to_lower L (q_name q) = cfg_zone L (sv_cfg sv)
          \<and> q_type q \<in> {type_AXFR, type_IXFR})"
proof -
  obtain q qs where q: "questions r = q # qs" "to_lower L (q_name q) = cfg_zone L (sv_cfg sv)"
      "q_type q \<in> {type_AXFR, type_IXFR}" and a: "transfer_authorized L sv w r"
    using assms by (auto simp: serve_dns_def Let_def split: list.splits if_splits)
  have "used < sv_slots sv"
    using assms q by (auto simp: serve_dns_def Let_def handle_ixfr_def handle_axfr_def ixfr_response_def
        axfr_response_def split: if_splits option.splits)
  with a q show ?thesis
    by (auto simp: transfer_authorized_def transfer_allowed_def Let_def split: option.splits)
qed

definition example_peer :: peer where
  "example_peer = \<lparr>remote = TCPAddr [10, 0, 0, 9], tsig_verified = True\<rparr>"

definition example_state :: state where
  "example_state = \<lparr>serial = 5, last_update = 0, total_domains = 2, cdb_sha256 = [],
     deltas = [\<lparr>from_serial = 4, to_serial = 5, d_timestamp = 0, full = False, added = [''c.d''],
                deleted = [''a.b''], staged_raw = []\<rparr>]\<rparr>"

definition example_published :: fs where
  "example_published = [''/d/raw.txt'' \<mapsto> unlines [''c.d'', ''x.y'']]"

definition example_server :: rpz_server where "example_server = new_rpz_server example_cfg"

theorem transfer_needs_authorization_witness:
  "\<exists>rss. serve_dns example_lib example_server 1 example_state example_published example_peer
      (request_msg example_lib (transfer_request example_lib example_cfg 0)) = Xfr rss True
    \<and> (\<exists>n \<in> set (sv_acl example_server). net_contains n [10, 0, 0, 9])"
proof -
  have "(case serve_dns example_lib example_server 1 example_state example_published example_peer
      (request_msg example_lib (transfer_request example_lib example_cfg 0)) of Xfr _ ok \<Rightarrow> ok | _ \<Rightarrow> False)"
    by code_simp
  then obtain rss where r: "serve_dns example_lib example_server 1 example_state example_published example_peer
      (request_msg example_lib (transfer_request example_lib example_cfg 0)) = Xfr rss True"
    by (auto split: response.splits)
  from transfer_needs_authorization [OF r] r show ?thesis by (auto simp: example_peer_def)
qed

lemma default_acl_nets:
  "sv_acl (new_rpz_server (cfg\<lparr>transfer_acl := []\<rparr>)) =
     [IPNet [127, 0, 0, 0] [255, 0, 0, 0], IPNet (replicate 15 0 @ [1]) (replicate 16 255)]"
proof -
  have "List.map_filter (\<lambda>c. map_option snd (parse_cidr c)) default_acl =
     [IPNet [127, 0, 0, 0] [255, 0, 0, 0], IPNet (replicate 15 0 @ [1]) (replicate 16 255)]"
    by code_simp
  then show ?thesis by (simp add: new_rpz_server_def)
qed

lemma and_255 [simp]: "(a :: 8 word) AND 255 = a" "(a :: 8 word) AND - 1 = a"
proof -
  have "(255 :: 8 word) = - 1" by simp
  then show "(a :: 8 word) AND 255 = a" by (metis word_and_max)
qed simp

lemma default_acl_numbers:
  "network_number (IPNet [127, 0, 0, 0] [255, 0, 0, 0]) = Some ([127, 0, 0, 0], [255, 0, 0, 0])"
  "network_number (IPNet (replicate 15 0 @ [1]) (replicate 16 255)) = Some (replicate 15 0 @ [1], replicate 16 255)"
  "map2 (AND) (replicate 15 0 @ [1 :: 8 word]) (replicate 16 255) = replicate 15 0 @ [1]"
  by code_simp+

text \<open>
  A server whose configuration leaves the access list empty serves transfers to loopback
  addresses only: an IPv4 peer in 127.0.0.0/8, in its 4 byte or its mapped 16 byte form, or the
  IPv6 loopback address.
\<close>

lemma default_acl_loopback:
  assumes "length x = 16" and "to4 x = []"
  shows "(transfer_allowed (new_rpz_server (cfg\<lparr>transfer_acl := []\<rparr>)) [a, b, c, d] \<longleftrightarrow> a = 127)
     \<and> (transfer_allowed (new_rpz_server (cfg\<lparr>transfer_acl := []\<rparr>)) (v4_in_v6 @ [a, b, c, d]) \<longleftrightarrow> a = 127)
     \<and> (transfer_allowed (new_rpz_server (cfg\<lparr>transfer_acl := []\<rparr>)) x \<longleftrightarrow> x = replicate 15 0 @ [1])"
proof -
  have v4: "net_contains (IPNet [127, 0, 0, 0] [255, 0, 0, 0]) [a, b, c, d] \<longleftrightarrow> a = 127"
      "\<not> net_contains (IPNet (replicate 15 0 @ [1]) (replicate 16 255)) [a, b, c, d]"
    by (auto simp: net_contains_def default_acl_numbers)
  have id: "map2 (AND) x (replicate 16 255) = x"
    using assms(1) by (intro nth_equalityI) auto
  have v6: "\<not> net_contains (IPNet [127, 0, 0, 0] [255, 0, 0, 0]) x"
      "net_contains (IPNet (replicate 15 0 @ [1]) (replicate 16 255)) x \<longleftrightarrow> x = replicate 15 0 @ [1]"
    using assms id by (auto simp: net_contains_def default_acl_numbers)
  have "transfer_allowed (new_rpz_server (cfg\<lparr>transfer_acl := []\<rparr>)) y \<longleftrightarrow>
      net_contains (IPNet [127, 0, 0, 0] [255, 0, 0, 0]) y
      \<or> net_contains (IPNet (replicate 15 0 @ [1]) (replicate 16 255)) y" for y
    by (simp add: transfer_allowed_def default_acl_nets)
  then show ?thesis using v4 v6 by (simp add: net_contains_mapped)
qed

theorem default_acl_loopback_witness:
  "transfer_allowed (new_rpz_server (example_cfg\<lparr>transfer_acl := []\<rparr>)) (replicate 15 0 @ [1])
   \<and> \<not> transfer_allowed (new_rpz_server (example_cfg\<lparr>transfer_acl := []\<rparr>)) [10, 0, 0, 1]"
proof -
  have l: "length (replicate 15 0 @ [1] :: ip) = 16" by simp
  have t: "to4 (replicate 15 0 @ [1]) = []" by code_simp
  show ?thesis using default_acl_loopback [OF l t, of example_cfg 10 0 0 1] by simp
qed

text \<open>
  C3: AXFR end to end over the wire. For a published file of canonical domains that DNS messages carry
  unchanged (each owner a name of labels of at most 63 octets, at most 255 together, without bytes that
  miekg/dns escapes; a target of at most 54 octets), a slave that asks this server for the whole zone
  obtains, byte for byte, the domain list of the file, tagged with the serial of the server, for any
  number of domains up to its record limit.
\<close>

theorem axfr_round_trip:
  assumes "dns_documented L" and "linked L sv w cfg" and "rq_kind (sync_request L cfg cur up) = Axfr"
    and "G (raw_domain_file (sv_cfg sv)) = Some (unlines ds)" and "\<forall>d \<in> set ds. servable L d"
    and "used < sv_slots sv" and "up = 0 \<or> up = serial st" and "\<forall>x. io x"
    and "int (length ds + 1) \<le> effective_limit cfg"
    and "wire_documented W" and "wire_zone (sv_cfg sv) (cfg_zone L (sv_cfg sv)) (set ds)"
  shows "sync_ixfr L now io stage (link_server L W sv used st G w) cfg cur up F =
     (Inr (Some \<lparr>from_serial = cur, to_serial = serial st, d_timestamp = now, full = True,
                 added = [], deleted = [], staged_raw = stage\<rparr>), F(stage \<mapsto> unlines ds))"
  by (rule axfr_replica [where G = G and io = io, OF assms])

definition example_wire :: "rr list \<Rightarrow> rr list option" where
  "example_wire rs = (if list_all wire_rr rs \<and> sum_list (map rr_octets rs) \<le> 64000 then Some rs else None)"

lemma example_wire_documented: "wire_documented example_wire"
  by (simp add: wire_documented_def example_wire_def)

lemma example_wire_zone:
  "wire_zone (sv_cfg example_server) (cfg_zone example_lib (sv_cfg example_server)) (set [''c.d'', ''x.y''])"
  "wire_zone (sv_cfg example_server) (cfg_zone example_lib (sv_cfg example_server)) (set [''c.d''] \<union> set [''a.b''])"
  unfolding wire_zone_def by code_simp+

lemma example_documented: "dns_documented example_lib"
  by (auto simp: dns_documented_def example_lib_def with_dot_def suffix_def)

lemma example_linked: "linked example_lib example_server example_peer example_cfg"
  by code_simp

lemma example_servable: "\<forall>d \<in> set [''c.d'', ''x.y'']. servable example_lib d"
  unfolding servable_def clean_domain_def canonical_def by code_simp

lemma example_slots: "1 < sv_slots example_server"
  by (simp add: example_server_def new_rpz_server_def example_cfg_def)

theorem axfr_round_trip_witness:
  "sync_ixfr example_lib 7 (\<lambda>_. True) ''/d/st'' (link_server example_lib example_wire example_server 1 example_state example_published example_peer)
      example_cfg 0 5 Map.empty =
     (Inr (Some \<lparr>from_serial = 0, to_serial = 5, d_timestamp = 7, full = True,
                 added = [], deleted = [], staged_raw = ''/d/st''\<rparr>), [''/d/st'' \<mapsto> unlines [''c.d'', ''x.y'']])"
proof -
  have s: "serial example_state = 5" by (simp add: example_state_def)
  show ?thesis
    using axfr_round_trip [OF example_documented example_linked, of 0 5 example_published "[''c.d'', ''x.y'']" 1
        example_state "\<lambda>_. True" example_wire 7 "''/d/st''" Map.empty, OF _ _ _ _ _ _ _ example_wire_documented
        example_wire_zone(1)] example_servable example_slots
    by (simp add: s example_published_def example_server_def new_rpz_server_def example_cfg_def
        sync_request_def transfer_request_def effective_limit_def)
qed

text \<open>
  C4: IXFR end to end over the wire. A slave at a serial for which the server keeps a delta, of domains
  that DNS messages carry unchanged, obtains a delta with the same serials that changes every set of
  domains in the same way; no file is written.
\<close>

theorem ixfr_round_trip:
  assumes "dns_documented L" and "linked L sv w cfg" and "rq_kind (sync_request L cfg cur up) = Ixfr cur"
    and "matched_delta st cur = Some d" and "delta_wf d"
    and "\<forall>x \<in> set (added d) \<union> set (deleted d). servable L x"
    and "serial_greater (serial st) cur" and "used < sv_slots sv" and "up = 0 \<or> up = serial st"
    and "int (length (added d) + length (deleted d) + 4) \<le> effective_limit cfg"
    and "wire_documented W" and "wire_zone (sv_cfg sv) (cfg_zone L (sv_cfg sv)) (set (added d) \<union> set (deleted d))"
  shows "\<exists>d'. sync_ixfr L now io stage (link_server L W sv used st G w) cfg cur up F = (Inr (Some d'), F)
     \<and> from_serial d' = cur \<and> to_serial d' = serial st \<and> \<not> full d' \<and> delta_wf d'
     \<and> (\<forall>S. delta_effect d' S = (S - set (deleted d)) \<union> set (added d))"
  by (rule ixfr_replica [OF assms])

theorem ixfr_round_trip_witness:
  "\<exists>d'. sync_ixfr example_lib 7 (\<lambda>_. False) ''/d/st'' (link_server example_lib example_wire example_server 1 example_state example_published example_peer)
      example_cfg 4 5 Map.empty = (Inr (Some d'), Map.empty)
     \<and> delta_effect d' {''a.b'', ''x.y''} = {''c.d'', ''x.y''}"
proof -
  let ?d = "\<lparr>from_serial = 4, to_serial = 5, d_timestamp = 0, full = False, added = [''c.d''],
              deleted = [''a.b''], staged_raw = []\<rparr>"
  have m: "matched_delta example_state 4 = Some ?d" "serial_greater (serial example_state) 4"
    "rq_kind (sync_request example_lib example_cfg 4 5) = Ixfr 4" "serial example_state = 5"
    by code_simp+
  have d: "delta_wf ?d" "\<forall>x \<in> set (added ?d) \<union> set (deleted ?d). servable example_lib x"
    unfolding delta_wf_def servable_def clean_domain_def canonical_def by code_simp+
  obtain d' where "sync_ixfr example_lib 7 (\<lambda>_. False) ''/d/st''
      (link_server example_lib example_wire example_server 1 example_state example_published example_peer) example_cfg 4 5 Map.empty
        = (Inr (Some d'), Map.empty)" "\<forall>S. delta_effect d' S = (S - set (deleted ?d)) \<union> set (added ?d)"
    using ixfr_round_trip [OF example_documented example_linked m(3,1) d m(2) example_slots _ _ example_wire_documented,
        where now = 7 and io = "\<lambda>_. False" and stage = "''/d/st''" and F = Map.empty and G = example_published]
      example_wire_zone(2) by (auto simp: effective_limit_def example_cfg_def m(4))
  then show ?thesis by (intro exI [of _ d']) auto
qed

end
