(* ===== verification/Rpz_Upstream.thy ===== *)
theory Rpz_Upstream
  imports Rpz_Server
begin

text \<open>
  What the transfer client of \<open>tools/rpz-master\<close> can rely on when its upstream follows RFC 5936 and
  RFC 1995. \<open>U\<close> is the history of the upstream zone, the set of policy domains it has at each serial.
  An honest upstream sends, over a stream that ends without an error, its zone at one serial, or a chain
  of difference sequences of that history, or a single SOA. The theory shows that whatever delta
  \<open>SyncIXFR\<close> returns from such a stream, in memory or in its staging file, is the one of the history.
\<close>

subsection \<open>Files and deltas that agree with the history\<close>

definition good_file :: "lib \<Rightarrow> (u32 \<Rightarrow> string set) \<Rightarrow> u32 \<Rightarrow> bytes \<Rightarrow> bool" where
  "good_file L U s b \<longleftrightarrow> set (file_domains L b) = U s \<and> (\<forall>x \<in> set (file_domains L b). clean_domain L x)"

definition good_delta :: "lib \<Rightarrow> (u32 \<Rightarrow> string set) \<Rightarrow> delta \<Rightarrow> bool" where
  "good_delta L U d \<longleftrightarrow> (\<forall>x \<in> set (added d) \<union> set (deleted d). clean_domain L x)
     \<and> U (to_serial d) = delta_effect d (U (from_serial d))"

definition good_fetch :: "lib \<Rightarrow> (u32 \<Rightarrow> string set) \<Rightarrow> delta \<Rightarrow> fs \<Rightarrow> bool" where
  "good_fetch L U d F \<longleftrightarrow>
     (if full d then (\<exists>b. F (staged_raw d) = Some b \<and> good_file L U (to_serial d) b) else good_delta L U d)"

subsection \<open>An honest upstream\<close>

text \<open>The records of a stream, and the three forms of a transfer of the history.\<close>

fun stream_records :: "envelope list \<Rightarrow> rr list" where
  "stream_records [] = []"
| "stream_records (EnvError # es) = stream_records es"
| "stream_records (EnvRRs rs # es) = rs @ stream_records es"

definition axfr_of :: "lib \<Rightarrow> string \<Rightarrow> (u32 \<Rightarrow> string set) \<Rightarrow> rr list \<Rightarrow> bool" where
  "axfr_of L zn U rs \<longleftrightarrow>
     (\<exists>a b body. rs = SOA a # body @ [SOA b] \<and> soa_serial a = soa_serial b \<and> list_all (Not \<circ> is_soa) body
        \<and> owners_set L zn body = U (soa_serial a))"

definition diff_of :: "lib \<Rightarrow> string \<Rightarrow> (u32 \<Rightarrow> string set) \<Rightarrow> diff \<Rightarrow> bool" where
  "diff_of L zn U d \<longleftrightarrow>
     owners_set L zn (df_dels d) \<subseteq> U (soa_serial (df_from d))
     \<and> U (soa_serial (df_to d)) = apply_diff L zn (U (soa_serial (df_from d))) d"

definition ixfr_of :: "lib \<Rightarrow> string \<Rightarrow> (u32 \<Rightarrow> string set) \<Rightarrow> rr list \<Rightarrow> bool" where
  "ixfr_of L zn U rs \<longleftrightarrow>
     (\<exists>fin c ds. rs = SOA fin # diff_records ds @ [SOA fin] \<and> chain_ok L zn c (soa_serial fin) ds
        \<and> (\<forall>d \<in> set ds. diff_of L zn U d))"

definition honest_stream :: "lib \<Rightarrow> string \<Rightarrow> (u32 \<Rightarrow> string set) \<Rightarrow> envelope list \<Rightarrow> bool" where
  "honest_stream L zn U es \<longleftrightarrow>
     EnvError \<in> set es \<or> length (stream_records es) \<le> 1
     \<or> axfr_of L zn U (stream_records es) \<or> ixfr_of L zn U (stream_records es)"

text \<open>
  The names of the zone survive in a file of lines: none begins with a hash sign, which the file
  format reads as a comment, and all are canonical.
\<close>

definition clean_history :: "lib \<Rightarrow> (u32 \<Rightarrow> string set) \<Rightarrow> bool" where
  "clean_history L U \<longleftrightarrow> (\<forall>s. \<forall>x \<in> U s. clean_domain L x)"

subsection \<open>Reading a stream\<close>

lemma stream_records_append [simp]: "stream_records (es @ fs) = stream_records es @ stream_records fs"
  by (induction es rule: stream_records.induct) auto

lemma stream_records_map [simp]: "stream_records (map EnvRRs rss) = concat rss"
  by (induction rss) auto

lemma read_head_records:
  "read_head h es = Inr (h', es') \<Longrightarrow>
   h' @ stream_records es' = h @ stream_records es \<and> (EnvError \<in> set es \<longrightarrow> EnvError \<in> set es')"
proof (induction h es rule: read_head.induct)
  case (1 h es)
  show ?case
  proof (cases "2 \<le> length h")
    case True
    then show ?thesis using 1(2) by (simp add: read_head.simps [of h])
  next
    case False
    show ?thesis
    proof (cases es)
      case Nil
      then show ?thesis using 1(2) False by (simp add: read_head.simps [of h])
    next
      case (Cons e es1)
      then obtain rs where e: "e = EnvRRs rs" using 1(2) False
        by (cases e) (auto simp: read_head.simps [of h])
      with 1(2) False Cons have "read_head (h @ rs) es1 = Inr (h', es')" by (simp add: read_head.simps [of h])
      from 1(1) [OF False Cons e this] show ?thesis using Cons e by auto
    qed
  qed
qed

lemma axfr_envelopes_complete:
  "axfr_envelopes L io zn fs limit st es = Inr st' \<Longrightarrow> \<exists>rss. es = map EnvRRs rss"
proof (induction es arbitrary: st)
  case (Cons e es)
  then obtain rs st1 where e: "e = EnvRRs rs" "axfr_envelopes L io zn fs limit st1 es = Inr st'"
    by (cases e) (auto split: sum.splits)
  from Cons(1) [OF e(2)] obtain rss where "es = map EnvRRs rss" by blast
  then show ?case using e(1) by (intro exI [of _ "rs # rss"]) simp
qed simp

lemma axfr_records_written:
  assumes "axfr_records L io zn fs limit (n, g, out) rs = Inr (n', g', out')" and "list_all (Not \<circ> is_soa) rs"
  shows "\<exists>ds. policy_owner_list L zn rs = Inr ds \<and> out' = out @ ds"
  using assms
proof (induction rs arbitrary: n g out)
  case (Cons rc rs)
  then obtain n1 g1 out1 where s: "axfr_process L io zn fs limit (n, g, out) rc = Inr (n1, g1, out1)"
    and r: "axfr_records L io zn fs limit (n1, g1, out1) rs = Inr (n', g', out')"
    by (auto split: sum.splits)
  obtain o1 where o1: "policy_owner L zn rc = Inr o1" "out1 = out @ (case o1 of None \<Rightarrow> [] | Some x \<Rightarrow> [x])"
    using s Cons.prems(2)
    by (cases rc) (auto simp: axfr_process_def Let_def split: sum.splits option.splits if_splits)
  obtain ds where "policy_owner_list L zn rs = Inr ds" "out' = out1 @ ds"
    using Cons.IH [OF r] Cons.prems(2) by auto
  then show ?case using o1 by (auto split: option.splits)
qed simp

lemma axfr_records_last:
  assumes "axfr_records L io zn fs limit st (body @ [SOA b]) = Inr (n', g', out')"
  obtains n g where "axfr_records L io zn fs limit st body = Inr (n, g, out')"
  using assms by (auto simp: axfr_records_append axfr_process_def Let_def split: sum.splits if_splits prod.splits)

subsection \<open>Chains of the history\<close>

lemma chain_ok_greater:
  "chain_ok L zn c t ds \<Longrightarrow> c \<noteq> t"
proof (cases ds)
  case (Cons d ds')
  assume a: "chain_ok L zn c t ds"
  show ?thesis
  proof (cases ds')
    case Nil
    then show ?thesis using a Cons by (auto simp: diff_ok_def)
  next
    case (Cons e es)
    then have "serial_greater (soa_serial (df_to d)) c" "serial_greater t (soa_serial (df_to d))"
      using a \<open>ds = d # ds'\<close> by (auto simp: diff_ok_def)
    then show ?thesis using serial_greater_asym by blast
  qed
qed simp

lemma chain_ok_head:
  assumes "chain_ok L zn c t ds"
  obtains d ds' where "ds = d # ds'" "soa_serial (df_from d) = c"
proof (cases ds)
  case (Cons d ds')
  with assms have "soa_serial (df_from d) = c" by (cases ds') auto
  with Cons show thesis by (rule that)
qed (use assms in simp)

lemma chain_history:
  "chain_ok L zn c t ds \<Longrightarrow> \<forall>d \<in> set ds. diff_of L zn U d \<Longrightarrow> foldl (apply_diff L zn) (U c) ds = U t"
  by (induction L zn c t ds rule: chain_ok.induct) (auto simp: diff_of_def)

lemma foldl_apply_added:
  "x \<in> foldl (apply_diff L zn) S ds \<Longrightarrow> x \<in> S \<or> (\<exists>d \<in> set ds. x \<in> owners_set L zn (df_adds d))"
  by (induction ds arbitrary: S) (fastforce simp: apply_diff_def)+

lemma foldl_apply_deleted:
  "x \<in> S \<Longrightarrow> x \<notin> foldl (apply_diff L zn) S ds \<Longrightarrow> \<exists>d \<in> set ds. x \<in> owners_set L zn (df_dels d)"
proof (induction ds arbitrary: S)
  case (Cons d ds)
  show ?case
  proof (cases "x \<in> apply_diff L zn S d")
    case True
    moreover have "x \<notin> foldl (apply_diff L zn) (apply_diff L zn S d) ds" using Cons.prems(2) by simp
    ultimately show ?thesis using Cons.IH by auto
  next
    case False
    then have "x \<in> owners_set L zn (df_dels d)" using Cons.prems(1) by (simp add: apply_diff_def)
    then show ?thesis by simp
  qed
qed simp

lemma delta_lists:
  assumes "\<not> full d" and "delta_wf d" and "\<forall>S. delta_effect d S = foldl (apply_diff L zn) S ds"
    and "\<forall>d \<in> set ds. diff_of L zn U d" and "clean_history L U" and "x \<in> set (added d) \<union> set (deleted d)"
  shows "clean_domain L x"
proof -
  have "(\<exists>e \<in> set ds. x \<in> owners_set L zn (df_adds e)) \<or> (\<exists>e \<in> set ds. x \<in> owners_set L zn (df_dels e))"
  proof (cases "x \<in> set (added d)")
    case True
    then have "x \<in> delta_effect d {}" using assms(1,2) by (auto simp: delta_effect_def delta_wf_def)
    then show ?thesis using assms(3) foldl_apply_added [of x L zn "{}" ds] by auto
  next
    case False
    then have "x \<notin> delta_effect d UNIV" using assms(1,6) by (auto simp: delta_effect_def)
    then show ?thesis using assms(3) foldl_apply_deleted [of x UNIV L zn ds] by auto
  qed
  moreover have "owners_set L zn (df_adds e) \<subseteq> U (soa_serial (df_to e))"
      "owners_set L zn (df_dels e) \<subseteq> U (soa_serial (df_from e))" if "e \<in> set ds" for e
    using assms(4) that by (auto simp: diff_of_def apply_diff_def)
  ultimately have "\<exists>s. x \<in> U s" by blast
  then show ?thesis using assms(5) by (auto simp: clean_history_def)
qed

subsection \<open>What SyncIXFR brings from an honest upstream\<close>

lemma parse_of_history:
  assumes p: "parse_transfer_records L now rs z cur = Inr (Some d)" and nf: "\<not> full d"
    and h: "ixfr_of L (to_lower L (dns_fqdn L z)) U rs" and cl: "clean_history L U"
  shows "good_delta L U d"
proof -
  let ?zn = "to_lower L (dns_fqdn L z)"
  obtain fin c ds where rs: "rs = SOA fin # diff_records ds @ [SOA fin]"
    and ch: "chain_ok L ?zn c (soa_serial fin) ds" and df: "\<forall>d \<in> set ds. diff_of L ?zn U d"
    using h by (auto simp: ixfr_of_def)
  obtain e ds' where ds: "ds = e # ds'" "soa_serial (df_from e) = c" using chain_ok_head [OF ch] by blast
  have eq: "equal_fold L (rr_name (soa_hdr fin)) ?zn" and cur: "c = cur" and gt: "serial_greater (soa_serial fin) cur"
    using p rs ds by (auto simp: parse_transfer_records_def Let_def split: if_splits)
  obtain d' where d': "parse_transfer_records L now rs z cur = Inr (Some d')" "from_serial d' = cur"
      "to_serial d' = soa_serial fin" "delta_wf d'" "\<forall>S. delta_effect d' S = foldl (apply_diff L ?zn) S ds"
    using parse_ixfr_chain [OF ch [unfolded cur] eq gt, of now] rs by blast
  then have "d = d'" using p by simp
  then show ?thesis
    using d' delta_lists [OF nf _ _ df cl] chain_history [OF ch df] cur by (simp add: good_delta_def)
qed

lemma stream_of_history:
  assumes s: "stream_axfr L now io stage cfg cur hs (soa_serial first) es limit F = (Inr d, F')"
    and h: "axfr_of L (to_lower L (dns_fqdn L (zone cfg))) U (SOA first # hs @ stream_records es)"
    and cl: "clean_history L U"
  shows "good_fetch L U d F'"
proof -
  let ?zn = "to_lower L (dns_fqdn L (zone cfg))"
  obtain n out where d: "full d" "to_serial d = soa_serial first" "staged_raw d = stage" "F' = F(stage \<mapsto> unlines out)"
    and r: "(case axfr_records L io ?zn (soa_serial first) limit (0, False, []) hs of
        Inl e \<Rightarrow> Inl e
      | Inr st \<Rightarrow> axfr_envelopes L io ?zn (soa_serial first) limit st es) = Inr (n, True, out)"
    using stream_axfr_ok [OF s] by (metis delta.select_convs(2,4,7))
  obtain b body where rs: "hs @ stream_records es = body @ [SOA b]" "list_all (Not \<circ> is_soa) body"
    and u: "owners_set L ?zn body = U (soa_serial first)"
    using h by (auto simp: axfr_of_def)
  obtain st where st: "axfr_records L io ?zn (soa_serial first) limit (0, False, []) hs = Inr st"
    "axfr_envelopes L io ?zn (soa_serial first) limit st es = Inr (n, True, out)"
    using r by (auto split: sum.splits)
  obtain rss where rss: "es = map EnvRRs rss" using axfr_envelopes_complete [OF st(2)] by blast
  have "axfr_records L io ?zn (soa_serial first) limit (0, False, []) (hs @ concat rss) = Inr (n, True, out)"
    using st by (simp add: axfr_records_append rss axfr_envelopes_concat)
  then have "axfr_records L io ?zn (soa_serial first) limit (0, False, []) (body @ [SOA b]) = Inr (n, True, out)"
    using rs(1) rss by simp
  then obtain n1 g1 where "axfr_records L io ?zn (soa_serial first) limit (0, False, []) body = Inr (n1, g1, out)"
    by (rule axfr_records_last)
  from axfr_records_written [OF this rs(2)] have "policy_owner_list L ?zn body = Inr out" by auto
  then have "set out = U (soa_serial first)"
    using policy_owners_set [of L ?zn body out] u by (auto simp: owners_set_def)
  moreover from this have "\<forall>x \<in> set out. clean_domain L x" using cl by (auto simp: clean_history_def)
  ultimately show ?thesis
    using d file_domains_unlines [of out L] by (auto simp: good_fetch_def good_file_def)
qed

lemma honest_sync_ixfr:
  assumes s: "sync_ixfr L now io stage xfer cfg cur up F = (Inr (Some d), F')"
    and h: "\<forall>rq es. xfer rq = Some es \<longrightarrow> honest_stream L (to_lower L (dns_fqdn L (zone cfg))) U es"
    and cl: "clean_history L U"
  shows "good_fetch L U d F'"
proof -
  let ?zn = "to_lower L (dns_fqdn L (zone cfg))"
  obtain es first hs es' where x: "xfer (sync_request L cfg cur up) = Some es"
      "read_head [] es = Inr (SOA first # hs, es')" "hs \<noteq> []"
    using s by (auto simp: sync_ixfr_def split: option.splits sum.splits list.splits rr.splits if_splits)
  have hon: "honest_stream L ?zn U es" using h x(1) by blast
  note rd = read_head_records [OF x(2), simplified]
  have rec: "axfr_of L ?zn U (SOA first # hs @ stream_records es') \<or> ixfr_of L ?zn U (SOA first # hs @ stream_records es')"
    if "EnvError \<notin> set es'"
  proof -
    have e: "stream_records es = SOA first # hs @ stream_records es'" "EnvError \<notin> set es" using rd that by auto
    moreover have "\<not> length (stream_records es) \<le> 1" using e(1) x(3) by (cases hs) auto
    ultimately show ?thesis using hon by (auto simp: honest_stream_def)
  qed
  show ?thesis
  proof (cases "is_ixfr_response (SOA first # hs)")
    case True
    then obtain second tl where hs: "hs = SOA second # tl" "soa_serial second \<noteq> soa_serial first"
      by (cases hs; cases "hd hs") auto
    obtain records where g: "gather (effective_limit cfg) (SOA first # hs) es' = Inr records"
      and p: "parse_transfer_records L now records (zone cfg) cur = Inr (Some d)"
      using s x True by (auto simp: sync_ixfr_def check_serial_def split: sum.splits option.splits if_splits)
    obtain rss where rss: "es' = map EnvRRs rss" "records = (SOA first # hs) @ concat rss" using gather_ok [OF g] by blast
    have nf: "\<not> full d"
      using p rss(2) hs by (auto simp: parse_transfer_records_def Let_def split: if_splits sum.splits)
    have "EnvError \<notin> set es'" using rss(1) by auto
    from rec [OF this] have "ixfr_of L ?zn U records"
    proof
      assume "axfr_of L ?zn U (SOA first # hs @ stream_records es')"
      then show ?thesis using hs rss by (auto simp: axfr_of_def Cons_eq_append_conv)
    qed (use rss in simp)
    from parse_of_history [OF p nf this cl] nf show ?thesis by (simp add: good_fetch_def)
  next
    case False
    have "check_serial up (stream_axfr L now io stage cfg cur hs (soa_serial first) es' (effective_limit cfg) F) = (Inr (Some d), F')"
      using s x False by (simp add: sync_ixfr_def split: if_splits)
    then have st: "stream_axfr L now io stage cfg cur hs (soa_serial first) es' (effective_limit cfg) F = (Inr d, F')"
      by (rule check_serial_Some(1))
    obtain n out where "(case axfr_records L io ?zn (soa_serial first) (effective_limit cfg) (0, False, []) hs of
        Inl e \<Rightarrow> Inl e
      | Inr st \<Rightarrow> axfr_envelopes L io ?zn (soa_serial first) (effective_limit cfg) st es') = Inr (n, True, out)"
      using stream_axfr_ok [OF st] by metis
    then obtain st0 where "axfr_envelopes L io ?zn (soa_serial first) (effective_limit cfg) st0 es' = Inr (n, True, out)"
      by (auto split: sum.splits)
    from axfr_envelopes_complete [OF this] obtain rss where "es' = map EnvRRs rss" by blast
    then have "EnvError \<notin> set es'" by auto
    from rec [OF this] have "axfr_of L ?zn U (SOA first # hs @ stream_records es')"
    proof
      assume i: "ixfr_of L ?zn U (SOA first # hs @ stream_records es')"
      then obtain c ds where ds: "hs @ stream_records es' = diff_records ds @ [SOA first]"
        "chain_ok L ?zn c (soa_serial first) ds" by (auto simp: ixfr_of_def)
      obtain e ds' where e: "ds = e # ds'" "soa_serial (df_from e) = c" using chain_ok_head [OF ds(2)] by blast
      have "hd hs = SOA (df_from e)" using ds(1) e(1) x(3) by (cases hs) auto
      then have "c = soa_serial first" using False e(2) x(3) by (cases hs) auto
      then show ?thesis using chain_ok_greater [OF ds(2)] by simp
    qed
    from stream_of_history [OF st this cl] show ?thesis .
  qed
qed

text \<open>An example: the two difference sequences of \<open>example_diffs\<close>, from serial 1 over 2 to 3.\<close>

definition ixfr_history :: "u32 \<Rightarrow> string set" where
  "ixfr_history s = (if s = 1 then {''a.c''} else if s = 2 then {''b.c''} else if s = 3 then {''e.c''} else {})"

definition ixfr_stream :: "envelope list" where
  "ixfr_stream = [EnvRRs (SOA (example_soa 3) # diff_records example_diffs), EnvRRs [SOA (example_soa 3)]]"

lemma ixfr_stream_honest:
  "honest_stream example_lib (to_lower example_lib (dns_fqdn example_lib (zone example_cfg))) ixfr_history ixfr_stream"
proof -
  let ?zn = "to_lower example_lib (dns_fqdn example_lib (zone example_cfg))"
  have os: "owners_set example_lib ?zn [example_rr ''a.c.rpz.x.''] = {''a.c''}"
    "owners_set example_lib ?zn [example_rr ''b.c.rpz.x.''] = {''b.c''}"
    "owners_set example_lib ?zn [example_rr ''E.c.rpz.x.''] = {''e.c''}" by code_simp+
  have ser: "soa_serial (example_soa s) = s" for s by (simp add: example_soa_def)
  have df: "\<forall>d \<in> set example_diffs. diff_of example_lib ?zn ixfr_history d"
    unfolding example_diffs_def
    by (simp add: diff_of_def apply_diff_def ser os) (simp add: ixfr_history_def)
  have zn: "to_lower example_lib (dns_fqdn example_lib ''rpz.x'') = ?zn" by code_simp
  have "ixfr_of example_lib ?zn ixfr_history (SOA (example_soa 3) # diff_records example_diffs @ [SOA (example_soa 3)])"
    unfolding ixfr_of_def
    by (intro exI conjI, rule refl, rule example_chain(1) [unfolded zn], rule df)
  then show ?thesis by (simp add: honest_stream_def ixfr_stream_def)
qed

end
