(* ===== verification/Rpz_App.thy ===== *)
theory Rpz_App
  imports Rpz_Upstream
begin

text \<open>
  The daemon of \<open>tools/rpz-master/main.go\<close>: \<open>buildCDB\<close>, \<open>Bootstrap\<close>, \<open>Sync\<close>, the start of \<open>Serve\<close>
  and the dispatch of \<open>run\<close>, with \<open>QueryUpstreamSOA\<close> and \<open>NewSlaveClient\<close> of \<open>slave_client.go\<close>.
  First the operations as functions of the in-memory state and the files; then the daemon as a
  step relation in which one updater, AXFR readers and HTTP readers interleave under the locks
  the code takes.
\<close>

subsection \<open>What an operation meets\<close>

datatype soa_exchange = ExchangeError | SoaReply bool bool "rr list"  \<comment> \<open>truncated, success, answers\<close>

text \<open>
  The outside of one \<open>Sync\<close>: clock readings, generated file names, the TSIG secret file, the
  SOA exchange, the transfer channel and the outcome of every system call.
\<close>

record sync_env =
  se_stat :: bool                      \<comment> \<open>\<open>os.Stat\<close> of the raw file reports no other error\<close>
  se_secret :: "rpz_error + string"
  se_soa :: soa_exchange
  se_xfer :: "xfr_request \<Rightarrow> envelope list option"
  se_now :: time
  se_axfr :: axfr_oracle
  se_stage :: string
  se_built :: time
  se_tmp :: string
  se_dir :: string
  se_publish :: "publish_io \<Rightarrow> bool"
  se_done :: time
  se_save :: bool

datatype stat_result = Present | Absent | StatError

definition stat_file :: "fs \<Rightarrow> bool \<Rightarrow> string \<Rightarrow> stat_result" where
  "stat_file F ok p = (if \<not> ok then StatError else if F p = None then Absent else Present)"

subsection \<open>QueryUpstreamSOA and NewSlaveClient\<close>

fun first_soa :: "lib \<Rightarrow> string \<Rightarrow> rr list \<Rightarrow> u32 option" where
  "first_soa L zn [] = None"
| "first_soa L zn (SOA s # rs) =
     (if equal_fold L (rr_name (soa_hdr s)) zn then Some (soa_serial s) else first_soa L zn rs)"
| "first_soa L zn (_ # rs) = first_soa L zn rs"

definition query_upstream_soa :: "lib \<Rightarrow> config \<Rightarrow> soa_exchange \<Rightarrow> rpz_error + u32" where
  "query_upstream_soa L cfg ex =
     (if upstream_master cfg = [] then Inl NoUpstream
      else (case ex of
              ExchangeError \<Rightarrow> Inl QueryFailed
            | SoaReply truncated success answers \<Rightarrow>
                if truncated \<or> \<not> success then Inl SoaUnusable
                else (case first_soa L (dns_fqdn L (zone cfg)) answers of
                        None \<Rightarrow> Inl NoSoaAnswer | Some s \<Rightarrow> Inr s)))"

definition new_slave_client :: "config \<Rightarrow> rpz_error + string \<Rightarrow> rpz_error + config" where
  "new_slave_client cfg secret =
     (if tsig_key cfg \<noteq> [] then
        (case secret of Inl e \<Rightarrow> Inl e | Inr s \<Rightarrow> Inr (cfg\<lparr>tsig_secret := s\<rparr>))
      else Inr cfg)"

subsection \<open>State\<close>

text \<open>\<open>Save\<close> replaces the state file atomically; \<open>enc\<close> is its JSON text.\<close>

definition save_state :: "(state \<Rightarrow> bytes) \<Rightarrow> config \<Rightarrow> bool \<Rightarrow> state \<Rightarrow> fs \<Rightarrow> fs" where
  "save_state enc cfg ok st F = (if ok then F(state_path cfg \<mapsto> enc st) else F)"

definition max_deltas :: nat where "max_deltas = 20"

definition last_n :: "nat \<Rightarrow> 'a list \<Rightarrow> 'a list" where
  "last_n n xs = drop (length xs - n) xs"

text \<open>The state after a synchronisation.\<close>

definition next_state :: "state \<Rightarrow> delta \<Rightarrow> u32 \<Rightarrow> build_result \<Rightarrow> time \<Rightarrow> state" where
  "next_state st d up res now =
     \<lparr>serial = up, last_update = now, total_domains = total_entries res, cdb_sha256 = sha256 res,
      deltas = (if full d then deltas st else last_n max_deltas (deltas st @ [d\<lparr>staged_raw := []\<rparr>]))\<rparr>"

definition date_serial :: "int \<Rightarrow> int \<Rightarrow> int \<Rightarrow> u32" where
  "date_serial year month day = word_of_int (year * 1000000 + month * 10000 + day * 100 + 1)"

subsection \<open>The three stages of Sync\<close>

text \<open>Fetching: what the transfer brings, under no lock but a read of the state.\<close>

definition sync_fetch :: "lib \<Rightarrow> config \<Rightarrow> sync_env \<Rightarrow> state \<Rightarrow> fs \<Rightarrow> (rpz_error + (delta \<times> u32) option) \<times> fs" where
  "sync_fetch L cfg e st F =
     (if upstream_master cfg = [] then (Inl NoUpstream, F)
      else if stat_file F (se_stat e) (raw_domain_file cfg) = StatError then (Inl IOError, F)
      else
        (let cur = (if stat_file F (se_stat e) (raw_domain_file cfg) = Absent then 0 else serial st)
         in case new_slave_client cfg (se_secret e) of
              Inl err \<Rightarrow> (Inl err, F)
            | Inr slave \<Rightarrow>
                (case query_upstream_soa L slave (se_soa e) of
                   Inl err \<Rightarrow> (Inl err, F)
                 | Inr up \<Rightarrow>
                     if \<not> serial_greater up cur then (Inr None, F)
                     else (case sync_ixfr L (se_now e) (se_axfr e) (se_stage e) (se_xfer e) slave cur up F of
                             (Inl err, F') \<Rightarrow> (Inl err, F')
                           | (Inr None, F') \<Rightarrow> (Inr None, F')
                           | (Inr (Some d), F') \<Rightarrow> (Inr (Some (d, up)), F')))))"

definition sync_publish ::
  "lib \<Rightarrow> (manifest \<Rightarrow> bytes) \<Rightarrow> config \<Rightarrow> sync_env \<Rightarrow> delta \<Rightarrow> fs \<Rightarrow> (rpz_error + build_result) \<times> fs" where
  "sync_publish L encm cfg e d F = publish_delta L encm (se_publish e) (se_built e) (se_tmp e) (se_dir e) cfg d F"

definition sync_commit ::
  "(state \<Rightarrow> bytes) \<Rightarrow> config \<Rightarrow> sync_env \<Rightarrow> delta \<Rightarrow> u32 \<Rightarrow> build_result \<Rightarrow> state \<times> fs \<Rightarrow> (rpz_error + unit) \<times> state \<times> fs" where
  "sync_commit encs cfg e d up res sf =
     (let (st, F) = sf; st' = next_state st d up res (se_done e)
      in if se_save e then (Inr (), st', save_state encs cfg True st' F) else (Inl SaveFailed, st, F))"

definition sync ::
  "lib \<Rightarrow> (manifest \<Rightarrow> bytes) \<Rightarrow> (state \<Rightarrow> bytes) \<Rightarrow> config \<Rightarrow> sync_env \<Rightarrow> state \<times> fs \<Rightarrow> (rpz_error + unit) \<times> state \<times> fs" where
  "sync L encm encs cfg e sf =
     (let (st, F) = sf
      in case sync_fetch L cfg e st F of
           (Inl err, F1) \<Rightarrow> (Inl err, st, F1)
         | (Inr None, F1) \<Rightarrow> (Inr (), st, F1)
         | (Inr (Some (d, up)), F1) \<Rightarrow>
             (case sync_publish L encm cfg e d F1 of
                (Inl err, F2) \<Rightarrow> (Inl err, st, F2)
              | (Inr res, F2) \<Rightarrow> sync_commit encs cfg e d up res (st, F2)))"

subsection \<open>buildCDB, Bootstrap and the start of Serve\<close>

record build_env =
  be_compile :: "compile_io \<Rightarrow> bool"
  be_built :: time
  be_done :: time
  be_date :: "int \<times> int \<times> int"
  be_save :: bool
  be_stat_raw :: bool
  be_download :: "bytes option"    \<comment> \<open>the body \<open>DownloadDomainsToFile\<close> publishes, if it succeeds\<close>

text \<open>Compiling the raw file and recording the result; the serial is set when it is still zero.\<close>

definition build_cdb ::
  "lib \<Rightarrow> (manifest \<Rightarrow> bytes) \<Rightarrow> (state \<Rightarrow> bytes) \<Rightarrow> config \<Rightarrow> build_env \<Rightarrow> state \<times> fs \<Rightarrow> (rpz_error + unit) \<times> state \<times> fs" where
  "build_cdb L encm encs cfg e sf =
     (let (st, F) = sf
      in case compile_domains_to_cdb L encm (be_compile e) (be_built e) (raw_domain_file cfg) (cdb_path cfg) True F of
           (Inl err, F') \<Rightarrow> (Inl err, st, F')
         | (Inr res, F') \<Rightarrow>
             (let (y, m, d) = be_date e;
                  st' = st\<lparr>total_domains := total_entries res, cdb_sha256 := sha256 res, last_update := be_done e,
                           serial := (if serial st = 0 \<and> source_mode cfg \<noteq> ''rpz-slave'' then date_serial y m d
                                      else serial st)\<rparr>
              in if be_save e then (Inr (), st', save_state encs cfg True st' F') else (Inl SaveFailed, st, F')))"

definition bootstrap ::
  "lib \<Rightarrow> (manifest \<Rightarrow> bytes) \<Rightarrow> (state \<Rightarrow> bytes) \<Rightarrow> config \<Rightarrow> build_env \<Rightarrow> state \<times> fs \<Rightarrow> (rpz_error + unit) \<times> state \<times> fs" where
  "bootstrap L encm encs cfg e sf =
     (let (st, F) = sf
      in case stat_file F (be_stat_raw e) (raw_domain_file cfg) of
           StatError \<Rightarrow> (Inl IOError, st, F)
         | Present \<Rightarrow> build_cdb L encm encs cfg e (st, F)
         | Absent \<Rightarrow>
             if source_domain_url cfg = [] then (Inl NoSource, st, F)
             else (case be_download e of
                     None \<Rightarrow> (Inl IOError, st, F)
                   | Some b \<Rightarrow> build_cdb L encm encs cfg e (st, F(raw_domain_file cfg \<mapsto> b))))"

text \<open>What \<open>Serve\<close> does before it opens its sockets.\<close>

definition prepare_serve ::
  "lib \<Rightarrow> (manifest \<Rightarrow> bytes) \<Rightarrow> (state \<Rightarrow> bytes) \<Rightarrow> config \<Rightarrow> bool \<Rightarrow> bool \<Rightarrow> sync_env \<Rightarrow> build_env \<Rightarrow> state \<times> fs
   \<Rightarrow> (rpz_error + unit) \<times> state \<times> fs" where
  "prepare_serve L encm encs cfg stat_raw stat_cdb se be sf =
     (case stat_file (snd sf) stat_raw (raw_domain_file cfg) of
        StatError \<Rightarrow> (Inl IOError, sf)
      | Absent \<Rightarrow>
          (case sync L encm encs cfg se sf of
             (Inr _, sf1) \<Rightarrow> (Inr (), sf1)
           | (Inl err, sf1) \<Rightarrow>
               if source_domain_url cfg = [] then (Inl err, sf1) else bootstrap L encm encs cfg be sf1)
      | Present \<Rightarrow>
          (case stat_file (snd sf) stat_cdb (cdb_path cfg) of
             Absent \<Rightarrow> build_cdb L encm encs cfg be sf
           | StatError \<Rightarrow> (Inl IOError, sf)
           | Present \<Rightarrow> (Inr (), sf)))"

subsection \<open>Facts about one synchronisation\<close>

lemma last_n_length: "length (last_n n xs) = min n (length xs)"
  by (simp add: last_n_def)

lemma last_n_set: "set (last_n n xs) \<subseteq> set xs"
  by (simp add: last_n_def set_drop_subset)

lemma next_state_sel [simp]:
  "serial (next_state st d up res t) = up"
  "cdb_sha256 (next_state st d up res t) = sha256 res"
  "total_domains (next_state st d up res t) = total_entries res"
  by (simp_all add: next_state_def)

lemma next_state_deltas:
  "x \<in> set (deltas (next_state st d up res t)) \<Longrightarrow>
   x \<in> set (deltas st) \<or> (\<not> full d \<and> x = d\<lparr>staged_raw := []\<rparr>)"
  using last_n_set [of max_deltas "deltas st @ [d\<lparr>staged_raw := []\<rparr>]"]
  by (auto simp: next_state_def split: if_splits)

lemma next_state_bound:
  "length (deltas st) \<le> max_deltas \<Longrightarrow> length (deltas (next_state st d up res t)) \<le> max_deltas"
  by (simp add: next_state_def last_n_length)

lemma new_slave_client_fields:
  assumes "new_slave_client cfg sec = Inr c"
  shows "zone c = zone cfg" "max_transfer_records c = max_transfer_records cfg"
    "effective_limit c = effective_limit cfg" "upstream_master c = upstream_master cfg"
  using assms by (auto simp: new_slave_client_def effective_limit_def split: if_splits sum.splits)

lemma sync_fetch_some:
  assumes "sync_fetch L cfg e st F = (Inr (Some (d, up)), F1)"
  shows "up = 0 \<or> to_serial d = up"
    "from_serial d = (if F (raw_domain_file cfg) = None then 0 else serial st)"
    "serial_greater up (from_serial d)"
    "(\<not> full d \<and> staged_raw d = [] \<and> F1 = F \<and> delta_wf d) \<or>
     (full d \<and> staged_raw d = se_stage e \<and> added d = [] \<and> deleted d = [] \<and>
      (\<exists>out. F1 = F(se_stage e \<mapsto> unlines out) \<and> int (length out) \<le> effective_limit cfg))"
proof -
  let ?cur = "if F (raw_domain_file cfg) = None then 0 else serial st"
  obtain slave where s: "new_slave_client cfg (se_secret e) = Inr slave"
    and g: "serial_greater up ?cur"
    and x: "sync_ixfr L (se_now e) (se_axfr e) (se_stage e) (se_xfer e) slave ?cur up F = (Inr (Some d), F1)"
    using assms
    by (auto simp: sync_fetch_def stat_file_def Let_def split: if_splits sum.splits option.splits prod.splits)
  note ok = sync_ixfr_ok [OF x]
  show "from_serial d = ?cur" using ok by blast
  then show "serial_greater up (from_serial d)" using g by simp
  show "(\<not> full d \<and> staged_raw d = [] \<and> F1 = F \<and> delta_wf d) \<or>
     (full d \<and> staged_raw d = se_stage e \<and> added d = [] \<and> deleted d = [] \<and>
      (\<exists>out. F1 = F(se_stage e \<mapsto> unlines out) \<and> int (length out) \<le> effective_limit cfg))"
    using ok new_slave_client_fields(3) [OF s] by auto
  show "up = 0 \<or> to_serial d = up" using ok by blast
qed

lemma sync_fetch_none:
  assumes "sync_fetch L cfg e st F = (r, F1)" and "F (se_stage e) = None" and "se_stage e \<noteq> []"
    and "\<forall>x. r \<noteq> Inr (Some x)"
  shows "F1 = F"
proof -
  have ix: "sync_ixfr L (se_now e) (se_axfr e) (se_stage e) (se_xfer e) c cur up F = (x, F') \<Longrightarrow>
      \<forall>d. x \<noteq> Inr (Some d) \<Longrightarrow> F' = F" for c cur up x F'
    using sync_ixfr_none assms(2,3) by blast
  show ?thesis
    using assms(1,4) ix
    by (auto simp: sync_fetch_def Let_def split: if_splits sum.splits option.splits prod.splits)
qed

subsection \<open>The daemon as a step relation\<close>

text \<open>
  \<open>Sync\<close> runs under \<open>updateMu\<close>, so there is one updater; its phase says how far it got. It
  holds \<open>publicationMu\<close> for writing from \<open>Publishing\<close> to the end. An AXFR handler holds it for
  reading between the moment it copies the state (a pin) and the moment it opens the raw file,
  after which it serves that file whatever replaces it. \<open>served\<close> collects the pairs of serial
  and file content that handlers send with \<open>axfr_response\<close>.
\<close>

datatype phase = Idle | Fetched delta u32 | Publishing delta u32 | Published delta u32 build_result

record world =
  w_st :: state
  w_fs :: fs
  w_phase :: phase
  w_pins :: "u32 list"
  w_served :: "(u32 \<times> bytes) list"

datatype label = FetchNone | FetchSome | Lock | PublishOk | PublishFail | PublishTorn
  | CommitOk | CommitFail | Pin | Open | Miss

text \<open>
  \<open>U\<close> is the history of the upstream zone. The upstream of a step is honest when its answer to the SOA
  query is not the serial 0, which the transfer client takes for an answer it did not get, and whatever
  stream it sends is a transfer of that history. What \<open>SyncIXFR\<close> makes of the stream is not assumed.
\<close>

definition honest_upstream :: "lib \<Rightarrow> config \<Rightarrow> (u32 \<Rightarrow> string set) \<Rightarrow> sync_env \<Rightarrow> bool" where
  "honest_upstream L cfg U e \<longleftrightarrow>
     query_upstream_soa L cfg (se_soa e) \<noteq> Inr 0
     \<and> (\<forall>rq es. se_xfer e rq = Some es \<longrightarrow> honest_stream L (to_lower L (dns_fqdn L (zone cfg))) U es)"

definition fresh_stage :: "config \<Rightarrow> sync_env \<Rightarrow> fs \<Rightarrow> bool" where
  "fresh_stage cfg e F \<longleftrightarrow> se_stage e \<noteq> [] \<and> F (se_stage e) = None \<and> se_stage e \<noteq> raw_domain_file cfg"

definition writer_free :: "phase \<Rightarrow> bool" where
  "writer_free ph \<longleftrightarrow> (case ph of Idle \<Rightarrow> True | Fetched _ _ \<Rightarrow> True | _ \<Rightarrow> False)"

inductive app_step ::
  "lib \<Rightarrow> (manifest \<Rightarrow> bytes) \<Rightarrow> (state \<Rightarrow> bytes) \<Rightarrow> config \<Rightarrow> (u32 \<Rightarrow> string set) \<Rightarrow> world \<Rightarrow> label \<Rightarrow> world \<Rightarrow> bool"
  for L encm encs cfg U
where
  fetch_none: "\<lbrakk>w_phase w = Idle; fresh_stage cfg e (w_fs w);
      sync_fetch L cfg e (w_st w) (w_fs w) = (r, F); \<forall>x. r \<noteq> Inr (Some x)\<rbrakk>
    \<Longrightarrow> app_step L encm encs cfg U w FetchNone (w\<lparr>w_fs := F\<rparr>)"
| fetch_some: "\<lbrakk>w_phase w = Idle; fresh_stage cfg e (w_fs w);
      sync_fetch L cfg e (w_st w) (w_fs w) = (Inr (Some (d, up)), F); honest_upstream L cfg U e\<rbrakk>
    \<Longrightarrow> app_step L encm encs cfg U w FetchSome (w\<lparr>w_fs := F, w_phase := Fetched d up\<rparr>)"
| lock: "\<lbrakk>w_phase w = Fetched d up; w_pins w = []\<rbrakk>
    \<Longrightarrow> app_step L encm encs cfg U w Lock (w\<lparr>w_phase := Publishing d up\<rparr>)"
| publish_ok: "\<lbrakk>w_phase w = Publishing d up; publish_paths (se_tmp e) (se_dir e) cfg d;
      sync_publish L encm cfg e d (w_fs w) = (Inr res, F)\<rbrakk>
    \<Longrightarrow> app_step L encm encs cfg U w PublishOk (w\<lparr>w_fs := F, w_phase := Published d up res\<rparr>)"
| publish_fail: "\<lbrakk>w_phase w = Publishing d up; publish_paths (se_tmp e) (se_dir e) cfg d;
      sync_publish L encm cfg e d (w_fs w) = (Inl err, F);
      se_publish e PuRenameCdb; se_publish e PuRenameManifest\<rbrakk>
    \<Longrightarrow> app_step L encm encs cfg U w PublishFail (w\<lparr>w_fs := F, w_phase := Idle\<rparr>)"
| publish_torn: "\<lbrakk>w_phase w = Publishing d up; publish_paths (se_tmp e) (se_dir e) cfg d;
      sync_publish L encm cfg e d (w_fs w) = (Inl err, F);
      \<not> (se_publish e PuRenameCdb \<and> se_publish e PuRenameManifest)\<rbrakk>
    \<Longrightarrow> app_step L encm encs cfg U w PublishTorn (w\<lparr>w_fs := F, w_phase := Idle\<rparr>)"
| commit_ok: "\<lbrakk>w_phase w = Published d up res; sync_commit encs cfg e d up res (w_st w, w_fs w) = (Inr (), st, F)\<rbrakk>
    \<Longrightarrow> app_step L encm encs cfg U w CommitOk (w\<lparr>w_st := st, w_fs := F, w_phase := Idle\<rparr>)"
| commit_fail: "\<lbrakk>w_phase w = Published d up res; sync_commit encs cfg e d up res (w_st w, w_fs w) = (Inl err, st, F)\<rbrakk>
    \<Longrightarrow> app_step L encm encs cfg U w CommitFail (w\<lparr>w_st := st, w_fs := F, w_phase := Idle\<rparr>)"
| pin: "writer_free (w_phase w)
    \<Longrightarrow> app_step L encm encs cfg U w Pin (w\<lparr>w_pins := serial (w_st w) # w_pins w\<rparr>)"
| opened: "\<lbrakk>s \<in> set (w_pins w); w_fs w (raw_domain_file cfg) = Some b\<rbrakk>
    \<Longrightarrow> app_step L encm encs cfg U w Open
          (w\<lparr>w_pins := remove1 s (w_pins w), w_served := (s, b) # w_served w\<rparr>)"
| missed: "\<lbrakk>s \<in> set (w_pins w); w_fs w (raw_domain_file cfg) = None\<rbrakk>
    \<Longrightarrow> app_step L encm encs cfg U w Miss (w\<lparr>w_pins := remove1 s (w_pins w)\<rparr>)"

lemma query_upstream_slave:
  "new_slave_client cfg sec = Inr c \<Longrightarrow> query_upstream_soa L c ex = query_upstream_soa L cfg ex"
  using new_slave_client_fields(1,4) [of cfg sec c] by (cases ex) (simp_all add: query_upstream_soa_def)

lemma honest_fetch:
  assumes f: "sync_fetch L cfg e st F = (Inr (Some (d, up)), F1)" and h: "honest_upstream L cfg U e"
    and cl: "clean_history L U"
  shows "good_fetch L U d F1" "up \<noteq> 0"
proof -
  obtain slave cur where s: "new_slave_client cfg (se_secret e) = Inr slave"
    and q: "query_upstream_soa L slave (se_soa e) = Inr up"
    and x: "sync_ixfr L (se_now e) (se_axfr e) (se_stage e) (se_xfer e) slave cur up F = (Inr (Some d), F1)"
    using f
    by (auto simp: sync_fetch_def stat_file_def Let_def split: if_splits sum.splits option.splits prod.splits)
  show "up \<noteq> 0" using h q query_upstream_slave [OF s] by (auto simp: honest_upstream_def)
  show "good_fetch L U d F1"
    using h new_slave_client_fields(1) [OF s] by (intro honest_sync_ixfr [OF x _ cl]) (simp add: honest_upstream_def)
qed

inductive_cases app_stepE: "app_step L encm encs cfg U w l w'"

text \<open>Runs whose labels come from a given set.\<close>

inductive app_run ::
  "lib \<Rightarrow> (manifest \<Rightarrow> bytes) \<Rightarrow> (state \<Rightarrow> bytes) \<Rightarrow> config \<Rightarrow> (u32 \<Rightarrow> string set) \<Rightarrow> label set \<Rightarrow> world \<Rightarrow> world \<Rightarrow> bool"
  for L encm encs cfg U A w0
where
  start: "app_run L encm encs cfg U A w0 w0"
| step: "app_run L encm encs cfg U A w0 w \<Longrightarrow> app_step L encm encs cfg U w l w' \<Longrightarrow> l \<in> A
    \<Longrightarrow> app_run L encm encs cfg U A w0 w'"

text \<open>The steps that leave new files beside an old state.\<close>

definition torn :: "label set" where "torn = {PublishTorn, CommitFail}"

definition good_state :: "lib \<Rightarrow> (u32 \<Rightarrow> string set) \<Rightarrow> state \<Rightarrow> bool" where
  "good_state L U st \<longleftrightarrow> length (deltas st) \<le> max_deltas
     \<and> (\<forall>d \<in> set (deltas st). \<not> full d \<and> delta_wf d \<and> good_delta L U d)"

fun phase_ok :: "lib \<Rightarrow> config \<Rightarrow> (u32 \<Rightarrow> string set) \<Rightarrow> state \<Rightarrow> fs \<Rightarrow> phase \<Rightarrow> bool" where
  "phase_ok L cfg U st F Idle = True"
| "phase_ok L cfg U st F (Fetched d up) =
     (to_serial d = up \<and> (full d \<or> delta_wf d) \<and> good_fetch L U d F \<and> (full d \<longrightarrow> staged_raw d \<noteq> [])
      \<and> (F (raw_domain_file cfg) \<noteq> None \<longrightarrow> from_serial d = serial st))"
| "phase_ok L cfg U st F (Publishing d up) =
     (to_serial d = up \<and> (full d \<or> delta_wf d) \<and> good_fetch L U d F \<and> (full d \<longrightarrow> staged_raw d \<noteq> [])
      \<and> (F (raw_domain_file cfg) \<noteq> None \<longrightarrow> from_serial d = serial st))"
| "phase_ok L cfg U st F (Published d up res) =
     (to_serial d = up \<and> (full d \<or> delta_wf d \<and> good_delta L U d)
      \<and> (\<exists>b. F (raw_domain_file cfg) = Some b \<and> good_file L U up b))"

definition app_inv :: "lib \<Rightarrow> config \<Rightarrow> (u32 \<Rightarrow> string set) \<Rightarrow> world \<Rightarrow> bool" where
  "app_inv L cfg U w \<longleftrightarrow>
     good_state L U (w_st w)
     \<and> (\<forall>s \<in> set (w_pins w). s = serial (w_st w))
     \<and> (\<forall>(s, b) \<in> set (w_served w). good_file L U s b)
     \<and> (\<not> writer_free (w_phase w) \<longrightarrow> w_pins w = [])
     \<and> ((\<forall>d up res. w_phase w \<noteq> Published d up res) \<longrightarrow>
         (\<forall>b. w_fs w (raw_domain_file cfg) = Some b \<longrightarrow> good_file L U (serial (w_st w)) b))
     \<and> phase_ok L cfg U (w_st w) (w_fs w) (w_phase w)"

lemma delta_fields_unstaged [simp]:
  "delta_wf (d\<lparr>staged_raw := p\<rparr>) = delta_wf d" "good_delta L U (d\<lparr>staged_raw := p\<rparr>) = good_delta L U d"
  by (simp_all add: delta_wf_def good_delta_def delta_effect_def)

text \<open>A successful publication moves the raw file along the history.\<close>

lemma publish_good:
  assumes p: "sync_publish L encm cfg e d F = (Inr res, F')" and paths: "publish_paths (se_tmp e) (se_dir e) cfg d"
    and g: "good_fetch L U d F" and st: "full d \<longrightarrow> staged_raw d \<noteq> []"
    and old: "\<forall>b. F (raw_domain_file cfg) = Some b \<longrightarrow> good_file L U (from_serial d) b"
  shows "\<exists>b. F' (raw_domain_file cfg) = Some b \<and> good_file L U (to_serial d) b"
proof -
  obtain F1 where s: "stage_raw_file L (se_publish e) (se_tmp e) cfg d F = (Inr (staged_path (se_tmp e) d), F1)"
    and F': "F' (raw_domain_file cfg) = F1 (staged_path (se_tmp e) d)"
    using publish_delta_ok [OF p [unfolded sync_publish_def] paths] by metis
  show ?thesis
  proof (cases "full d")
    case True
    then have "F1 = F" "staged_path (se_tmp e) d = staged_raw d"
      using stage_raw_result(4) [OF s] st by (auto simp: staged_path_def)
    then show ?thesis using F' g True by (auto simp: good_fetch_def)
  next
    case False
    let ?c = "the (F (raw_domain_file cfg))"
    have r: "F (raw_domain_file cfg) = Some ?c"
        "apply_delta_to_file L (se_publish e \<circ> PuApply) (se_tmp e) d (F(se_tmp e \<mapsto> ?c)) = (Inr (), F1)"
      using stage_raw_result(5) [OF s] False by auto
    have gd: "good_delta L U d" using g False by (simp add: good_fetch_def)
    have gf: "good_file L U (from_serial d) ?c" using old r(1) by simp
    obtain b where b: "F1 = (F(se_tmp e \<mapsto> ?c))(se_tmp e \<mapsto> b)"
        "set (file_domains L b) = delta_effect d (set (file_domains L ?c))"
        "\<forall>x \<in> set (file_domains L b). clean_domain L x"
      using apply_delta_refines [OF r(2)] gd gf by (auto simp: good_delta_def good_file_def)
    then have "F1 (se_tmp e) = Some b" "good_file L U (to_serial d) b"
      using gd gf by (auto simp: good_delta_def good_file_def)
    with F' False show ?thesis by (auto simp: staged_path_def)
  qed
qed

lemma publish_error_raw:
  assumes "sync_publish L encm cfg e d F = (Inl err, F')" and "publish_paths (se_tmp e) (se_dir e) cfg d"
    and "se_publish e PuRenameCdb" and "se_publish e PuRenameManifest"
  shows "F' (raw_domain_file cfg) = F (raw_domain_file cfg)"
  using publish_delta_error [OF assms(1) [unfolded sync_publish_def] assms(2-4)] by simp

lemma app_inv_readers:
  assumes "app_inv L cfg U w" and "writer_free (w_phase w)" and "\<forall>s \<in> set ps. s = serial (w_st w)"
    and "\<forall>(s, b) \<in> set sv. good_file L U s b"
  shows "app_inv L cfg U (w\<lparr>w_pins := ps, w_served := sv\<rparr>)"
  using assms by (simp add: app_inv_def)

lemma app_inv_step:
  assumes "app_step L encm encs cfg U w l w'" and "app_inv L cfg U w" and "l \<notin> torn"
    and "state_path cfg \<noteq> raw_domain_file cfg" and "clean_history L U"
  shows "app_inv L cfg U w'"
  using assms(1)
proof cases
  case (fetch_none e r F)
  then have "F = w_fs w" using sync_fetch_none by (auto simp: fresh_stage_def)
  then show ?thesis using assms(2) fetch_none by (simp add: app_inv_def)
next
  case (fetch_some e d up F)
  note f = sync_fetch_some [OF fetch_some(5)]
  have raw: "F (raw_domain_file cfg) = w_fs w (raw_domain_file cfg)"
    using f(4) fetch_some(4) by (auto simp: fresh_stage_def)
  note hf = honest_fetch [OF fetch_some(5,6) assms(5)]
  have "to_serial d = up" using f(1) hf(2) by blast
  moreover have "full d \<or> delta_wf d" "full d \<longrightarrow> staged_raw d \<noteq> []"
    using f(4) fetch_some(4) by (auto simp: fresh_stage_def)
  ultimately show ?thesis
    using assms(2) fetch_some raw f(2) hf(1) by (simp add: app_inv_def writer_free_def)
next
  case (lock d up)
  then show ?thesis using assms(2) by (simp add: app_inv_def writer_free_def)
next
  case (publish_ok d up e res F)
  have "\<exists>b. F (raw_domain_file cfg) = Some b \<and> good_file L U (to_serial d) b"
    using publish_ok assms(2)
    by (intro publish_good [OF publish_ok(5,4)]) (auto simp: app_inv_def)
  then show ?thesis using assms(2) publish_ok
    by (auto simp: app_inv_def writer_free_def good_fetch_def)
next
  case (publish_fail d up e err F)
  have "F (raw_domain_file cfg) = w_fs w (raw_domain_file cfg)"
    using publish_error_raw [OF publish_fail(5,4,6,7)] .
  then show ?thesis using assms(2) publish_fail by (auto simp: app_inv_def writer_free_def)
next
  case (publish_torn d up e err F)
  then show ?thesis using assms(3) by (simp add: torn_def)
next
  case (commit_ok d up res e st F)
  then have st: "st = next_state (w_st w) d up res (se_done e)" "F = (w_fs w)(state_path cfg \<mapsto> encs st)"
    by (auto simp: sync_commit_def save_state_def Let_def split: if_splits)
  have "good_state L U st"
    using assms(2) commit_ok next_state_deltas [of _ "w_st w" d up res "se_done e"]
      next_state_bound [of "w_st w" d up res "se_done e"]
    unfolding st good_state_def app_inv_def by fastforce
  then show ?thesis using assms(2,4) commit_ok st by (auto simp: app_inv_def writer_free_def)
next
  case (commit_fail d up res e err st F)
  then show ?thesis using assms(3) by (simp add: torn_def)
next
  case pin
  then show ?thesis using assms(2) by (auto simp: app_inv_def writer_free_def split: phase.splits)
next
  case (opened s b)
  have wf: "writer_free (w_phase w)" "s = serial (w_st w)"
    using assms(2) opened(3) by (auto simp: app_inv_def)
  have "\<forall>b. w_fs w (raw_domain_file cfg) = Some b \<longrightarrow> good_file L U (serial (w_st w)) b"
    using assms(2) wf(1) by (auto simp: app_inv_def writer_free_def split: phase.splits)
  with opened(4) wf(2) have "good_file L U s b" by simp
  moreover have "\<forall>x \<in> set (remove1 s (w_pins w)). x = serial (w_st w)"
    using assms(2) set_remove1_subset [of s "w_pins w"] by (auto simp: app_inv_def)
  ultimately show ?thesis
    using app_inv_readers [OF assms(2) wf(1), of "remove1 s (w_pins w)" "(s, b) # w_served w"] assms(2) opened(2)
    by (auto simp: app_inv_def)
next
  case (missed s)
  have "writer_free (w_phase w)" using assms(2) missed by (auto simp: app_inv_def)
  moreover have "\<forall>x \<in> set (remove1 s (w_pins w)). x = serial (w_st w)"
    using assms(2) set_remove1_subset [of s "w_pins w"] by (auto simp: app_inv_def)
  ultimately show ?thesis
    using app_inv_readers [OF assms(2), of "remove1 s (w_pins w)" "w_served w"] assms(2) missed(2)
    by (auto simp: app_inv_def)
qed

lemma app_inv_run:
  assumes "app_run L encm encs cfg U A w0 w" and "app_inv L cfg U w0" and "A \<inter> torn = {}"
    and "state_path cfg \<noteq> raw_domain_file cfg" and "clean_history L U"
  shows "app_inv L cfg U w"
  using assms(1)
proof induction
  case start
  show ?case by (rule assms(2))
next
  case (step w l w')
  then show ?case using app_inv_step assms(3-5) by blast
qed

subsection \<open>What one synchronisation does\<close>

text \<open>The generated names of a synchronisation collide with nothing that is published.\<close>

definition sync_names :: "config \<Rightarrow> sync_env \<Rightarrow> fs \<Rightarrow> bool" where
  "sync_names cfg e F \<longleftrightarrow> fresh_stage cfg e F \<and>
     (\<forall>p \<in> {[], se_stage e}. \<forall>b.
        publish_paths (se_tmp e) (se_dir e) cfg
          \<lparr>from_serial = 0, to_serial = 0, d_timestamp = 0, full = b, added = [], deleted = [], staged_raw = p\<rparr>)
     \<and> state_path cfg \<notin> {raw_domain_file cfg, cdb_path cfg, manifest_path (cdb_path cfg)}
     \<and> se_stage e \<notin> {cdb_path cfg, manifest_path (cdb_path cfg), state_path cfg}"

lemma sync_names_paths:
  assumes "sync_names cfg e F" and "staged_raw d = [] \<or> staged_raw d = se_stage e"
  shows "publish_paths (se_tmp e) (se_dir e) cfg d"
proof -
  have "publish_paths (se_tmp e) (se_dir e) cfg
          \<lparr>from_serial = 0, to_serial = 0, d_timestamp = 0, full = full d, added = [], deleted = [],
           staged_raw = staged_raw d\<rparr>"
    using assms by (auto simp: sync_names_def)
  then show ?thesis
    by (cases "full d \<and> staged_raw d \<noteq> []") (auto simp: publish_paths_def staged_path_def Let_def)
qed

lemma published_ok_other:
  assumes "published_ok L encm cfg now res F" and "p \<notin> {raw_domain_file cfg, cdb_path cfg, manifest_path (cdb_path cfg)}"
  shows "published_ok L encm cfg now res (F(p := c))"
proof -
  have "raw_domain_file cfg \<noteq> p" "cdb_path cfg \<noteq> p" "manifest_path (cdb_path cfg) \<noteq> p"
    using assms(2) by auto
  then show ?thesis using assms(1) by (simp add: published_ok_def cong: option.case_cong)
qed

definition published_files :: "config \<Rightarrow> fs \<Rightarrow> bytes option list" where
  "published_files cfg F = map F [raw_domain_file cfg, cdb_path cfg, manifest_path (cdb_path cfg)]"

lemma sync_cases:
  assumes run: "sync L encm encs cfg e (st, F) = (r, st', F')" and names: "sync_names cfg e F"
  shows "(st' = st \<and> F' = F) \<or>
    (\<exists>err. r = Inl err \<and> st' = st \<and>
       (se_publish e PuRenameCdb \<and> se_publish e PuRenameManifest \<and> se_save e
          \<longrightarrow> published_files cfg F' = published_files cfg F)) \<or>
    (\<exists>d up res. r = Inr () \<and> st' = next_state st d up res (se_done e)
       \<and> serial_greater up (if F (raw_domain_file cfg) = None then 0 else serial st)
       \<and> published_ok L encm cfg (se_built e) res F' \<and> F' (state_path cfg) = Some (encs st'))"
proof (cases "sync_fetch L cfg e st F")
  case (Pair x F1)
  consider (none) "\<forall>z. x \<noteq> Inr (Some z)" | (some) d up where "x = Inr (Some (d, up))"
    by (metis surj_pair)
  then show ?thesis
  proof cases
    case none
    then have "F1 = F" using sync_fetch_none [OF Pair] names by (auto simp: sync_names_def fresh_stage_def)
    then show ?thesis
      using run Pair none by (auto simp: sync_def split: sum.splits option.splits)
  next
    case some
    note f = sync_fetch_some [OF Pair [unfolded some]]
    have paths: "publish_paths (se_tmp e) (se_dir e) cfg d"
      using f(4) by (intro sync_names_paths [OF names]) auto
    have same: "published_files cfg F1 = published_files cfg F"
      using f(4) names by (auto simp: published_files_def sync_names_def fresh_stage_def)
    show ?thesis
    proof (cases "sync_publish L encm cfg e d F1")
      case p: (Pair y F2)
      show ?thesis
      proof (cases y)
        case (Inl err)
        have "published_files cfg F2 = published_files cfg F1"
          if "se_publish e PuRenameCdb" "se_publish e PuRenameManifest"
          using publish_delta_error [OF p [unfolded Inl sync_publish_def] paths that]
          by (simp add: published_files_def)
        then show ?thesis using run Pair some p Inl same by (auto simp: sync_def)
      next
        case (Inr res)
        have ok: "published_ok L encm cfg (se_built e) res F2"
          using publish_delta_ok [OF p [unfolded Inr sync_publish_def] paths] by metis
        show ?thesis
        proof (cases "se_save e")
          case True
          then have r: "r = Inr ()" "st' = next_state st d up res (se_done e)" "F' = F2(state_path cfg \<mapsto> encs st')"
            using run Pair some p Inr by (auto simp: sync_def sync_commit_def save_state_def Let_def)
          then have "published_ok L encm cfg (se_built e) res F'"
            using names published_ok_other [OF ok] by (simp add: sync_names_def)
          then show ?thesis using r f(2,3) by auto
        next
          case False
          then show ?thesis
            using run Pair some p Inr by (auto simp: sync_def sync_commit_def Let_def)
        qed
      qed
    qed
  qed
qed

subsection \<open>Properties\<close>

text \<open>
  One synchronisation has three outcomes. Nothing new: no state and no file changes. An
  error: the state is unchanged, and unless a late rename or the saving of the state failed the
  published files are unchanged. Success: the state moves forward to the serial of the upstream,
  the raw file, the CDB, the manifest, the state in memory and the state file agree.
\<close>

lemma sync_outcomes:
  assumes "sync L encm encs cfg e (st, F) = (r, st', F')" and "sync_names cfg e F"
  shows "(st' = st \<and> F' = F) \<or>
    (\<exists>err. r = Inl err \<and> st' = st \<and>
       (se_publish e PuRenameCdb \<and> se_publish e PuRenameManifest \<and> se_save e
          \<longrightarrow> published_files cfg F' = published_files cfg F)) \<or>
    (\<exists>d up res. r = Inr () \<and> st' = next_state st d up res (se_done e)
       \<and> serial_greater up (if F (raw_domain_file cfg) = None then 0 else serial st)
       \<and> published_ok L encm cfg (se_built e) res F' \<and> F' (state_path cfg) = Some (encs st'))"
  by (rule sync_cases [OF assms])

definition example_env :: sync_env where
  "example_env =
     \<lparr>se_stat = True, se_secret = Inl BadSecret, se_soa = SoaReply False True [SOA (example_soa 3)],
      se_xfer = (\<lambda>_. Some example_envelopes), se_now = 7, se_axfr = (\<lambda>_. True), se_stage = ''/d/.axfr-stage-1'',
      se_built = 8, se_tmp = ''/d/.domains-1'', se_dir = ''/d/.publish-1'', se_publish = (\<lambda>_. True), se_done = 9,
      se_save = True\<rparr>"

definition empty_state :: state where
  "empty_state = \<lparr>serial = 0, last_update = 0, total_domains = 0, cdb_sha256 = [], deltas = []\<rparr>"

lemma example_names: "sync_names example_cfg example_env Map.empty"
  by code_simp

theorem sync_outcomes_witness:
  "\<exists>st' F' res. sync example_lib mf_sha256 cdb_sha256 example_cfg example_env (empty_state, Map.empty) = (Inr (), st', F')
     \<and> serial st' = 3 \<and> published_ok example_lib mf_sha256 example_cfg 8 res F'"
proof -
  let ?r = "sync example_lib mf_sha256 cdb_sha256 example_cfg example_env (empty_state, Map.empty)"
  have c: "fst ?r = Inr ()" "serial (fst (snd ?r)) = 3" "serial empty_state \<noteq> 3" by code_simp+
  then have r: "?r = (Inr (), fst (snd ?r), snd (snd ?r))" by (metis prod.collapse)
  from sync_outcomes [OF r example_names] c obtain res
    where "published_ok example_lib mf_sha256 example_cfg (se_built example_env) res (snd (snd ?r))" by auto
  moreover have "se_built example_env = 8" by (simp add: example_env_def)
  ultimately have "published_ok example_lib mf_sha256 example_cfg 8 res (snd (snd ?r))" by simp
  with r c(2) show ?thesis by blast
qed

text \<open>Runs through one whole synchronisation, up to the publication and up to the commit.\<close>

lemma run_to_published:
  assumes "w_phase w = Idle" "w_pins w = []" "fresh_stage cfg e (w_fs w)"
    and "sync_fetch L cfg e (w_st w) (w_fs w) = (Inr (Some (d, up)), F)" and "honest_upstream L cfg U e"
    and "publish_paths (se_tmp e) (se_dir e) cfg d" and "sync_publish L encm cfg e d F = (Inr res, F')"
  shows "app_run L encm encs cfg U (- torn) w (w\<lparr>w_fs := F', w_phase := Published d up res\<rparr>)"
proof -
  let ?w1 = "w\<lparr>w_fs := F, w_phase := Fetched d up\<rparr>"
  let ?w2 = "?w1\<lparr>w_phase := Publishing d up\<rparr>"
  have s1: "app_step L encm encs cfg U w FetchSome ?w1" using assms by (intro app_step.fetch_some)
  have s2: "app_step L encm encs cfg U ?w1 Lock ?w2" using assms by (intro app_step.lock) simp_all
  have s3: "app_step L encm encs cfg U ?w2 PublishOk (?w2\<lparr>w_fs := F', w_phase := Published d up res\<rparr>)"
    using assms by (intro app_step.publish_ok [where e = e]) simp_all
  have "app_run L encm encs cfg U (- torn) w (?w2\<lparr>w_fs := F', w_phase := Published d up res\<rparr>)"
    by (rule app_run.step [OF app_run.step [OF app_run.step [OF app_run.start s1] s2] s3]) (auto simp: torn_def)
  then show ?thesis by simp
qed

lemma run_to_commit:
  assumes r: "app_run L encm encs cfg U (- torn) w0 w" and "w_phase w = Published d up res" and "se_save (e :: sync_env)"
  shows "app_run L encm encs cfg U (- torn) w0
    (w\<lparr>w_st := next_state (w_st w) d up res (se_done e),
       w_fs := (w_fs w)(state_path cfg \<mapsto> encs (next_state (w_st w) d up res (se_done e))), w_phase := Idle\<rparr>)"
proof -
  let ?st = "next_state (w_st w) d up res (se_done e)"
  have "app_step L encm encs cfg U w CommitOk
      (w\<lparr>w_st := ?st, w_fs := (w_fs w)(state_path cfg \<mapsto> encs ?st), w_phase := Idle\<rparr>)"
    using assms by (intro app_step.commit_ok [where e = e]) (auto simp: sync_commit_def save_state_def Let_def)
  then show ?thesis by (rule app_run.step [OF r]) (simp add: torn_def)
qed

text \<open>
  C1: Replication is faithful under interleaving. Take any run of the daemon in which no publication is
  torn (a late rename or the saving of the state fails: then the claim is false, see
  \<open>failed_save_serves_wrong_serial\<close>), against an upstream that sends transfers of its own history \<open>U\<close>,
  does not use the serial 0, and whose names survive in a file of lines. Whatever pair of serial and file
  content an AXFR handler serves, between any two steps of a concurrent synchronisation, the content is
  the set of domains the upstream had at that serial.
\<close>

theorem served_snapshots_faithful:
  assumes "app_run L encm encs cfg U A w0 w" and "app_inv L cfg U w0" and "A \<inter> torn = {}"
    and "state_path cfg \<noteq> raw_domain_file cfg" and "clean_history L U" and "(s, b) \<in> set (w_served w)"
  shows "set (file_domains L b) = U s"
  using app_inv_run [OF assms(1-5)] assms(6) by (auto simp: app_inv_def good_file_def)

definition example_history :: "u32 \<Rightarrow> string set" where
  "example_history s = (if s = 1 then {''old.c''} else if s = 3 then {''a.c'', ''b.c''} else {})"

definition example_world :: world where
  "example_world = \<lparr>w_st = empty_state\<lparr>serial := 1\<rparr>, w_fs = [''/d/raw.txt'' \<mapsto> unlines [''old.c'']], w_phase = Idle,
     w_pins = [], w_served = []\<rparr>"

definition example_fetch where
  "example_fetch = sync_fetch example_lib example_cfg example_env (w_st example_world) (w_fs example_world)"

definition example_got :: delta where
  "example_got = \<lparr>from_serial = 1, to_serial = 3, d_timestamp = 7, full = True, added = [], deleted = [],
     staged_raw = ''/d/.axfr-stage-1''\<rparr>"

definition example_publish where
  "example_publish = sync_publish example_lib mf_sha256 example_cfg example_env example_got (snd example_fetch)"

lemma example_fetch_result: "example_fetch = (Inr (Some (example_got, 3)), snd example_fetch)"
proof -
  have "fst example_fetch = Inr (Some (example_got, 3))" by code_simp
  then show ?thesis by (metis prod.collapse)
qed

lemma example_publish_result: "\<exists>res. example_publish = (Inr res, snd example_publish)"
proof -
  have "\<not> isl (fst example_publish)" by code_simp
  then show ?thesis by (metis isl_def prod.collapse sum.exhaust_sel)
qed

lemma example_clean_names:
  "clean_domain example_lib ''a.c''" "clean_domain example_lib ''b.c''" "clean_domain example_lib ''e.c''"
  "clean_domain example_lib ''old.c''"
  unfolding clean_domain_def canonical_def by code_simp+

lemma example_history_clean: "clean_history example_lib example_history"
  by (simp add: clean_history_def example_history_def example_clean_names)

lemma example_honest: "honest_upstream example_lib example_cfg example_history example_env"
proof -
  let ?zn = "to_lower example_lib (dns_fqdn example_lib (zone example_cfg))"
  let ?body = "[example_rr ''a.c.rpz.x.'', example_rr ''B.c.rpz.x.'']"
  have "policy_owners example_lib ?body ?zn = Inr [''a.c'', ''b.c'']" by code_simp
  then have "owners_set example_lib ?zn ?body = example_history 3" by (simp add: owners_set_def example_history_def)
  then have "axfr_of example_lib ?zn example_history (SOA (example_soa 3) # ?body @ [SOA (example_soa 3)])"
    unfolding axfr_of_def by (intro exI [of _ "example_soa 3"] exI [of _ ?body]) (simp add: example_soa_def example_rr_def)
  then have "honest_stream example_lib ?zn example_history example_envelopes"
    by (simp add: honest_stream_def example_envelopes_def)
  moreover have "query_upstream_soa example_lib example_cfg (se_soa example_env) \<noteq> Inr 0" by code_simp
  ultimately show ?thesis by (simp add: honest_upstream_def example_env_def)
qed

text \<open>The world after the example transfer has been published, before its commit.\<close>

lemma example_run_published:
  assumes "example_publish = (Inr res, snd example_publish)"
  shows "app_run example_lib mf_sha256 cdb_sha256 example_cfg example_history (- torn) example_world
     (example_world\<lparr>w_fs := snd example_publish, w_phase := Published example_got 3 res\<rparr>)"
proof (rule run_to_published [OF _ _ _ _ example_honest])
  show "fresh_stage example_cfg example_env (w_fs example_world)" by code_simp
  show "publish_paths (se_tmp example_env) (se_dir example_env) example_cfg example_got" by code_simp
  show "sync_fetch example_lib example_cfg example_env (w_st example_world) (w_fs example_world)
    = (Inr (Some (example_got, 3)), snd example_fetch)" using example_fetch_result by (simp add: example_fetch_def)
  show "sync_publish example_lib mf_sha256 example_cfg example_env example_got (snd example_fetch)
    = (Inr res, snd example_publish)" using assms by (simp add: example_publish_def)
qed (simp_all add: example_world_def)

lemma app_run_mono:
  "app_run L encm encs cfg U A w0 w \<Longrightarrow> A \<subseteq> B \<Longrightarrow> app_run L encm encs cfg U B w0 w"
  by (induction rule: app_run.induct) (auto intro: app_run.intros)

lemma example_raw_published:
  "snd example_publish ''/d/raw.txt'' = Some (unlines [''a.c'', ''b.c''])"
  by code_simp

text \<open>Committing (or failing to) and then serving an AXFR.\<close>

lemma example_run_served:
  assumes "app_run example_lib mf_sha256 cdb_sha256 example_cfg example_history A example_world w"
    and "w_phase w = Idle" and "w_fs w ''/d/raw.txt'' = Some b" and "{Pin, Open} \<subseteq> A"
  shows "\<exists>w'. app_run example_lib mf_sha256 cdb_sha256 example_cfg example_history A example_world w'
     \<and> (serial (w_st w), b) \<in> set (w_served w')"
proof -
  let ?w1 = "w\<lparr>w_pins := serial (w_st w) # w_pins w\<rparr>"
  have raw: "raw_domain_file example_cfg = ''/d/raw.txt''" by (simp add: example_cfg_def)
  let ?step = "app_step example_lib mf_sha256 cdb_sha256 example_cfg example_history"
  have "?step w Pin ?w1" using assms(2) by (intro app_step.pin) (simp add: writer_free_def)
  with assms have r1: "app_run example_lib mf_sha256 cdb_sha256 example_cfg example_history A example_world ?w1"
    by (meson app_run.step insert_subset)
  have "?step ?w1 Open (?w1\<lparr>w_pins := remove1 (serial (w_st w)) (w_pins ?w1),
                             w_served := (serial (w_st w), b) # w_served ?w1\<rparr>)"
    using assms(3) raw by (intro app_step.opened) auto
  with r1 assms(4) have "app_run example_lib mf_sha256 cdb_sha256 example_cfg example_history A example_world
      (?w1\<lparr>w_pins := remove1 (serial (w_st w)) (w_pins ?w1), w_served := (serial (w_st w), b) # w_served ?w1\<rparr>)"
    by (meson app_run.step insert_subset)
  then show ?thesis by (intro exI conjI) (assumption, simp)
qed

lemma example_world_inv: "app_inv example_lib example_cfg example_history example_world"
proof -
  have "file_domains example_lib (unlines [''old.c'']) = [''old.c'']" by code_simp
  then show ?thesis
    by (simp add: app_inv_def example_world_def good_state_def empty_state_def good_file_def example_history_def
        example_cfg_def example_clean_names)
qed

theorem served_snapshots_faithful_witness:
  "\<exists>w b. app_run example_lib mf_sha256 cdb_sha256 example_cfg example_history (- torn) example_world w
     \<and> (3, b) \<in> set (w_served w) \<and> set (file_domains example_lib b) = {''a.c'', ''b.c''}"
proof -
  obtain res where "example_publish = (Inr res, snd example_publish)" using example_publish_result by blast
  note r = example_run_published [OF this]
  let ?w3 = "example_world\<lparr>w_fs := snd example_publish, w_phase := Published example_got 3 res\<rparr>"
  let ?st = "next_state (w_st ?w3) example_got 3 res (se_done example_env)"
  let ?w4 = "?w3\<lparr>w_st := ?st, w_fs := (w_fs ?w3)(state_path example_cfg \<mapsto> cdb_sha256 ?st), w_phase := Idle\<rparr>"
  have r4: "app_run example_lib mf_sha256 cdb_sha256 example_cfg example_history (- torn) example_world ?w4"
    by (rule run_to_commit [OF r]) (simp_all add: example_env_def)
  have "w_fs ?w4 ''/d/raw.txt'' = Some (unlines [''a.c'', ''b.c''])"
    using example_raw_published by (simp add: example_cfg_def)
  from example_run_served [OF r4 _ this] obtain w
    where w: "app_run example_lib mf_sha256 cdb_sha256 example_cfg example_history (- torn) example_world w"
      "(3, unlines [''a.c'', ''b.c'']) \<in> set (w_served w)" by (auto simp: torn_def)
  have "set (file_domains example_lib (unlines [''a.c'', ''b.c''])) = example_history 3"
    by (rule served_snapshots_faithful [OF w(1) example_world_inv _ _ example_history_clean w(2)])
       (auto simp: example_cfg_def)
  with w show ?thesis by (auto simp: example_history_def)
qed

text \<open>
  When the state cannot be saved after a successful publication, the daemon returns an error
  but keeps the new files beside the old serial: from a consistent world there is a run, with no
  other fault, that serves an AXFR whose content is not what the upstream had at the serial it
  announces.
\<close>

lemma failed_save_serves_wrong_serial:
  "\<exists>w s b. app_inv example_lib example_cfg example_history example_world
     \<and> app_run example_lib mf_sha256 cdb_sha256 example_cfg example_history (- {PublishTorn}) example_world w
     \<and> (s, b) \<in> set (w_served w) \<and> set (file_domains example_lib b) \<noteq> example_history s"
proof -
  obtain res where "example_publish = (Inr res, snd example_publish)" using example_publish_result by blast
  from example_run_published [OF this]
  have r: "app_run example_lib mf_sha256 cdb_sha256 example_cfg example_history (- {PublishTorn}) example_world
      (example_world\<lparr>w_fs := snd example_publish, w_phase := Published example_got 3 res\<rparr>)" (is "app_run _ _ _ _ _ _ _ ?w3")
    by (rule app_run_mono) (simp add: torn_def)
  let ?w4 = "?w3\<lparr>w_st := w_st ?w3, w_fs := w_fs ?w3, w_phase := Idle\<rparr>"
  have "app_step example_lib mf_sha256 cdb_sha256 example_cfg example_history ?w3 CommitFail ?w4"
    by (rule app_step.commit_fail [where e = "example_env\<lparr>se_save := False\<rparr>" and err = SaveFailed])
       (auto simp: sync_commit_def)
  then have r4: "app_run example_lib mf_sha256 cdb_sha256 example_cfg example_history (- {PublishTorn}) example_world ?w4"
    by (rule app_run.step [OF r]) simp
  have "w_fs ?w4 ''/d/raw.txt'' = Some (unlines [''a.c'', ''b.c''])"
    using example_raw_published by simp
  from example_run_served [OF r4 _ this] obtain w
    where w: "app_run example_lib mf_sha256 cdb_sha256 example_cfg example_history (- {PublishTorn}) example_world w"
      "(1, unlines [''a.c'', ''b.c'']) \<in> set (w_served w)"
    by (auto simp: example_world_def)
  have "file_domains example_lib (unlines [''a.c'', ''b.c'']) = [''a.c'', ''b.c'']" by code_simp
  then have "set (file_domains example_lib (unlines [''a.c'', ''b.c''])) \<noteq> example_history 1"
    by (auto simp: example_history_def)
  with w example_world_inv show ?thesis by blast
qed

text \<open>
  C5: The delta cache is faithful. Along every run without torn publication, against an honest upstream
  as in C1, the server keeps at most 20 deltas, and the one it picks for an IXFR client at serial \<open>cs\<close>
  turns the domains the upstream had at \<open>cs\<close> into those it had at the current serial of the server.
\<close>

theorem ixfr_answers_faithful:
  assumes "app_run L encm encs cfg U A w0 w" and "app_inv L cfg U w0" and "A \<inter> torn = {}"
    and "state_path cfg \<noteq> raw_domain_file cfg" and "clean_history L U"
  shows "length (deltas (w_st w)) \<le> 20
     \<and> (\<forall>cs d. matched_delta (w_st w) cs = Some d \<longrightarrow>
          U (serial (w_st w)) = (U cs - set (deleted d)) \<union> set (added d))"
proof -
  have g: "good_state L U (w_st w)" using app_inv_run [OF assms(1-5)] by (simp add: app_inv_def)
  have "U (serial (w_st w)) = (U cs - set (deleted d)) \<union> set (added d)"
    if m: "matched_delta (w_st w) cs = Some d" for cs d
  proof -
    have d: "d \<in> set (deltas (w_st w))" "from_serial d = cs" "to_serial d = serial (w_st w)"
      using m by (auto simp: matched_delta_def find_Some_iff) (metis nth_mem length_rev set_rev)
    then have "\<not> full d" "delta_wf d" "U (serial (w_st w)) = delta_effect d (U cs)"
      using g by (auto simp: good_state_def good_delta_def)
    then have "U (serial (w_st w)) = (U cs - set (deleted d)) \<union> (set (added d) - set (deleted d))"
      "set (added d) \<inter> set (deleted d) = {}"
      by (auto simp: delta_effect_def delta_wf_def)
    then show ?thesis by auto
  qed
  with g show ?thesis by (auto simp: good_state_def max_deltas_def)
qed

text \<open>
  A run to which it applies: the upstream sends the two difference sequences of \<open>example_diffs\<close>, from
  serial 1 over 2 to 3, which the daemon fetches, publishes and commits.
\<close>

definition ixfr_env :: sync_env where
  "ixfr_env = example_env\<lparr>se_xfer := \<lambda>_. Some ixfr_stream\<rparr>"

definition ixfr_world :: world where
  "ixfr_world = example_world\<lparr>w_fs := [''/d/raw.txt'' \<mapsto> unlines [''a.c'']]\<rparr>"

definition ixfr_got :: delta where
  "ixfr_got = \<lparr>from_serial = 1, to_serial = 3, d_timestamp = 7, full = False, added = [''e.c''],
     deleted = [''a.c'', ''b.c''], staged_raw = []\<rparr>"

definition ixfr_fetch where
  "ixfr_fetch = sync_fetch example_lib example_cfg ixfr_env (w_st ixfr_world) (w_fs ixfr_world)"

definition ixfr_publish where
  "ixfr_publish = sync_publish example_lib mf_sha256 example_cfg ixfr_env ixfr_got (snd ixfr_fetch)"

lemma ixfr_honest: "honest_upstream example_lib example_cfg ixfr_history ixfr_env"
proof -
  have "query_upstream_soa example_lib example_cfg (se_soa ixfr_env) \<noteq> Inr 0" by code_simp
  then show ?thesis using ixfr_stream_honest by (simp add: honest_upstream_def ixfr_env_def)
qed

lemma ixfr_history_clean: "clean_history example_lib ixfr_history"
  by (simp add: clean_history_def ixfr_history_def example_clean_names)

lemma ixfr_world_inv: "app_inv example_lib example_cfg ixfr_history ixfr_world"
proof -
  have "file_domains example_lib (unlines [''a.c'']) = [''a.c'']" by code_simp
  then show ?thesis
    by (simp add: app_inv_def ixfr_world_def example_world_def good_state_def empty_state_def good_file_def
        ixfr_history_def example_cfg_def example_clean_names)
qed

theorem ixfr_answers_faithful_witness:
  "\<exists>w d. app_run example_lib mf_sha256 cdb_sha256 example_cfg ixfr_history (- torn) ixfr_world w
     \<and> matched_delta (w_st w) 1 = Some d \<and> serial (w_st w) = 3
     \<and> {''e.c''} = ({''a.c''} - set (deleted d)) \<union> set (added d)"
proof -
  have "fst ixfr_fetch = Inr (Some (ixfr_got, 3))" by code_simp
  then have f: "ixfr_fetch = (Inr (Some (ixfr_got, 3)), snd ixfr_fetch)" by (metis prod.collapse)
  have "\<not> isl (fst ixfr_publish)" by code_simp
  then obtain res where p: "ixfr_publish = (Inr res, snd ixfr_publish)" by (metis isl_def prod.collapse sum.exhaust_sel)
  let ?w3 = "ixfr_world\<lparr>w_fs := snd ixfr_publish, w_phase := Published ixfr_got 3 res\<rparr>"
  let ?st = "next_state (w_st ?w3) ixfr_got 3 res (se_done ixfr_env)"
  let ?w4 = "?w3\<lparr>w_st := ?st, w_fs := (w_fs ?w3)(state_path example_cfg \<mapsto> cdb_sha256 ?st), w_phase := Idle\<rparr>"
  have r3: "app_run example_lib mf_sha256 cdb_sha256 example_cfg ixfr_history (- torn) ixfr_world ?w3"
  proof (rule run_to_published [OF _ _ _ f [unfolded ixfr_fetch_def] ixfr_honest])
    show "fresh_stage example_cfg ixfr_env (w_fs ixfr_world)" by code_simp
    show "publish_paths (se_tmp ixfr_env) (se_dir ixfr_env) example_cfg ixfr_got" by code_simp
    show "sync_publish example_lib mf_sha256 example_cfg ixfr_env ixfr_got (snd (sync_fetch example_lib example_cfg
        ixfr_env (w_st ixfr_world) (w_fs ixfr_world))) = (Inr res, snd ixfr_publish)"
      using p by (simp add: ixfr_publish_def ixfr_fetch_def)
  qed (simp_all add: ixfr_world_def example_world_def)
  have r4: "app_run example_lib mf_sha256 cdb_sha256 example_cfg ixfr_history (- torn) ixfr_world ?w4"
    by (rule run_to_commit [OF r3]) (simp_all add: ixfr_env_def example_env_def)
  let ?d = "ixfr_got\<lparr>staged_raw := []\<rparr>"
  have m: "matched_delta (w_st ?w4) 1 = Some ?d"
    by (simp add: matched_delta_def next_state_def ixfr_world_def example_world_def empty_state_def ixfr_got_def last_n_def max_deltas_def)
  have sp: "state_path example_cfg \<noteq> raw_domain_file example_cfg" by (simp add: example_cfg_def)
  have "ixfr_history (serial (w_st ?w4)) = (ixfr_history 1 - set (deleted ?d)) \<union> set (added ?d)"
    using ixfr_answers_faithful [OF r4 ixfr_world_inv _ sp ixfr_history_clean] m by blast
  then have "{''e.c''} = ({''a.c''} - set (deleted ?d)) \<union> set (added ?d)" by (simp add: ixfr_history_def)
  with r4 m show ?thesis by (intro exI [of _ ?w4] exI [of _ ?d]) simp
qed

text \<open>
  A slave without a raw file asks for a transfer only when the serial of the upstream is
  below \<open>2 ^ 31\<close>: from there on it compares as older than the initial serial 0, and \<open>Sync\<close>
  reports success without having transferred anything.
\<close>

lemma empty_slave_ignores_high_serials:
  assumes "upstream_master cfg \<noteq> []" and "se_stat e" and "F (raw_domain_file cfg) = None"
    and "tsig_key cfg = []" and "query_upstream_soa L cfg (se_soa e) = Inr up" and "2 ^ 31 \<le> unat up"
  shows "sync L encm encs cfg e (st, F) = (Inr (), st, F)"
proof -
  have "\<not> serial_greater up 0" using assms(6) by (simp add: serial_greater_unat)
  then show ?thesis
    using assms by (simp add: sync_def sync_fetch_def stat_file_def new_slave_client_def Let_def)
qed

theorem empty_slave_ignores_high_serials_witness:
  "sync example_lib mf_sha256 cdb_sha256 example_cfg
     (example_env\<lparr>se_soa := SoaReply False True [SOA (example_soa 2147483648)]\<rparr>) (empty_state, Map.empty)
   = (Inr (), empty_state, Map.empty)"
proof (rule empty_slave_ignores_high_serials)
  show "query_upstream_soa example_lib example_cfg
     (se_soa (example_env\<lparr>se_soa := SoaReply False True [SOA (example_soa 2147483648)]\<rparr>)) = Inr 2147483648"
    by code_simp
qed (simp_all add: example_cfg_def example_env_def)

end
