(* ===== verification/Go_Float.thy ===== *)
theory Go_Float
  imports Go_Prelude "HOL-Library.Log_Nat"
begin

text \<open>
  \<open>float64\<close> as the rationals it stands for: rounding to nearest, ties to even, with 53 bits, and the
  conversions the sources use. Infinities, overflow and subnormal numbers do not occur in what is
  modelled with it.
\<close>

subsection \<open>Rounding\<close>

definition float_exp :: "rat \<Rightarrow> int" where
  "float_exp x =
     (case quotient_of x of
        (n, d) \<Rightarrow> (let k = bitlen n - bitlen d in if 2 powi k \<le> x then k else k - 1))"

definition round_even :: "rat \<Rightarrow> int" where
  "round_even x =
     (let f = \<lfloor>x\<rfloor>; r = x - of_int f
      in if r < 1 / 2 then f else if 1 / 2 < r then f + 1 else if even f then f else f + 1)"

definition fl :: "rat \<Rightarrow> rat" where
  "fl x =
     (if x = 0 then 0
      else (let u = 2 powi (float_exp \<bar>x\<bar> - 52) in of_int (round_even (x / u)) * u))"

text \<open>\<open>Duration.Seconds\<close>, and the conversion of a \<open>float64\<close> to an integer, which drops the fraction.\<close>

definition go_seconds :: "duration \<Rightarrow> rat" where
  "go_seconds d =
     (let s = sgn d * (\<bar>d\<bar> div 1000000000); n = sgn d * (\<bar>d\<bar> mod 1000000000)
      in fl (fl (of_int s) + fl (fl (of_int n) / 1000000000)))"

definition go_trunc :: "rat \<Rightarrow> int" where
  "go_trunc x = (if 0 \<le> x then \<lfloor>x\<rfloor> else \<lceil>x\<rceil>)"

subsection \<open>Facts\<close>

lemma round_even_near: "\<bar>of_int (round_even x) - x\<bar> \<le> 1 / 2"
proof -
  define f :: rat where "f = of_int \<lfloor>x\<rfloor>"
  have f: "f \<le> x" "x < f + 1" unfolding f_def by linarith+
  have "of_int (round_even x) = (if x - f < 1 / 2 then f else if 1 / 2 < x - f then f + 1 else if even \<lfloor>x\<rfloor> then f else f + 1)"
    by (simp add: round_even_def Let_def f_def)
  with f show ?thesis by (auto simp: abs_if field_simps)
qed

lemma bitlen_pow: "0 < n \<Longrightarrow> (2::rat) powi (bitlen n - 1) \<le> of_int n \<and> (of_int n :: rat) < 2 powi bitlen n"
proof -
  assume n: "0 < n"
  then have b: "2 ^ nat (bitlen n - 1) \<le> n \<and> n < 2 ^ nat (bitlen n)" using bitlen_bounds [of n] by simp
  have p: "0 < bitlen n" using n compute_bitlen [of n] bitlen_nonneg [of "n div 2"] by simp
  have e: "(2::rat) powi k = of_int (2 ^ nat k)" if "0 \<le> k" for k
    using that by (simp add: power_int_def)
  from b have "(of_int (2 ^ nat (bitlen n - 1)) :: rat) \<le> of_int n" "(of_int n :: rat) < of_int (2 ^ nat (bitlen n))"
    by (simp_all only: of_int_le_iff of_int_less_iff)
  then show ?thesis using e [of "bitlen n - 1"] e [of "bitlen n"] p by simp
qed

lemma float_exp_bounds:
  assumes "0 < x"
  shows "2 powi float_exp x \<le> x" and "x < 2 powi (float_exp x + 1)"
proof -
  obtain n d where q: "quotient_of x = (n, d)" by (cases "quotient_of x")
  have d: "0 < d" using quotient_of_denom_pos [OF q] .
  have x: "x = of_int n / of_int d" using quotient_of_div [OF q] .
  with assms d have n: "0 < n" by (simp add: zero_less_divide_iff)
  define k where "k = bitlen n - bitlen d"
  have N: "2 powi (bitlen n - 1) \<le> (of_int n :: rat)" "(of_int n :: rat) < 2 powi bitlen n"
    and D: "2 powi (bitlen d - 1) \<le> (of_int d :: rat)" "(of_int d :: rat) < 2 powi bitlen d"
    using bitlen_pow [OF n] bitlen_pow [OF d] by auto
  have dp: "(0 :: rat) < of_int d" using d by simp
  have "2 powi (k - 1) * of_int d \<le> 2 powi (k - 1) * (2 powi bitlen d :: rat)"
    using D(2) by (intro mult_left_mono) auto
  also have "\<dots> = 2 powi (bitlen n - 1)"
    by (simp add: k_def power_int_add [symmetric])
  finally have "2 powi (k - 1) * of_int d \<le> (of_int n :: rat)" using N(1) by linarith
  then have lo: "2 powi (k - 1) \<le> x" using dp by (simp add: x pos_le_divide_eq)
  have "(2 powi bitlen n :: rat) = 2 powi (k + 1) * 2 powi (bitlen d - 1)"
    by (simp add: k_def power_int_add [symmetric])
  also have "\<dots> \<le> 2 powi (k + 1) * of_int d" using D(1) by (intro mult_left_mono) auto
  finally have "(of_int n :: rat) < 2 powi (k + 1) * of_int d" using N(2) by linarith
  then have hi: "x < 2 powi (k + 1)" using dp by (simp add: x pos_divide_less_eq)
  show "2 powi float_exp x \<le> x" "x < 2 powi (float_exp x + 1)"
    using lo hi by (auto simp: float_exp_def q k_def [symmetric] Let_def)
qed

text \<open>The relative error is at most half a unit in the last place.\<close>

lemma fl_error: "\<bar>fl x - x\<bar> \<le> \<bar>x\<bar> * 2 powi (- 53)"
proof (cases "x = 0")
  case False
  define u :: rat where "u = 2 powi (float_exp \<bar>x\<bar> - 52)"
  have u: "0 < u" by (simp add: u_def)
  have "fl x - x = (of_int (round_even (x / u)) - x / u) * u"
    using False u by (simp add: fl_def u_def [symmetric] Let_def field_simps)
  then have "\<bar>fl x - x\<bar> = \<bar>of_int (round_even (x / u)) - x / u\<bar> * u" using u by (simp add: abs_mult)
  also have "\<dots> \<le> 1 / 2 * u" using round_even_near u by (intro mult_right_mono) auto
  also have "\<dots> = 2 powi float_exp \<bar>x\<bar> * 2 powi (- 53)"
    by (simp add: u_def power_int_add [symmetric] power_int_minus power_int_diff)
  also have "\<dots> \<le> \<bar>x\<bar> * 2 powi (- 53)"
    using float_exp_bounds(1) [of "\<bar>x\<bar>"] False by (intro mult_right_mono) auto
  finally show ?thesis .
qed (simp add: fl_def)

lemma fl_zero [simp]: "fl 0 = 0"
  by (simp add: fl_def)

lemma fl_nonneg: "0 \<le> x \<Longrightarrow> 0 \<le> fl x"
  using fl_error [of x] by (simp add: power_int_minus abs_if field_simps split: if_splits)

lemma go_seconds_nonneg: "0 \<le> d \<Longrightarrow> 0 \<le> go_seconds d"
  unfolding go_seconds_def Let_def by (intro fl_nonneg add_nonneg_nonneg divide_nonneg_nonneg) (auto simp: pos_imp_zdiv_nonneg_iff sgn_if)

text \<open>Absolute errors in the range the sources use.\<close>

lemma fl_near: "\<bar>x\<bar> \<le> 128 \<Longrightarrow> \<bar>fl x - x\<bar> \<le> 1 / 70368744177664"
  using fl_error [of x] by (simp add: power_int_minus field_simps)

lemma go_seconds_near:
  assumes "0 \<le> d" and "d \<le> 100000000000"
  shows "\<bar>go_seconds d - of_int d / 1000000000\<bar> \<le> 1 / 8796093022208"
proof -
  define s n :: rat where "s = of_int (d div 1000000000)" and "n = of_int (d mod 1000000000)"
  have d: "of_int d = s * 1000000000 + n"
    unfolding s_def n_def by (metis (no_types) div_mult_mod_eq of_int_add of_int_mult of_int_numeral)
  have "0 \<le> d div 1000000000" "d div 1000000000 \<le> 100" using assms by (auto simp: pos_imp_zdiv_nonneg_iff)
  then have s: "0 \<le> s" "s \<le> 100" unfolding s_def by auto
  have n: "0 \<le> n" "n \<le> 1000000000" unfolding n_def by auto
  have sum: "go_seconds d = fl (fl s + fl (fl n / 1000000000))"
    using assms by (cases "d = 0") (simp_all add: go_seconds_def Let_def s_def n_def)
  have "\<bar>fl n - n\<bar> \<le> 1000000000 / 9007199254740992"
    using fl_error [of n] n by (simp add: power_int_minus field_simps)
  then have q: "\<bar>fl n / 1000000000 - n / 1000000000\<bar> \<le> 1 / 9007199254740992" by (simp add: field_simps abs_le_iff)
  define m p where "m = n / 1000000000" and "p = fl n / 1000000000"
  have m: "0 \<le> m" "m \<le> 1" "of_int d / 1000000000 = s + m" using n by (simp_all add: m_def d add_divide_distrib)
  have p: "\<bar>p - m\<bar> \<le> 1 / 9007199254740992" using q by (simp add: m_def p_def)
  have "\<bar>p\<bar> \<le> 128" using m(1,2) p by linarith
  then have fp: "\<bar>fl p - p\<bar> \<le> 1 / 70368744177664" by (rule fl_near)
  have fs: "\<bar>fl s - s\<bar> \<le> 1 / 70368744177664" using s by (intro fl_near) auto
  have "\<bar>fl s + fl p\<bar> \<le> 128" using m(1,2) p fp fs s by linarith
  then have "\<bar>fl (fl s + fl p) - (fl s + fl p)\<bar> \<le> 1 / 70368744177664" by (rule fl_near)
  with m(1,2) p fp fs show ?thesis unfolding m(3) sum p_def [symmetric] by linarith
qed

lemma go_trunc_le: "0 \<le> x \<Longrightarrow> 0 \<le> go_trunc x \<and> of_int (go_trunc x) \<le> x"
  by (simp add: go_trunc_def)

text \<open>A whole number below \<open>2 ^ 53\<close> is exact, and a bound by one survives rounding.\<close>

lemma round_even_le: "x \<le> of_int k \<Longrightarrow> round_even x \<le> k"
proof -
  assume x: "x \<le> of_int k"
  then have f: "\<lfloor>x\<rfloor> \<le> k" by linarith
  show ?thesis
  proof (cases "\<lfloor>x\<rfloor> = k")
    case True
    then have "x = of_int k" using x by linarith
    then show ?thesis by (simp add: round_even_def)
  next
    case False
    with f show ?thesis by (auto simp: round_even_def Let_def)
  qed
qed

lemma float_unit:
  assumes "0 < x" and "x < 9007199254740992"
  shows "\<exists>m > 0. fl x = of_int (round_even (x * of_int m)) / of_int m"
proof -
  define e where "e = float_exp x"
  have "(2::rat) powi e < 2 powi 53" using float_exp_bounds(1) [OF assms(1)] assms(2) by (simp add: e_def)
  then have "e < 53" using power_int_increasing [of 53 e "2 :: rat"] by (cases "e < 53") auto
  then have u: "(2::rat) powi (e - 52) = 1 / of_int (2 ^ nat (52 - e))"
    by (auto simp: power_int_def power_one_over)
  have "fl x = of_int (round_even (x * of_int (2 ^ nat (52 - e)))) / of_int (2 ^ nat (52 - e))"
    using assms(1) by (simp add: fl_def Let_def e_def [symmetric] u)
  then show ?thesis by (intro exI [of _ "2 ^ nat (52 - e)"]) simp
qed

lemma fl_int:
  assumes "0 \<le> n" and "n < 9007199254740992"
  shows "fl (of_int n) = of_int n"
proof (cases "n = 0")
  case False
  with assms have n: "(0::rat) < of_int n" "(of_int n :: rat) < 9007199254740992" by simp_all
  from float_unit [OF n] obtain m where "m > 0" "fl (of_int n) = of_int (round_even (of_int n * of_int m)) / of_int m" by blast
  moreover have "round_even (of_int n * of_int m) = n * m" by (simp add: round_even_def of_int_mult [symmetric] del: of_int_mult)
  ultimately show ?thesis by simp
qed simp

lemma fl_le_int:
  assumes "0 \<le> x" and "x \<le> of_int n" and "n < 9007199254740992"
  shows "fl x \<le> of_int n"
proof (cases "x = 0")
  case False
  have "(of_int n :: rat) < 9007199254740992" using assms(3) by simp
  with False assms(1,2) have x: "0 < x" "x < 9007199254740992" by linarith+
  from float_unit [OF x] obtain m where m: "m > 0" "fl x = of_int (round_even (x * of_int m)) / of_int m" by blast
  have "x * of_int m \<le> of_int (n * m)" using assms(2) m(1) by (simp add: mult_right_mono)
  then have "round_even (x * of_int m) \<le> n * m" by (rule round_even_le)
  then have "(of_int (round_even (x * of_int m)) :: rat) \<le> of_int n * of_int m" by (metis of_int_le_iff of_int_mult)
  with m show ?thesis by (simp add: pos_divide_le_eq)
qed (use assms in simp)

end
