(* ===== verification/Go_Utf8.thy ===== *)
theory Go_Utf8
  imports Go_Net
begin

text \<open>
  Runes: \<open>range\<close> over a string decodes UTF-8 and yields U+FFFD for every byte that does not start
  a valid sequence; \<open>WriteRune\<close> encodes a rune again. Also the decimal format \<open>%d\<close>.
\<close>

subsection \<open>Decoding and encoding\<close>

definition bint :: "char \<Rightarrow> int" where "bint c = of_char c"

definition cont_in :: "int \<Rightarrow> int \<Rightarrow> char \<Rightarrow> bool" where
  "cont_in lo hi c \<longleftrightarrow> lo \<le> bint c \<and> bint c \<le> hi"

definition rune_error :: int where "rune_error = 65533"

text \<open>\<open>utf8.DecodeRuneInString\<close> on a non-empty string: the rune and how many bytes it takes.\<close>

fun decode_rune :: "string \<Rightarrow> int \<times> nat" where
  "decode_rune [] = (rune_error, 0)"
| "decode_rune (c # s) =
     (let b = bint c
      in if b < 128 then (b, 1)
         else if 194 \<le> b \<and> b \<le> 223 then
           (case s of
              c1 # _ \<Rightarrow> if cont_in 128 191 c1 then ((b - 192) * 64 + (bint c1 - 128), 2) else (rune_error, 1)
            | [] \<Rightarrow> (rune_error, 1))
         else if 224 \<le> b \<and> b \<le> 239 then
           (case s of
              c1 # c2 # _ \<Rightarrow>
                if cont_in (if b = 224 then 160 else 128) (if b = 237 then 159 else 191) c1 \<and> cont_in 128 191 c2
                then ((b - 224) * 4096 + (bint c1 - 128) * 64 + (bint c2 - 128), 3) else (rune_error, 1)
            | _ \<Rightarrow> (rune_error, 1))
         else if 240 \<le> b \<and> b \<le> 244 then
           (case s of
              c1 # c2 # c3 # _ \<Rightarrow>
                if cont_in (if b = 240 then 144 else 128) (if b = 244 then 143 else 191) c1
                   \<and> cont_in 128 191 c2 \<and> cont_in 128 191 c3
                then ((b - 240) * 262144 + (bint c1 - 128) * 4096 + (bint c2 - 128) * 64 + (bint c3 - 128), 4)
                else (rune_error, 1)
            | _ \<Rightarrow> (rune_error, 1))
         else (rune_error, 1))"

function runes :: "string \<Rightarrow> int list" where
  "runes s = (if s = [] then [] else (let (r, n) = decode_rune s in r # runes (drop (max 1 n) s)))"
  by pat_completeness auto
termination
  by (relation "measure length") (auto simp: max_def)

declare runes.simps [simp del]

text \<open>\<open>utf8.AppendRune\<close>: surrogates and numbers out of range become U+FFFD.\<close>

definition encode_rune :: "int \<Rightarrow> string" where
  "encode_rune r0 =
     (let r = (if r0 < 0 \<or> 1114111 < r0 \<or> (55296 \<le> r0 \<and> r0 \<le> 57343) then rune_error else r0)
      in if r < 128 then [char_of r]
         else if r < 2048 then [char_of (192 + r div 64), char_of (128 + r mod 64)]
         else if r < 65536 then
           [char_of (224 + r div 4096), char_of (128 + r div 64 mod 64), char_of (128 + r mod 64)]
         else
           [char_of (240 + r div 262144), char_of (128 + r div 4096 mod 64), char_of (128 + r div 64 mod 64),
            char_of (128 + r mod 64)])"

text \<open>What a string becomes when it is read rune by rune and written again.\<close>

definition to_valid :: "string \<Rightarrow> string" where
  "to_valid s = concat (map encode_rune (runes s))"

subsection \<open>Decimal numbers\<close>

text \<open>The digits of a number below \<open>10 ^ k\<close>, without leading zeros.\<close>

function digits :: "int \<Rightarrow> string" where
  "digits n = (if n < 10 then [char_of (48 + n mod 10)] else digits (n div 10) @ [char_of (48 + n mod 10)])"
  by pat_completeness auto
termination
  by (relation "measure nat") auto

declare digits.simps [simp del]

definition fmt_d :: "int \<Rightarrow> string" where
  "fmt_d n = (if n < 0 then CHR ''-'' # digits (- n) else digits n)"

subsection \<open>Facts\<close>

lemma bint_byte: "bint c = int (byte c)"
  by (simp add: bint_def of_nat_of_char)

lemma bint_range: "0 \<le> bint c" "bint c < 256"
  by (simp_all add: bint_byte)

lemma bint_char_of: "0 \<le> n \<Longrightarrow> n < 256 \<Longrightarrow> bint (char_of n) = n"
  by (simp add: bint_def)

lemma char_of_bint [simp]: "char_of (bint c) = c"
  by (simp add: bint_def)

lemma runes_Nil [simp]: "runes [] = []"
  by (simp add: runes.simps)

lemma runes_step:
  "s \<noteq> [] \<Longrightarrow> runes s = fst (decode_rune s) # runes (drop (max 1 (snd (decode_rune s))) s)"
  by (subst runes.simps) (simp add: case_prod_beta Let_def)

lemma decode_rune_nonneg: "0 \<le> fst (decode_rune s)"
proof (cases s)
  case Nil
  then show ?thesis by (simp add: rune_error_def)
next
  case (Cons c t)
  then show ?thesis
    using bint_range(1)
    by (cases t rule: remdups_adj.cases) (auto simp: Let_def rune_error_def cont_in_def split: list.splits)
qed

lemma runes_nonneg: "r \<in> set (runes s) \<Longrightarrow> 0 \<le> r"
proof (induction s rule: length_induct)
  case (1 s)
  show ?case
  proof (cases "s = []")
    case True
    with 1 show ?thesis by simp
  next
    case False
    let ?t = "drop (max 1 (snd (decode_rune s))) s"
    have "length ?t < length s" using False by (simp add: max_def)
    then have "r \<in> set (runes ?t) \<longrightarrow> 0 \<le> r" using 1(1) by blast
    with 1(2) runes_step [OF False] decode_rune_nonneg [of s] show ?thesis by auto
  qed
qed

lemma to_valid_Nil [simp]: "to_valid [] = []"
  by (simp add: to_valid_def)

lemma runes_ascii: "is_ascii c \<Longrightarrow> runes (c # s) = bint c # runes s"
  by (subst runes.simps) (simp add: is_ascii_def bint_byte Let_def)

lemma encode_ascii: "0 \<le> r \<Longrightarrow> r < 128 \<Longrightarrow> encode_rune r = [char_of r]"
  by (simp add: encode_rune_def rune_error_def)

lemma to_valid_ascii: "list_all is_ascii s \<Longrightarrow> to_valid s = s"
proof (induction s)
  case Nil
  then show ?case by simp
next
  case (Cons c s)
  then have "bint c < 128" by (simp add: is_ascii_def bint_byte)
  with Cons bint_range(1) [of c] show ?case
    by (simp add: to_valid_def runes_ascii encode_ascii)
qed

text \<open>Every byte of a rune outside ASCII is outside ASCII.\<close>

lemma encode_wide:
  assumes "128 \<le> r \<or> r < 0" and "c \<in> set (encode_rune r)"
  shows "128 \<le> bint c"
proof -
  have hi: "128 \<le> bint (char_of n)" if "128 \<le> n" "n < 256" for n :: int
    using that by (simp add: bint_char_of)
  from assms show ?thesis
    by (auto simp: encode_rune_def rune_error_def Let_def split: if_splits intro!: hi)
qed

subsection \<open>Encoding inverts decoding\<close>

definition scalar :: "int \<Rightarrow> bool" where
  "scalar r \<longleftrightarrow> 0 \<le> r \<and> r \<le> 1114111 \<and> \<not> (55296 \<le> r \<and> r \<le> 57343)"

lemma decode_rune_scalar: "scalar (fst (decode_rune s))"
proof (cases s)
  case Nil
  then show ?thesis by (simp add: rune_error_def scalar_def)
next
  case s: (Cons c t)
  note c = bint_range [of c]
  have e: "scalar rune_error" by (simp add: rune_error_def scalar_def)
  show ?thesis
  proof (cases t)
    case Nil
    with s e c show ?thesis by (auto simp: Let_def scalar_def)
  next
    case t: (Cons c1 u)
    note c1 = bint_range [of c1]
    show ?thesis
    proof (cases u)
      case Nil
      with s t e c show ?thesis by (auto simp: Let_def scalar_def cont_in_def)
    next
      case u: (Cons c2 v)
      with s t e c show ?thesis
        by (cases v) (auto simp: Let_def scalar_def cont_in_def split: if_splits)
    qed
  qed
qed

lemma runes_scalar: "r \<in> set (runes s) \<Longrightarrow> scalar r"
proof (induction s rule: length_induct)
  case (1 s)
  show ?case
  proof (cases "s = []")
    case True
    with 1 show ?thesis by simp
  next
    case False
    let ?t = "drop (max 1 (snd (decode_rune s))) s"
    have "length ?t < length s" using False by (simp add: max_def)
    then have "r \<in> set (runes ?t) \<longrightarrow> scalar r" using 1(1) by blast
    with 1(2) runes_step [OF False] decode_rune_scalar [of s] show ?thesis by auto
  qed
qed

lemma decode2:
  "194 \<le> bint c \<Longrightarrow> bint c \<le> 223 \<Longrightarrow> cont_in 128 191 c1 \<Longrightarrow>
   decode_rune (c # c1 # t) = ((bint c - 192) * 64 + (bint c1 - 128), 2)"
  by simp

lemma decode3:
  "224 \<le> bint c \<Longrightarrow> bint c \<le> 239 \<Longrightarrow>
   cont_in (if bint c = 224 then 160 else 128) (if bint c = 237 then 159 else 191) c1 \<Longrightarrow> cont_in 128 191 c2 \<Longrightarrow>
   decode_rune (c # c1 # c2 # t) = ((bint c - 224) * 4096 + (bint c1 - 128) * 64 + (bint c2 - 128), 3)"
  by (simp add: Let_def)

lemma decode4:
  "240 \<le> bint c \<Longrightarrow> bint c \<le> 244 \<Longrightarrow>
   cont_in (if bint c = 240 then 144 else 128) (if bint c = 244 then 143 else 191) c1 \<Longrightarrow>
   cont_in 128 191 c2 \<Longrightarrow> cont_in 128 191 c3 \<Longrightarrow>
   decode_rune (c # c1 # c2 # c3 # t) =
     ((bint c - 240) * 262144 + (bint c1 - 128) * 4096 + (bint c2 - 128) * 64 + (bint c3 - 128), 4)"
  by (simp add: Let_def)

lemma decode_encode:
  assumes "scalar r"
  shows "decode_rune (encode_rune r @ t) = (r, length (encode_rune r)) \<and> encode_rune r \<noteq> []"
proof -
  have v: "\<not> (r < 0 \<or> 1114111 < r \<or> (55296 \<le> r \<and> r \<le> 57343))" using assms by (auto simp: scalar_def)
  then have n: "(if r < 0 \<or> 1114111 < r \<or> (55296 \<le> r \<and> r \<le> 57343) then rune_error else r) = r" by (rule if_not_P)
  consider (one) "r < 128" | (two) "128 \<le> r" "r < 2048" | (three) "2048 \<le> r" "r < 65536" | (four) "65536 \<le> r" by linarith
  then show ?thesis
  proof cases
    case one
    then show ?thesis using v by (simp add: encode_rune_def bint_char_of Let_def)
  next
    case two
    let ?c = "char_of (192 + r div 64)" and ?c1 = "char_of (128 + r mod 64)"
    have e: "encode_rune r = [?c, ?c1]" unfolding encode_rune_def n Let_def using two by simp
    have "r div 64 < 32" "2 \<le> r div 64" "0 \<le> r mod 64" "r mod 64 < 64" using two by simp_all
    then have b: "bint ?c = 192 + r div 64" "bint ?c1 = 128 + r mod 64" "194 \<le> bint ?c" "bint ?c \<le> 223" "cont_in 128 191 ?c1"
      by (simp_all add: bint_char_of cont_in_def)
    show ?thesis using decode2 [OF b(3-5), of t] b(1,2) e by simp
  next
    case three
    let ?c = "char_of (224 + r div 4096)" and ?c1 = "char_of (128 + r div 64 mod 64)" and ?c2 = "char_of (128 + r mod 64)"
    have e: "encode_rune r = [?c, ?c1, ?c2]" unfolding encode_rune_def n Let_def using three by simp
    have q: "r div 4096 = r div 64 div 64" using zdiv_zmult2_eq [of 64 r 64] by simp
    have sum: "r div 4096 * 4096 + r div 64 mod 64 * 64 + r mod 64 = r"
      using div_mult_mod_eq [of r 64] div_mult_mod_eq [of "r div 64" 64] unfolding q by linarith
    have ran: "0 \<le> r div 4096" "r div 4096 < 16" "0 \<le> r div 64 mod 64" "r div 64 mod 64 < 64" "0 \<le> r mod 64" "r mod 64 < 64"
      using three by simp_all
    have lo: "r div 4096 = 0 \<Longrightarrow> 32 \<le> r div 64 mod 64" and hi: "r div 4096 = 13 \<Longrightarrow> r div 64 mod 64 < 32"
      using sum ran three v by linarith+
    have b: "bint ?c = 224 + r div 4096" "bint ?c1 = 128 + r div 64 mod 64" "bint ?c2 = 128 + r mod 64"
      using ran by (simp_all add: bint_char_of)
    have "224 \<le> bint ?c" "bint ?c \<le> 239" "cont_in 128 191 ?c2"
      "cont_in (if bint ?c = 224 then 160 else 128) (if bint ?c = 237 then 159 else 191) ?c1"
      using ran lo hi by (auto simp: b cont_in_def)
    from decode3 [OF this(1,2,4,3), of t] sum e b show ?thesis by simp
  next
    case four
    let ?c = "char_of (240 + r div 262144)" and ?c1 = "char_of (128 + r div 4096 mod 64)"
      and ?c2 = "char_of (128 + r div 64 mod 64)" and ?c3 = "char_of (128 + r mod 64)"
    have e: "encode_rune r = [?c, ?c1, ?c2, ?c3]" unfolding encode_rune_def n Let_def using four by simp
    have q: "r div 4096 = r div 64 div 64" "r div 262144 = r div 64 div 64 div 64"
      using zdiv_zmult2_eq [of 64 r 64] zdiv_zmult2_eq [of 64 r 4096] zdiv_zmult2_eq [of 64 "r div 64" 64] by simp_all
    have sum: "r div 262144 * 262144 + r div 4096 mod 64 * 4096 + r div 64 mod 64 * 64 + r mod 64 = r"
      using div_mult_mod_eq [of r 64] div_mult_mod_eq [of "r div 64" 64] div_mult_mod_eq [of "r div 64 div 64" 64]
      unfolding q by linarith
    have ran: "0 \<le> r div 262144" "0 \<le> r div 4096 mod 64" "r div 4096 mod 64 < 64" "0 \<le> r div 64 mod 64"
      "r div 64 mod 64 < 64" "0 \<le> r mod 64" "r mod 64 < 64"
      using four by simp_all
    have a: "r div 262144 < 5" using v sum ran by linarith
    have lo: "r div 262144 = 0 \<Longrightarrow> 16 \<le> r div 4096 mod 64" and hi: "r div 262144 = 4 \<Longrightarrow> r div 4096 mod 64 < 16"
      using sum ran four v by linarith+
    have b: "bint ?c = 240 + r div 262144" "bint ?c1 = 128 + r div 4096 mod 64" "bint ?c2 = 128 + r div 64 mod 64"
      "bint ?c3 = 128 + r mod 64"
      using ran a by (simp_all add: bint_char_of)
    have "240 \<le> bint ?c" "bint ?c \<le> 244" "cont_in 128 191 ?c2" "cont_in 128 191 ?c3"
      "cont_in (if bint ?c = 240 then 144 else 128) (if bint ?c = 244 then 143 else 191) ?c1"
      using ran lo hi a by (auto simp: b cont_in_def)
    from decode4 [OF this(1,2,5,3,4), of t] sum e b show ?thesis by simp
  qed
qed

lemma runes_encode: "\<forall>r \<in> set rs. scalar r \<Longrightarrow> runes (concat (map encode_rune rs)) = rs"
proof (induction rs)
  case Nil
  then show ?case by simp
next
  case (Cons r rs)
  let ?t = "concat (map encode_rune rs)"
  have "scalar r" using Cons.prems by simp
  from decode_encode [OF this, of ?t] runes_step [of "encode_rune r @ ?t"] Cons show ?case
    by (cases "encode_rune r") auto
qed

lemma runes_to_valid [simp]: "runes (to_valid s) = runes s"
  unfolding to_valid_def by (rule runes_encode) (simp add: runes_scalar)

lemma to_valid_idem [simp]: "to_valid (to_valid s) = to_valid s"
  by (simp add: to_valid_def [of "to_valid s"]) (simp add: to_valid_def)

end
