(* ===== verification/Go_Base64.thy ===== *)
theory Go_Base64
  imports Go_Utf8
begin

text \<open>
  \<open>base64.RawURLEncoding\<close> and \<open>base64.RawStdEncoding\<close>: no padding, and a decoder that skips line
  breaks, does not look at unused trailing bits and stops at the first byte outside the alphabet,
  keeping the complete groups before it.
\<close>

subsection \<open>The alphabets\<close>

definition b64_char :: "bool \<Rightarrow> int \<Rightarrow> char" where
  "b64_char url v =
     (if v < 26 then char_of (65 + v)
      else if v < 52 then char_of (71 + v)
      else if v < 62 then char_of (v - 4)
      else if v = 62 then (if url then CHR ''-'' else CHR ''+'')
      else (if url then CHR ''_'' else CHR ''/''))"

definition b64_val :: "bool \<Rightarrow> char \<Rightarrow> int option" where
  "b64_val url c =
     (if 65 \<le> bint c \<and> bint c \<le> 90 then Some (bint c - 65)
      else if 97 \<le> bint c \<and> bint c \<le> 122 then Some (bint c - 71)
      else if 48 \<le> bint c \<and> bint c \<le> 57 then Some (bint c + 4)
      else if c = (if url then CHR ''-'' else CHR ''+'') then Some 62
      else if c = (if url then CHR ''_'' else CHR ''/'') then Some 63
      else None)"

lemma b64_signs [simp]:
  "bint (CHR ''-'') = 45" "bint (CHR ''+'') = 43" "bint (CHR ''_'') = 95" "bint (CHR ''/'') = 47"
  by (simp_all add: bint_def)

lemma b64_val_char:
  assumes "0 \<le> v" and "v < 64"
  shows "b64_val url (b64_char url v) = Some v"
proof -
  consider "v < 26" | "26 \<le> v" "v < 52" | "52 \<le> v" "v < 62" | "v = 62" | "v = 63" using assms by linarith
  then show ?thesis
    by cases (use assms in \<open>simp_all add: b64_char_def b64_val_def bint_char_of\<close>)
qed

subsection \<open>Encoding and decoding\<close>

text \<open>The four sextets of three octets, and the octets of sextets.\<close>

definition sx1 :: "int \<Rightarrow> int" where "sx1 a = a div 4"
definition sx2 :: "int \<Rightarrow> int \<Rightarrow> int" where "sx2 a b = a mod 4 * 16 + b div 16"
definition sx3 :: "int \<Rightarrow> int \<Rightarrow> int" where "sx3 b c = b mod 16 * 4 + c div 64"
definition sx4 :: "int \<Rightarrow> int" where "sx4 c = c mod 64"

definition oc1 :: "int \<Rightarrow> int \<Rightarrow> int" where "oc1 p q = p * 4 + q div 16"
definition oc2 :: "int \<Rightarrow> int \<Rightarrow> int" where "oc2 q r = q mod 16 * 16 + r div 4"
definition oc3 :: "int \<Rightarrow> int \<Rightarrow> int" where "oc3 r t = r mod 4 * 64 + t"

fun b64_encode :: "bool \<Rightarrow> bytes \<Rightarrow> string" where
  "b64_encode u [] = []"
| "b64_encode u [a] = [b64_char u (sx1 (bint a)), b64_char u (sx2 (bint a) 0)]"
| "b64_encode u [a, b] = [b64_char u (sx1 (bint a)), b64_char u (sx2 (bint a) (bint b)), b64_char u (sx3 (bint b) 0)]"
| "b64_encode u (a # b # c # s) =
     b64_char u (sx1 (bint a)) # b64_char u (sx2 (bint a) (bint b)) # b64_char u (sx3 (bint b) (bint c))
     # b64_char u (sx4 (bint c)) # b64_encode u s"

text \<open>The groups of four values; the flag tells whether the whole text was read.\<close>

fun b64_groups :: "int option list \<Rightarrow> bytes \<times> bool" where
  "b64_groups [] = ([], True)"
| "b64_groups [Some a, Some b] = ([char_of (oc1 a b)], True)"
| "b64_groups [Some a, Some b, Some c] = ([char_of (oc1 a b), char_of (oc2 b c)], True)"
| "b64_groups (Some a # Some b # Some c # Some d # vs) =
     (case b64_groups vs of (x, ok) \<Rightarrow>
        (char_of (oc1 a b) # char_of (oc2 b c) # char_of (oc3 c d) # x, ok))"
| "b64_groups vs = ([], False)"

definition b64_decode :: "bool \<Rightarrow> string \<Rightarrow> bytes \<times> bool" where
  "b64_decode u s = b64_groups (map (b64_val u) (filter (\<lambda>c. c \<noteq> LF \<and> c \<noteq> CR) s))"

subsection \<open>Round trip\<close>

lemma b64_char_sane:
  assumes "0 \<le> v" and "v < 64"
  shows "b64_char u v \<noteq> LF" "b64_char u v \<noteq> CR" "b64_char u v \<noteq> CHR ''.''" "is_plain (b64_char u v)" "b64_char u v \<noteq> CHR ''$''"
proof -
  have "33 \<le> bint (b64_char u v) \<and> bint (b64_char u v) < 127 \<and> bint (b64_char u v) \<noteq> 46 \<and> bint (b64_char u v) \<noteq> 36"
    using assms by (auto simp: b64_char_def bint_char_of)
  moreover have "bint LF = 10" "bint CR = 13" "bint (CHR ''.'') = 46" "bint (CHR ''$'') = 36"
    by (simp_all add: bint_byte LF_def CR_def)
  ultimately show "b64_char u v \<noteq> LF" "b64_char u v \<noteq> CR" "b64_char u v \<noteq> CHR ''.''" "is_plain (b64_char u v)"
    "b64_char u v \<noteq> CHR ''$''"
    by (auto simp: is_plain_def bint_byte)
qed

lemma sextets:
  assumes "0 \<le> a" "a < 256" "0 \<le> b" "b < 256"
  shows "0 \<le> sx1 a" "sx1 a < 64" "0 \<le> sx2 a b" "sx2 a b < 64" "0 \<le> sx3 a b" "sx3 a b < 64" "0 \<le> sx4 a" "sx4 a < 64"
  unfolding sx1_def sx2_def sx3_def sx4_def using assms by presburger+

lemma sextets_byte [simp]:
  "0 \<le> sx1 (bint x)" "sx1 (bint x) < 64" "0 \<le> sx2 (bint x) 0" "sx2 (bint x) 0 < 64"
  "0 \<le> sx2 (bint x) (bint y)" "sx2 (bint x) (bint y) < 64" "0 \<le> sx3 (bint x) 0" "sx3 (bint x) 0 < 64"
  "0 \<le> sx3 (bint x) (bint y)" "sx3 (bint x) (bint y) < 64" "0 \<le> sx4 (bint x)" "sx4 (bint x) < 64"
  using sextets [of "bint x" 0] sextets [of "bint x" "bint y"] bint_range [of x] bint_range [of y] by simp_all

lemma shifted:
  assumes "0 \<le> r" and "r < (m::int)"
  shows "(x * m + r) div m = x" "(x * m + r) mod m = r"
  using assms by (simp_all add: div_pos_pos_trivial mod_pos_pos_trivial)

lemma octets:
  assumes "0 \<le> a" "a < 256" "0 \<le> b" "b < 256" "0 \<le> c" "c < 256"
  shows "oc1 (sx1 a) (sx2 a b) = a" "oc2 (sx2 a b) (sx3 b c) = b" "oc3 (sx3 b c) (sx4 c) = c"
proof -
  have rb: "0 \<le> b div 16" "b div 16 < 16" and rc: "0 \<le> c div 64" "c div 64 < 4"
    using assms(3-6) by (simp_all add: pos_imp_zdiv_nonneg_iff)
  note q = shifted [OF rb] shifted [OF rc] nonzero_mult_div_cancel_right [of "16::int", simplified]
  show "oc1 (sx1 a) (sx2 a b) = a" "oc2 (sx2 a b) (sx3 b c) = b" "oc3 (sx3 b c) (sx4 c) = c"
    unfolding oc1_def oc2_def oc3_def sx1_def sx2_def sx3_def sx4_def q by (rule div_mult_mod_eq)+
qed

lemma octets_byte [simp]:
  "oc1 (sx1 (bint x)) (sx2 (bint x) 0) = bint x" "oc1 (sx1 (bint x)) (sx2 (bint x) (bint y)) = bint x"
  "oc2 (sx2 (bint x) (bint y)) (sx3 (bint y) 0) = bint y"
  "oc2 (sx2 (bint x) (bint y)) (sx3 (bint y) (bint z)) = bint y" "oc3 (sx3 (bint y) (bint z)) (sx4 (bint z)) = bint z"
  using octets [of "bint x" 0 0] octets [of "bint x" "bint y" 0] octets [of "bint x" "bint y" "bint z"]
    bint_range [of x] bint_range [of y] bint_range [of z] by simp_all

definition b64_sane :: "char \<Rightarrow> bool" where
  "b64_sane c \<longleftrightarrow> is_plain c \<and> c \<notin> {LF, CR, CHR ''.'', CHR ''$''}"

lemma b64_encode_sane: "list_all b64_sane (b64_encode u s)"
  by (induction u s rule: b64_encode.induct) (simp_all add: b64_sane_def b64_char_sane)

lemma b64_groups_encode: "b64_groups (map (b64_val u) (b64_encode u s)) = (s, True)"
  by (induction u s rule: b64_encode.induct) (simp_all add: b64_val_char)

theorem b64_round_trip: "b64_decode u (b64_encode u s) = (s, True)"
proof -
  have "\<forall>c \<in> set (b64_encode u s). c \<noteq> LF \<and> c \<noteq> CR"
    using b64_encode_sane [of u s] by (auto simp: list_all_iff b64_sane_def)
  then have "filter (\<lambda>c. c \<noteq> LF \<and> c \<noteq> CR) (b64_encode u s) = b64_encode u s" by (rule filter_True)
  then show ?thesis by (simp add: b64_decode_def b64_groups_encode)
qed

lemma b64_separators:
  "CHR ''.'' \<notin> set (b64_encode u s)" "CHR ''$'' \<notin> set (b64_encode u s)"
  using b64_encode_sane [of u s] by (auto simp: list_all_iff b64_sane_def)

lemma b64_plain: "list_all is_plain (b64_encode u s)"
  using b64_encode_sane [of u s] by (auto simp: list_all_iff b64_sane_def)

end
