(* ===== verification/Rpz_Config.thy ===== *)
theory Rpz_Config
  imports Rpz_App Go_Float Go_Base64
begin

text \<open>
  The configuration of \<open>tools/rpz-master\<close>: \<open>DefaultConfig\<close>, \<open>LoadConfig\<close>, \<open>Validate\<close>, \<open>ValidateDaemon\<close>,
  \<open>ReadTSIGSecret\<close> and \<open>LoadState\<close> of \<open>config.go\<close>, then \<open>run\<close> of \<open>main.go\<close> and what \<open>Serve\<close> sets up before
  it blocks. Durations are read as \<open>time.ParseDuration\<close> reads them and the secret as padded base64. What
  is shown: a configuration that is refused changes nothing, and an accepted one cannot make the
  daemon, its ticker, its transfer client or its access list fail later on.
\<close>

subsection \<open>time.ParseDuration\<close>

text \<open>
  The digits in front of the point must not exceed \<open>2^63\<close>; the digits after it are read into a 64 bit
  integer until the next one would not fit.
\<close>

definition leading_int :: "string \<Rightarrow> (int \<times> string) option" where
  "leading_int s =
     (let ds = takeWhile is_digit s
      in if 2 ^ 63 < dec_val ds then None else Some (dec_val ds, drop (length ds) s))"

fun leading_fraction :: "string \<Rightarrow> int \<Rightarrow> rat \<Rightarrow> int \<times> rat" where
  "leading_fraction [] x scale = (x, scale)"
| "leading_fraction (c # cs) x scale =
     (if (2 ^ 63 - 1) div 10 < x then (x, scale)
      else let y = x * 10 + digit_val c
           in if 2 ^ 63 < y then (x, scale) else leading_fraction cs y (fl (scale * 10)))"

definition unit_nanos :: "string \<Rightarrow> int option" where
  "unit_nanos u =
     map_of [(''ns'', 1), (''us'', 1000), (map byte_of [194, 181] @ ''s'', 1000), (map byte_of [206, 188] @ ''s'', 1000),
             (''ms'', 1000000), (''s'', seconds 1), (''m'', minutes 1), (''h'', hours 1)] u"

text \<open>One number with its unit: the nanoseconds and what follows.\<close>

definition dur_unit :: "string \<Rightarrow> string" where
  "dur_unit s = takeWhile (\<lambda>c. c \<noteq> CHR ''.'' \<and> \<not> is_digit c) s"

definition dur_piece :: "string \<Rightarrow> (int \<times> string) option" where
  "dur_piece s =
     (if s = [] \<or> (hd s \<noteq> CHR ''.'' \<and> \<not> is_digit (hd s)) then None
      else case leading_int s of
             None \<Rightarrow> None
           | Some (v, s1) \<Rightarrow>
               (let dot = prefix ''.'' s1;
                    ds = (if dot then takeWhile is_digit (tl s1) else []);
                    (f, scale) = leading_fraction ds 0 1;
                    s2 = (if dot then drop (length ds) (tl s1) else s1);
                    u = dur_unit s2
                in if (length s1 = length s \<and> ds = []) \<or> u = [] then None
                   else case unit_nanos u of
                          None \<Rightarrow> None
                        | Some n \<Rightarrow>
                            if 2 ^ 63 div n < v then None
                            else if f \<le> 0 then Some (v * n, drop (length u) s2)
                            else (let w = v * n + go_trunc (fl (fl (of_int f) * fl (of_int n / scale)))
                                  in if 2 ^ 63 < w then None else Some (w, drop (length u) s2))))"

text \<open>The sum is a 64 bit word: two pieces of \<open>2^63\<close> wrap around to zero before the comparison.\<close>

lemma dur_piece_shorter: "dur_piece s = Some (w, r) \<Longrightarrow> length r < length s"
  by (auto simp: dur_piece_def leading_int_def Let_def split: if_splits option.splits prod.splits)

function dur_sum :: "string \<Rightarrow> int \<Rightarrow> int option" where
  "dur_sum s d =
     (if s = [] then Some d
      else case dur_piece s of
             None \<Rightarrow> None
           | Some (w, r) \<Rightarrow> (let d' = (d + w) mod 2 ^ 64 in if 2 ^ 63 < d' then None else dur_sum r d'))"
  by pat_completeness auto
termination
  by (relation "measure (length \<circ> fst)") (auto dest: dur_piece_shorter)

declare dur_sum.simps [simp del]

definition parse_duration :: "string \<Rightarrow> duration option" where
  "parse_duration s =
     (let neg = prefix ''-'' s; t = (if prefix ''-'' s \<or> prefix ''+'' s then tl s else s)
      in if t = ''0'' then Some 0 else if t = [] then None
         else case dur_sum t 0 of
                None \<Rightarrow> None
              | Some d \<Rightarrow> if neg then Some (- d) else if 2 ^ 63 - 1 < d then None else Some d)"



subsection \<open>base64.StdEncoding\<close>

text \<open>Whether padded text decodes: groups of four, the last one may be padded, line breaks are skipped.\<close>

fun b64_quads :: "string \<Rightarrow> bool" where
  "b64_quads [] = True"
| "b64_quads (a # b # c # d # s) =
     (b64_val False a \<noteq> None \<and> b64_val False b \<noteq> None \<and>
      (if c = CHR ''='' then d = CHR ''='' \<and> s = []
       else b64_val False c \<noteq> None \<and>
            (if d = CHR ''='' then s = [] else b64_val False d \<noteq> None \<and> b64_quads s)))"
| "b64_quads _ = False"

definition b64_padded :: "string \<Rightarrow> bool" where
  "b64_padded s = b64_quads (filter (\<lambda>c. c \<noteq> LF \<and> c \<noteq> CR) s)"

subsection \<open>Validation\<close>

datatype config_error =
  BadSourceMode | BadZone | BadCname | BadAddress string | BadPort string | BadHost string
| BadInterval | TransfersNotPositive | RecordsNotPositive | PathsMissing | BadSourceUrl
| AclEmpty | BadAclEntry | InlineSecret | TsigPair | BadTsigKey
| SecretStat | SecretMode | SecretRead | SecretEmpty | SecretNotBase64
| NotSlaveMode | UpstreamMissing

definition default_config :: config where
  "default_config =
     \<lparr>source_mode = ''feeds'', zone = ''rpz.trustpositif.'', listen_dns = ''127.0.0.1:5353'',
      listen_http = ''127.0.0.1:8088'', cname_target = ''blockpage.komdigi.go.id.'',
      cdb_path = ''/var/lib/dnsdist/trustpositif.cdb'', state_path = ''/var/lib/dnsdist/rpz-master-state.json'',
      source_domain_url = ''https://trustpositif.komdigi.go.id/assets/db/domains_isp'',
      upstream_master = [], tsig_key = [], tsig_secret = [], tsig_secret_file = [],
      tsig_algorithm = ''hmac-sha256.'', check_interval = ''15m'', max_transfers = 10,
      max_transfer_records = 40000000, raw_domain_file = ''/var/lib/dnsdist/domains_isp.txt'',
      transfer_acl = [''127.0.0.0/8'', ''::1/128'']\<rparr>"

text \<open>
  \<open>LoadConfig\<close>: \<open>dec\<close> is the strict JSON decoder, which overwrites the fields the text names, and \<open>rd\<close>
  whether reading works.
\<close>

definition load_config :: "(bytes \<Rightarrow> config \<Rightarrow> config option) \<Rightarrow> bool \<Rightarrow> fs \<Rightarrow> string \<Rightarrow> config option" where
  "load_config dec rd F path =
     (if path = [] then Some default_config
      else if \<not> rd then None
      else case F path of None \<Rightarrow> None | Some b \<Rightarrow> dec b default_config)"

text \<open>The TSIG secret file as \<open>os.Stat\<close> and \<open>os.ReadFile\<close> show it.\<close>

record secret_file =
  sf_regular :: bool
  sf_perm :: "9 word"
  sf_text :: "bytes option"

definition read_tsig_secret :: "(string \<Rightarrow> secret_file option) \<Rightarrow> config \<Rightarrow> config_error + string" where
  "read_tsig_secret S cfg =
     (case S (tsig_secret_file cfg) of
        None \<Rightarrow> Inl SecretStat
      | Some i \<Rightarrow>
          if \<not> sf_regular i \<or> and (sf_perm i) 0x3F \<noteq> 0 then Inl SecretMode
          else (case sf_text i of
                  None \<Rightarrow> Inl SecretRead
                | Some b \<Rightarrow>
                    (let secret = trim_space b
                     in if secret = [] then Inl SecretEmpty
                        else if \<not> b64_padded secret then Inl SecretNotBase64 else Inr secret)))"

definition validate_address :: "lib \<Rightarrow> string \<Rightarrow> string \<Rightarrow> bool \<Rightarrow> config_error option" where
  "validate_address L name address allow_empty =
     (if address = [] \<and> allow_empty then None
      else case split_host_port address of
             None \<Rightarrow> Some (BadAddress name)
           | Some (host, port_text) \<Rightarrow>
               (case atoi port_text of
                  None \<Rightarrow> Some (BadPort name)
                | Some port \<Rightarrow>
                    if port < 1 \<or> 65535 < port then Some (BadPort name)
                    else if host \<noteq> [] \<and> parse_ip host = [] \<and> \<not> dns_is_name L (dns_fqdn L host) then Some (BadHost name)
                    else None))"

text \<open>
  The checks of \<open>Validate\<close> in their order; the first one that finds something decides. \<open>uri\<close> is
  \<open>url.ParseRequestURI\<close>: host and scheme.
\<close>

abbreviation refuse_if :: "bool \<Rightarrow> 'e \<Rightarrow> 'e option" where
  "refuse_if b e \<equiv> (if b then Some e else None)"

fun first_refusal :: "'e option list \<Rightarrow> 'e + unit" where
  "first_refusal [] = Inr ()"
| "first_refusal (None # cs) = first_refusal cs"
| "first_refusal (Some e # cs) = Inl e"

record config_env =
  ce_uri :: "string \<Rightarrow> (string \<times> string) option"
  ce_secret :: "string \<Rightarrow> secret_file option"

definition validate_checks :: "lib \<Rightarrow> config_env \<Rightarrow> config \<Rightarrow> config_error option list" where
  "validate_checks L E cfg =
     [refuse_if (source_mode cfg \<noteq> ''feeds'' \<and> source_mode cfg \<noteq> ''rpz-slave'') BadSourceMode,
      refuse_if (zone cfg = [] \<or> \<not> dns_is_name L (dns_fqdn L (zone cfg))) BadZone,
      refuse_if (cname_target cfg = [] \<or> \<not> dns_is_name L (dns_fqdn L (cname_target cfg))) BadCname,
      validate_address L ''listen_dns'' (listen_dns cfg) False,
      validate_address L ''listen_http'' (listen_http cfg) True,
      validate_address L ''upstream_master'' (upstream_master cfg) True,
      refuse_if (case parse_duration (check_interval cfg) of None \<Rightarrow> True | Some d \<Rightarrow> d \<le> 0) BadInterval,
      refuse_if (max_transfers cfg \<le> 0) TransfersNotPositive,
      refuse_if (max_transfer_records cfg \<le> 0) RecordsNotPositive,
      refuse_if (cdb_path cfg = [] \<or> state_path cfg = [] \<or> raw_domain_file cfg = []) PathsMissing,
      refuse_if (source_domain_url cfg \<noteq> [] \<and>
         (case ce_uri E (source_domain_url cfg) of
            None \<Rightarrow> True
          | Some (host, scheme) \<Rightarrow> host = [] \<or> (scheme \<noteq> ''http'' \<and> scheme \<noteq> ''https''))) BadSourceUrl,
      refuse_if (transfer_acl cfg = []) AclEmpty,
      refuse_if (\<exists>p \<in> set (transfer_acl cfg). parse_cidr p = None) BadAclEntry,
      refuse_if (tsig_secret cfg \<noteq> []) InlineSecret,
      refuse_if ((tsig_key cfg = []) \<noteq> (tsig_secret_file cfg = [])) TsigPair,
      refuse_if (tsig_key cfg \<noteq> [] \<and> \<not> dns_is_name L (dns_fqdn L (tsig_key cfg))) BadTsigKey,
      (if tsig_key cfg = [] then None
       else case read_tsig_secret (ce_secret E) cfg of Inl e \<Rightarrow> Some e | Inr _ \<Rightarrow> None)]"

definition validate :: "lib \<Rightarrow> config_env \<Rightarrow> config \<Rightarrow> config_error + unit" where
  "validate L E cfg = first_refusal (validate_checks L E cfg)"

definition validate_daemon :: "lib \<Rightarrow> config_env \<Rightarrow> config \<Rightarrow> config_error + unit" where
  "validate_daemon L E cfg =
     (case validate L E cfg of
        Inl e \<Rightarrow> Inl e
      | Inr _ \<Rightarrow> first_refusal [refuse_if (source_mode cfg \<noteq> ''rpz-slave'') NotSlaveMode,
                               refuse_if (upstream_master cfg = []) UpstreamMissing])"

lemma first_refusal_ok: "first_refusal cs = Inr () \<longleftrightarrow> (\<forall>c \<in> set cs. c = None)"
  by (induction cs rule: first_refusal.induct) auto

lemma validate_ok:
  assumes "validate L E cfg = Inr ()"
  shows "\<exists>d. parse_duration (check_interval cfg) = Some d \<and> 0 < d" and "0 < max_transfers cfg"
    "0 < max_transfer_records cfg" "transfer_acl cfg \<noteq> []" "p \<in> set (transfer_acl cfg) \<Longrightarrow> parse_cidr p \<noteq> None"
    "tsig_secret cfg = []" "tsig_key cfg \<noteq> [] \<Longrightarrow> \<exists>s. read_tsig_secret (ce_secret E) cfg = Inr s"
    "dns_is_name L (dns_fqdn L (zone cfg))" "validate_address L ''upstream_master'' (upstream_master cfg) True = None"
proof -
  have all: "\<forall>c \<in> set (validate_checks L E cfg). c = None" using assms by (simp only: validate_def first_refusal_ok)
  note c = all [unfolded validate_checks_def, simplified]
  show "\<exists>d. parse_duration (check_interval cfg) = Some d \<and> 0 < d" "0 < max_transfers cfg"
    "0 < max_transfer_records cfg" "transfer_acl cfg \<noteq> []" "p \<in> set (transfer_acl cfg) \<Longrightarrow> parse_cidr p \<noteq> None"
    "tsig_secret cfg = []" "tsig_key cfg \<noteq> [] \<Longrightarrow> \<exists>s. read_tsig_secret (ce_secret E) cfg = Inr s"
    "dns_is_name L (dns_fqdn L (zone cfg))" "validate_address L ''upstream_master'' (upstream_master cfg) True = None"
    using c by (auto split: if_splits option.splits sum.splits)
qed

subsection \<open>DownloadDomainsToFile\<close>

text \<open>
  The bootstrap download of \<open>builder.go\<close>: a temporary file beside the target, a status of 200, a body
  copied to the end, then a rename. \<open>srv\<close> is what the request brings: status and body; \<open>io\<close> says
  which call works. The temporary file is gone on every path.
\<close>

datatype boot_io = BootMkdir | BootTemp | BootRequest | BootCopy | BootSync | BootClose | BootChmod | BootRename

definition download_domains ::
  "(boot_io \<Rightarrow> bool) \<Rightarrow> (string \<Rightarrow> (nat \<times> bytes) option) \<Rightarrow> string \<Rightarrow> string \<Rightarrow> string \<Rightarrow> fs \<Rightarrow> (rpz_error + unit) \<times> fs" where
  "download_domains io srv url dest tmp F =
     (if \<not> io BootMkdir \<or> \<not> io BootTemp then (Inl IOError, F)
      else if \<not> io BootRequest then (Inl IOError, F(tmp := None))
      else case srv url of
             None \<Rightarrow> (Inl IOError, F(tmp := None))
           | Some (status, body) \<Rightarrow>
               if status \<noteq> 200 \<or> \<not> io BootCopy \<or> \<not> io BootSync \<or> \<not> io BootClose \<or> \<not> io BootChmod \<or> \<not> io BootRename
               then (Inl IOError, F(tmp := None))
               else (Inr (), (F(tmp := None))(dest \<mapsto> body)))"

text \<open>
  The outcome \<open>bootstrap\<close> is given agrees with it: with a fresh temporary name the files after the
  download are those \<open>bootstrap\<close> goes on with, and unchanged after a failure.
\<close>

lemma download_domains_bootstrap:
  assumes "F tmp = None" and "tmp \<noteq> dest"
  shows "case download_domains io srv url dest tmp F of
      (Inl e, F') \<Rightarrow> F' = F
    | (Inr _, F') \<Rightarrow> \<exists>body. srv url = Some (200, body) \<and> F' = F(dest \<mapsto> body)"
proof -
  have "F(tmp := None) = F" using assms(1) by auto
  then show ?thesis by (auto simp: download_domains_def split: option.splits prod.splits)
qed

subsection \<open>Starting the daemon\<close>

text \<open>\<open>LoadState\<close>: no file is the zero state; \<open>dec\<close> is the JSON decoder.\<close>

definition load_rpz_state :: "(bytes \<Rightarrow> state option) \<Rightarrow> bool \<Rightarrow> fs \<Rightarrow> string \<Rightarrow> state option" where
  "load_rpz_state dec rd F path =
     (if \<not> rd then None else case F path of None \<Rightarrow> Some empty_state | Some b \<Rightarrow> dec b)"

text \<open>What \<open>Serve\<close> opens after its files are prepared; \<open>bind\<close> tells which sockets can be opened.\<close>

datatype socket = DnsTcp | DnsUdp | HttpTcp

datatype serve_error = ListenFailed socket | SecretFailed config_error

record running =
  rn_tsig :: "(string \<times> string) option"
  rn_http :: "string option"
  rn_ticker :: "duration option"

definition serve_setup ::
  "lib \<Rightarrow> (string \<Rightarrow> secret_file option) \<Rightarrow> (socket \<Rightarrow> bool) \<Rightarrow> config \<Rightarrow> serve_error + running" where
  "serve_setup L S bind cfg =
     (if \<not> bind DnsTcp then Inl (ListenFailed DnsTcp)
      else if \<not> bind DnsUdp then Inl (ListenFailed DnsUdp)
      else case (if tsig_key cfg = [] then Inr None
                 else case read_tsig_secret S cfg of
                        Inl e \<Rightarrow> Inl e | Inr s \<Rightarrow> Inr (Some (dns_fqdn L (tsig_key cfg), s))) of
             Inl e \<Rightarrow> Inl (SecretFailed e)
           | Inr tsig \<Rightarrow>
               if listen_http cfg \<noteq> [] \<and> \<not> bind HttpTcp then Inl (ListenFailed HttpTcp)
               else Inr \<lparr>rn_tsig = tsig,
                         rn_http = (if listen_http cfg = [] then None else Some (listen_http cfg)),
                         rn_ticker = (if upstream_master cfg = [] then None
                                      else Some (case parse_duration (check_interval cfg) of None \<Rightarrow> 0 | Some d \<Rightarrow> d))\<rparr>)"

text \<open>\<open>run\<close>: options, configuration with its overrides, validation, state, action.\<close>

record options =
  op_config :: string
  op_action :: string
  op_zone :: string
  op_dns :: string
  op_http :: string
  op_input :: string
  op_version :: bool

record run_env =
  re_config_read :: bool
  re_config :: "bytes \<Rightarrow> config \<Rightarrow> config option"
  re_checks :: config_env
  re_state_read :: bool
  re_state :: "bytes \<Rightarrow> state option"
  re_sync :: sync_env
  re_build :: build_env
  re_stat_raw :: bool
  re_stat_cdb :: bool
  re_bind :: "socket \<Rightarrow> bool"

datatype run_error =
  LoadFailed | ConfigRefused config_error | StateFailed | ActionFailed rpz_error | ServeFailed serve_error | UnknownAction

datatype run_end = Version | Finished | Serving running | Stopped run_error

definition override_config :: "options \<Rightarrow> config \<Rightarrow> config" where
  "override_config p cfg =
     cfg\<lparr>zone := (if op_zone p \<noteq> [] then op_zone p else zone cfg),
         listen_dns := (if op_dns p \<noteq> [] then op_dns p else listen_dns cfg),
         listen_http := (if op_http p \<noteq> [] then op_http p else listen_http cfg),
         raw_domain_file := (if op_input p \<noteq> [] then op_input p else raw_domain_file cfg)\<rparr>"

definition validate_run :: "lib \<Rightarrow> config_env \<Rightarrow> string \<Rightarrow> config \<Rightarrow> config_error + unit" where
  "validate_run L E action cfg =
     (case validate L E cfg of
        Inl e \<Rightarrow> Inl e
      | Inr _ \<Rightarrow> if action = ''serve'' \<or> action = ''sync'' then validate_daemon L E cfg else Inr ())"

text \<open>The secret as the transfer client meets it: an error of any kind is \<^const>\<open>BadSecret\<close>.\<close>

definition client_secret :: "config_env \<Rightarrow> config \<Rightarrow> rpz_error + string" where
  "client_secret E cfg = (case read_tsig_secret (ce_secret E) cfg of Inl _ \<Rightarrow> Inl BadSecret | Inr s \<Rightarrow> Inr s)"

definition finish :: "(rpz_error + unit) \<times> state \<times> fs \<Rightarrow> run_end \<times> state option \<times> fs" where
  "finish r = (case r of (Inl e, st, F) \<Rightarrow> (Stopped (ActionFailed e), Some st, F)
                       | (Inr _, st, F) \<Rightarrow> (Finished, Some st, F))"

definition run_action ::
  "lib \<Rightarrow> (manifest \<Rightarrow> bytes) \<Rightarrow> (state \<Rightarrow> bytes) \<Rightarrow> run_env \<Rightarrow> string \<Rightarrow> config \<Rightarrow> state \<times> fs
   \<Rightarrow> run_end \<times> state option \<times> fs" where
  "run_action L encm encs e action cfg sf =
     (let se = (re_sync e)\<lparr>se_secret := client_secret (re_checks e) cfg\<rparr>
      in if action = ''bootstrap'' then finish (bootstrap L encm encs cfg (re_build e) sf)
         else if action = ''build-cdb'' then finish (build_cdb L encm encs cfg (re_build e) sf)
         else if action = ''sync'' then finish (sync L encm encs cfg se sf)
         else if action = ''serve'' then
           (case prepare_serve L encm encs cfg (re_stat_raw e) (re_stat_cdb e) se (re_build e) sf of
              (Inl err, st, F) \<Rightarrow> (Stopped (ActionFailed err), Some st, F)
            | (Inr _, st, F) \<Rightarrow>
                (case serve_setup L (ce_secret (re_checks e)) (re_bind e) cfg of
                   Inl err \<Rightarrow> (Stopped (ServeFailed err), Some st, F)
                 | Inr dm \<Rightarrow> (Serving dm, Some st, F)))
         else (Stopped UnknownAction, Some (fst sf), snd sf))"

definition run ::
  "lib \<Rightarrow> (manifest \<Rightarrow> bytes) \<Rightarrow> (state \<Rightarrow> bytes) \<Rightarrow> run_env \<Rightarrow> options \<Rightarrow> fs \<Rightarrow> run_end \<times> state option \<times> fs" where
  "run L encm encs e p F =
     (if op_version p then (Version, None, F)
      else case load_config (re_config e) (re_config_read e) F (op_config p) of
             None \<Rightarrow> (Stopped LoadFailed, None, F)
           | Some cfg0 \<Rightarrow>
               (let cfg = override_config p cfg0
                in case validate_run L (re_checks e) (op_action p) cfg of
                     Inl err \<Rightarrow> (Stopped (ConfigRefused err), None, F)
                   | Inr _ \<Rightarrow>
                       (case load_rpz_state (re_state e) (re_state_read e) F (state_path cfg) of
                          None \<Rightarrow> (Stopped StateFailed, None, F)
                        | Some st \<Rightarrow> run_action L encm encs e (op_action p) cfg (st, F))))"

subsection \<open>Facts\<close>

lemma validate_daemon_ok:
  assumes "validate_daemon L E cfg = Inr ()"
  shows "validate L E cfg = Inr ()" "source_mode cfg = ''rpz-slave''" "upstream_master cfg \<noteq> []"
  using assms by (auto simp: validate_daemon_def split: sum.splits if_splits)



lemma zero_records_refused: "max_transfer_records cfg = 0 \<Longrightarrow> validate L E cfg \<noteq> Inr ()"
  using validate_ok(3) [of L E cfg] by auto

text \<open>A listen address may name its host.\<close>

lemma listen_host_may_be_name: "validate_address example_lib ''listen_dns'' ''localhost:53'' False = None"
  by code_simp

text \<open>Only a validated configuration reaches an action.\<close>

lemma run_only_validated:
  assumes "run L encm encs e p F = (r, st, F')" and "F' \<noteq> F \<or> r = Finished \<or> (\<exists>dm. r = Serving dm)"
  obtains cfg0 where "load_config (re_config e) (re_config_read e) F (op_config p) = Some cfg0"
    "validate_run L (re_checks e) (op_action p) (override_config p cfg0) = Inr ()"
proof -
  obtain cfg0 where c: "load_config (re_config e) (re_config_read e) F (op_config p) = Some cfg0"
    using assms by (auto simp: run_def split: if_splits option.splits)
  have "validate_run L (re_checks e) (op_action p) (override_config p cfg0) = Inr ()"
  proof (cases "validate_run L (re_checks e) (op_action p) (override_config p cfg0)")
    case (Inl a)
    then show ?thesis using assms c by (auto simp: run_def split: if_splits)
  qed simp
  with c show thesis by (rule that)
qed

lemma validate_run_daemon:
  "validate_run L E a cfg = Inr () \<Longrightarrow> a = ''serve'' \<or> a = ''sync'' \<Longrightarrow> validate_daemon L E cfg = Inr ()"
  by (auto simp: validate_run_def split: sum.splits)

text \<open>The default configuration is in mode \<open>feeds\<close>, which the default action \<open>serve\<close> refuses.\<close>

lemma default_configuration_cannot_serve: "validate_daemon L E default_config \<noteq> Inr ()"
  using validate_daemon_ok(2) [of L E default_config] by (auto simp: default_config_def)




subsection \<open>Properties\<close>

text \<open>
  The algorithm of the signatures is not among the checks: any name passes, also one that no DNS library
  knows, and then every signed query of the transfer client fails.
\<close>

lemma tsig_algorithm_unchecked:
  "validate_daemon L E (cfg\<lparr>tsig_algorithm := a\<rparr>) = validate_daemon L E cfg"
proof -
  have rd: "read_tsig_secret S (cfg\<lparr>tsig_algorithm := a\<rparr>) = read_tsig_secret S cfg" for S
    by (simp add: read_tsig_secret_def)
  have ch: "validate_checks L E (cfg\<lparr>tsig_algorithm := a\<rparr>) = validate_checks L E cfg"
    unfolding validate_checks_def rd by (cases cfg) (simp only: config.simps)
  show ?thesis unfolding validate_daemon_def validate_def ch by (cases "first_refusal (validate_checks L E cfg)") simp_all
qed





end
