(* ===== verification/Rpz_Http.thy ===== *)
theory Rpz_Http
  imports Rpz_App Go_Utf8
begin

text \<open>
  The HTTP interface of \<open>tools/rpz-master/http_server.go\<close> over the state and the files of the daemon:
  the database, the raw list of domains, the manifest and the health check. The handlers take no
  lock on the publication: a handler copies the state at one moment, asks for the database at a second
  and opens the file at a third, and steps of the daemon of \<open>Rpz_App\<close> may lie between them. The theorems
  say when what it sends belongs together, and where it does not. Conditional and range requests, which
  \<open>http.ServeContent\<close> answers, are not modelled: a reply is the one to a plain GET.
\<close>

subsection \<open>Handlers\<close>

record http_manifest =
  hm_status :: string
  hm_serial :: u32
  hm_last_update :: time
  hm_total :: nat
  hm_sha :: string
  hm_cdb_file :: string

datatype http_body = FileBody bytes | ManifestBody http_manifest | StatusBody string | ErrorBody

record http_reply =
  hr_code :: nat
  hr_etag :: "string option"
  hr_updated :: "time option"
  hr_filename :: "string option"
  hr_body :: http_body

text \<open>What the file system reports beside the content: the outcome of the calls, kind and times.\<close>

record http_env =
  he_stat_cdb :: bool
  he_open_cdb :: "nat option"   \<comment> \<open>the status \<open>http.ServeFile\<close> answers when it cannot open a file that is there\<close>
  he_open_raw :: bool
  he_stat_raw :: bool
  he_regular :: bool
  he_mtime :: int

definition http_failure :: "nat \<Rightarrow> http_reply" where
  "http_failure n = \<lparr>hr_code = n, hr_etag = None, hr_updated = None, hr_filename = None, hr_body = ErrorBody\<rparr>"

definition etag_quote :: "string \<Rightarrow> string" where "etag_quote s = CHR 0x22 # s @ [CHR 0x22]"

text \<open>
  The database handler with its three moments: the state \<open>st\<close> it copied, the files \<open>Fs\<close> at \<open>os.Stat\<close> and
  \<open>Fo\<close> when \<open>http.ServeFile\<close> opens the database. An error of \<open>ServeFile\<close> drops the entity tag.
\<close>

definition cdb_handler :: "http_env \<Rightarrow> config \<Rightarrow> state \<Rightarrow> fs \<Rightarrow> fs \<Rightarrow> http_reply" where
  "cdb_handler e cfg st Fs Fo =
     (let name = Some (path_base (cdb_path cfg))
      in case stat_file Fs (he_stat_cdb e) (cdb_path cfg) of
        Absent \<Rightarrow> http_failure 404
      | StatError \<Rightarrow> http_failure 500
      | Present \<Rightarrow>
          (case Fo (cdb_path cfg) of
             None \<Rightarrow> (http_failure 404)\<lparr>hr_filename := name\<rparr>
           | Some b \<Rightarrow>
               (case he_open_cdb e of
                  Some code \<Rightarrow> (http_failure code)\<lparr>hr_filename := name\<rparr>
                | None \<Rightarrow>
                    \<lparr>hr_code = 200, hr_etag = (if cdb_sha256 st \<noteq> [] then Some (etag_quote (cdb_sha256 st)) else None),
                     hr_updated = None, hr_filename = name, hr_body = FileBody b\<rparr>)))"

definition raw_handler :: "http_env \<Rightarrow> config \<Rightarrow> state \<Rightarrow> fs \<Rightarrow> http_reply" where
  "raw_handler e cfg st F =
     (case stat_file F (he_open_raw e) (raw_domain_file cfg) of
        Absent \<Rightarrow> http_failure 404
      | StatError \<Rightarrow> http_failure 500
      | Present \<Rightarrow>
          if \<not> he_stat_raw e \<or> \<not> he_regular e then http_failure 500
          else (let b = the (F (raw_domain_file cfg))
                in \<lparr>hr_code = 200,
                    hr_etag = Some (etag_quote (fmt_d (int (length b)) @ ''-'' @ fmt_d (he_mtime e))),
                    hr_updated = Some (last_update st), hr_filename = None, hr_body = FileBody b\<rparr>))"

definition manifest_handler :: "config \<Rightarrow> state \<Rightarrow> http_reply" where
  "manifest_handler cfg st =
     \<lparr>hr_code = 200, hr_etag = None, hr_updated = None, hr_filename = None,
      hr_body = ManifestBody \<lparr>hm_status = ''ok'', hm_serial = serial st, hm_last_update = last_update st,
        hm_total = total_domains st, hm_sha = cdb_sha256 st, hm_cdb_file = path_base (cdb_path cfg)\<rparr>\<rparr>"

definition health_handler :: http_reply where
  "health_handler = \<lparr>hr_code = 200, hr_etag = None, hr_updated = None, hr_filename = None,
     hr_body = StatusBody ''healthy''\<rparr>"

text \<open>The routes of \<open>Handler\<close>.\<close>

definition cdb_routes :: "string list" where
  "cdb_routes = [''/blacklist.db'', ''/trust.db'', ''/files/trust.db'']"

definition raw_routes :: "string list" where
  "raw_routes = [''/domains'', ''/files/domains'', ''/raw-domains'']"

definition manifest_routes :: "string list" where
  "manifest_routes = [''/manifest.json'', ''/files/manifest.json'', ''/status'']"

definition rpz_http :: "http_env \<Rightarrow> config \<Rightarrow> state \<Rightarrow> fs \<Rightarrow> fs \<Rightarrow> string \<Rightarrow> http_reply" where
  "rpz_http e cfg st Fs Fo path =
     (if path \<in> set cdb_routes then cdb_handler e cfg st Fs Fo
      else if path \<in> set raw_routes then raw_handler e cfg st Fo
      else if path \<in> set manifest_routes then manifest_handler cfg st
      else if path = ''/health'' then health_handler
      else http_failure 404)"

lemma rpz_http_routes:
  "p \<in> set cdb_routes \<Longrightarrow> rpz_http e cfg st Fs Fo p = cdb_handler e cfg st Fs Fo"
  "p \<in> set raw_routes \<Longrightarrow> rpz_http e cfg st Fs Fo p = raw_handler e cfg st Fo"
  "p \<in> set manifest_routes \<Longrightarrow> rpz_http e cfg st Fs Fo p = manifest_handler cfg st"
  by (auto simp: rpz_http_def cdb_routes_def raw_routes_def manifest_routes_def)

subsection \<open>State and files between publications\<close>

text \<open>
  Database and list in the files belong together, and a digest and a count describe them; in phase
  \<open>Published\<close> the digest and the count are those of the build, which the state does not have yet.
\<close>

definition files_match :: "lib \<Rightarrow> config \<Rightarrow> fs \<Rightarrow> string \<Rightarrow> nat \<Rightarrow> bool" where
  "files_match L cfg F sha n \<longleftrightarrow>
     (\<exists>b img. F (raw_domain_file cfg) = Some b \<and> F (cdb_path cfg) = Some img
        \<and> img = cdb_image L (entries_for L True (file_domains L b))
        \<and> sha = sha256_hex L img \<and> n = length (file_domains L b))"

definition http_inv :: "lib \<Rightarrow> config \<Rightarrow> world \<Rightarrow> bool" where
  "http_inv L cfg w \<longleftrightarrow>
     (case w_phase w of
        Published d up res \<Rightarrow> files_match L cfg (w_fs w) (sha256 res) (total_entries res)
      | _ \<Rightarrow> files_match L cfg (w_fs w) (cdb_sha256 (w_st w)) (total_domains (w_st w)))"

lemma files_match_other:
  assumes "files_match L cfg F sha n" and "F' (raw_domain_file cfg) = F (raw_domain_file cfg)"
    and "F' (cdb_path cfg) = F (cdb_path cfg)"
  shows "files_match L cfg F' sha n"
  using assms by (simp add: files_match_def)

lemma files_match_upd:
  "files_match L cfg F sha n \<Longrightarrow> F p = None \<or> p \<notin> {raw_domain_file cfg, cdb_path cfg}
    \<Longrightarrow> files_match L cfg (F(p \<mapsto> b)) sha n"
  by (auto simp: files_match_def)

lemma published_ok_match:
  "published_ok L enc cfg now r F \<Longrightarrow> files_match L cfg F (sha256 r) (total_entries r)"
  by (auto simp: published_ok_def files_match_def Let_def split: option.splits)

lemma http_inv_step:
  assumes "app_step L encm encs cfg U w l w'" and "http_inv L cfg w" and "l \<notin> torn"
    and "state_path cfg \<notin> {raw_domain_file cfg, cdb_path cfg}"
  shows "http_inv L cfg w'"
  using assms(1)
proof cases
  case (fetch_none e r F)
  then have "F = w_fs w" using sync_fetch_none by (auto simp: fresh_stage_def)
  then show ?thesis using assms(2) fetch_none by (simp add: http_inv_def)
next
  case (fetch_some e d up F)
  have m: "files_match L cfg (w_fs w) (cdb_sha256 (w_st w)) (total_domains (w_st w))"
    using assms(2) fetch_some by (simp add: http_inv_def)
  have "files_match L cfg F (cdb_sha256 (w_st w)) (total_domains (w_st w))"
    using sync_fetch_some(4) [OF fetch_some(5)] files_match_upd [OF m] fetch_some(4) m
    by (auto simp: fresh_stage_def)
  then show ?thesis using fetch_some by (simp add: http_inv_def)
next
  case (publish_ok d up e res F)
  have "published_ok L encm cfg (se_built e) res F"
    using publish_delta_ok(1) [OF publish_ok(5) [unfolded sync_publish_def] publish_ok(4)] by blast
  from published_ok_match [OF this] show ?thesis using publish_ok by (simp add: http_inv_def)
next
  case (publish_fail d up e err F)
  have "F p = w_fs w p" if "p \<in> {raw_domain_file cfg, cdb_path cfg}" for p
    using publish_delta_error [OF publish_fail(5) [unfolded sync_publish_def] publish_fail(4,6,7)] that by auto
  then show ?thesis using assms(2) publish_fail files_match_other [of L cfg "w_fs w" _ _ F]
    by (simp add: http_inv_def)
next
  case (publish_torn d up e err F)
  then show ?thesis using assms(3) by (simp add: torn_def)
next
  case (commit_ok d up res e st F)
  then have st: "st = next_state (w_st w) d up res (se_done e)" "F = (w_fs w)(state_path cfg \<mapsto> encs st)"
    by (auto simp: sync_commit_def save_state_def Let_def split: if_splits)
  have "files_match L cfg (w_fs w) (sha256 res) (total_entries res)"
    using assms(2) commit_ok by (simp add: http_inv_def)
  then have "files_match L cfg F (cdb_sha256 st) (total_domains st)"
    using files_match_upd [of L cfg "w_fs w"] assms(4) by (simp add: st)
  then show ?thesis using commit_ok by (simp add: http_inv_def)
next
  case (commit_fail d up res e err st F)
  then show ?thesis using assms(3) by (simp add: torn_def)
qed (use assms(2) in \<open>simp_all add: http_inv_def split: phase.splits\<close>)

lemma http_inv_run:
  assumes "app_run L encm encs cfg U A w0 w" and "http_inv L cfg w0" and "A \<inter> torn = {}"
    and "state_path cfg \<notin> {raw_domain_file cfg, cdb_path cfg}"
  shows "http_inv L cfg w"
  using assms(1)
proof induction
  case start
  show ?case by (rule assms(2))
next
  case (step w l w')
  then show ?case using http_inv_step assms(3,4) by blast
qed

text \<open>Steps that do not publish: the readers, and the fetch of a synchronisation.\<close>

definition quiet :: "label set" where "quiet = {FetchNone, FetchSome, Pin, Open, Miss}"

lemma quiet_step:
  assumes "app_step L encm encs cfg U w l w'" and "l \<in> quiet" and "writer_free (w_phase w)"
    and "w_fs w (cdb_path cfg) \<noteq> None"
  shows "w_st w' = w_st w \<and> w_fs w' (cdb_path cfg) = w_fs w (cdb_path cfg)
     \<and> w_fs w' (raw_domain_file cfg) = w_fs w (raw_domain_file cfg) \<and> writer_free (w_phase w')"
  using assms(1)
proof cases
  case (fetch_none e r F)
  then have "F = w_fs w" using sync_fetch_none by (auto simp: fresh_stage_def)
  then show ?thesis using assms(3) fetch_none by simp
next
  case (fetch_some e d up F)
  then have "se_stage e \<notin> {cdb_path cfg, raw_domain_file cfg}" using assms(4) by (auto simp: fresh_stage_def)
  then show ?thesis using sync_fetch_some(4) [OF fetch_some(5)] fetch_some by (auto simp: writer_free_def)
qed (use assms(2,3) in \<open>simp_all add: quiet_def\<close>)

lemma quiet_run:
  assumes "app_run L encm encs cfg U quiet w w'" and "writer_free (w_phase w)" and "w_fs w (cdb_path cfg) \<noteq> None"
  shows "w_st w' = w_st w \<and> w_fs w' (cdb_path cfg) = w_fs w (cdb_path cfg)
     \<and> w_fs w' (raw_domain_file cfg) = w_fs w (raw_domain_file cfg) \<and> writer_free (w_phase w')"
  using assms(1)
proof induction
  case start
  show ?case using assms(2) by simp
next
  case (step w' l w'')
  then show ?case using quiet_step [OF step.hyps(2,3)] assms(3) by auto
qed

text \<open>
  Between the publication of new files and the commit of the state the handlers announce the old
  digest for the new database: the reply of the database route and the manifest are both wrong.
\<close>

lemma http_stale_before_commit:
  assumes "http_inv L cfg w" and "w_phase w = Published d up res" and "he_stat_cdb e" and "he_open_cdb e = None"
    and "cdb_sha256 (w_st w) \<noteq> sha256 res"
  obtains img where "hr_body (cdb_handler e cfg (w_st w) (w_fs w) (w_fs w)) = FileBody img"
    "hr_etag (cdb_handler e cfg (w_st w) (w_fs w) (w_fs w)) \<noteq> Some (etag_quote (sha256_hex L img))"
    "hr_body (manifest_handler cfg (w_st w)) = ManifestBody m \<Longrightarrow> hm_sha m \<noteq> sha256_hex L img"
proof -
  obtain img where i: "w_fs w (cdb_path cfg) = Some img" "sha256 res = sha256_hex L img"
    using assms(1,2) by (auto simp: http_inv_def files_match_def)
  with assms(3-5) show thesis
    by (intro that [of img]) (auto simp: cdb_handler_def stat_file_def etag_quote_def manifest_handler_def Let_def)
qed

subsection \<open>Properties\<close>

text \<open>
  C11: While no publication runs, the HTTP interface is consistent and shows the upstream zone. Take a
  run of the daemon from a consistent world, against an honest upstream and with no torn publication
  and no failed saving of the state, to a world \<open>w1\<close> in which the updater is idle or still fetching, and
  let a request copy the state there, ask for the database in \<open>ws\<close> and open its file in \<open>w2\<close>, other
  readers and a fetch, but no publication, going on between. The database route sends a file whose
  digest is the one in its entity tag and in the manifest; the manifest counts the domains of the list
  that the raw route sends; that list holds exactly the domains the upstream had at the serial of the
  manifest, and the database is the one compiled from it. A request during which new files are
  published can see the digest of the one beside the other (\<open>http_stale_before_commit\<close>).
\<close>

theorem http_describes_zone:
  assumes "app_run L encm encs cfg U A w0 w1" and "app_inv L cfg U w0" and "http_inv L cfg w0"
    and "A \<inter> torn = {}" and "state_path cfg \<notin> {raw_domain_file cfg, cdb_path cfg}" and "clean_history L U"
    and "writer_free (w_phase w1)"
    and "app_run L encm encs cfg U quiet w1 ws" and "app_run L encm encs cfg U quiet ws w2"
    and "he_stat_cdb e" and "he_open_cdb e = None" and "he_open_raw e" and "he_stat_raw e" and "he_regular e"
    and "cdb_sha256 (w_st w1) \<noteq> []"
    and "p \<in> set cdb_routes" and "q \<in> set raw_routes" and "r \<in> set manifest_routes"
  shows "\<exists>img b m.
     hr_body (rpz_http e cfg (w_st w1) (w_fs ws) (w_fs w2) p) = FileBody img
     \<and> hr_body (rpz_http e cfg (w_st w1) (w_fs ws) (w_fs w2) q) = FileBody b
     \<and> hr_body (rpz_http e cfg (w_st w1) (w_fs ws) (w_fs w2) r) = ManifestBody m
     \<and> hr_etag (rpz_http e cfg (w_st w1) (w_fs ws) (w_fs w2) p) = Some (etag_quote (sha256_hex L img))
     \<and> hm_sha m = sha256_hex L img \<and> hm_total m = length (file_domains L b)
     \<and> set (file_domains L b) = U (hm_serial m)
     \<and> img = cdb_image L (entries_for L True (file_domains L b))"
proof -
  have "http_inv L cfg w1" by (rule http_inv_run [OF assms(1,3,4,5)])
  then have "files_match L cfg (w_fs w1) (cdb_sha256 (w_st w1)) (total_domains (w_st w1))"
    using assms(7) by (cases "w_phase w1") (auto simp: http_inv_def writer_free_def)
  then obtain b img where f: "w_fs w1 (raw_domain_file cfg) = Some b" "w_fs w1 (cdb_path cfg) = Some img"
    "img = cdb_image L (entries_for L True (file_domains L b))" "cdb_sha256 (w_st w1) = sha256_hex L img"
    "total_domains (w_st w1) = length (file_domains L b)" unfolding files_match_def by blast
  have "app_inv L cfg U w1" using app_inv_run [OF assms(1,2,4) _ assms(6)] assms(5) by simp
  then have g: "set (file_domains L b) = U (serial (w_st w1))"
    using assms(7) f(1) by (auto simp: app_inv_def good_file_def writer_free_def split: phase.splits)
  have s: "w_fs ws (cdb_path cfg) = Some img" "w_fs ws (raw_domain_file cfg) = Some b" "writer_free (w_phase ws)"
    using quiet_run [OF assms(8,7)] f by simp_all
  then have o: "w_fs w2 (cdb_path cfg) = Some img" "w_fs w2 (raw_domain_file cfg) = Some b"
    using quiet_run [OF assms(9)] by simp_all
  show ?thesis
    unfolding rpz_http_routes(1) [OF assms(16)] rpz_http_routes(2) [OF assms(17)] rpz_http_routes(3) [OF assms(18)]
    using f(3-5) g s(1) o assms(10-15)
    by (simp add: cdb_handler_def raw_handler_def manifest_handler_def stat_file_def Let_def)
qed

definition example_http_env :: http_env where
  "example_http_env = \<lparr>he_stat_cdb = True, he_open_cdb = None, he_open_raw = True, he_stat_raw = True, he_regular = True, he_mtime = 5\<rparr>"

lemma example_published_match:
  assumes "example_publish = (Inr res, snd example_publish)"
  shows "http_inv example_lib example_cfg
    (example_world\<lparr>w_fs := snd example_publish, w_phase := Published example_got 3 res\<rparr>)"
proof -
  have paths: "publish_paths (se_tmp example_env) (se_dir example_env) example_cfg example_got" by code_simp
  have "published_ok example_lib mf_sha256 example_cfg (se_built example_env) res (snd example_publish)"
    using publish_delta_ok(1) [OF assms [unfolded example_publish_def sync_publish_def] paths]
    unfolding example_publish_def sync_publish_def by blast
  from published_ok_match [OF this] show ?thesis by (simp add: http_inv_def)
qed

theorem http_describes_zone_witness:
  "\<exists>w w2 b. app_run example_lib mf_sha256 cdb_sha256 example_cfg example_history (- torn) example_world w
     \<and> app_run example_lib mf_sha256 cdb_sha256 example_cfg example_history quiet w w2 \<and> w2 \<noteq> w
     \<and> hr_body (rpz_http example_http_env example_cfg (w_st w) (w_fs w) (w_fs w2) ''/domains'') = FileBody b
     \<and> set (file_domains example_lib b) = {''a.c'', ''b.c''}"
proof -
  let ?run = "app_run example_lib mf_sha256 cdb_sha256 example_cfg example_history"
  obtain res where p: "example_publish = (Inr res, snd example_publish)" using example_publish_result by blast
  let ?w3 = "example_world\<lparr>w_fs := snd example_publish, w_phase := Published example_got 3 res\<rparr>"
  let ?st = "next_state (w_st ?w3) example_got 3 res (se_done example_env)"
  let ?w4 = "?w3\<lparr>w_st := ?st, w_fs := (w_fs ?w3)(state_path example_cfg \<mapsto> cdb_sha256 ?st), w_phase := Idle\<rparr>"
  let ?w5 = "?w4\<lparr>w_pins := serial (w_st ?w4) # w_pins ?w4\<rparr>"
  note r3 = example_run_published [OF p]
  have paths: "state_path example_cfg \<notin> {raw_domain_file example_cfg, cdb_path example_cfg}"
    by (simp add: example_cfg_def)
  have inv: "app_inv example_lib example_cfg example_history ?w3"
    using r3 example_world_inv by (rule app_inv_run) (use paths example_history_clean in auto)
  have r4: "?run (- torn) ?w3 ?w4"
    by (rule run_to_commit [OF app_run.start]) (simp_all add: example_env_def)
  have r4': "?run (- torn) example_world ?w4"
    by (rule run_to_commit [OF r3]) (simp_all add: example_env_def)
  have free: "writer_free (w_phase ?w4)" by (simp add: writer_free_def)
  have r5: "?run quiet ?w4 ?w5"
    by (rule app_run.step [OF app_run.start app_step.pin]) (simp_all add: writer_free_def quiet_def)
  have sha: "sha256 (projr (fst example_publish)) \<noteq> []" by code_simp
  have "fst example_publish = Inr res" using p by (metis fst_conv)
  with sha have "sha256 res \<noteq> []" by simp
  then have n: "cdb_sha256 (w_st ?w4) \<noteq> []" by simp
  have routes: "''/trust.db'' \<in> set cdb_routes" "''/domains'' \<in> set raw_routes" "''/status'' \<in> set manifest_routes"
    by (simp_all add: cdb_routes_def raw_routes_def manifest_routes_def)
  from http_describes_zone [OF r4 inv example_published_match [OF p] _ paths example_history_clean free
      app_run.start r5 _ _ _ _ _ n routes, of example_http_env]
  obtain b m where b: "hr_body (rpz_http example_http_env example_cfg (w_st ?w4) (w_fs ?w4) (w_fs ?w5) ''/domains'') = FileBody b"
    "hr_body (rpz_http example_http_env example_cfg (w_st ?w4) (w_fs ?w4) (w_fs ?w5) ''/status'') = ManifestBody m"
    "set (file_domains example_lib b) = example_history (hm_serial m)"
    by (auto simp: example_http_env_def)
  have "hm_serial m = 3"
    using b(2) unfolding rpz_http_routes(3) [OF routes(3)] by (auto simp: manifest_handler_def)
  moreover have "w_pins ?w5 \<noteq> w_pins ?w4" by simp
  then have "?w5 \<noteq> ?w4" by metis
  ultimately show ?thesis using b r4' r5
    by (intro exI [of _ ?w4] exI [of _ ?w5] exI [of _ b]) (simp add: example_history_def)
qed

end
