(* ===== verification/Lua_Text.thy ===== *)
theory Lua_Text
  imports Go_Utf8
begin

text \<open>
  \<open>luaQuote\<close>, \<open>luaStrList\<close> and \<open>luaInt\<close> of the panel, and the reader they are checked against: how
  Lua reads a string literal in double quotes, and the tokens of a chunk that consists of comments,
  names, decimal numbers, string literals and punctuation.
\<close>

subsection \<open>Quoting\<close>

definition QUOTE :: char where "QUOTE = CHR 0x22"
definition BSLASH :: char where "BSLASH = CHR 0x5C"

lemma LF_chr: "LF = CHR 0x0A" and CR_chr: "CR = CHR 0x0D"
  by (simp_all add: LF_def CR_def char_of_def bit_0)

lemma special_bytes [simp]: "bint QUOTE = 34" "bint BSLASH = 92" "bint LF = 10" "bint CR = 13"
  by (simp_all add: bint_byte QUOTE_def BSLASH_def LF_def CR_def)

lemma special_chars [simp]:
  "char_of (34::int) = QUOTE" "char_of (92::int) = BSLASH" "char_of (10::int) = LF" "char_of (13::int) = CR"
  by (metis char_of_bint special_bytes)+

lemma special_distinct [simp]: "QUOTE \<noteq> BSLASH" "BSLASH \<noteq> QUOTE" "QUOTE \<noteq> LF" "QUOTE \<noteq> CR" "BSLASH \<noteq> LF" "BSLASH \<noteq> CR"
  using special_bytes by (fastforce simp del: special_bytes)+

text \<open>One rune of \<open>luaQuote\<close>; control characters become a backslash and three digits.\<close>

definition dec3 :: "int \<Rightarrow> string" where
  "dec3 r = [char_of (48 + r div 100 mod 10), char_of (48 + r div 10 mod 10), char_of (48 + r mod 10)]"

definition lua_rune :: "int \<Rightarrow> string" where
  "lua_rune r =
     (if r = 92 then [BSLASH, BSLASH]
      else if r = 34 then [BSLASH, QUOTE]
      else if r = 10 then [BSLASH, CHR ''n'']
      else if r = 13 then [BSLASH, CHR ''r'']
      else if r < 32 \<or> r = 127 then BSLASH # dec3 r
      else encode_rune r)"

definition lua_quote :: "string \<Rightarrow> string" where
  "lua_quote s = QUOTE # concat (map lua_rune (runes s)) @ [QUOTE]"

definition lua_str_list :: "string list \<Rightarrow> string" where
  "lua_str_list xs = ''{'' @ join '', '' (map lua_quote xs) @ ''}''"

definition lua_int :: "string \<Rightarrow> int option \<Rightarrow> string" where
  "lua_int name v = (case v of None \<Rightarrow> [] | Some n \<Rightarrow> name @ '' = '' @ fmt_d n @ [LF])"

subsection \<open>How Lua reads a string literal\<close>

text \<open>After a backslash: a letter escape, or up to three decimal digits.\<close>

definition lua_escape :: "string \<Rightarrow> (char \<times> string) option" where
  "lua_escape s =
     (case s of
        [] \<Rightarrow> None
      | c # t \<Rightarrow>
          if is_digit c then
            (let ds = takeWhile is_digit (take 3 s)
             in if 255 < dec_val ds then None else Some (char_of (dec_val ds), drop (length ds) s))
          else if c = BSLASH \<or> c = QUOTE \<or> c = CHR 0x27 \<or> c = LF then Some (c, t)
          else if c = CHR ''n'' then Some (LF, t)
          else if c = CHR ''r'' then Some (CR, t)
          else if c = CHR ''t'' then Some (CHR 0x09, t)
          else if c = CHR ''a'' then Some (CHR 0x07, t)
          else if c = CHR ''b'' then Some (CHR 0x08, t)
          else if c = CHR ''f'' then Some (CHR 0x0C, t)
          else if c = CHR ''v'' then Some (CHR 0x0B, t)
          else None)"

lemma lua_escape_shorter: "lua_escape s = Some (c, t) \<Longrightarrow> length t < length s"
  by (cases s) (auto simp: lua_escape_def Let_def split: if_splits)

text \<open>The value of the literal whose opening quote has been read, and the text after it.\<close>

function lua_string :: "string \<Rightarrow> (string \<times> string) option" where
  "lua_string s =
     (case s of
        [] \<Rightarrow> None
      | c # t \<Rightarrow>
          if c = QUOTE then Some ([], t)
          else if c = LF \<or> c = CR then None
          else if c = BSLASH then
            (case lua_escape t of
               None \<Rightarrow> None
             | Some (d, u) \<Rightarrow> map_option (apfst ((#) d)) (lua_string u))
          else map_option (apfst ((#) c)) (lua_string t))"
  by pat_completeness auto
termination
  by (relation "measure length") (auto dest: lua_escape_shorter)

declare lua_string.simps [simp del]

subsection \<open>Tokens\<close>

datatype lua_token = TName string | TNum int | TStr string | TSym char

definition is_letter :: "char \<Rightarrow> bool" where
  "is_letter c \<longleftrightarrow> (65 \<le> byte c \<and> byte c \<le> 90) \<or> (97 \<le> byte c \<and> byte c \<le> 122) \<or> c = CHR ''_''"

definition is_word :: "char \<Rightarrow> bool" where
  "is_word c \<longleftrightarrow> is_letter c \<or> is_digit c"

lemma lua_string_shorter: "lua_string s = Some (x, t) \<Longrightarrow> length t < length s"
proof (induction s arbitrary: x t rule: length_induct)
  case (1 s)
  obtain c u where s: "s = c # u" using 1(2) by (cases s) (simp_all add: lua_string.simps)
  have step: "length t < length s" if v: "lua_string v = Some (y, t)" "length v \<le> length u" for v y
  proof -
    have "length v < length s" using that s by simp
    then have "length t < length v" using 1(1) v(1) by blast
    with that s show ?thesis by simp
  qed
  show ?case
  proof (cases "c = BSLASH")
    case True
    then obtain d w where e: "lua_escape u = Some (d, w)"
      using 1(2) s by (subst (asm) lua_string.simps)
        (auto split: option.splits)
    then obtain y where "lua_string w = Some (y, t)"
      using 1(2) s True by (subst (asm) lua_string.simps)
        auto
    with step lua_escape_shorter [OF e] show ?thesis by simp
  next
    case False
    with 1(2) s step [of u] show ?thesis
      by (subst (asm) lua_string.simps) (auto split: if_splits)
  qed
qed

text \<open>
  The lexer is defined on the fragment the generator is meant to stay in: a long comment, a
  numeral glued to letters or any other character is refused.
\<close>

function lua_lex :: "string \<Rightarrow> lua_token list option" where
  "lua_lex s =
     (case s of
        [] \<Rightarrow> Some []
      | c # t \<Rightarrow>
          if is_space_byte c then lua_lex t
          else if c = CHR ''-'' then
            (if prefix ''-['' t \<or> \<not> prefix ''-'' t then None else lua_lex (dropWhile (\<lambda>d. d \<noteq> LF) t))
          else if c = QUOTE then
            (case lua_string t of None \<Rightarrow> None | Some (x, u) \<Rightarrow> map_option ((#) (TStr x)) (lua_lex u))
          else if is_digit c then
            (let ds = takeWhile is_word s
             in if list_all is_digit ds then map_option ((#) (TNum (dec_val ds))) (lua_lex (dropWhile is_word s))
                else None)
          else if is_letter c then
            map_option ((#) (TName (takeWhile is_word s))) (lua_lex (dropWhile is_word s))
          else if c \<in> set ''={}(),'' then map_option ((#) (TSym c)) (lua_lex t)
          else None)"
  by pat_completeness auto
termination
proof (relation "measure length", goal_cases)
  case 1
  show ?case by simp
next
  case (3 s c t)
  then show ?case using length_dropWhile_le [of "\<lambda>d. d \<noteq> LF" t] by simp
next
  case (4 s c t x u v)
  then show ?case using lua_string_shorter [of t u v] by simp
next
  case (5 s c t ds)
  then show ?case using length_dropWhile_le [of is_word t] by (simp add: is_word_def)
next
  case (6 s c t)
  then show ?case using length_dropWhile_le [of is_word t] by (simp add: is_word_def)
qed simp_all

declare lua_lex.simps [simp del]

subsection \<open>Reading back a quoted string\<close>

lemma lua_string_plain:
  "c \<noteq> QUOTE \<Longrightarrow> c \<noteq> LF \<Longrightarrow> c \<noteq> CR \<Longrightarrow> c \<noteq> BSLASH \<Longrightarrow>
   lua_string (c # t) = map_option (apfst ((#) c)) (lua_string t)"
  by (subst lua_string.simps) simp

lemma lua_string_plains:
  "\<forall>c \<in> set w. c \<noteq> QUOTE \<and> c \<noteq> LF \<and> c \<noteq> CR \<and> c \<noteq> BSLASH \<Longrightarrow>
   lua_string (w @ t) = map_option (apfst ((@) w)) (lua_string t)"
proof (induction w)
  case Nil
  then show ?case by (cases "lua_string t") (auto simp: apfst_def)
next
  case (Cons c w)
  then show ?case
    by (cases "lua_string t") (auto simp: lua_string_plain apfst_def map_prod_def)
qed

lemma lua_string_close: "lua_string (QUOTE # t) = Some ([], t)"
  by (subst lua_string.simps) simp

lemma lua_string_escape:
  "lua_escape u = Some (d, w) \<Longrightarrow> lua_string (BSLASH # u) = map_option (apfst ((#) d)) (lua_string w)"
  by (subst lua_string.simps) simp

lemma char_digit:
  assumes "0 \<le> d" and "d \<le> (9::int)"
  shows "is_digit (char_of (48 + d))" "digit_val (char_of (48 + d)) = d"
proof -
  have b: "bint (char_of (48 + d)) = 48 + d" using assms by (simp add: bint_char_of)
  then show "is_digit (char_of (48 + d))" using assms by (simp add: is_digit_def bint_byte)
  show "digit_val (char_of (48 + d)) = d" using b by (simp add: digit_val_def bint_def)
qed

lemma lua_escape_digit:
  "is_digit c \<Longrightarrow> takeWhile is_digit (take 3 (c # u)) = ds \<Longrightarrow> dec_val ds \<le> 255 \<Longrightarrow>
   lua_escape (c # u) = Some (char_of (dec_val ds), drop (length ds) (c # u))"
  by (auto simp: lua_escape_def Let_def)

lemma lua_escape_dec3:
  assumes "0 \<le> r" and "r < 256"
  shows "lua_escape (dec3 r @ t) = Some (char_of r, t)"
proof -
  let ?a = "r div 100 mod 10" and ?b = "r div 10 mod 10" and ?c = "r mod 10"
  have d: "is_digit (char_of (48 + ?a))" "is_digit (char_of (48 + ?b))" "is_digit (char_of (48 + ?c))"
    "digit_val (char_of (48 + ?a)) = ?a" "digit_val (char_of (48 + ?b)) = ?b" "digit_val (char_of (48 + ?c)) = ?c"
    by (simp_all add: char_digit)
  have q: "r div 100 = r div 10 div 10" using zdiv_zmult2_eq [of 10 r 10] by simp
  have k: "?a = r div 100" using assms by (intro mod_pos_pos_trivial) simp_all
  have "10 * (r div 10) + r mod 10 = r" "10 * (r div 10 div 10) + ?b = r div 10" by (rule mult_div_mod_eq)+
  then have sum: "(?a * 10 + ?b) * 10 + ?c = r" unfolding k unfolding q by (simp only: ring_distribs)
  have v: "dec_val (dec3 r) = r" using d sum by (simp add: dec_val_def dec3_def)
  have ds: "takeWhile is_digit (take 3 (dec3 r @ t)) = dec3 r" "drop (length (dec3 r)) (dec3 r @ t) = t"
    using d by (simp_all add: dec3_def)
  obtain c u where c: "dec3 r @ t = c # u" "is_digit c" using d(1) by (simp add: dec3_def)
  have "lua_escape (c # u) = Some (char_of (dec_val (dec3 r)), drop (length (dec3 r)) (c # u))"
    using ds(1) v assms(2) c by (intro lua_escape_digit) simp_all
  then show ?thesis using ds(2) v c(1) by simp
qed

lemma lua_escape_letter [simp]:
  "lua_escape (BSLASH # t) = Some (BSLASH, t)" "lua_escape (QUOTE # t) = Some (QUOTE, t)"
  "lua_escape (CHR ''n'' # t) = Some (LF, t)" "lua_escape (CHR ''r'' # t) = Some (CR, t)"
  by (simp_all add: lua_escape_def is_digit_def BSLASH_def QUOTE_def LF_chr CR_chr)

lemma lua_string_rune:
  assumes "0 \<le> r"
  shows "lua_string (lua_rune r @ t) = map_option (apfst ((@) (encode_rune r))) (lua_string t)"
proof -
  have one: "apfst ((#) c) = apfst ((@) [c])" for c :: char by (rule arg_cong [of _ _ apfst]) auto
  consider "r = 92" | "r = 34" | "r = 10" | "r = 13" | (ctl) "r \<noteq> 92" "r \<noteq> 34" "r \<noteq> 10" "r \<noteq> 13" "r < 32 \<or> r = 127"
    | (plain) "r \<noteq> 92" "r \<noteq> 34" "32 \<le> r" "r < 127" | (wide) "128 \<le> r"
    using assms by linarith
  then show ?thesis
  proof cases
    case ctl
    have "lua_escape (dec3 r @ t) = Some (char_of r, t)" using ctl assms by (intro lua_escape_dec3) auto
    with ctl assms show ?thesis
      by (auto simp: lua_rune_def lua_string_escape encode_ascii one)
  next
    case plain
    then have b: "bint (char_of r) = r" by (simp add: bint_char_of)
    have "char_of r \<noteq> c" if "bint c \<noteq> r" for c using that b by auto
    then have "char_of r \<noteq> QUOTE" "char_of r \<noteq> LF" "char_of r \<noteq> CR" "char_of r \<noteq> BSLASH"
      using plain by simp_all
    with plain show ?thesis
      by (simp add: lua_rune_def encode_ascii lua_string_plain one)
  next
    case wide
    have "\<forall>c \<in> set (encode_rune r). c \<noteq> QUOTE \<and> c \<noteq> LF \<and> c \<noteq> CR \<and> c \<noteq> BSLASH"
    proof
      fix c
      assume "c \<in> set (encode_rune r)"
      then have "128 \<le> bint c" using wide by (intro encode_wide) auto
      then show "c \<noteq> QUOTE \<and> c \<noteq> LF \<and> c \<noteq> CR \<and> c \<noteq> BSLASH"
        using special_bytes by (auto simp del: special_bytes)
    qed
    with wide show ?thesis by (simp add: lua_rune_def lua_string_plains)
  qed (simp_all add: lua_rune_def lua_string_escape encode_ascii one)
qed

lemma lua_string_runes:
  "\<forall>r \<in> set rs. 0 \<le> r \<Longrightarrow>
   lua_string (concat (map lua_rune rs) @ QUOTE # t) = Some (concat (map encode_rune rs), t)"
  by (induction rs) (auto simp: lua_string_rune lua_string_close)

lemma lua_string_quote: "lua_string (tl (lua_quote s) @ t) = Some (to_valid s, t)"
  using runes_nonneg [of _ s] by (simp add: lua_quote_def to_valid_def lua_string_runes)

text \<open>Whatever a string holds, its quoted form is read as one token, and reading goes on after it.\<close>

lemma lua_lex_quote: "lua_lex (lua_quote s @ t) = map_option ((#) (TStr (to_valid s))) (lua_lex t)"
proof -
  obtain u where u: "lua_quote s @ t = QUOTE # u" "tl (lua_quote s) @ t = u"
    by (simp add: lua_quote_def)
  have q: "\<not> is_space_byte QUOTE" "QUOTE \<noteq> CHR ''-''" by (simp_all add: QUOTE_def is_space_byte_def)
  have "lua_string u = Some (to_valid s, t)" using lua_string_quote [of s t] u(2) by simp
  then show ?thesis unfolding u(1) using q by (subst lua_lex.simps) simp
qed

subsection \<open>Fragments\<close>

text \<open>A fragment that yields the same tokens whatever follows it.\<close>

definition lexes :: "string \<Rightarrow> lua_token list \<Rightarrow> bool" where
  "lexes s ts \<longleftrightarrow> (\<forall>t. lua_lex (s @ t) = map_option ((@) ts) (lua_lex t))"

lemma append_fun: "(@) [] = (\<lambda>x. x)" "(@) (a # ts) = (\<lambda>x. a # ts @ x)" "(@) (ts @ us) = (\<lambda>x. ts @ us @ x)"
  by auto

lemmas map_fun = append_fun option.map_comp comp_def option.map_ident

lemma lexesI: "(\<And>t. lua_lex (s @ t) = map_option ((@) ts) (lua_lex t)) \<Longrightarrow> lexes s ts"
  by (simp add: lexes_def)

lemma lexes_whole: "lexes s ts \<Longrightarrow> lua_lex s = Some ts"
  unfolding lexes_def by (drule spec [of _ "[]"]) (simp add: lua_lex.simps [of "[]"])

lemma lexes_append: "lexes s ts \<Longrightarrow> lexes u us \<Longrightarrow> lexes (s @ u) (ts @ us)"
  by (simp add: lexes_def map_fun)

lemma lexes_Nil [simp]: "lexes [] []"
  by (simp add: lexes_def map_fun)

lemma lexes_concat: "(\<And>x. x \<in> set xs \<Longrightarrow> lexes (f x) (g x)) \<Longrightarrow> lexes (concat (map f xs)) (concat (map g xs))"
  by (induction xs) (auto intro: lexes_append)

lemma lexes_quote [simp]: "lexes (lua_quote s) [TStr (to_valid s)]"
  by (rule lexesI) (simp add: lua_lex_quote map_fun)

lemma lexes_sym:
  assumes "c \<in> set ''={}(),''"
  shows "lexes [c] [TSym c]"
proof (rule lexesI)
  fix t
  have "\<not> is_space_byte c" "c \<noteq> CHR ''-''" "c \<noteq> QUOTE" "\<not> is_digit c" "\<not> is_letter c"
    using assms by (auto simp: is_space_byte_def QUOTE_def is_digit_def is_letter_def)
  then show "lua_lex ([c] @ t) = map_option ((@) [TSym c]) (lua_lex t)"
    using assms by (subst lua_lex.simps) (simp add: map_fun del: list.set)
qed

lemma lexes_space: "is_space_byte c \<Longrightarrow> lexes [c] []"
  by (rule lexesI, subst lua_lex.simps) (simp add: map_fun)

lemma lexes_LF [simp]: "lexes [LF] []"
  by (rule lexes_space) (simp add: is_space_byte_def LF_def)

lemma word_prefix:
  "list_all is_word w \<Longrightarrow> \<not> is_word c \<Longrightarrow> takeWhile is_word (w @ c # t) = w \<and> dropWhile is_word (w @ c # t) = c # t"
  by (induction w) auto

lemma letter_not: "is_letter c \<Longrightarrow> \<not> is_space_byte c \<and> c \<noteq> CHR ''-'' \<and> c \<noteq> QUOTE \<and> \<not> is_digit c"
  by (auto simp: is_letter_def is_space_byte_def QUOTE_def is_digit_def)

lemma digit_not: "is_digit c \<Longrightarrow> \<not> is_space_byte c \<and> c \<noteq> CHR ''-'' \<and> c \<noteq> QUOTE"
  by (auto simp: is_space_byte_def QUOTE_def is_digit_def)

lemma lexes_name:
  assumes "lexes (c # s) ts" and "list_all is_word w" and "w \<noteq> []" and "is_letter (hd w)" and "\<not> is_word c"
  shows "lexes (w @ c # s) (TName w # ts)"
proof (rule lexesI)
  fix t
  obtain a v where w: "w = a # v" using assms(3) by (cases w) auto
  have "lua_lex (w @ c # s @ t) = map_option ((#) (TName w)) (lua_lex (c # s @ t))"
    using word_prefix [OF assms(2,5), of "s @ t"] letter_not [of a] assms(4) w
    by (subst lua_lex.simps) simp
  also have "lua_lex (c # s @ t) = map_option ((@) ts) (lua_lex t)" using assms(1) by (simp add: lexes_def)
  finally show "lua_lex ((w @ c # s) @ t) = map_option ((@) (TName w # ts)) (lua_lex t)"
    by (simp add: map_fun)
qed

lemma lexes_num:
  assumes "lexes (c # s) ts" and "list_all is_digit w" and "w \<noteq> []" and "\<not> is_word c"
  shows "lexes (w @ c # s) (TNum (dec_val w) # ts)"
proof (rule lexesI)
  fix t
  obtain a v where w: "w = a # v" using assms(3) by (cases w) auto
  have "list_all is_word w" using assms(2) by (auto simp: list_all_iff is_word_def)
  then have "lua_lex (w @ c # s @ t) = map_option ((#) (TNum (dec_val w))) (lua_lex (c # s @ t))"
    using word_prefix [of w c "s @ t"] digit_not [of a] assms(2,4) w
    by (subst lua_lex.simps) (simp add: Let_def)
  also have "lua_lex (c # s @ t) = map_option ((@) ts) (lua_lex t)" using assms(1) by (simp add: lexes_def)
  finally show "lua_lex ((w @ c # s) @ t) = map_option ((@) (TNum (dec_val w) # ts)) (lua_lex t)"
    by (simp add: map_fun)
qed

text \<open>A comment up to the end of its line, unless it opens a long bracket.\<close>

lemma lexes_comment:
  assumes "LF \<notin> set s" and "\<not> prefix ''['' s"
  shows "lexes (''--'' @ s @ [LF]) []"
proof (rule lexesI)
  fix t
  have d: "dropWhile (\<lambda>d. d \<noteq> LF) (s @ LF # t) = LF # t" using assms(1) by (induction s) auto
  have "\<not> prefix ''['' (s @ LF # t)" using assms(2) by (cases s) (auto simp: LF_chr)
  then have "lua_lex (''--'' @ s @ LF # t) = lua_lex (LF # t)"
    using d by (subst lua_lex.simps) (simp add: is_space_byte_def LF_chr)
  also have "\<dots> = lua_lex t" using lexes_LF by (simp add: lexes_def map_fun)
  finally show "lua_lex ((''--'' @ s @ [LF]) @ t) = map_option ((@) []) (lua_lex t)"
    by (simp add: map_fun)
qed

end
