(* ===== verification/Panel_Auth.thy ===== *)
theory Panel_Auth
  imports Go_Base64
begin

text \<open>
  The administrator session of the panel: the login limiter (\<open>login_limit.go\<close>), the password file
  (\<open>password.go\<close>), the HMAC tokens, the middleware \<open>auth\<close> and the login handler (\<open>main.go\<close>). A
  handler runs as one step; the limiter's own operations are separate, so that requests in flight at
  the same time can be composed from them.
\<close>

subsection \<open>Cryptography and JSON\<close>

text \<open>
  What \<open>json.Unmarshal\<close> and the type assertion find at \<open>exp\<close>: not a JSON object, no number, or a
  number converted to \<open>int64\<close>.
\<close>

datatype exp_claim = ExpBadJson | ExpMissing | ExpAt int

record crypto =
  hmac_sha256 :: "bytes \<Rightarrow> bytes \<Rightarrow> bytes"                     \<comment> \<open>key, message\<close>
  pbkdf2_key :: "string \<Rightarrow> bytes \<Rightarrow> int \<Rightarrow> nat \<Rightarrow> bytes option"  \<comment> \<open>password, salt, iterations, length\<close>
  claims_exp :: "bytes \<Rightarrow> exp_claim"

subsection \<open>The limiter\<close>

record login_attempt =
  la_failures :: int
  la_locked :: time

record login_limiter =
  ll_max :: int
  ll_window :: duration
  ll_entries :: "string \<rightharpoonup> login_attempt"

definition max_login_failures :: int where "max_login_failures = 5"
definition login_lock_window :: duration where "login_lock_window = minutes 15"

definition new_limiter :: "int \<Rightarrow> duration \<Rightarrow> login_limiter" where
  "new_limiter m w = \<lparr>ll_max = m, ll_window = w, ll_entries = Map.empty\<rparr>"

definition login_limiter0 :: login_limiter where
  "login_limiter0 = new_limiter max_login_failures login_lock_window"

definition login_allow :: "login_limiter \<Rightarrow> string \<Rightarrow> time \<Rightarrow> bool \<times> login_limiter" where
  "login_allow l ip now =
     (case ll_entries l ip of
        None \<Rightarrow> (True, l)
      | Some e \<Rightarrow>
          if now < la_locked e then (False, l)
          else if la_locked e \<noteq> 0 \<and> \<not> now < la_locked e
          then (True, l\<lparr>ll_entries := (ll_entries l)(ip := None)\<rparr>)
          else (True, l))"

definition record_failure :: "login_limiter \<Rightarrow> string \<Rightarrow> time \<Rightarrow> login_limiter" where
  "record_failure l ip now =
     (let e0 = (case ll_entries l ip of None \<Rightarrow> \<lparr>la_failures = 0, la_locked = 0\<rparr> | Some e \<Rightarrow> e);
          e1 = (if la_locked e0 \<noteq> 0 \<and> \<not> now < la_locked e0 then \<lparr>la_failures = 0, la_locked = 0\<rparr> else e0);
          e2 = e1\<lparr>la_failures := la_failures e1 + 1\<rparr>;
          e3 = (if ll_max l \<le> la_failures e2 then e2\<lparr>la_locked := now + ll_window l\<rparr> else e2)
      in l\<lparr>ll_entries := (ll_entries l)(ip \<mapsto> e3)\<rparr>)"

definition reset_failures :: "login_limiter \<Rightarrow> string \<Rightarrow> login_limiter" where
  "reset_failures l ip =
     (case ll_entries l ip of
        Some e \<Rightarrow> (if la_locked e = 0 then l\<lparr>ll_entries := (ll_entries l)(ip := None)\<rparr> else l)
      | None \<Rightarrow> l)"

definition lock_remaining :: "login_limiter \<Rightarrow> string \<Rightarrow> time \<Rightarrow> duration" where
  "lock_remaining l ip now =
     (case ll_entries l ip of
        None \<Rightarrow> 0
      | Some e \<Rightarrow> (let d = time_sub (la_locked e) now in if 0 < d then d else 0))"

definition request_ip :: "string \<Rightarrow> string" where
  "request_ip remote = (case split_host_port remote of None \<Rightarrow> trim_space remote | Some (host, _) \<Rightarrow> host)"

subsection \<open>Passwords\<close>

definition pbkdf2_iterations :: int where "pbkdf2_iterations = 600000"
definition pbkdf2_key_len :: nat where "pbkdf2_key_len = 32"
definition pbkdf2_prefix :: string where "pbkdf2_prefix = ''pbkdf2$''"

definition is_hashed_password :: "string \<Rightarrow> bool" where
  "is_hashed_password stored \<longleftrightarrow> prefix pbkdf2_prefix stored"

text \<open>\<^const>\<open>None\<close> is the panic of the source.\<close>

definition hash_password_with_salt :: "crypto \<Rightarrow> string \<Rightarrow> bytes \<Rightarrow> int \<Rightarrow> string option" where
  "hash_password_with_salt C pw salt iter =
     (case pbkdf2_key C pw salt iter pbkdf2_key_len of
        None \<Rightarrow> None
      | Some k \<Rightarrow> Some (pbkdf2_prefix @ fmt_d iter @ ''$'' @ b64_encode False salt @ ''$'' @ b64_encode False k))"

definition hash_password :: "crypto \<Rightarrow> bytes \<Rightarrow> string \<Rightarrow> string option" where
  "hash_password C salt pw = hash_password_with_salt C pw salt pbkdf2_iterations"

text \<open>
  \<open>fmt.Sscanf(s, "%d", &n)\<close>: spaces other than a line feed, a sign, digits; what follows is ignored.
\<close>

definition sscanf_d :: "string \<Rightarrow> int option" where
  "sscanf_d s =
     (let t = trim_left_space s;
          sgn = (if prefix ''+'' t \<or> prefix ''-'' t then take 1 t else []);
          ds = takeWhile is_digit (drop (length sgn) t)
      in if LF \<in> set (take (length s - length t) s) \<or> ds = [] then None else atoi (sgn @ ds))"

definition verify_password :: "crypto \<Rightarrow> string \<Rightarrow> string \<Rightarrow> bool" where
  "verify_password C stored candidate =
     (if \<not> prefix pbkdf2_prefix stored then stored = candidate
      else
        (case split_on (CHR ''$'') stored of
           [_, it, st, hs] \<Rightarrow>
             (case sscanf_d it of
                None \<Rightarrow> False
              | Some n \<Rightarrow>
                  if n \<le> 0 \<or> 10000000 < n then False
                  else
                    (case (b64_decode False st, b64_decode False hs) of
                       ((salt, True), (want, True)) \<Rightarrow>
                         (case pbkdf2_key C candidate salt n (length want) of
                            None \<Rightarrow> False
                          | Some got \<Rightarrow> want = got)
                     | _ \<Rightarrow> False))
         | _ \<Rightarrow> False))"

subsection \<open>Tokens\<close>

definition DQ :: char where "DQ = CHR 0x22"

definition json_key :: "string \<Rightarrow> string" where "json_key k = [DQ] @ k @ [DQ, CHR '':'']"

text \<open>\<open>json.Marshal\<close> of the claims: keys in order.\<close>

definition claims_json :: "int \<Rightarrow> int \<Rightarrow> string \<Rightarrow> int \<Rightarrow> bytes" where
  "claims_json e i jti n =
     ''{'' @ json_key ''exp'' @ fmt_d e @ '','' @ json_key ''iat'' @ fmt_d i @ '','' @ json_key ''jti'' @ [DQ] @ jti @ [DQ]
       @ '','' @ json_key ''nbf'' @ fmt_d n @ '','' @ json_key ''sub'' @ [DQ] @ ''admin'' @ [DQ] @ ''}''"

definition jwt_header :: bytes where
  "jwt_header = ''{'' @ json_key ''alg'' @ [DQ] @ ''HS256'' @ [DQ] @ '','' @ json_key ''typ'' @ [DQ] @ ''JWT'' @ [DQ] @ ''}''"

definition jwt_sign :: "crypto \<Rightarrow> bytes \<Rightarrow> bytes \<Rightarrow> string" where
  "jwt_sign C secret payload =
     (let h = b64_encode True jwt_header; p = b64_encode True payload
      in h @ ''.'' @ p @ ''.'' @ b64_encode True (hmac_sha256 C secret (h @ ''.'' @ p)))"

datatype jwt_error = InvalidToken | InvalidSignature | BadClaims | MissingExp | TokenExpired

text \<open>\<open>strings.SplitN(token, ".", 3)\<close>, when it has three parts.\<close>

definition split3 :: "string \<Rightarrow> (string \<times> string \<times> string) option" where
  "split3 token =
     (case split_on (CHR ''.'') token of
        a # b # c # rest \<Rightarrow> Some (a, b, join ''.'' (c # rest))
      | _ \<Rightarrow> None)"

definition unix_sec :: "time \<Rightarrow> int" where "unix_sec t = t div 1000000000 - 62135596800"

text \<open>The result is the error, or nothing when the token is good.\<close>

definition jwt_verify :: "crypto \<Rightarrow> bytes \<Rightarrow> time \<Rightarrow> string \<Rightarrow> jwt_error option" where
  "jwt_verify C secret now token =
     (case split3 token of
        None \<Rightarrow> Some InvalidToken
      | Some (h, p, s) \<Rightarrow>
          (case b64_decode True s of
             (got, ok) \<Rightarrow>
               if \<not> ok \<or> hmac_sha256 C secret (h @ ''.'' @ p) \<noteq> got then Some InvalidSignature
               else
                 (case claims_exp C (fst (b64_decode True p)) of
                    ExpBadJson \<Rightarrow> Some BadClaims
                  | ExpMissing \<Rightarrow> Some MissingExp
                  | ExpAt e \<Rightarrow> if e < unix_sec now then Some TokenExpired else None)))"

text \<open>The middleware: a status to answer with, or nothing when the request reaches its handler.\<close>

definition auth :: "crypto \<Rightarrow> bytes \<Rightarrow> time \<Rightarrow> string \<Rightarrow> int option" where
  "auth C secret now hdr =
     (let token = trim_prefix hdr ''Bearer ''
      in if token = [] then Some 401
         else (case jwt_verify C secret now token of Some _ \<Rightarrow> Some 401 | None \<Rightarrow> None))"

subsection \<open>The login handler\<close>

text \<open>What is fixed when the panel runs: the signing secret and the flag \<open>-secret-file\<close>.\<close>

record auth_conf =
  ac_secret :: bytes
  ac_secret_file :: string

record auth_state =
  as_limiter :: login_limiter
  as_fs :: fs

text \<open>
  What one request meets: whether the password file can be read (a missing file can), the salt and
  the outcomes of rewriting it, and the random \<open>jti\<close>.
\<close>

record login_io =
  li_readable :: bool
  li_readable2 :: bool
  li_salt :: bytes
  li_write :: write_result
  li_rename :: bool
  li_jti :: string

datatype login_reply = LoginToken string | LoginLocked int | LoginRefused int

definition pass_path :: "auth_conf \<Rightarrow> string" where
  "pass_path cf = path_join (path_dir (ac_secret_file cf)) ''panel.password''"

definition default_password :: string where "default_password = ''trust-ng-admin''"

text \<open>\<open>migratePlaintextPassword\<close>; its error is only logged. \<^const>\<open>None\<close> is the panic of the hash.\<close>

definition migrate_plaintext :: "crypto \<Rightarrow> login_io \<Rightarrow> string \<Rightarrow> string \<Rightarrow> fs \<Rightarrow> fs option" where
  "migrate_plaintext C io path candidate F =
     (case (if li_readable2 io then F path else None) of
        None \<Rightarrow> Some F
      | Some stored \<Rightarrow>
          (let current = trim_space stored
           in if current = [] \<or> is_hashed_password current then Some F
              else if \<not> verify_password C current candidate then Some F
              else map_option (\<lambda>h. fst (atomic_write F path (h @ [LF]) (li_write io) (li_rename io)))
                     (hash_password C (li_salt io) candidate)))"

definition retry_minutes :: "login_limiter \<Rightarrow> string \<Rightarrow> time \<Rightarrow> int" where
  "retry_minutes l ip now = max 1 ((lock_remaining l ip now + minutes 1 - 1) div minutes 1)"

definition session_claims :: "time \<Rightarrow> string \<Rightarrow> bytes" where
  "session_claims now jti =
     claims_json (unix_sec (now + hours 24)) (unix_sec now) jti (unix_sec (now - seconds 30))"

text \<open>The body is \<^const>\<open>None\<close> when it cannot be decoded or is longer than 1 MiB.\<close>

definition handle_login ::
  "crypto \<Rightarrow> auth_conf \<Rightarrow> login_io \<Rightarrow> bool \<Rightarrow> string \<Rightarrow> time \<Rightarrow> string option \<Rightarrow> auth_state
   \<Rightarrow> (login_reply \<times> auth_state) option" where
  "handle_login C cf io post remote now body st =
     (if \<not> post then Some (LoginRefused 405, st)
      else
        (let ip = request_ip remote
         in case login_allow (as_limiter st) ip now of
              (False, l) \<Rightarrow> Some (LoginLocked (retry_minutes l ip now), st\<lparr>as_limiter := l\<rparr>)
            | (True, l) \<Rightarrow>
                (case body of
                   None \<Rightarrow> Some (LoginRefused 400, st\<lparr>as_limiter := l\<rparr>)
                 | Some pw \<Rightarrow>
                     if \<not> li_readable io then Some (LoginRefused 500, st\<lparr>as_limiter := l\<rparr>)
                     else
                       (let stored = (case as_fs st (pass_path cf) of None \<Rightarrow> [] | Some b \<Rightarrow> trim_space b);
                            expected = (if stored = [] then default_password else stored)
                        in if \<not> verify_password C expected pw
                           then Some (LoginRefused 401, st\<lparr>as_limiter := record_failure l ip now\<rparr>)
                           else
                             map_option (\<lambda>F. (LoginToken (jwt_sign C (ac_secret cf) (session_claims now (li_jti io))),
                                              st\<lparr>as_limiter := reset_failures l ip, as_fs := F\<rparr>))
                               (if is_hashed_password expected then Some (as_fs st)
                                else migrate_plaintext C io (pass_path cf) pw (as_fs st))))))"

subsection \<open>Sequences of logins\<close>

record login_req =
  lr_post :: bool
  lr_remote :: string
  lr_now :: time
  lr_body :: "string option"
  lr_io :: login_io

text \<open>
  The replies to requests handled one after another; a handler that panics leaves the state alone
  and gives no reply (the server recovers).
\<close>

fun login_run :: "crypto \<Rightarrow> auth_conf \<Rightarrow> login_req list \<Rightarrow> auth_state \<Rightarrow> login_reply option list" where
  "login_run C cf [] st = []"
| "login_run C cf (r # rs) st =
     (case handle_login C cf (lr_io r) (lr_post r) (lr_remote r) (lr_now r) (lr_body r) st of
        None \<Rightarrow> None # login_run C cf rs st
      | Some (rep, st') \<Rightarrow> Some rep # login_run C cf rs st')"

definition wrong_from :: "string \<Rightarrow> login_req \<Rightarrow> login_reply option \<Rightarrow> bool" where
  "wrong_from ip r rep \<longleftrightarrow> request_ip (lr_remote r) = ip \<and> rep = Some (LoginRefused 401)"

definition token_to :: "string \<Rightarrow> login_req \<Rightarrow> login_reply option \<Rightarrow> bool" where
  "token_to ip r rep \<longleftrightarrow> request_ip (lr_remote r) = ip \<and> (\<exists>t. rep = Some (LoginToken t))"

text \<open>The number of passwords of \<open>ip\<close> that were checked and found wrong.\<close>

definition wrong_count :: "string \<Rightarrow> login_req list \<Rightarrow> login_reply option list \<Rightarrow> nat" where
  "wrong_count ip rs reps = length (filter (\<lambda>(r, rep). wrong_from ip r rep) (zip rs reps))"

subsection \<open>How many wrong passwords are checked\<close>

text \<open>
  The state of one address after \<open>n\<close> wrong passwords since the instant \<open>t0\<close>: every five of them
  have cost a whole window, and a lock ends one window after the fifth of its group.
\<close>

definition quota :: "duration \<Rightarrow> time \<Rightarrow> int \<Rightarrow> login_attempt option \<Rightarrow> time \<Rightarrow> bool" where
  "quota w t0 n e t \<longleftrightarrow> t0 \<le> t \<and>
     (\<exists>q f. n = 5 * q + f \<and> 0 \<le> q \<and> 0 \<le> f \<and> f < 5 \<and>
       (case e of
          None \<Rightarrow> f = 0 \<and> q * w \<le> t - t0
        | Some a \<Rightarrow>
            if la_locked a = 0 then 0 < f \<and> la_failures a = f \<and> q * w \<le> t - t0
            else f = 0 \<and> t0 + q * w \<le> la_locked a \<and> la_locked a \<le> t + w))"

lemma quota_bound:
  assumes "quota w t0 n e t" and "0 < w"
  shows "n \<le> 5 * ((t - t0) div w + 1)"
proof -
  from assms(1) obtain q f where q: "n = 5 * q + f" "0 \<le> f" "f < 5" and t: "t0 \<le> t"
    and c: "case e of None \<Rightarrow> f = 0 \<and> q * w \<le> t - t0
        | Some a \<Rightarrow> if la_locked a = 0 then 0 < f \<and> la_failures a = f \<and> q * w \<le> t - t0
            else f = 0 \<and> t0 + q * w \<le> la_locked a \<and> la_locked a \<le> t + w"
    unfolding quota_def by blast
  have div: "k \<le> (t - t0) div w" if "k * w \<le> t - t0" for k
    using zdiv_mono1 [OF that assms(2)] assms(2) by simp
  consider "q * w \<le> t - t0" | "f = 0" "(q - 1) * w \<le> t - t0"
    using c by (auto simp: left_diff_distrib split: option.splits if_splits)
  then show ?thesis
  proof cases
    case 1
    with div q show ?thesis by fastforce
  next
    case 2
    then have "q - 1 \<le> (t - t0) div w" using div by blast
    then have "q \<le> (t - t0) div w + 1" by simp
    with 2(1) q(1) show ?thesis by simp
  qed
qed

lemma quota_later: "quota w t0 n e t \<Longrightarrow> t \<le> t' \<Longrightarrow> quota w t0 n e t'"
  unfolding quota_def by (fastforce split: option.splits if_splits)

lemma quota_start: "quota w t0 0 None t0"
  by (simp add: quota_def)

text \<open>An admitted request finds the address unlocked.\<close>

lemma allow_quota:
  assumes "quota w t0 n (ll_entries l ip) now" and "login_allow l ip now = (ok, l')"
  shows "quota w t0 n (ll_entries l' ip) now"
    and "ok \<Longrightarrow> case ll_entries l' ip of None \<Rightarrow> True | Some a \<Rightarrow> la_locked a = 0 \<and> 0 < la_failures a"
    and "ll_max l' = ll_max l" and "ll_window l' = ll_window l"
    and "ip' \<noteq> ip \<Longrightarrow> ll_entries l' ip' = ll_entries l ip'"
proof -
  show "quota w t0 n (ll_entries l' ip) now"
  proof (cases "ll_entries l ip")
    case None
    with assms show ?thesis by (simp add: login_allow_def)
  next
    case (Some a)
    show ?thesis
    proof (cases "la_locked a = 0 \<or> now < la_locked a")
      case True
      with assms Some show ?thesis by (auto simp: login_allow_def split: if_splits)
    next
      case False
      with assms(2) Some have "ll_entries l' ip = None" by (auto simp: login_allow_def)
      moreover from assms(1) Some False obtain q where "n = 5 * q" "0 \<le> q" "t0 + q * w \<le> la_locked a" "t0 \<le> now"
        unfolding quota_def by auto
      ultimately show ?thesis using False unfolding quota_def by (auto intro!: exI [of _ q])
    qed
  qed
  show "ok \<Longrightarrow> case ll_entries l' ip of None \<Rightarrow> True | Some a \<Rightarrow> la_locked a = 0 \<and> 0 < la_failures a"
    using assms by (auto simp: login_allow_def quota_def split: option.splits if_splits)
  show "ll_max l' = ll_max l" "ll_window l' = ll_window l" "ip' \<noteq> ip \<Longrightarrow> ll_entries l' ip' = ll_entries l ip'"
    using assms(2) by (auto simp: login_allow_def split: option.splits if_splits)
qed

lemma failure_quota:
  assumes "quota w t0 n (ll_entries l ip) now" and "ll_max l = 5" and "ll_window l = w" and "0 < w" and "0 < now"
    and "case ll_entries l ip of None \<Rightarrow> True | Some a \<Rightarrow> la_locked a = 0 \<and> 0 < la_failures a"
  shows "quota w t0 (n + 1) (ll_entries (record_failure l ip now) ip) now"
proof -
  from assms(1) obtain q f where q: "n = 5 * q + f" "0 \<le> q" "0 \<le> f" "f < 5" "t0 \<le> now"
    and c: "case ll_entries l ip of None \<Rightarrow> f = 0 \<and> q * w \<le> now - t0
        | Some a \<Rightarrow> if la_locked a = 0 then 0 < f \<and> la_failures a = f \<and> q * w \<le> now - t0
            else f = 0 \<and> t0 + q * w \<le> la_locked a \<and> la_locked a \<le> now + w"
    unfolding quota_def by blast
  have qw: "q * w \<le> now - t0" and e: "ll_entries (record_failure l ip now) ip =
      Some \<lparr>la_failures = f + 1, la_locked = (if 5 \<le> f + 1 then now + w else 0)\<rparr>"
    using c assms(2,3,6) by (auto simp: record_failure_def Let_def split: option.splits)
  show ?thesis
  proof (cases "f = 4")
    case True
    have "n + 1 = 5 * (q + 1) + 0" "(q + 1) * w \<le> now - t0 + w" using q(1) True qw by (simp_all add: distrib_right)
    with q(2,5) e True assms(4,5) show ?thesis
      unfolding quota_def by (intro conjI exI [of _ "q + 1"] exI [of _ 0]) auto
  next
    case False
    with q have f: "f + 1 < 5" by simp
    with q qw e show ?thesis
      unfolding quota_def by (intro conjI exI [of _ q] exI [of _ "f + 1"]) auto
  qed
qed

lemma record_failure_other:
  "ip' \<noteq> ip \<Longrightarrow> ll_entries (record_failure l ip now) ip' = ll_entries l ip'"
  "ll_max (record_failure l ip now) = ll_max l" "ll_window (record_failure l ip now) = ll_window l"
  by (simp_all add: record_failure_def Let_def)

lemma reset_failures_other:
  "ip' \<noteq> ip \<Longrightarrow> ll_entries (reset_failures l ip) ip' = ll_entries l ip'"
  "ll_max (reset_failures l ip) = ll_max l" "ll_window (reset_failures l ip) = ll_window l"
  by (simp_all add: reset_failures_def split: option.splits)

definition limiter_ok :: "duration \<Rightarrow> login_limiter \<Rightarrow> bool" where
  "limiter_ok w l \<longleftrightarrow> ll_max l = 5 \<and> ll_window l = w"

lemma login_step:
  assumes h: "handle_login C cf io post remote now body st = Some (rep, st')"
    and quota: "quota w t0 n (ll_entries (as_limiter st) ip) t" and "t \<le> now"
    and ok: "limiter_ok w (as_limiter st)" and pos: "0 < w" "0 < now"
    and no: "\<not> (request_ip remote = ip \<and> (\<exists>k. rep = LoginToken k))"
  shows "quota w t0 (n + (if request_ip remote = ip \<and> rep = LoginRefused 401 then 1 else 0))
      (ll_entries (as_limiter st') ip) now" and "limiter_ok w (as_limiter st')"
proof -
  let ?ip = "request_ip remote" and ?l = "as_limiter st"
  have now: "quota w t0 n (ll_entries ?l ip) now" using quota_later [OF quota \<open>t \<le> now\<close>] .
  obtain b l where a: "login_allow ?l ?ip now = (b, l)" by fastforce
  have l: "limiter_ok w l" using a ok by (auto simp: login_allow_def limiter_ok_def split: option.splits if_splits)
  have q: "quota w t0 n (ll_entries l ip) now"
  proof (cases "?ip = ip")
    case True
    with allow_quota(1) [OF _ a] now show ?thesis by simp
  next
    case False
    with a have "ll_entries l ip = ll_entries ?l ip" by (auto simp: login_allow_def split: option.splits if_splits)
    with now show ?thesis by simp
  qed
  consider (no_check) "as_limiter st' \<in> {?l, l}" "rep \<noteq> LoginRefused 401"
    | (wrong) "b" "rep = LoginRefused 401" "as_limiter st' = record_failure l ?ip now"
    | (token) k where "rep = LoginToken k" "as_limiter st' = reset_failures l ?ip"
    using h a by (auto simp: handle_login_def Let_def split: if_splits option.splits prod.splits bool.splits)
  then have "quota w t0 (n + (if ?ip = ip \<and> rep = LoginRefused 401 then 1 else 0)) (ll_entries (as_limiter st') ip) now
      \<and> limiter_ok w (as_limiter st')"
  proof cases
    case no_check
    with now q ok l show ?thesis by auto
  next
    case wrong
    have "limiter_ok w (as_limiter st')" using wrong l by (simp add: limiter_ok_def record_failure_other)
    moreover have "case ll_entries l ip of None \<Rightarrow> True | Some a \<Rightarrow> la_locked a = 0 \<and> 0 < la_failures a" if "?ip = ip"
      using allow_quota(2) [OF _ a] now wrong(1) that by simp
    ultimately show ?thesis
      using failure_quota [OF q _ _ pos] l wrong q by (cases "?ip = ip") (auto simp: limiter_ok_def record_failure_other)
  next
    case token
    with no have "ip \<noteq> ?ip" by auto
    with token q l show ?thesis by (simp add: limiter_ok_def reset_failures_other)
  qed
  then show "quota w t0 (n + (if ?ip = ip \<and> rep = LoginRefused 401 then 1 else 0)) (ll_entries (as_limiter st') ip) now"
    "limiter_ok w (as_limiter st')" by blast+
qed

lemma login_run_length: "length (login_run C cf rs st) = length rs"
  by (induction rs arbitrary: st) (auto split: option.splits prod.splits)

lemma login_run_quota:
  assumes "quota w t0 n (ll_entries (as_limiter st) ip) t" and "limiter_ok w (as_limiter st)" and "0 < w"
    and "sorted (map lr_now rs)" and "\<forall>r \<in> set rs. t \<le> lr_now r \<and> lr_now r \<le> t1 \<and> 0 < lr_now r"
    and "\<forall>(r, rep) \<in> set (zip rs (login_run C cf rs st)). \<not> token_to ip r rep" and "t \<le> t1"
  shows "\<exists>e. quota w t0 (n + int (wrong_count ip rs (login_run C cf rs st))) e t1"
  using assms
proof (induction rs arbitrary: n st t)
  case Nil
  have "quota w t0 n (ll_entries (as_limiter st) ip) t1" by (rule quota_later [OF Nil(1,7)])
  then show ?case by (auto simp: wrong_count_def)
next
  case (Cons r rs)
  have times: "t \<le> lr_now r" "lr_now r \<le> t1" "0 < lr_now r" and later: "\<forall>x \<in> set rs. lr_now r \<le> lr_now x"
    using Cons.prems(4,5) by simp_all
  show ?case
  proof (cases "handle_login C cf (lr_io r) (lr_post r) (lr_remote r) (lr_now r) (lr_body r) st")
    case None
    have "wrong_count ip (r # rs) (login_run C cf (r # rs) st) = wrong_count ip rs (login_run C cf rs st)"
      by (simp add: None wrong_count_def wrong_from_def)
    moreover have "\<exists>e. quota w t0 (n + int (wrong_count ip rs (login_run C cf rs st))) e t1"
      by (rule Cons.IH [OF Cons.prems(1-3)]) (use Cons.prems(4-7) None in auto)
    ultimately show ?thesis by (simp only:)
  next
    case (Some p)
    then obtain rep st' where h: "handle_login C cf (lr_io r) (lr_post r) (lr_remote r) (lr_now r) (lr_body r) st = Some (rep, st')"
      by (cases p) auto
    define d :: int where "d = (if request_ip (lr_remote r) = ip \<and> rep = LoginRefused 401 then 1 else 0)"
    have no: "\<not> (request_ip (lr_remote r) = ip \<and> (\<exists>k. rep = LoginToken k))"
      using Cons.prems(6) h by (auto simp: token_to_def)
    note step = login_step [OF h Cons.prems(1) times(1) Cons.prems(2,3) times(3) no, folded d_def]
    have "\<exists>e. quota w t0 (n + d + int (wrong_count ip rs (login_run C cf rs st'))) e t1"
      by (rule Cons.IH [OF step Cons.prems(3)]) (use Cons.prems(4-6) h times later in auto)
    moreover have "int (wrong_count ip (r # rs) (login_run C cf (r # rs) st)) = d + int (wrong_count ip rs (login_run C cf rs st'))"
      by (simp add: h wrong_count_def wrong_from_def d_def)
    ultimately show ?thesis by (simp add: add.assoc)
  qed
qed

subsection \<open>Changing the password\<close>

text \<open>
  The password part of \<open>handleSettings\<close>: an empty password changes nothing. The result is the status
  of an error reply and the files; \<^const>\<open>None\<close> is the panic of the hash.
\<close>

definition save_password ::
  "crypto \<Rightarrow> auth_conf \<Rightarrow> bytes \<Rightarrow> write_result \<Rightarrow> bool \<Rightarrow> string \<Rightarrow> fs \<Rightarrow> (int option \<times> fs) option" where
  "save_password C cf salt w rn pw F =
     (if pw = [] then Some (None, F)
      else if length pw < 8 then Some (Some 400, F)
      else (case hash_password C salt pw of
              None \<Rightarrow> None
            | Some h \<Rightarrow>
                (case atomic_write F (pass_path cf) (h @ [LF]) w rn of
                   (F', True) \<Rightarrow> Some (None, F')
                 | (F', False) \<Rightarrow> Some (Some 500, F'))))"

subsection \<open>What is relied on\<close>

text \<open>
  PBKDF2 gives a key of the requested length, and the \<open>exp\<close> that \<open>json.Marshal\<close> writes is read back
  (a \<open>float64\<close> holds it exactly).
\<close>

definition pbkdf2_ok :: "crypto \<Rightarrow> bool" where
  "pbkdf2_ok C \<longleftrightarrow>
     (\<forall>pw salt n len. 0 < n \<longrightarrow> 0 < len \<longrightarrow> (\<exists>k. pbkdf2_key C pw salt n len = Some k \<and> length k = len))"

definition claims_ok :: "crypto \<Rightarrow> time \<Rightarrow> string \<Rightarrow> bool" where
  "claims_ok C now jti \<longleftrightarrow> claims_exp C (session_claims now jti) = ExpAt (unix_sec (now + hours 24))"

subsection \<open>Facts on passwords\<close>

lemma trim_space_line:
  assumes "list_all is_plain s"
  shows "trim_space (s @ [LF]) = s"
proof (cases "s = []")
  case True
  have "is_space_byte LF" by (simp add: is_space_byte_def LF_def)
  with True show ?thesis by (simp add: trim_space_def trim_left_space.simps [of "[LF]"])
next
  case False
  then obtain c t where s: "s = c # t" "is_plain c" using assms by (cases s) auto
  have "is_space_byte LF" by (simp add: is_space_byte_def LF_def)
  then have "trim_right_space_rev (LF # rev s) = trim_right_space_rev (rev s)"
    by (subst trim_right_space_rev.simps) simp
  also have "\<dots> = rev s"
  proof -
    have "rev s = last s # rev (butlast s)" using False by (metis append_butlast_last_id rev_append rev_singleton_conv append_Cons append_Nil)
    moreover have "is_plain (last s)" using assms False by (simp add: list_all_iff)
    ultimately show ?thesis by (metis trim_right_plain)
  qed
  finally show ?thesis using s by (simp add: trim_space_def trim_left_plain)
qed

lemma iterations_text: "fmt_d pbkdf2_iterations = ''600000''" "sscanf_d ''600000'' = Some 600000"
  by code_simp+

lemma pbkdf2_prefix_split: "pbkdf2_prefix = ''pbkdf2'' @ [CHR ''$'']"
  by (simp add: pbkdf2_prefix_def)

lemma hash_form:
  assumes "hash_password C salt pw = Some h" and "pbkdf2_ok C"
  obtains k where "pbkdf2_key C pw salt 600000 32 = Some k" "length k = 32"
    "h = ''pbkdf2'' @ CHR ''$'' # ''600000'' @ CHR ''$'' # b64_encode False salt @ CHR ''$'' # b64_encode False k"
proof -
  obtain k where k: "pbkdf2_key C pw salt 600000 32 = Some k" "length k = 32"
    using assms(2) unfolding pbkdf2_ok_def by (metis zero_less_numeral)
  have "h = ''pbkdf2'' @ CHR ''$'' # ''600000'' @ CHR ''$'' # b64_encode False salt @ CHR ''$'' # b64_encode False k"
    using assms(1) k(1) iterations_text(1)
    by (simp add: hash_password_def hash_password_with_salt_def pbkdf2_iterations_def pbkdf2_key_len_def pbkdf2_prefix_def)
  with k that show ?thesis by blast
qed

lemma hash_split:
  assumes "h = ''pbkdf2'' @ CHR ''$'' # ''600000'' @ CHR ''$'' # b64_encode False s @ CHR ''$'' # b64_encode False k"
  shows "split_on (CHR ''$'') h = [''pbkdf2'', ''600000'', b64_encode False s, b64_encode False k]"
  unfolding assms
  by (simp add: split_on_append split_on_none b64_separators)

text \<open>A stored hash accepts exactly the passwords with the same derived key.\<close>

lemma verify_hash:
  assumes "hash_password C salt pw = Some h" and "pbkdf2_ok C"
  shows "verify_password C h pw' \<longleftrightarrow> pbkdf2_key C pw' salt 600000 32 = pbkdf2_key C pw salt 600000 32"
    and "is_hashed_password h" and "h \<noteq> []" and "trim_space (h @ [LF]) = h"
proof -
  obtain k where k: "pbkdf2_key C pw salt 600000 32 = Some k" "length k = 32"
    and h: "h = ''pbkdf2'' @ CHR ''$'' # ''600000'' @ CHR ''$'' # b64_encode False salt @ CHR ''$'' # b64_encode False k"
    using hash_form [OF assms] .
  show hp: "is_hashed_password h" by (simp add: is_hashed_password_def pbkdf2_prefix_def h)
  then have "prefix pbkdf2_prefix h" by (simp add: is_hashed_password_def)
  then have "verify_password C h pw' \<longleftrightarrow> (case pbkdf2_key C pw' salt 600000 32 of None \<Rightarrow> False | Some got \<Rightarrow> k = got)"
    by (simp add: verify_password_def hash_split [OF h] iterations_text b64_round_trip k(2))
  with k(1) show "verify_password C h pw' \<longleftrightarrow> pbkdf2_key C pw' salt 600000 32 = pbkdf2_key C pw salt 600000 32"
    by (auto split: option.splits)
  show ne: "h \<noteq> []" by (simp add: h)
  have "list_all is_plain h" unfolding h using b64_plain by (simp add: is_plain_def)
  then show "trim_space (h @ [LF]) = h" by (rule trim_space_line)
qed

subsection \<open>Facts on tokens\<close>

lemma split3_join:
  assumes "CHR ''.'' \<notin> set a" and "CHR ''.'' \<notin> set b" and "CHR ''.'' \<notin> set c"
  shows "split3 (a @ ''.'' @ b @ ''.'' @ c) = Some (a, b, c)"
proof -
  have "split_on (CHR ''.'') (a @ CHR ''.'' # b @ CHR ''.'' # c) = [a, b, c]"
    using assms by (simp add: split_on_append split_on_none)
  then show ?thesis by (simp add: split3_def)
qed

text \<open>A token that was signed with the secret is judged by its \<open>exp\<close> alone.\<close>

lemma jwt_verify_sign:
  "jwt_verify C secret t (jwt_sign C secret payload) =
     (case claims_exp C payload of
        ExpBadJson \<Rightarrow> Some BadClaims
      | ExpMissing \<Rightarrow> Some MissingExp
      | ExpAt e \<Rightarrow> if e < unix_sec t then Some TokenExpired else None)"
  by (simp add: jwt_verify_def jwt_sign_def Let_def split3_join [simplified] b64_separators b64_round_trip)

text \<open>Whoever passes the middleware presents the HMAC of the first two parts of the token.\<close>

lemma auth_needs_mac:
  assumes "auth C secret t hdr = None"
  obtains h p s where "split3 (trim_prefix hdr ''Bearer '') = Some (h, p, s)"
    "b64_decode True s = (hmac_sha256 C secret (h @ ''.'' @ p), True)"
    "\<exists>e. claims_exp C (fst (b64_decode True p)) = ExpAt e \<and> unix_sec t \<le> e"
proof -
  from assms have v: "jwt_verify C secret t (trim_prefix hdr ''Bearer '') = None"
    by (auto simp: auth_def Let_def split: if_splits option.splits)
  then obtain h p s where s: "split3 (trim_prefix hdr ''Bearer '') = Some (h, p, s)"
    by (cases "split3 (trim_prefix hdr ''Bearer '')") (auto simp: jwt_verify_def)
  obtain got ok where d: "b64_decode True s = (got, ok)" by fastforce
  have "b64_decode True s = (hmac_sha256 C secret (h @ ''.'' @ p), True)"
    and "\<exists>e. claims_exp C (fst (b64_decode True p)) = ExpAt e \<and> unix_sec t \<le> e"
    using v s d by (auto simp: jwt_verify_def split: if_splits exp_claim.splits)
  with s that show ?thesis by blast
qed

lemma auth_sign:
  assumes "claims_exp C payload = ExpAt e"
  shows "auth C secret t (''Bearer '' @ jwt_sign C secret payload) = (if unix_sec t \<le> e then None else Some 401)"
proof -
  have "jwt_sign C secret payload \<noteq> []" by (simp add: jwt_sign_def Let_def)
  then show ?thesis
    using assms trim_prefix_append [of "''Bearer ''" "jwt_sign C secret payload"]
    by (auto simp: auth_def Let_def jwt_verify_sign)
qed

subsection \<open>Requests in flight at the same time\<close>

text \<open>
  The limiter is asked before the password is checked and told afterwards, in two critical sections.
  Any number of requests that arrive before the first failure is recorded are admitted.
\<close>

fun admit_all :: "login_limiter \<Rightarrow> string \<Rightarrow> time list \<Rightarrow> bool list \<times> login_limiter" where
  "admit_all l ip [] = ([], l)"
| "admit_all l ip (t # ts) =
     (case login_allow l ip t of (b, l1) \<Rightarrow> (case admit_all l1 ip ts of (bs, l2) \<Rightarrow> (b # bs, l2)))"

lemma parallel_logins_unbounded:
  "ll_entries l ip = None \<Longrightarrow> admit_all l ip ts = (replicate (length ts) True, l)"
  by (induction ts) (simp_all add: login_allow_def)

text \<open>The value of the header \<open>Retry-After\<close> is a number of minutes, not of seconds.\<close>

lemma retry_after_minutes:
  "ll_entries l ip = Some \<lparr>la_failures = 5, la_locked = now + minutes 15\<rparr> \<Longrightarrow> retry_minutes l ip now = 15"
  by (simp add: retry_minutes_def lock_remaining_def time_sub_def minutes_def max_dur_def min_dur_def)

subsection \<open>Properties\<close>

text \<open>
  C27: Brute force is bounded when requests do not overlap. In any sequence of logins handled one after
  another, each to its end before the next begins, from any addresses and with any outcome, the wrong
  passwords of one address that are checked between \<open>t0\<close> and \<open>t1\<close> are at most five for every started
  quarter of an hour, as long as that address does not log in. The handler admits overlapping requests
  without a bound, see \<open>parallel_logins_unbounded\<close>.
\<close>

theorem failed_logins_bounded:
  assumes "limiter_ok login_lock_window (as_limiter st)" and "ll_entries (as_limiter st) ip = None"
    and "sorted (map lr_now rs)" and "\<forall>r \<in> set rs. t0 \<le> lr_now r \<and> lr_now r \<le> t1 \<and> 0 < lr_now r" and "t0 \<le> t1"
    and "\<forall>(r, rep) \<in> set (zip rs (login_run C cf rs st)). \<not> token_to ip r rep"
  shows "int (wrong_count ip rs (login_run C cf rs st)) \<le> 5 * ((t1 - t0) div login_lock_window + 1)"
proof -
  have w: "0 < login_lock_window" by (simp add: login_lock_window_def minutes_def)
  have "quota login_lock_window t0 0 (ll_entries (as_limiter st) ip) t0" by (simp add: assms(2) quota_start)
  from login_run_quota [OF this assms(1) w assms(3,4,6,5)]
  obtain e where "quota login_lock_window t0 (int (wrong_count ip rs (login_run C cf rs st))) e t1" by auto
  then show ?thesis by (rule quota_bound [OF _ w])
qed

definition example_crypto :: crypto where
  "example_crypto =
     \<lparr>hmac_sha256 = (\<lambda>k m. k @ m), pbkdf2_key = (\<lambda>pw salt n len. Some (take len (pw @ salt @ replicate len (CHR ''0'')))),
      claims_exp = (\<lambda>b. ExpAt 1864800)\<rparr>"

definition example_conf :: auth_conf where
  "example_conf = \<lparr>ac_secret = ''s'', ac_secret_file = ''/v/panel.secret''\<rparr>"

definition example_io :: login_io where
  "example_io = \<lparr>li_readable = True, li_readable2 = True, li_salt = ''salt'', li_write = Written, li_rename = True, li_jti = ''0a''\<rparr>"

definition example_login :: "time \<Rightarrow> string \<Rightarrow> login_req" where
  "example_login t pw = \<lparr>lr_post = True, lr_remote = ''1.2.3.4:5'', lr_now = t, lr_body = Some pw, lr_io = example_io\<rparr>"

definition example_attack :: "login_req list" where
  "example_attack = map (\<lambda>t. example_login t ''x'') [1, 2, 900000000006]"

definition example_auth :: auth_state where
  "example_auth = \<lparr>as_limiter = login_limiter0, as_fs = Map.empty\<rparr>"

lemma example_attack_run:
  "login_run example_crypto example_conf example_attack example_auth
    = [Some (LoginRefused 401), Some (LoginRefused 401), Some (LoginRefused 401)]"
  by code_simp

theorem failed_logins_bounded_witness:
  "wrong_count ''1.2.3.4'' example_attack (login_run example_crypto example_conf example_attack example_auth) = 3
   \<and> int (wrong_count ''1.2.3.4'' example_attack (login_run example_crypto example_conf example_attack example_auth)) \<le> 10"
proof
  let ?run = "login_run example_crypto example_conf example_attack example_auth"
  show "wrong_count ''1.2.3.4'' example_attack ?run = 3" unfolding example_attack_run by code_simp
  have no: "\<forall>(r, rep) \<in> set (zip example_attack ?run). \<not> token_to ''1.2.3.4'' r rep"
    unfolding example_attack_run by (simp add: example_attack_def token_to_def)
  have "int (wrong_count ''1.2.3.4'' example_attack ?run) \<le> 5 * ((900000000006 - 1) div login_lock_window + 1)"
    by (rule failed_logins_bounded [OF _ _ _ _ _ no])
      (simp_all add: example_auth_def limiter_ok_def login_limiter0_def new_limiter_def max_login_failures_def
        example_attack_def example_login_def)
  then show "int (wrong_count ''1.2.3.4'' example_attack ?run) \<le> 10" by (simp add: login_lock_window_def minutes_def)
qed

text \<open>
  C28: A saved password opens a session, and the session ends. After a password was saved, a login
  from an address that is not locked is refused unless its password derives the same key; else the
  token it returns passes the middleware up to 24 hours after the login, by the second, and never
  later.
\<close>

theorem session_lifecycle:
  assumes "pbkdf2_ok C" and save: "save_password C cf salt w rn pw F = Some (None, F1)" and "pw \<noteq> []"
    and st: "as_fs st = F1" and allowed: "fst (login_allow (as_limiter st) (request_ip remote) now)"
    and read: "li_readable io" and claims: "claims_ok C now (li_jti io)"
  shows "\<exists>rep st'. handle_login C cf io True remote now (Some pw') st = Some (rep, st') \<and> as_fs st' = F1 \<and>
    (if pbkdf2_key C pw' salt 600000 32 = pbkdf2_key C pw salt 600000 32
     then \<exists>tok. rep = LoginToken tok \<and> (\<forall>t. auth C (ac_secret cf) t (''Bearer '' @ tok)
                 = (if unix_sec t \<le> unix_sec (now + hours 24) then None else Some 401))
     else rep = LoginRefused 401)"
proof -
  obtain h where h: "hash_password C salt pw = Some h"
    using save \<open>pw \<noteq> []\<close> by (auto simp: save_password_def split: if_splits option.splits)
  obtain F2 ok where aw: "atomic_write F (pass_path cf) (h @ [LF]) w rn = (F2, ok)" by fastforce
  have F1: "F1 (pass_path cf) = Some (h @ [LF])"
    using save \<open>pw \<noteq> []\<close> h aw atomic_write_cases(1) [OF aw]
    by (auto simp: save_password_def split: if_splits)
  obtain l where l: "login_allow (as_limiter st) (request_ip remote) now = (True, l)" using allowed by (metis prod.collapse)
  note v = verify_hash [OF h \<open>pbkdf2_ok C\<close>]
  have claim: "claims_exp C (session_claims now (li_jti io)) = ExpAt (unix_sec (now + hours 24))"
    using claims by (simp add: claims_ok_def)
  show ?thesis
    using st read l F1 v auth_sign [OF claim]
    by (simp add: handle_login_def Let_def)
qed

lemma example_pbkdf2: "pbkdf2_ok example_crypto"
proof -
  have "min a n + (min b (n - a) + (n - (a + b))) = n" for a b n :: nat by (cases "a \<le> n"; cases "b \<le> n - a") auto
  then show ?thesis by (simp add: pbkdf2_ok_def example_crypto_def)
qed

definition example_saved :: "(int option \<times> fs) option" where
  "example_saved = save_password example_crypto example_conf ''salt'' Written True ''long-password'' Map.empty"

lemma example_saved_ok: "case example_saved of None \<Rightarrow> False | Some (e, F) \<Rightarrow> e = None"
  by code_simp

definition example_instant :: time where "example_instant = seconds (62135596800 + 1778400)"

lemma example_claims: "claims_ok example_crypto example_instant ''0a''"
  by (simp add: claims_ok_def example_crypto_def unix_sec_def example_instant_def seconds_def hours_def)

theorem session_lifecycle_witness:
  "\<exists>tok. map_option fst (handle_login example_crypto example_conf example_io True ''1.2.3.4:5'' example_instant
        (Some ''long-password'') \<lparr>as_limiter = login_limiter0, as_fs = snd (the example_saved)\<rparr>) = Some (LoginToken tok)
     \<and> auth example_crypto ''s'' (example_instant + hours 24) (''Bearer '' @ tok) = None
     \<and> auth example_crypto ''s'' (example_instant + hours 25) (''Bearer '' @ tok) = Some 401"
proof -
  obtain F1 where F1: "example_saved = Some (None, F1)" using example_saved_ok by (auto split: option.splits)
  have allowed: "fst (login_allow login_limiter0 (request_ip ''1.2.3.4:5'') example_instant)"
    by (simp add: login_allow_def login_limiter0_def new_limiter_def)
  let ?st = "\<lparr>as_limiter = login_limiter0, as_fs = F1\<rparr>"
  have io: "li_readable example_io" "claims_ok example_crypto example_instant (li_jti example_io)"
    by (simp_all add: example_io_def example_claims)
  have "\<exists>rep st'. handle_login example_crypto example_conf example_io True ''1.2.3.4:5'' example_instant (Some ''long-password'') ?st
        = Some (rep, st') \<and> as_fs st' = F1 \<and>
    (if pbkdf2_key example_crypto ''long-password'' ''salt'' 600000 32 = pbkdf2_key example_crypto ''long-password'' ''salt'' 600000 32
     then \<exists>tok. rep = LoginToken tok \<and> (\<forall>t. auth example_crypto (ac_secret example_conf) t (''Bearer '' @ tok)
                 = (if unix_sec t \<le> unix_sec (example_instant + hours 24) then None else Some 401))
     else rep = LoginRefused 401)"
    by (rule session_lifecycle [OF example_pbkdf2 F1 [unfolded example_saved_def] _ _ _ io]) (simp_all add: allowed)
  then show ?thesis
    by (auto simp: F1 example_conf_def unix_sec_def example_instant_def seconds_def hours_def)
qed

end
