(* ===== verification/Panel_Config.thy ===== *)
theory Panel_Config
  imports Lua_Text Panel_Auth "HOL-Library.Sublist"
begin

text \<open>
  The settings of a node (\<open>panel/main.go\<close>): reading \<open>dnsdist.conf\<close> and its sibling files with regular
  expressions, changing the block mode, writing the Lua of the DoT and DoH listeners and of the safe
  search, the checks on addresses and paths that come from the administrator, the master's status,
  build and source handlers, and the small helpers of the start-up.
\<close>

subsection \<open>Matching\<close>

definition SQ :: char where "SQ = CHR 0x27"

text \<open>\<open>\s\<close> of Go's regular expressions.\<close>

definition re_space :: "char \<Rightarrow> bool" where
  "re_space c \<longleftrightarrow> byte c \<in> {9, 10, 12, 13, 32}"

abbreviation drop_spaces :: "string \<Rightarrow> string" where "drop_spaces \<equiv> dropWhile re_space"

text \<open>
  A matcher looks for one match at the start of a text and returns its group and the text behind
  the match. With \<open>(?m)^\<close> a match may only start at the beginning of a line.
\<close>

fun find_line :: "(string \<Rightarrow> 'a option) \<Rightarrow> bool \<Rightarrow> string \<Rightarrow> 'a option" where
  "find_line m start [] = None"
| "find_line m start (c # s) =
     (case (if start then m (c # s) else None) of Some x \<Rightarrow> Some x | None \<Rightarrow> find_line m (c = LF) s)"

fun find_any :: "(string \<Rightarrow> 'a option) \<Rightarrow> string \<Rightarrow> 'a option" where
  "find_any m [] = None"
| "find_any m (c # s) = (case m (c # s) of Some x \<Rightarrow> Some x | None \<Rightarrow> find_any m s)"

text \<open>\<open>FindAllStringSubmatch\<close> and \<open>ReplaceAllString\<close>; every match here is not empty.\<close>

function find_all :: "(string \<Rightarrow> (string \<times> string) option) \<Rightarrow> bool \<Rightarrow> string \<Rightarrow> string list" where
  "find_all m start [] = []"
| "find_all m start (c # s) =
     (case (if start then m (c # s) else None) of
        Some (g, r) \<Rightarrow> if length r \<le> length s then g # find_all m False r else []
      | None \<Rightarrow> find_all m (c = LF) s)"
  by pat_completeness auto
termination
  by (relation "measure (\<lambda>(m, b, s). length s)") auto

function replace_all :: "(string \<Rightarrow> (string \<times> string) option) \<Rightarrow> string \<Rightarrow> bool \<Rightarrow> string \<Rightarrow> string" where
  "replace_all m rep start [] = []"
| "replace_all m rep start (c # s) =
     (case (if start then m (c # s) else None) of
        Some (g, r) \<Rightarrow> if length r \<le> length s then rep @ replace_all m rep False r else []
      | None \<Rightarrow> c # replace_all m rep (c = LF) s)"
  by pat_completeness auto
termination
  by (relation "measure (\<lambda>(m, rep, b, s). length s)") auto

text \<open>What stands between an opening quote that has been read and the next quote; not empty.\<close>

definition quoted :: "string \<Rightarrow> (string \<times> string) option" where
  "quoted s =
     (let g = takeWhile (\<lambda>c. c \<noteq> SQ) s; r = dropWhile (\<lambda>c. c \<noteq> SQ) s
      in if g = [] \<or> r = [] then None else Some (g, tl r))"

text \<open>\<open>reBlockMode\<close>: \<open>BLOCK_MODE\s*=\s*'(\w+)'\<close>\<close>

definition match_block_mode :: "string \<Rightarrow> (string \<times> string) option" where
  "match_block_mode s =
     (if \<not> prefix ''BLOCK_MODE'' s then None
      else
        (let a = drop_spaces (drop 10 s)
         in if \<not> prefix ''='' a then None
            else
              (let b = drop_spaces (tl a)
               in if \<not> prefix [SQ] b then None
                  else
                    (let g = takeWhile is_word (tl b); r = dropWhile is_word (tl b)
                     in if g \<noteq> [] \<and> prefix [SQ] r then Some (g, tl r) else None))))"

text \<open>\<open>reSinkhole\<close>: \<open>SINKHOLE_IPS\s*=\s*\{([^}]*)\}\<close>\<close>

definition match_sinkhole :: "string \<Rightarrow> string option" where
  "match_sinkhole s =
     (if \<not> prefix ''SINKHOLE_IPS'' s then None
      else
        (let a = drop_spaces (drop 12 s)
         in if \<not> prefix ''='' a then None
            else
              (let b = drop_spaces (tl a)
               in if \<not> prefix ''{'' b \<or> CHR ''}'' \<notin> set b then None
                  else Some (takeWhile (\<lambda>c. c \<noteq> CHR ''}'') (tl b)))))"

text \<open>
  \<open>reNewServer\<close>: \<open>newServer\(\{[^}]*address\s*=\s*'([^']+)'\<close>. The greedy run before the address is tried
  from its longest extent downwards.
\<close>

definition match_address :: "string \<Rightarrow> (string \<times> string) option" where
  "match_address s =
     (if \<not> prefix ''address'' s then None
      else
        (let a = drop_spaces (drop 7 s)
         in if \<not> prefix ''='' a then None
            else (let b = drop_spaces (tl a) in if \<not> prefix [SQ] b then None else quoted (tl b))))"

fun first_some :: "(nat \<Rightarrow> 'a option) \<Rightarrow> nat \<Rightarrow> 'a option" where
  "first_some f 0 = f 0"
| "first_some f (Suc n) = (case f (Suc n) of Some x \<Rightarrow> Some x | None \<Rightarrow> first_some f n)"

definition match_new_server :: "string \<Rightarrow> (string \<times> string) option" where
  "match_new_server s =
     (if \<not> prefix ''newServer({'' s then None
      else (let t = drop 11 s
            in first_some (\<lambda>i. match_address (drop i t)) (length (takeWhile (\<lambda>c. c \<noteq> CHR ''}'') t))))"

text \<open>\<open>reTLSLocal\<close>, \<open>reDOHLocal\<close>; \<open>reCertPath\<close> and \<open>reKeyPath\<close>, which may match anywhere.\<close>

definition match_start :: "string \<Rightarrow> string \<Rightarrow> unit option" where
  "match_start p s = (if prefix p s then Some () else None)"

definition next_quoted :: "string \<Rightarrow> (string \<times> string) option" where
  "next_quoted r =
     (if \<not> prefix '','' r then None
      else (let u = drop_spaces (tl r) in if \<not> prefix [SQ] u then None else quoted (tl u)))"

definition match_cert :: "string \<Rightarrow> (string \<times> string) option" where
  "match_cert s =
     (if \<not> prefix (''addTLSLocal('' @ [SQ]) s then None
      else (case quoted (drop 13 s) of None \<Rightarrow> None | Some (_, r) \<Rightarrow> next_quoted r))"

definition match_key :: "string \<Rightarrow> (string \<times> string) option" where
  "match_key s = (case match_cert s of None \<Rightarrow> None | Some (_, r) \<Rightarrow> next_quoted r)"

subsection \<open>The configuration of the node\<close>

record safe_search =
  ss_google :: bool
  ss_bing :: bool
  ss_youtube :: bool

record node_config =
  nc_master :: bool
  nc_block_mode :: string
  nc_sinkhole :: "string list"
  nc_upstreams :: "string list"
  nc_safe :: safe_search
  nc_dot :: bool
  nc_doh :: bool
  nc_cert :: string
  nc_key :: string

definition parse_sinkhole_ips :: "string \<Rightarrow> string list" where
  "parse_sinkhole_ips raw = filter (\<lambda>x. x \<noteq> []) (map (\<lambda>x. trim_byte (trim_space x) SQ) (split_on (CHR '','') raw))"

definition or_else :: "'a option \<Rightarrow> 'a \<Rightarrow> 'a" where
  "or_else v d = (case v of None \<Rightarrow> d | Some x \<Rightarrow> x)"

text \<open>The paths the flags name.\<close>

record conf_flags =
  cf_conf :: string
  cf_upstreams :: string
  cf_master :: bool

definition conf_dir :: "conf_flags \<Rightarrow> string" where "conf_dir f = path_dir (cf_conf f)"

text \<open>\<open>loadNodeConfig\<close>; a file that cannot be read is left out of the map.\<close>

definition load_node_config :: "conf_flags \<Rightarrow> fs \<Rightarrow> node_config" where
  "load_node_config f F =
     (let conf = or_else (F (cf_conf f)) [];
          present = F (cf_conf f) \<noteq> None;
          ss = or_else (F (path_join (conf_dir f) ''safesearch.conf'')) []
      in \<lparr>nc_master = cf_master f,
          nc_block_mode = or_else (map_option fst (find_line match_block_mode True conf)) ''rpz'',
          nc_sinkhole = (case find_line match_sinkhole True conf of None \<Rightarrow> [] | Some g \<Rightarrow> parse_sinkhole_ips g),
          nc_upstreams = find_all match_new_server True (or_else (F (cf_upstreams f)) []),
          nc_safe = \<lparr>ss_google = sublist ''google.com'' ss, ss_bing = sublist ''bing.com'' ss, ss_youtube = sublist ''youtube.com'' ss\<rparr>,
          nc_dot = (present \<and> find_line (match_start ''addTLSLocal('') True conf \<noteq> None),
          nc_doh = (present \<and> find_line (match_start ''addDOHLocal('') True conf \<noteq> None),
          nc_cert = or_else (map_option fst (find_any match_cert conf)) (path_join (path_join (conf_dir f) ''certs'') ''server.crt''),
          nc_key = or_else (map_option fst (find_any match_key conf)) (path_join (path_join (conf_dir f) ''certs'') ''server.key'')\<rparr>)"

subsection \<open>Generated Lua\<close>

definition sq :: "string \<Rightarrow> string" where "sq x = [SQ] @ x @ [SQ]"

text \<open>\<open>writeDoTDoH\<close>\<close>

definition listener_line :: "string \<Rightarrow> string \<Rightarrow> string \<Rightarrow> string \<Rightarrow> string \<Rightarrow> string" where
  "listener_line fn addr cert key path =
     fn @ ''('' @ sq addr @ '', '' @ sq cert @ '', '' @ sq key @ path @ '', {provider='' @ sq ''openssl'' @ '',minTLSVersion='' @ sq ''tls1.2'' @ ''})'' @ [LF]"

definition dotdoh_text :: "bool \<Rightarrow> bool \<Rightarrow> string \<Rightarrow> string \<Rightarrow> string" where
  "dotdoh_text dot doh cert key =
     ''-- DoT/DoH listeners (auto-generated by panel, do not edit)'' @ [LF]
     @ (if dot then listener_line ''addTLSLocal'' ''0.0.0.0:853'' cert key [] @ listener_line ''addTLSLocal'' ''[::]:853'' cert key [] else [])
     @ (if doh then listener_line ''addDOHLocal'' ''0.0.0.0:443'' cert key ('', '' @ sq ''/dns-query'')
                 @ listener_line ''addDOHLocal'' ''[::]:443'' cert key ('', '' @ sq ''/dns-query'') else [])"

text \<open>\<open>writeSafeSearch\<close>: lists of domains are added with one \<open>:add\<close> each.\<close>

definition ss_adds :: "string list \<Rightarrow> string" where
  "ss_adds ds = concat (map (\<lambda>d. '':add('' @ sq d @ '')'') ds)"

definition ss_nodes :: "string" where "ss_nodes = ''SuffixMatchNodeRule(newSuffixMatchNode()''"

definition google_text :: string where
  "google_text =
     ''-- Google SafeSearch'' @ [LF] @ ''addAction(AndRule({QTypeRule(DNSQType.A), '' @ ss_nodes @ [LF]
     @ ''  '' @ ss_adds [''google.com'', ''google.co.id'', ''google.com.au'', ''google.co.uk''] @ [LF]
     @ ''  '' @ ss_adds [''google.ca'', ''google.de'', ''google.fr'', ''google.co.jp''] @ [LF]
     @ '')}), SpoofAction('' @ sq ''216.239.38.120'' @ ''))'' @ [LF]
     @ ''addAction(AndRule({QTypeRule(DNSQType.AAAA), '' @ ss_nodes @ [LF]
     @ ''  '' @ ss_adds [''google.com'', ''google.co.id'', ''google.com.au'', ''google.co.uk''] @ [LF]
     @ '')}), SpoofAction('' @ sq ''2001:4860:4802:32::78'' @ ''))'' @ [LF]"

definition bing_text :: string where
  "bing_text =
     ''-- Bing SafeSearch'' @ [LF]
     @ ''addAction('' @ ss_nodes @ ss_adds [''bing.com''] @ ''), SpoofAction('' @ sq ''204.79.197.220'' @ ''))'' @ [LF]"

definition youtube_text :: string where
  "youtube_text =
     ''-- YouTube Restricted Mode'' @ [LF] @ ''addAction('' @ ss_nodes @ [LF]
     @ ''  '' @ ss_adds [''youtube.com'', ''www.youtube.com'', ''ytimg.com'', ''googlevideo.com''] @ [LF]
     @ ''), SpoofAction('' @ sq ''216.239.38.120'' @ ''))'' @ [LF]"

definition safe_search_text :: "safe_search \<Rightarrow> string" where
  "safe_search_text s =
     ''-- SafeSearch DNS Rewrite (auto-generated by panel, do not edit)'' @ [LF]
     @ (if ss_google s then google_text else []) @ (if ss_bing s then bing_text else []) @ (if ss_youtube s then youtube_text else [])"

subsection \<open>Checks\<close>

definition valid_port_digits :: "string \<Rightarrow> bool" where
  "valid_port_digits p \<longleftrightarrow>
     p \<noteq> [] \<and> length p \<le> 5 \<and> list_all is_digit p \<and> 1 \<le> dec_val p \<and> dec_val p \<le> 65535"

definition valid_port_suffix :: "string \<Rightarrow> bool" where
  "valid_port_suffix s \<longleftrightarrow> prefix '':'' s \<and> valid_port_digits (tl s)"

text \<open>\<open>validIP\<close>: an address, \<open>[address]\<close>, \<open>[address]:port\<close> or \<open>IPv4:port\<close>, after trimming.\<close>

definition valid_ip :: "string \<Rightarrow> bool" where
  "valid_ip raw =
     (let s = trim_space raw
      in if prefix ''['' s then
           (case cut_last (CHR '']'') s of
              None \<Rightarrow> False
            | Some (a, rest) \<Rightarrow>
                if rest \<noteq> [] \<and> \<not> valid_port_suffix rest then False else parse_ip (tl a) \<noteq> [])
         else if length (filter (\<lambda>c. c = CHR '':'') s) = 1 then
           (case split_host_port s of
              None \<Rightarrow> False
            | Some (h, p) \<Rightarrow> if \<not> valid_port_digits p then False else parse_ip h \<noteq> [])
         else parse_ip s \<noteq> [])"

text \<open>\<open>validTLSPath\<close>\<close>

definition tls_path_byte :: "char \<Rightarrow> bool" where
  "tls_path_byte c \<longleftrightarrow> (65 \<le> byte c \<and> byte c \<le> 90) \<or> (97 \<le> byte c \<and> byte c \<le> 122) \<or> is_digit c \<or> c \<in> set ''/._-''"

definition valid_tls_path :: "string \<Rightarrow> bool" where
  "valid_tls_path p \<longleftrightarrow>
     prefix ''/'' p \<and> 1 \<le> length (tl p) \<and> length (tl p) \<le> 255 \<and> list_all tls_path_byte (tl p) \<and> \<not> sublist ''..'' p"

subsection \<open>Handlers\<close>

text \<open>
  A handler yields a status; those that run \<open>setup-edge.sh\<close> also yield its arguments. \<open>script\<close> tells
  whether the script is there and succeeds; a body that does not decode is \<^const>\<open>None\<close>.
\<close>

definition run_setup :: "(string list \<Rightarrow> bool) \<Rightarrow> string \<Rightarrow> string list \<Rightarrow> nat \<times> string list option" where
  "run_setup script opt xs = (let args = [opt, join '','' xs] in (if script args then 200 else 500, Some args))"

definition handle_rpz :: "(string list \<Rightarrow> bool) \<Rightarrow> bool \<Rightarrow> string list option \<Rightarrow> nat \<times> string list option" where
  "handle_rpz script post body =
     (if \<not> post then (405, None)
      else
        (case body of
           None \<Rightarrow> (400, None)
         | Some ips \<Rightarrow>
             (let xs = filter (\<lambda>x. x \<noteq> []) (map trim_space ips)
              in if ips = [] \<or> \<not> list_all valid_ip xs \<or> xs = [] then (400, None)
                 else run_setup script ''--set-rpz'' xs)))"

definition handle_upstream :: "(string list \<Rightarrow> bool) \<Rightarrow> bool \<Rightarrow> string list option \<Rightarrow> nat \<times> string list option" where
  "handle_upstream script post body =
     (if \<not> post then (405, None)
      else
        (case body of
           None \<Rightarrow> (400, None)
         | Some xs \<Rightarrow> if xs = [] \<or> \<not> list_all valid_ip xs then (400, None) else run_setup script ''--set-upstream'' xs))"

text \<open>The outcome of the restart of dnsdist is only logged.\<close>

definition handle_safe_search :: "conf_flags \<Rightarrow> write_result \<Rightarrow> bool \<Rightarrow> bool \<Rightarrow> safe_search option \<Rightarrow> fs \<Rightarrow> nat \<times> fs" where
  "handle_safe_search f wr rn post body F =
     (if \<not> post then (405, F)
      else
        (case body of
           None \<Rightarrow> (400, F)
         | Some s \<Rightarrow>
             (case atomic_write F (path_join (conf_dir f) ''safesearch.conf'') (safe_search_text s) wr rn of
                (F', True) \<Rightarrow> (200, F')
              | (F', False) \<Rightarrow> (500, F'))))"

record dotdoh_body =
  db_dot :: bool
  db_doh :: bool
  db_cert :: string
  db_key :: string

definition dotdoh_path :: "conf_flags \<Rightarrow> string" where "dotdoh_path f = path_join (conf_dir f) ''dotdoh.conf''"

definition default_to :: "string \<Rightarrow> string \<Rightarrow> string" where "default_to s d = (if s = [] then d else s)"

definition handle_dotdoh :: "conf_flags \<Rightarrow> write_result \<Rightarrow> bool \<Rightarrow> bool \<Rightarrow> dotdoh_body option \<Rightarrow> fs \<Rightarrow> nat \<times> fs" where
  "handle_dotdoh f wr rn post body F =
     (if \<not> post then (405, F)
      else
        (case body of
           None \<Rightarrow> (400, F)
         | Some b \<Rightarrow>
             (let cert = default_to (db_cert b) (path_join (path_join (conf_dir f) ''certs'') ''server.crt'');
                  key = default_to (db_key b) (path_join (path_join (conf_dir f) ''certs'') ''server.key'')
              in if \<not> valid_tls_path cert \<or> \<not> valid_tls_path key then (400, F)
                 else (case atomic_write F (dotdoh_path f) (dotdoh_text (db_dot b) (db_doh b) cert key) wr rn of
                         (F', True) \<Rightarrow> (200, F')
                       | (F', False) \<Rightarrow> (500, F')))))"

text \<open>\<open>handleSettings\<close>: the password first, then the block mode. \<^const>\<open>None\<close> is the panic of the hash.\<close>

definition block_line :: "string \<Rightarrow> string" where "block_line mode = ''BLOCK_MODE = '' @ sq mode"

definition patch_block_mode :: "string \<Rightarrow> string \<Rightarrow> string" where
  "patch_block_mode mode conf = replace_all match_block_mode (block_line mode) True conf"

definition save_block_mode :: "conf_flags \<Rightarrow> write_result \<Rightarrow> bool \<Rightarrow> string \<Rightarrow> fs \<Rightarrow> nat \<times> fs" where
  "save_block_mode f wr rn mode F =
     (if mode \<notin> {''adguard'', ''rpz''} then (200, F)
      else
        (case F (cf_conf f) of
           None \<Rightarrow> (500, F)
         | Some b \<Rightarrow>
             (case atomic_write F (cf_conf f) (patch_block_mode mode b) wr rn of
                (F', True) \<Rightarrow> (200, F')
              | (F', False) \<Rightarrow> (500, F'))))"

definition handle_settings ::
  "crypto \<Rightarrow> auth_conf \<Rightarrow> conf_flags \<Rightarrow> bytes \<Rightarrow> write_result \<times> bool \<Rightarrow> write_result \<times> bool \<Rightarrow> bool \<Rightarrow> (string \<times> string) option \<Rightarrow> fs
   \<Rightarrow> (nat \<times> fs) option" where
  "handle_settings C cf f salt pw_io conf_io post body F =
     (if \<not> post then Some (405, F)
      else
        (case body of
           None \<Rightarrow> Some (400, F)
         | Some (pw, mode) \<Rightarrow>
             (case save_password C cf salt (fst pw_io) (snd pw_io) pw F of
                None \<Rightarrow> None
              | Some (Some err, F1) \<Rightarrow> Some (nat err, F1)
              | Some (None, F1) \<Rightarrow> Some (save_block_mode f (fst conf_io) (snd conf_io) mode F1))))"

text \<open>\<open>filesHandler\<close>: whether a request path is handed to the file server.\<close>

definition files_served :: "string \<Rightarrow> bool" where
  "files_served path \<longleftrightarrow> list_all (\<lambda>seg. \<not> prefix ''.'' seg) (split_on (CHR ''/'') (trim_prefix path ''/files/''))"

text \<open>\<open>handleMasterBuild\<close>: the status, and whether a build is started. \<open>handleMasterSources\<close>.\<close>

definition handle_master_build :: "bool \<Rightarrow> bool \<Rightarrow> bool \<Rightarrow> nat \<times> bool" where
  "handle_master_build slave building post =
     (if \<not> post then (405, False) else if slave \<or> building then (409, False) else (200, True))"

datatype sources_request = SrcGet | SrcPost "string option" | SrcOther

definition handle_master_sources ::
  "bool \<Rightarrow> string \<Rightarrow> write_result \<Rightarrow> bool \<Rightarrow> sources_request \<Rightarrow> fs \<Rightarrow> (nat \<times> string) \<times> fs" where
  "handle_master_sources slave path wr rn r F =
     (case r of
        SrcGet \<Rightarrow> ((200, or_else (F path) []), F)
      | SrcOther \<Rightarrow> ((405, []), F)
      | SrcPost body \<Rightarrow>
          if slave then ((409, []), F)
          else (case body of
                  None \<Rightarrow> ((400, []), F)
                | Some text \<Rightarrow>
                    (case atomic_write F path text wr rn of
                       (F', True) \<Rightarrow> ((200, []), F')
                     | (F', False) \<Rightarrow> ((500, []), F'))))"

subsection \<open>Start-up\<close>

definition env_or :: "string \<Rightarrow> string \<Rightarrow> string" where "env_or v d = (if v \<noteq> [] then v else d)"

definition env_bool :: "lib \<Rightarrow> string \<Rightarrow> bool \<Rightarrow> bool" where
  "env_bool L v d = (if v \<noteq> [] then to_lower L (trim_space v) \<in> {''1'', ''true'', ''yes'', ''on''} else d)"

definition valid_source_mode :: "string \<Rightarrow> bool" where "valid_source_mode m \<longleftrightarrow> m \<in> {''feeds'', ''rpz-slave''}"

definition master_auto_build :: "bool \<Rightarrow> string \<Rightarrow> duration \<Rightarrow> bool" where
  "master_auto_build master mode interval \<longleftrightarrow> master \<and> mode = ''feeds'' \<and> 0 < interval"

text \<open>\<open>loadOrGenSecret\<close>: the first 32 bytes of the file, or new ones; a failed save is only logged.\<close>

definition load_or_gen_secret :: "string \<Rightarrow> bytes option \<Rightarrow> write_result \<Rightarrow> bool \<Rightarrow> fs \<Rightarrow> bytes option \<times> fs" where
  "load_or_gen_secret path random wr rn F =
     (if F path \<noteq> None \<and> 32 \<le> length (the (F path)) then (Some (take 32 (the (F path))), F)
      else (case random of None \<Rightarrow> (None, F) | Some b \<Rightarrow> (Some b, fst (atomic_write F path b wr rn))))"

subsection \<open>Facts about the block mode\<close>

abbreviation patched :: "string \<Rightarrow> bool \<Rightarrow> string \<Rightarrow> string" where
  "patched mode \<equiv> replace_all match_block_mode (block_line mode)"

lemma block_line_first: "\<exists>t. block_line mode = CHR ''B'' # t"
  by (simp add: block_line_def)

lemma match_block_mode_start: "match_block_mode (c # s) = Some x \<Longrightarrow> c = CHR ''B''"
  by (simp add: match_block_mode_def split: if_splits)

lemma match_block_mode_shorter: "match_block_mode s = Some (g, r) \<Longrightarrow> length r < length s"
proof -
  assume m: "match_block_mode s = Some (g, r)"
  define a where "a = drop_spaces (drop 10 s)"
  define b where "b = drop_spaces (tl a)"
  define q where "q = dropWhile is_word (tl b)"
  have q: "r = tl q" "prefix [SQ] q"
    using m by (auto simp: match_block_mode_def Let_def a_def b_def q_def split: if_splits)
  have "length q \<le> length b" unfolding q_def by (metis length_dropWhile_le length_tl diff_le_self le_trans)
  also have "length b \<le> length a" unfolding b_def by (metis length_dropWhile_le length_tl diff_le_self le_trans)
  also have "length a \<le> length s" unfolding a_def by (metis length_dropWhile_le length_drop diff_le_self le_trans)
  finally show ?thesis using q by (cases q) simp_all
qed

lemma patched_skip: "\<not> (b \<and> match_block_mode (c # s) \<noteq> None) \<Longrightarrow> patched mode b (c # s) = c # patched mode (c = LF) s"
  by (cases b; cases "match_block_mode (c # s)") simp_all

lemma patched_hit:
  "match_block_mode (c # s) = Some (g, r) \<Longrightarrow> patched mode True (c # s) = block_line mode @ patched mode False r"
  using match_block_mode_shorter [of "c # s" g r] by simp

declare replace_all.simps(2) [simp del]

text \<open>What starts with another letter than the assignment is not touched.\<close>

lemma patched_first:
  assumes "patched mode b s = x # t" and "x \<noteq> CHR ''B''"
  shows "\<exists>s'. s = x # s' \<and> t = patched mode (x = LF) s'"
proof (cases s)
  case Nil
  with assms show ?thesis by simp
next
  case (Cons c s')
  show ?thesis
  proof (cases "b \<and> match_block_mode (c # s') \<noteq> None")
    case True
    then obtain g r where m: "b" "match_block_mode (c # s') = Some (g, r)" by auto
    from patched_hit [OF m(2), of mode] block_line_first [of mode] assms Cons m(1) show ?thesis by auto
  next
    case False
    from patched_skip [OF this, of mode] assms(1) Cons show ?thesis by auto
  qed
qed

lemma patched_keep: "patched mode False (x # s) = x # patched mode (x = LF) s"
  by (simp add: patched_skip)

lemma patched_literal:
  "LF \<notin> set p \<Longrightarrow> patched mode False s = p @ t \<Longrightarrow> \<exists>s'. s = p @ s' \<and> t = patched mode False s'"
proof (induction p arbitrary: s)
  case (Cons x p)
  then obtain s1 where "s = x # s1" "patched mode (x = LF) s1 = p @ t" by (cases s) (auto simp: patched_keep)
  with Cons show ?case by auto
qed simp

lemma patched_spaces: "\<exists>b'. drop_spaces (patched mode b s) = patched mode b' (drop_spaces s)"
proof (induction s arbitrary: b)
  case (Cons c s)
  show ?case
  proof (cases "re_space c")
    case True
    then have "match_block_mode (c # s) = None"
      using match_block_mode_start [of c s] by (cases "match_block_mode (c # s)") (auto simp: re_space_def)
    then have "patched mode b (c # s) = c # patched mode (c = LF) s" by (simp add: patched_skip)
    with True Cons [of "c = LF"] show ?thesis by simp
  next
    case False
    have "drop_spaces (patched mode b (c # s)) = patched mode b (c # s)"
    proof (cases "b \<and> match_block_mode (c # s) \<noteq> None")
      case True
      then obtain g r where m: "b" "match_block_mode (c # s) = Some (g, r)" by auto
      with patched_hit [OF m(2), of mode] block_line_first [of mode] show ?thesis by (auto simp: re_space_def)
    next
      case no: False
      from patched_skip [OF this, of mode] False show ?thesis by simp
    qed
    with False show ?thesis by (intro exI [of _ b]) simp
  qed
qed (simp add: exI)

lemma patched_word:
  "takeWhile is_word (patched mode False s) = takeWhile is_word s"
  "dropWhile is_word (patched mode False s) = patched mode False (dropWhile is_word s)"
proof (induction s)
  case (Cons c s)
  have "is_word c \<Longrightarrow> c \<noteq> LF" by (auto simp: is_word_def is_letter_def is_digit_def LF_chr)
  with Cons show "takeWhile is_word (patched mode False (c # s)) = takeWhile is_word (c # s)"
    "dropWhile is_word (patched mode False (c # s)) = patched mode False (dropWhile is_word (c # s))"
    by (cases "is_word c"; simp add: patched_keep)+
qed simp_all

lemma match_patched:
  assumes "match_block_mode (c # patched mode (c = LF) s) \<noteq> None"
  shows "match_block_mode (c # s) \<noteq> None"
proof -
  let ?v = "c # patched mode (c = LF) s"
  have "c = CHR ''B''" using assms match_block_mode_start by blast
  moreover from this have "c \<noteq> LF" by (auto simp: LF_chr)
  ultimately have v: "?v = patched mode False (CHR ''B'' # s)" by (simp add: patched_keep)
  obtain t where t: "?v = ''BLOCK_MODE'' @ t"
    using assms by (auto simp: match_block_mode_def prefix_def split: if_splits)
  have "LF \<notin> set ''BLOCK_MODE''" by (auto simp: LF_chr)
  from patched_literal [OF this, of mode "CHR ''B'' # s" t] t v obtain s1
    where s1: "CHR ''B'' # s = ''BLOCK_MODE'' @ s1" "t = patched mode False s1" by auto
  obtain b1 where b1: "drop_spaces t = patched mode b1 (drop_spaces s1)" using patched_spaces s1(2) by blast
  obtain t2 where t2: "drop_spaces t = CHR ''='' # t2"
    using assms t by (auto simp: match_block_mode_def Let_def prefix_def split: if_splits)
  with b1 patched_first [of mode b1 "drop_spaces s1" "CHR ''=''" t2] obtain s2
    where s2: "drop_spaces s1 = CHR ''='' # s2" "t2 = patched mode (CHR ''='' = LF) s2" by auto
  obtain b2 where b2: "drop_spaces t2 = patched mode b2 (drop_spaces s2)" using patched_spaces s2(2) by blast
  obtain t3 where t3: "drop_spaces t2 = SQ # t3"
    using assms t t2 by (auto simp: match_block_mode_def Let_def prefix_def split: if_splits)
  have sq: "SQ \<noteq> CHR ''B''" "SQ \<noteq> LF" by (auto simp: SQ_def LF_chr)
  with b2 t3 patched_first [of mode b2 "drop_spaces s2" SQ t3] obtain s3
    where s3: "drop_spaces s2 = SQ # s3" "t3 = patched mode False s3" by auto
  have g: "takeWhile is_word t3 \<noteq> []" and r: "prefix [SQ] (dropWhile is_word t3)"
    using assms t t2 t3 by (auto simp: match_block_mode_def Let_def split: if_splits)
  obtain r3 where "dropWhile is_word s3 = SQ # r3"
    using r s3(2) patched_first [of mode False "dropWhile is_word s3" SQ] sq(1)
    by (auto simp: patched_word prefix_def)
  moreover have "takeWhile is_word s3 \<noteq> []" using g s3(2) by (simp add: patched_word)
  ultimately show ?thesis
    using s1(1) s2(1) s3(1) \<open>c = CHR ''B''\<close> by (simp add: match_block_mode_def Let_def)
qed

lemma match_block_line:
  assumes "list_all is_word mode" and "mode \<noteq> []"
  shows "match_block_mode (block_line mode @ t) = Some (mode, t)"
proof -
  have nw: "\<not> is_word SQ" by (simp add: is_word_def is_letter_def is_digit_def SQ_def)
  have sp: "\<not> re_space (CHR ''='')" "\<not> re_space SQ" "re_space (CHR '' '')" by (simp_all add: re_space_def SQ_def)
  have "takeWhile is_word (mode @ SQ # t) = mode" "dropWhile is_word (mode @ SQ # t) = SQ # t"
    using assms(1) nw by (simp_all add: list_all_iff takeWhile_append2 dropWhile_append2)
  with assms(2) sp show ?thesis by (simp add: match_block_mode_def block_line_def sq_def)
qed

lemma find_line_skip: "\<not> (b \<and> m (c # s) \<noteq> None) \<Longrightarrow> find_line m b (c # s) = find_line m (c = LF) s"
  by (cases b; cases "m (c # s)") simp_all

text \<open>After the replacement every assignment that was there holds the new mode; without one nothing changes.\<close>

lemma find_patched:
  assumes "list_all is_word mode" and "mode \<noteq> []"
  shows "map_option fst (find_line match_block_mode b (patched mode b s))
     = (if find_line match_block_mode b s = None then None else Some mode)"
proof (induction s arbitrary: b)
  case (Cons c s)
  show ?case
  proof (cases "b \<and> match_block_mode (c # s) \<noteq> None")
    case True
    then obtain g r where m: "b" "match_block_mode (c # s) = Some (g, r)" by auto
    obtain u where u: "block_line mode @ patched mode False r = CHR ''B'' # u" using block_line_first [of mode] by auto
    have "match_block_mode (CHR ''B'' # u) = Some (mode, patched mode False r)"
      using match_block_line [OF assms, of "patched mode False r"] u by simp
    with m patched_hit [OF m(2), of mode] u show ?thesis by simp
  next
    case False
    then have n: "\<not> (b \<and> match_block_mode (c # patched mode (c = LF) s) \<noteq> None)" using match_patched by blast
    show ?thesis
      unfolding patched_skip [OF False] find_line_skip [of b match_block_mode, OF n] find_line_skip [of b match_block_mode, OF False] by (rule Cons)
  qed
qed simp

lemma patched_none: "find_line match_block_mode b s = None \<Longrightarrow> patched mode b s = s"
proof (induction s arbitrary: b)
  case (Cons c s)
  then have n: "\<not> (b \<and> match_block_mode (c # s) \<noteq> None)" by (auto split: option.splits)
  with Cons have "find_line match_block_mode (c = LF) s = None" by (simp only: find_line_skip [of b match_block_mode, OF n])
  with Cons.IH patched_skip [OF n, of mode] show ?case by simp
qed simp

lemma load_block_mode:
  "nc_block_mode (load_node_config f F) = or_else (map_option fst (find_line match_block_mode True (or_else (F (cf_conf f)) []))) ''rpz''"
  by (simp add: load_node_config_def Let_def)

lemma settings_block_mode:
  assumes "handle_settings C cf f salt pw_io conf_io True (Some (pw, mode)) F = Some (200, F')"
    and "mode \<in> {''adguard'', ''rpz''}" and "cf_conf f \<notin> {pass_path cf, tmp_name (pass_path cf)}"
  shows "\<exists>conf. F (cf_conf f) = Some conf \<and> F' (cf_conf f) = Some (patch_block_mode mode conf)"
proof -
  from assms(1) obtain F1 where pw: "save_password C cf salt (fst pw_io) (snd pw_io) pw F = Some (None, F1)"
    and sv: "save_block_mode f (fst conf_io) (snd conf_io) mode F1 = (200, F')"
    by (auto simp: handle_settings_def save_password_def split: option.splits if_splits prod.splits bool.splits)
  have "F1 (cf_conf f) = F (cf_conf f)"
    using pw assms(3) atomic_write_cases(2) [of F "pass_path cf" _ "fst pw_io" "snd pw_io" F1 True "cf_conf f"]
    by (auto simp: save_password_def split: option.splits if_splits prod.splits bool.splits)
  moreover from sv assms(2) obtain conf where conf: "F1 (cf_conf f) = Some conf"
    "atomic_write F1 (cf_conf f) (patch_block_mode mode conf) (fst conf_io) (snd conf_io) = (F', True)"
    by (auto simp: save_block_mode_def split: option.splits prod.splits bool.splits)
  ultimately show ?thesis using atomic_write_cases(1) [OF conf(2)] by (metis (full_types))
qed

subsection \<open>Facts about the generated listeners\<close>

text \<open>
  The literals between single quotes of a text without escapes, and its code: the text with every
  literal emptied.
\<close>

fun odds :: "'a list \<Rightarrow> 'a list" where
  "odds [] = []"
| "odds [x] = []"
| "odds (x # y # xs) = y # odds xs"

definition sq_literals :: "string \<Rightarrow> string list" where "sq_literals s = odds (split_on SQ s)"

fun sq_code :: "bool \<Rightarrow> string \<Rightarrow> string" where
  "sq_code inside [] = []"
| "sq_code inside (c # s) = (if c = SQ then SQ # sq_code (\<not> inside) s else if inside then sq_code inside s else c # sq_code inside s)"

lemma split_on_glue: "c \<notin> set p \<Longrightarrow> split_on c (p @ s) = (p @ hd (split_on c s)) # tl (split_on c s)"
proof (induction p)
  case Nil
  then show ?case by (cases "split_on c s") simp_all
qed (auto split: list.splits)

lemma sq_literals_code: "SQ \<notin> set p \<Longrightarrow> sq_literals (p @ s) = sq_literals s"
  by (cases "split_on SQ s"; cases "tl (split_on SQ s)") (auto simp: sq_literals_def split_on_glue)

lemma sq_literals_literal: "SQ \<notin> set x \<Longrightarrow> sq_literals (sq x @ s) = x # sq_literals s"
  by (simp add: sq_literals_def sq_def split_on_append)

lemma sq_literals_Nil: "sq_literals [] = []"
  by (simp add: sq_literals_def)

lemma sq_code_code: "SQ \<notin> set p \<Longrightarrow> sq_code False (p @ s) = p @ sq_code False s"
  by (induction p) auto

lemma sq_code_literal: "SQ \<notin> set x \<Longrightarrow> sq_code False (sq x @ s) = [SQ, SQ] @ sq_code False s"
proof -
  assume x: "SQ \<notin> set x"
  then have "sq_code True (x @ SQ # s) = SQ # sq_code False s" by (induction x) auto
  then show ?thesis by (simp add: sq_def)
qed

lemma tls_path_plain: "valid_tls_path p \<Longrightarrow> SQ \<notin> set p \<and> BSLASH \<notin> set p \<and> LF \<notin> set p"
proof -
  assume v: "valid_tls_path p"
  have b: "tls_path_byte c" if "c \<in> set p" for c
    using v that by (cases p) (auto simp: valid_tls_path_def list_all_iff tls_path_byte_def)
  have "\<not> tls_path_byte SQ" "\<not> tls_path_byte BSLASH" "\<not> tls_path_byte LF"
    by (simp_all add: tls_path_byte_def SQ_def BSLASH_def LF_chr is_digit_def)
  with b show ?thesis by blast
qed

lemma sq_parts: "SQ \<notin> set ''addTLSLocal''" "SQ \<notin> set ''addDOHLocal''" "SQ \<notin> set ''(''" "SQ \<notin> set '', ''" "SQ \<notin> set '', {provider=''"
  "SQ \<notin> set '',minTLSVersion=''" "SQ \<notin> set ''})''" "SQ \<notin> set [LF]" "SQ \<notin> set ''openssl''" "SQ \<notin> set ''tls1.2''"
  "SQ \<notin> set ''0.0.0.0:853''" "SQ \<notin> set ''[::]:853''" "SQ \<notin> set ''0.0.0.0:443''" "SQ \<notin> set ''[::]:443''" "SQ \<notin> set ''/dns-query''"
  "SQ \<notin> set ''-- DoT/DoH listeners (auto-generated by panel, do not edit)''"
  by (simp_all add: SQ_def LF_chr)

definition listener_literals :: "string \<Rightarrow> string \<Rightarrow> string \<Rightarrow> string list \<Rightarrow> string list" where
  "listener_literals addr cert key path = [addr, cert, key] @ path @ [''openssl'', ''tls1.2'']"

lemmas sq_rules = sq_literals_code sq_literals_literal sq_code_code sq_code_literal sq_parts

lemma listener_line_parts:
  assumes "SQ \<notin> set fn" "SQ \<notin> set addr" "SQ \<notin> set cert" "SQ \<notin> set key"
  shows "sq_literals (listener_line fn addr cert key [] @ t) = listener_literals addr cert key [] @ sq_literals t"
    and "sq_literals (listener_line fn addr cert key ('', '' @ sq ''/dns-query'') @ t)
      = listener_literals addr cert key [''/dns-query''] @ sq_literals t"
    and "sq_code False (listener_line fn addr cert key [] @ t) = sq_code False (listener_line fn addr [] [] []) @ sq_code False t"
    and "sq_code False (listener_line fn addr cert key ('', '' @ sq ''/dns-query'') @ t)
      = sq_code False (listener_line fn addr [] [] ('', '' @ sq ''/dns-query'')) @ sq_code False t"
proof -
  have e: "SQ \<notin> set []" "sq_code False [LF] = [LF]" using sq_parts by (simp_all add: SQ_def LF_chr)
  show "sq_literals (listener_line fn addr cert key [] @ t) = listener_literals addr cert key [] @ sq_literals t"
    by (simp only: listener_line_def append_assoc append_Nil simp_thms sq_rules assms) (simp add: listener_literals_def)
  show "sq_literals (listener_line fn addr cert key ('', '' @ sq ''/dns-query'') @ t)
      = listener_literals addr cert key [''/dns-query''] @ sq_literals t"
    by (simp only: listener_line_def append_assoc simp_thms sq_rules assms) (simp add: listener_literals_def)
  show "sq_code False (listener_line fn addr cert key [] @ t) = sq_code False (listener_line fn addr [] [] []) @ sq_code False t"
    by (simp only: listener_line_def append_assoc append_Nil simp_thms sq_rules assms e)
  show "sq_code False (listener_line fn addr cert key ('', '' @ sq ''/dns-query'') @ t)
      = sq_code False (listener_line fn addr [] [] ('', '' @ sq ''/dns-query'')) @ sq_code False t"
    by (simp only: listener_line_def append_assoc simp_thms sq_rules assms e)
qed

lemma dotdoh_cases:
  "dotdoh_text True True cert key =
     ''-- DoT/DoH listeners (auto-generated by panel, do not edit)'' @ [LF]
     @ listener_line ''addTLSLocal'' ''0.0.0.0:853'' cert key [] @ listener_line ''addTLSLocal'' ''[::]:853'' cert key []
     @ listener_line ''addDOHLocal'' ''0.0.0.0:443'' cert key ('', '' @ sq ''/dns-query'')
     @ listener_line ''addDOHLocal'' ''[::]:443'' cert key ('', '' @ sq ''/dns-query'') @ []"
  "dotdoh_text True False cert key =
     ''-- DoT/DoH listeners (auto-generated by panel, do not edit)'' @ [LF]
     @ listener_line ''addTLSLocal'' ''0.0.0.0:853'' cert key [] @ listener_line ''addTLSLocal'' ''[::]:853'' cert key [] @ []"
  "dotdoh_text False True cert key =
     ''-- DoT/DoH listeners (auto-generated by panel, do not edit)'' @ [LF]
     @ listener_line ''addDOHLocal'' ''0.0.0.0:443'' cert key ('', '' @ sq ''/dns-query'')
     @ listener_line ''addDOHLocal'' ''[::]:443'' cert key ('', '' @ sq ''/dns-query'') @ []"
  "dotdoh_text False False cert key = ''-- DoT/DoH listeners (auto-generated by panel, do not edit)'' @ [LF] @ []"
  unfolding dotdoh_text_def by (simp_all only: if_True if_False append_Nil2 append_Nil append_assoc)

definition dotdoh_literals :: "bool \<Rightarrow> bool \<Rightarrow> string \<Rightarrow> string \<Rightarrow> string list" where
  "dotdoh_literals dot doh cert key =
     (if dot then listener_literals ''0.0.0.0:853'' cert key [] @ listener_literals ''[::]:853'' cert key [] else [])
     @ (if doh then listener_literals ''0.0.0.0:443'' cert key [''/dns-query''] @ listener_literals ''[::]:443'' cert key [''/dns-query''] else [])"

lemma dotdoh_text_parts:
  assumes "SQ \<notin> set cert" and "SQ \<notin> set key"
  shows "sq_literals (dotdoh_text dot doh cert key) = dotdoh_literals dot doh cert key"
    and "sq_code False (dotdoh_text dot doh cert key) = sq_code False (dotdoh_text dot doh [] [])"
proof -
  have n: "SQ \<notin> set []" by simp
  show "sq_literals (dotdoh_text dot doh cert key) = dotdoh_literals dot doh cert key"
    by (cases dot; cases doh)
      (simp_all only: dotdoh_cases listener_line_parts sq_rules sq_literals_Nil assms simp_thms,
        simp_all only: dotdoh_literals_def if_True if_False append_Nil append_Nil2 append_assoc)
  show "sq_code False (dotdoh_text dot doh cert key) = sq_code False (dotdoh_text dot doh [] [])"
    by (cases dot; cases doh) (simp_all only: dotdoh_cases listener_line_parts sq_rules assms n simp_thms)
qed

lemma dotdoh_text_chars:
  "BSLASH \<notin> set cert \<Longrightarrow> BSLASH \<notin> set key \<Longrightarrow> BSLASH \<notin> set (dotdoh_text dot doh cert key)"
  by (cases dot; cases doh) (simp_all add: dotdoh_cases listener_line_def sq_def BSLASH_def SQ_def LF_chr)

lemma dotdoh_written:
  assumes "handle_dotdoh f wr rn True (Some b) F = (200, F')"
  shows "\<exists>cert key. cert \<in> {db_cert b, path_join (path_join (conf_dir f) ''certs'') ''server.crt''}
      \<and> key \<in> {db_key b, path_join (path_join (conf_dir f) ''certs'') ''server.key''}
      \<and> valid_tls_path cert \<and> valid_tls_path key
      \<and> atomic_write F (dotdoh_path f) (dotdoh_text (db_dot b) (db_doh b) cert key) wr rn = (F', True)"
  using assms by (auto simp: handle_dotdoh_def default_to_def Let_def split: if_splits prod.splits bool.splits)

text \<open>
  C32: a request for DoT and DoH listeners that is answered with success has written a Lua file that
  holds nothing but the listeners: read without any escape, its quoted strings are the four fixed
  addresses, the two paths, the DNS path and the TLS settings, and everything outside the quotes is the
  same text whatever paths were sent. The paths are the request's or the default ones.
\<close>

theorem dotdoh_confined:
  assumes "handle_dotdoh f wr rn True (Some b) F = (200, F')"
  shows "\<exists>cert key text. F' (dotdoh_path f) = Some text
      \<and> cert \<in> {db_cert b, path_join (path_join (conf_dir f) ''certs'') ''server.crt''}
      \<and> key \<in> {db_key b, path_join (path_join (conf_dir f) ''certs'') ''server.key''}
      \<and> BSLASH \<notin> set text
      \<and> sq_literals text = dotdoh_literals (db_dot b) (db_doh b) cert key
      \<and> sq_code False text = sq_code False (dotdoh_text (db_dot b) (db_doh b) [] [])"
proof -
  from dotdoh_written [OF assms] obtain cert key
    where paths: "cert \<in> {db_cert b, path_join (path_join (conf_dir f) ''certs'') ''server.crt''}"
      "key \<in> {db_key b, path_join (path_join (conf_dir f) ''certs'') ''server.key''}"
      and valid: "valid_tls_path cert" "valid_tls_path key"
      and wrote: "atomic_write F (dotdoh_path f) (dotdoh_text (db_dot b) (db_doh b) cert key) wr rn = (F', True)" by blast
  have plain: "SQ \<notin> set cert" "SQ \<notin> set key" "BSLASH \<notin> set cert" "BSLASH \<notin> set key"
    using tls_path_plain valid by blast+
  have "F' (dotdoh_path f) = Some (dotdoh_text (db_dot b) (db_doh b) cert key)"
    using atomic_write_cases(1) [OF wrote] by simp
  with paths dotdoh_text_parts [OF plain(1,2)] dotdoh_text_chars [OF plain(3,4)] show ?thesis by blast
qed

definition wit_flags :: conf_flags where
  "wit_flags = \<lparr>cf_conf = ''/e/d.conf'', cf_upstreams = ''/e/u.conf'', cf_master = False\<rparr>"

lemma dotdoh_confined_witness:
  "\<exists>cert key text. snd (handle_dotdoh wit_flags Written True True (Some \<lparr>db_dot = True, db_doh = True, db_cert = [], db_key = ''/k''\<rparr>) (\<lambda>_. None)) (dotdoh_path wit_flags) = Some text
      \<and> cert \<in> {[], path_join (path_join (conf_dir wit_flags) ''certs'') ''server.crt''}
      \<and> key \<in> {''/k'', path_join (path_join (conf_dir wit_flags) ''certs'') ''server.key''}
      \<and> BSLASH \<notin> set text
      \<and> sq_literals text = dotdoh_literals True True cert key
      \<and> sq_code False text = sq_code False (dotdoh_text True True [] [])"
proof -
  let ?b = "\<lparr>db_dot = True, db_doh = True, db_cert = [], db_key = ''/k''\<rparr>"
  have "fst (handle_dotdoh wit_flags Written True True (Some ?b) (\<lambda>_. None)) = 200" by code_simp
  then have "handle_dotdoh wit_flags Written True True (Some ?b) (\<lambda>_. None)
      = (200, snd (handle_dotdoh wit_flags Written True True (Some ?b) (\<lambda>_. None)))" by (simp only: prod_eq_iff fst_conv snd_conv)
  from dotdoh_confined [OF this] show ?thesis by simp
qed

text \<open>
  after the settings handler has answered a request for one of the two block modes with success, the
  node's configuration reads back as that mode, if the configuration had an assignment of the block mode
  with a quoted word; otherwise the file is unchanged and the mode reads back as the default.
\<close>

lemma block_mode_saved:
  assumes "handle_settings C cf f salt pw_io conf_io True (Some (pw, mode)) F = Some (200, F')"
    and "mode \<in> {''adguard'', ''rpz''}" and "cf_conf f \<notin> {pass_path cf, tmp_name (pass_path cf)}"
  shows "\<exists>conf. F (cf_conf f) = Some conf
      \<and> (if find_line match_block_mode True conf = None
          then F' (cf_conf f) = Some conf \<and> nc_block_mode (load_node_config f F') = ''rpz''
          else nc_block_mode (load_node_config f F') = mode)"
proof -
  obtain conf where conf: "F (cf_conf f) = Some conf" "F' (cf_conf f) = Some (patch_block_mode mode conf)"
    using settings_block_mode [OF assms] by blast
  have "list_all is_word mode \<and> mode \<noteq> []"
    using assms(2) by (auto simp: is_word_def is_letter_def)
  with conf find_patched [of mode True conf] patched_none [of True conf mode] show ?thesis
    by (auto simp: load_block_mode or_else_def patch_block_mode_def)
qed

definition wit_conf :: fs where "wit_conf = [''/e/d.conf'' \<mapsto> ''a=1'' @ [LF] @ ''BLOCK_MODE='' @ sq ''rpz'' @ [LF]]"

lemma block_mode_saved_witness:
  "\<exists>F'. handle_settings example_crypto example_conf wit_flags [] (Written, True) (Written, True) True (Some ([], ''adguard'')) wit_conf = Some (200, F')
      \<and> nc_block_mode (load_node_config wit_flags F') = ''adguard''"
proof -
  let ?h = "handle_settings example_crypto example_conf wit_flags [] (Written, True) (Written, True) True (Some ([], ''adguard'')) wit_conf"
  have "map_option fst ?h = Some 200" by code_simp
  then obtain F' where h: "?h = Some (200, F')" by auto
  have "cf_conf wit_flags \<notin> {pass_path example_conf, tmp_name (pass_path example_conf)}" by code_simp
  moreover have "wit_conf (cf_conf wit_flags) = Some (''a=1'' @ [LF] @ ''BLOCK_MODE='' @ sq ''rpz'' @ [LF])"
    by (simp add: wit_conf_def wit_flags_def)
  moreover have "find_line match_block_mode True (''a=1'' @ [LF] @ ''BLOCK_MODE='' @ sq ''rpz'' @ [LF]) \<noteq> None" by code_simp
  ultimately have "nc_block_mode (load_node_config wit_flags F') = ''adguard''"
    using block_mode_saved [OF h] by (simp del: find_line.simps)
  with h show ?thesis by blast
qed

subsection \<open>Behaviours worth knowing\<close>

text \<open>The line of the shipped configuration is no assignment the panel knows, so its block mode cannot be changed.\<close>

definition shipped_block_mode :: string where
  "shipped_block_mode = ''BLOCK_MODE = pick(PROFILE_BLOCK_MODE, '' @ sq ''rpz'' @ '')'' @ [LF]"

lemma shipped_block_mode_unknown: "find_line match_block_mode True shipped_block_mode = None"
  by code_simp

lemma shipped_block_mode_kept: "patch_block_mode mode shipped_block_mode = shipped_block_mode"
  unfolding patch_block_mode_def by (rule patched_none [OF shipped_block_mode_unknown])

text \<open>What the panel writes for DoT and DoH it does not read back: its status is that of \<open>dnsdist.conf\<close>.\<close>

lemma dotdoh_not_reported:
  assumes "handle_dotdoh f wr rn post body F = (status, F')"
    and "{cf_conf f, cf_upstreams f, path_join (conf_dir f) ''safesearch.conf''} \<inter> {dotdoh_path f, tmp_name (dotdoh_path f)} = {}"
  shows "load_node_config f F' = load_node_config f F"
proof -
  have "F' p = F p" if "p \<notin> {dotdoh_path f, tmp_name (dotdoh_path f)}" for p
    using assms(1) that atomic_write_cases(2) [of F "dotdoh_path f" _ wr rn F' _ p]
    by (auto simp: handle_dotdoh_def Let_def split: if_splits option.splits prod.splits bool.splits)
  then have "F' (cf_conf f) = F (cf_conf f)" "F' (cf_upstreams f) = F (cf_upstreams f)"
    "F' (path_join (conf_dir f) ''safesearch.conf'') = F (path_join (conf_dir f) ''safesearch.conf'')"
    using assms(2) by auto
  then show ?thesis by (simp only: load_node_config_def)
qed

text \<open>The upstream handler checks the trimmed addresses and hands over the untrimmed ones.\<close>

lemma upstream_untrimmed:
  "handle_upstream (\<lambda>_. True) True (Some [''1.1.1.1'' @ [LF], ''8.8.8.8''])
   = (200, Some [''--set-upstream'', ''1.1.1.1'' @ [LF] @ '',8.8.8.8''])"
  by code_simp

text \<open>A sinkhole with a port is accepted.\<close>

lemma sinkhole_port: "handle_rpz (\<lambda>_. True) True (Some [''192.0.2.1:53'']) = (200, Some [''--set-rpz'', ''192.0.2.1:53''])"
  by code_simp

end
