(* ===== verification/Cluster_Base.thy ===== *)
theory Cluster_Base
  imports Go_Prelude
begin

text \<open>
  The node records, requests and responses of \<open>panel/cluster.go\<close>, the freshness rule for a node
  status, the sums of \<open>ListNodes\<close>, and the interface \<open>ClusterStorage\<close> of \<open>panel/storage.go\<close> as a
  record of operations with its contract as a locale. The contract is what the master relies on:
  which tokens exist, which nodes exist and who may speak for them.
\<close>

subsection \<open>Nodes and requests\<close>

type_synonym i64 = "64 word"

datatype status = Online | Degraded | Offline

record node =
  n_id :: string
  n_key :: string
  n_name :: string
  n_ip :: string
  n_version :: string
  n_status :: status
  n_first :: time
  n_last :: time
  n_qps :: i64
  n_queries :: i64
  n_blocked :: i64
  n_cache :: rat
  n_cpu :: rat
  n_mem_used :: i64
  n_mem_total :: i64
  n_uptime :: i64
  n_running :: bool
  n_db_hash :: string
  n_db_updated :: string
  n_applied :: string
  n_profile :: string
  n_sync :: string

record register_request =
  rg_token :: string
  rg_name :: string
  rg_ip :: string
  rg_version :: string

record heartbeat_request =
  hb_node :: string
  hb_key :: string
  hb_name :: string
  hb_ip :: string
  hb_version :: string
  hb_qps :: i64
  hb_queries :: i64
  hb_blocked :: i64
  hb_cache :: rat
  hb_cpu :: rat
  hb_mem_used :: i64
  hb_mem_total :: i64
  hb_uptime :: i64
  hb_running :: bool
  hb_db_hash :: string
  hb_db_updated :: string
  hb_applied :: string

datatype cluster_error = InvalidToken | NotRegistered | KeyMismatch | NodeNotFound | DbError | SaveError

text \<open>What one call meets: random hex strings, clock readings, outcomes of writes or queries.\<close>

record op_env =
  oe_hex :: string
  oe_hex2 :: string
  oe_hex3 :: string
  oe_now :: time
  oe_now2 :: time
  oe_io :: "nat \<Rightarrow> bool"

definition env_ok :: "op_env \<Rightarrow> bool" where
  "env_ok e \<longleftrightarrow> oe_io e 0 \<and> oe_io e 1 \<and> oe_io e 2"

definition default_ttl :: "duration \<Rightarrow> duration" where
  "default_ttl d = (if d \<le> 0 then hours 24 else d)"

definition token_name :: "op_env \<Rightarrow> string" where
  "token_name e = ''enroll-'' @ oe_hex e"

text \<open>The freshness rule: three minutes without a heartbeat make a node offline.\<close>

definition node_status :: "time \<Rightarrow> time \<Rightarrow> bool \<Rightarrow> status" where
  "node_status now seen running =
     (if seen = 0 \<or> minutes 3 < time_sub now seen then Offline
      else if \<not> running then Degraded else Online)"

definition refresh_status :: "time \<Rightarrow> node \<Rightarrow> node" where
  "refresh_status now n = n\<lparr>n_status := node_status now (n_last n) (n_running n)\<rparr>"

text \<open>The record a registration creates.\<close>

definition new_node :: "op_env \<Rightarrow> register_request \<Rightarrow> string \<Rightarrow> node" where
  "new_node e r remote =
     (let i = ''node-'' @ oe_hex2 e; nm = trim_space (rg_name r); rip = trim_space (rg_ip r)
      in \<lparr>n_id = i, n_key = oe_hex3 e, n_name = (if nm = [] then i else nm),
          n_ip = (if rip = [] then remote else rip), n_version = rg_version r, n_status = Online,
          n_first = oe_now2 e, n_last = oe_now2 e, n_qps = 0, n_queries = 0, n_blocked = 0, n_cache = 0,
          n_cpu = 0, n_mem_used = 0, n_mem_total = 0, n_uptime = 0, n_running = False, n_db_hash = [],
          n_db_updated = [], n_applied = [], n_profile = [], n_sync = []\<rparr>)"

subsection \<open>Aggregates\<close>

record aggregate =
  ag_total :: nat
  ag_online :: nat
  ag_degraded :: nat
  ag_offline :: nat
  ag_synced :: nat
  ag_pending :: nat
  ag_qps :: i64
  ag_queries :: i64
  ag_blocked :: i64
  ag_cache :: rat

definition no_aggregate :: aggregate where
  "no_aggregate = \<lparr>ag_total = 0, ag_online = 0, ag_degraded = 0, ag_offline = 0, ag_synced = 0, ag_pending = 0,
     ag_qps = 0, ag_queries = 0, ag_blocked = 0, ag_cache = 0\<rparr>"

text \<open>One node of the listing loop; the state is the aggregate, the cache sum and the active count.\<close>

definition count_node :: "node \<Rightarrow> aggregate \<times> rat \<times> nat \<Rightarrow> aggregate \<times> rat \<times> nat" where
  "count_node n st =
     (let (a, cs, act) = st;
          a1 = a\<lparr>ag_total := Suc (ag_total a)\<rparr>;
          a2 = a1\<lparr>ag_qps := ag_qps a + n_qps n, ag_queries := ag_queries a + n_queries n,
                  ag_blocked := ag_blocked a + n_blocked n\<rparr>
      in case n_status n of
           Online \<Rightarrow> (a2\<lparr>ag_online := Suc (ag_online a)\<rparr>, cs + n_cache n, Suc act)
         | Degraded \<Rightarrow> (a2\<lparr>ag_degraded := Suc (ag_degraded a)\<rparr>, cs + n_cache n, Suc act)
         | Offline \<Rightarrow> (a1\<lparr>ag_offline := Suc (ag_offline a)\<rparr>, cs, act))"

text \<open>\<open>math.Round\<close> rounds half away from zero.\<close>

definition go_round :: "rat \<Rightarrow> int" where
  "go_round x = (if 0 \<le> x then \<lfloor>x + 1/2\<rfloor> else - \<lfloor>1/2 - x\<rfloor>)"

definition aggregate_nodes :: "node list \<Rightarrow> aggregate" where
  "aggregate_nodes ns =
     (let (a, cs, act) = fold count_node ns (no_aggregate, 0, 0)
      in if 0 < act then a\<lparr>ag_cache := of_int (go_round (cs / of_nat act * 10)) / 10\<rparr> else a)"

subsection \<open>The storage interface\<close>

record 's storage =
  st_generate :: "op_env \<Rightarrow> duration \<Rightarrow> 's \<Rightarrow> string \<times> 's"
  st_consume :: "op_env \<Rightarrow> string \<Rightarrow> 's \<Rightarrow> bool \<times> 's"
  st_register :: "op_env \<Rightarrow> register_request \<Rightarrow> string \<Rightarrow> 's \<Rightarrow> (cluster_error + node) \<times> 's"
  st_heartbeat :: "op_env \<Rightarrow> heartbeat_request \<Rightarrow> string \<Rightarrow> 's \<Rightarrow> (cluster_error + unit) \<times> 's"
  st_delete :: "op_env \<Rightarrow> string \<Rightarrow> 's \<Rightarrow> (cluster_error + unit) \<times> 's"

datatype cluster_op =
    OpGenerate op_env duration
  | OpRegister op_env register_request string
  | OpHeartbeat op_env heartbeat_request string
  | OpDelete op_env string

datatype cluster_result = RToken string | RNode "cluster_error + node" | RDone "cluster_error + unit"

definition cluster_do :: "'s storage \<Rightarrow> cluster_op \<Rightarrow> 's \<Rightarrow> cluster_result \<times> 's" where
  "cluster_do S op s =
     (case op of
        OpGenerate e d \<Rightarrow> map_prod RToken id (st_generate S e d s)
      | OpRegister e r ip \<Rightarrow> map_prod RNode id (st_register S e r ip s)
      | OpHeartbeat e r ip \<Rightarrow> map_prod RDone id (st_heartbeat S e r ip s)
      | OpDelete e i \<Rightarrow> map_prod RDone id (st_delete S e i s))"

fun cluster_run :: "'s storage \<Rightarrow> cluster_op list \<Rightarrow> 's \<Rightarrow> cluster_result list \<times> 's" where
  "cluster_run S [] s = ([], s)"
| "cluster_run S (op # ops) s =
     (let (r, s1) = cluster_do S op s; (rs, s2) = cluster_run S ops s1 in (r # rs, s2))"

fun op_env_of :: "cluster_op \<Rightarrow> op_env" where
  "op_env_of (OpGenerate e d) = e"
| "op_env_of (OpRegister e r ip) = e"
| "op_env_of (OpHeartbeat e r ip) = e"
| "op_env_of (OpDelete e i) = e"

fun enrolled :: "cluster_result \<Rightarrow> bool" where
  "enrolled (RNode (Inr n)) = True"
| "enrolled _ = False"

text \<open>The operations that issue token \<open>t\<close> and those that present it, and the enrolments with it in a run.\<close>

fun issues :: "string \<Rightarrow> cluster_op \<Rightarrow> bool" where
  "issues t (OpGenerate e d) = (token_name e = t)"
| "issues t _ = False"

fun spends :: "string \<Rightarrow> cluster_op \<Rightarrow> bool" where
  "spends t (OpRegister e r ip) = (trim_space (rg_token r) = t)"
| "spends t _ = False"

definition enrolments :: "string \<Rightarrow> cluster_op list \<Rightarrow> cluster_result list \<Rightarrow> nat" where
  "enrolments t ops rs = length (filter (\<lambda>(op, r). spends t op \<and> enrolled r) (zip ops rs))"

text \<open>Operations that can change who speaks for node \<open>i\<close>: its deletion and a new node of that name.\<close>

fun touches :: "string \<Rightarrow> cluster_op \<Rightarrow> bool" where
  "touches i (OpDelete e j) = (i = j)"
| "touches i (OpRegister e r ip) = (i = ''node-'' @ oe_hex2 e)"
| "touches i _ = False"

text \<open>
  The contract. \<open>tok\<close> and \<open>nds\<close> read the tokens (with their expiry) and the nodes off a state;
  \<open>grain\<close> bounds how far a stored instant may be from the one given; \<open>gone\<close> are the environments in
  which a token that was looked at is really removed.
\<close>

locale cluster_storage =
  fixes S :: "'s storage"
    and tok :: "'s \<Rightarrow> (string, time) fmap"
    and nds :: "'s \<Rightarrow> (string, node) fmap"
    and grain :: int
    and gone :: "op_env \<Rightarrow> bool"
  assumes generate: "st_generate S e d s = (t, s') \<Longrightarrow>
      t = token_name e \<and> nds s' = nds s
      \<and> (tok s' = tok s \<or> (\<exists>x. tok s' = fmupd t x (tok s) \<and> \<bar>x - (oe_now e + default_ttl d)\<bar> \<le> grain))"
    and consume: "st_consume S e t s = (b, s') \<Longrightarrow>
      nds s' = nds s
      \<and> (tok s' = tok s \<or> tok s' = fmdrop (trim_space t) (tok s))
      \<and> (gone e \<longrightarrow> tok s' = fmdrop (trim_space t) (tok s) \<or> trim_space t = [])
      \<and> (b \<longrightarrow> trim_space t = [] \<or> (\<exists>x. fmlookup (tok s) (trim_space t) = Some x \<and> oe_now e \<le> x))
      \<and> (\<forall>x. env_ok e \<and> trim_space t \<noteq> [] \<and> fmlookup (tok s) (trim_space t) = Some x \<and> oe_now e < x \<longrightarrow> b)"
    and consume_empty: "st_consume S e t s = (b, s') \<Longrightarrow> trim_space t = [] \<Longrightarrow> fmlookup (tok s) [] = None
      \<Longrightarrow> \<not> b \<and> tok s' = tok s"
    and register: "st_register S e r ip s = (res, s') \<Longrightarrow> st_consume S e (rg_token r) s = (b, s1) \<Longrightarrow>
      tok s' = tok s1
      \<and> (\<forall>n. res = Inr n \<longrightarrow> b \<and> n = new_node e r ip
             \<and> (\<exists>n'. nds s' = fmupd (n_id n) n' (nds s) \<and> n_id n' = n_id n \<and> n_key n' = n_key n \<and> n_name n' = n_name n))
      \<and> (isl res \<longrightarrow> nds s' = nds s)
      \<and> (b \<and> env_ok e \<and> fmlookup (nds s) (''node-'' @ oe_hex2 e) = None \<longrightarrow> \<not> isl res)"
    and heartbeat: "st_heartbeat S e h ip s = (out, s') \<Longrightarrow>
      tok s' = tok s
      \<and> (isl out \<longrightarrow> nds s' = nds s)
      \<and> (\<not> isl out \<longrightarrow> (\<exists>n n'. fmlookup (nds s) (hb_node h) = Some n \<and> n_key n = hb_key h
            \<and> nds s' = fmupd (hb_node h) n' (nds s) \<and> n_key n' = n_key n \<and> n_id n' = n_id n
            \<and> n_first n' = n_first n \<and> \<bar>n_last n' - oe_now e\<bar> \<le> grain))
      \<and> (env_ok e \<and> (\<exists>n. fmlookup (nds s) (hb_node h) = Some n \<and> n_key n = hb_key h) \<longrightarrow> \<not> isl out)"
    and delete: "st_delete S e i s = (out, s') \<Longrightarrow>
      tok s' = tok s \<and> (nds s' = nds s \<or> nds s' = fmdrop i (nds s)) \<and> (\<not> isl out \<longrightarrow> i |\<in>| fmdom (nds s) \<and> nds s' = fmdrop i (nds s))"
begin

lemma consumed_once:
  assumes "st_consume S e t s = (True, s1)" and "gone e" and "fmlookup (tok s) [] = None"
    and "st_consume S e' t s1 = (b, s2)"
  shows "\<not> b"
proof (cases "trim_space t = []")
  case True
  then show ?thesis using consume_empty [OF assms(1)] assms(3) by simp
next
  case False
  then have "tok s1 = fmdrop (trim_space t) (tok s)" using consume [OF assms(1)] assms(2) by blast
  then show ?thesis using consume [OF assms(4)] False by auto
qed

text \<open>One operation, seen by one token \<open>t\<close>: the enrolments with it and whether it is still stored.\<close>

lemma do_token:
  assumes "cluster_do S op s = (r, s')" and "gone (op_env_of op)" and "fmlookup (tok s) [] = None"
  shows "fmlookup (tok s') [] = None \<and>
    (if spends t op \<and> enrolled r then 1 else 0) + (if t |\<in>| fmdom (tok s') then 1 else 0)
      \<le> (if issues t op then 1 else 0) + (if t |\<in>| fmdom (tok s) then 1 else 0 :: nat)"
proof (cases op)
  case (OpGenerate e d)
  then obtain u where "st_generate S e d s = (u, s')" "r = RToken u"
    using assms(1) by (cases "st_generate S e d s") (auto simp: cluster_do_def)
  with generate [of e d s u s'] assms(3) OpGenerate show ?thesis by (auto simp: token_name_def)
next
  case (OpRegister e rq ip)
  then obtain res where r: "st_register S e rq ip s = (res, s')" "r = RNode res"
    using assms(1) by (cases "st_register S e rq ip s") (auto simp: cluster_do_def)
  obtain b s1 where c: "st_consume S e (rg_token rq) s = (b, s1)" by fastforce
  note reg = register [OF r(1) c]
  let ?t = "trim_space (rg_token rq)"
  have sp: "spends t op \<longleftrightarrow> ?t = t" "\<not> issues t op" and g: "gone e" using OpRegister assms(2) by simp_all
  have en: "enrolled r \<Longrightarrow> b" using reg r(2) by (cases res) auto
  show ?thesis
  proof (cases "?t = []")
    case True
    then have "\<not> b" "tok s1 = tok s" using consume_empty [OF c True assms(3)] by auto
    then show ?thesis using reg en assms(3) by auto
  next
    case False
    then have "tok s' = fmdrop ?t (tok s)" using consume [OF c] g reg by auto
    moreover have "b \<Longrightarrow> ?t |\<in>| fmdom (tok s)" using consume [OF c] False by (auto simp: fmlookup_dom_iff)
    ultimately show ?thesis using en sp assms(3) by auto
  qed
next
  case (OpHeartbeat e rq ip)
  then obtain res where "st_heartbeat S e rq ip s = (res, s')" "r = RDone res"
    using assms(1) by (cases "st_heartbeat S e rq ip s") (auto simp: cluster_do_def)
  with heartbeat [of e rq ip s res s'] assms(3) show ?thesis by auto
next
  case (OpDelete e i)
  then obtain res where "st_delete S e i s = (res, s')" "r = RDone res"
    using assms(1) by (cases "st_delete S e i s") (auto simp: cluster_do_def)
  with delete [of e i s res s'] assms(3) show ?thesis by auto
qed

text \<open>
  A token enrols at most as many nodes as it was issued, and one more if it was stored before. Token
  names are random, so this is one node for each.
\<close>

lemma token_bound:
  assumes "cluster_run S ops s = (rs, s')" and "\<forall>op \<in> set ops. gone (op_env_of op)" and "fmlookup (tok s) [] = None"
  shows "enrolments t ops rs + (if t |\<in>| fmdom (tok s') then 1 else 0)
      \<le> length (filter (issues t) ops) + (if t |\<in>| fmdom (tok s) then 1 else 0)"
  using assms
proof (induction ops arbitrary: s rs)
  case Nil
  then show ?case by (simp add: enrolments_def)
next
  case (Cons op ops)
  obtain r s1 where d: "cluster_do S op s = (r, s1)" by fastforce
  obtain rs1 where q: "cluster_run S ops s1 = (rs1, s')" "rs = r # rs1"
    using Cons.prems(1) d by (cases "cluster_run S ops s1") (auto simp: Let_def)
  have "gone (op_env_of op)" using Cons.prems(2) by simp
  note one = do_token [OF d this Cons.prems(3), of t]
  have "enrolments t ops rs1 + (if t |\<in>| fmdom (tok s') then 1 else 0)
      \<le> length (filter (issues t) ops) + (if t |\<in>| fmdom (tok s1) then 1 else 0)"
    using Cons.IH [OF q(1)] one Cons.prems(2) by simp
  then show ?case using one q(2) by (auto simp: enrolments_def split: if_splits)
qed

text \<open>A stored token that has not expired does enrol, when the writes succeed and the name is new.\<close>

lemma token_enrols:
  assumes "env_ok e" and "trim_space (rg_token r) \<noteq> []" and "fmlookup (tok s) (trim_space (rg_token r)) = Some x"
    and "oe_now e < x" and "fmlookup (nds s) (''node-'' @ oe_hex2 e) = None"
  shows "\<not> isl (fst (st_register S e r ip s))"
proof -
  obtain b s1 where c: "st_consume S e (rg_token r) s = (b, s1)" by fastforce
  obtain res s2 where r: "st_register S e r ip s = (res, s2)" by fastforce
  have b using consume [OF c] assms(1-4) by blast
  then show ?thesis using register [OF r c] r assms(1,5) by simp
qed

lemma do_key:
  assumes "cluster_do S op s = (r, s')" and "\<not> touches i op" and "fmlookup (nds s) i = Some n"
  shows "\<exists>n'. fmlookup (nds s') i = Some n' \<and> n_key n' = n_key n"
proof (cases op)
  case (OpGenerate e d)
  then obtain t where "st_generate S e d s = (t, s')"
    using assms(1) by (cases "st_generate S e d s") (auto simp: cluster_do_def)
  with generate [of e d s t s'] assms(3) show ?thesis by auto
next
  case (OpRegister e rq ip)
  then obtain res where r: "st_register S e rq ip s = (res, s')"
    using assms(1) by (cases "st_register S e rq ip s") (auto simp: cluster_do_def)
  obtain b s1 where c: "st_consume S e (rg_token rq) s = (b, s1)" by fastforce
  show ?thesis using register [OF r c] assms(2,3) OpRegister
    by (cases res) (auto simp: new_node_def Let_def)
next
  case (OpHeartbeat e rq ip)
  then obtain res where "st_heartbeat S e rq ip s = (res, s')"
    using assms(1) by (cases "st_heartbeat S e rq ip s") (auto simp: cluster_do_def)
  with heartbeat [of e rq ip s res s'] assms(3) show ?thesis by (cases "isl res") auto
next
  case (OpDelete e j)
  then obtain res where "st_delete S e j s = (res, s')"
    using assms(1) by (cases "st_delete S e j s") (auto simp: cluster_do_def)
  with delete [of e j s res s'] assms(2,3) OpDelete show ?thesis by auto
qed

text \<open>The key of a node never changes, so only its holder can speak for it.\<close>

lemma key_stable:
  assumes "cluster_run S ops s = (rs, s')" and "\<forall>op \<in> set ops. \<not> touches i op" and "fmlookup (nds s) i = Some n"
  shows "\<exists>n'. fmlookup (nds s') i = Some n' \<and> n_key n' = n_key n"
  using assms
proof (induction ops arbitrary: s rs n)
  case Nil
  then show ?case by simp
next
  case (Cons op ops)
  obtain r s1 where d: "cluster_do S op s = (r, s1)" by fastforce
  obtain rs1 where q: "cluster_run S ops s1 = (rs1, s')"
    using Cons.prems(1) d by (cases "cluster_run S ops s1") (auto simp: Let_def)
  have "\<not> touches i op" using Cons.prems(2) by simp
  from do_key [OF d this Cons.prems(3)] obtain n1 where n1: "fmlookup (nds s1) i = Some n1" "n_key n1 = n_key n"
    by blast
  from Cons.IH [OF q _ n1(1)] Cons.prems(2) n1(2) show ?case by auto
qed

lemma heartbeat_auth:
  assumes "st_heartbeat S e r ip s = (res, s')" and "env_ok e"
  shows "\<not> isl res \<longleftrightarrow> (\<exists>n. fmlookup (nds s) (hb_node r) = Some n \<and> n_key n = hb_key r)"
  using heartbeat [OF assms(1)] assms(2) by auto

end

end
