(* ===== verification/Cluster_Store.thy ===== *)
theory Cluster_Store
  imports Cluster_Base Go_Net
begin

text \<open>
  The JSON file backend \<open>ClusterStore\<close> of \<open>panel/cluster.go\<close>: the maps in memory, the file they are
  saved to, loading, and every operation. Then \<open>clientIP\<close> with the trusted proxies, and the
  handlers of the master API over any backend.
\<close>

subsection \<open>The store\<close>

record cluster_store =
  cs_path :: string
  cs_tokens :: "(string, time) fmap"
  cs_nodes :: "(string, node) fmap"
  cs_disk :: "((string, time) fmap \<times> (string, node) fmap) option"  \<comment> \<open>the file, when it parses\<close>

definition cs_save :: "bool \<Rightarrow> cluster_store \<Rightarrow> bool \<times> cluster_store" where
  "cs_save io cs =
     (if cs_path cs = [] then (True, cs)
      else if io then (True, cs\<lparr>cs_disk := Some (cs_tokens cs, cs_nodes cs)\<rparr>) else (False, cs))"

definition cs_load :: "time \<Rightarrow> cluster_store \<Rightarrow> cluster_store" where
  "cs_load now cs =
     (case cs_disk cs of
        None \<Rightarrow> cs
      | Some (ts, ns) \<Rightarrow>
          cs\<lparr>cs_tokens := cs_tokens cs ++\<^sub>f fmfilter (\<lambda>t. now < the (fmlookup ts t)) ts,
             cs_nodes := cs_nodes cs ++\<^sub>f fmmap (refresh_status now) ns\<rparr>)"

definition new_cluster_store ::
  "string \<Rightarrow> ((string, time) fmap \<times> (string, node) fmap) option \<Rightarrow> time \<Rightarrow> cluster_store" where
  "new_cluster_store path disk now =
     cs_load now \<lparr>cs_path = path, cs_tokens = fmempty, cs_nodes = fmempty, cs_disk = disk\<rparr>"

subsection \<open>Operations\<close>

definition cs_generate :: "op_env \<Rightarrow> duration \<Rightarrow> cluster_store \<Rightarrow> string \<times> cluster_store" where
  "cs_generate e d cs =
     (token_name e,
      snd (cs_save (oe_io e 0)
        (cs\<lparr>cs_tokens := fmupd (token_name e) (oe_now e + default_ttl d) (cs_tokens cs)\<rparr>)))"

definition cs_consume :: "op_env \<Rightarrow> string \<Rightarrow> cluster_store \<Rightarrow> bool \<times> cluster_store" where
  "cs_consume e t cs =
     (let k = trim_space t; dropped = cs\<lparr>cs_tokens := fmdrop k (cs_tokens cs)\<rparr>
      in case fmlookup (cs_tokens cs) k of
           None \<Rightarrow> (False, dropped)
         | Some x \<Rightarrow> if x < oe_now e then (False, dropped) else (True, snd (cs_save (oe_io e 0) dropped)))"

definition cs_register ::
  "op_env \<Rightarrow> register_request \<Rightarrow> string \<Rightarrow> cluster_store \<Rightarrow> (cluster_error + node) \<times> cluster_store" where
  "cs_register e r remote cs =
     (case cs_consume e (rg_token r) cs of
        (False, cs1) \<Rightarrow> (Inl InvalidToken, cs1)
      | (True, cs1) \<Rightarrow>
          (let n = new_node e r remote
           in (Inr n, snd (cs_save (oe_io e 1) (cs1\<lparr>cs_nodes := fmupd (n_id n) n (cs_nodes cs1)\<rparr>)))))"

text \<open>The new value of a record after a heartbeat.\<close>

definition beat_node :: "time \<Rightarrow> heartbeat_request \<Rightarrow> string \<Rightarrow> node \<Rightarrow> node" where
  "beat_node now r remote n =
     refresh_status now
       (n\<lparr>n_last := now,
          n_name := (if hb_name r \<noteq> [] then hb_name r else n_name n),
          n_ip := (if hb_ip r \<noteq> [] then hb_ip r else if remote \<noteq> [] then remote else n_ip n),
          n_version := (if hb_version r \<noteq> [] then hb_version r else n_version n),
          n_qps := hb_qps r, n_queries := hb_queries r, n_blocked := hb_blocked r, n_cache := hb_cache r,
          n_cpu := hb_cpu r, n_mem_used := hb_mem_used r, n_mem_total := hb_mem_total r,
          n_uptime := hb_uptime r, n_running := hb_running r, n_db_hash := hb_db_hash r,
          n_db_updated := hb_db_updated r, n_applied := hb_applied r\<rparr>)"

definition cs_heartbeat ::
  "op_env \<Rightarrow> heartbeat_request \<Rightarrow> string \<Rightarrow> cluster_store \<Rightarrow> (cluster_error + unit) \<times> cluster_store" where
  "cs_heartbeat e r remote cs =
     (case fmlookup (cs_nodes cs) (hb_node r) of
        None \<Rightarrow> (Inl NotRegistered, cs)
      | Some n \<Rightarrow>
          if n_key n \<noteq> hb_key r then (Inl KeyMismatch, cs)
          else (Inr (), snd (cs_save (oe_io e 0)
                  (cs\<lparr>cs_nodes := fmupd (hb_node r) (beat_node (oe_now e) r remote n) (cs_nodes cs)\<rparr>))))"

definition cs_delete :: "op_env \<Rightarrow> string \<Rightarrow> cluster_store \<Rightarrow> (cluster_error + unit) \<times> cluster_store" where
  "cs_delete e i cs =
     (if i |\<notin>| fmdom (cs_nodes cs) then (Inl NodeNotFound, cs)
      else (case cs_save (oe_io e 0) (cs\<lparr>cs_nodes := fmdrop i (cs_nodes cs)\<rparr>) of
              (True, cs1) \<Rightarrow> (Inr (), cs1) | (False, cs1) \<Rightarrow> (Inl SaveError, cs1)))"

text \<open>The background ticker.\<close>

definition cs_tick :: "time \<Rightarrow> cluster_store \<Rightarrow> cluster_store" where
  "cs_tick now cs = cs\<lparr>cs_nodes := fmmap (refresh_status now) (cs_nodes cs)\<rparr>"

subsection \<open>Listing\<close>

definition profile_sync_state :: "string \<Rightarrow> string \<Rightarrow> string" where
  "profile_sync_state assigned applied =
     (if assigned = [] then [] else if assigned = applied then ''synced'' else ''pending'')"

text \<open>The profile columns of one listed node; \<open>prof\<close> is \<open>ProfileForNode\<close>.\<close>

definition sync_columns ::
  "(string \<Rightarrow> (string \<times> string) option) \<Rightarrow> node \<Rightarrow> node" where
  "sync_columns prof n =
     (case prof (n_id n) of
        None \<Rightarrow> n
      | Some (pid, h) \<Rightarrow> n\<lparr>n_profile := pid, n_sync := profile_sync_state h (n_applied n)\<rparr>)"

definition count_sync :: "node list \<Rightarrow> aggregate \<Rightarrow> aggregate" where
  "count_sync ns a =
     a\<lparr>ag_synced := ag_synced a + length (filter (\<lambda>n. n_sync n = ''synced'') ns),
       ag_pending := ag_pending a + length (filter (\<lambda>n. n_sync n = ''pending'') ns)\<rparr>"

text \<open>
  \<open>ids\<close> is the order in which the map is iterated; \<open>prof\<close> is absent when no profile store exists.
  The clones carry no key.
\<close>

definition cs_list ::
  "time \<Rightarrow> string list \<Rightarrow> (string \<Rightarrow> (string \<times> string) option) option \<Rightarrow> cluster_store
   \<Rightarrow> (node list \<times> aggregate) \<times> cluster_store" where
  "cs_list now ids prof cs =
     (let cs1 = cs_tick now cs;
          clones = map (\<lambda>n. n\<lparr>n_key := []\<rparr>) (List.map_filter (fmlookup (cs_nodes cs1)) ids);
          a = aggregate_nodes clones
      in ((case prof of
             None \<Rightarrow> (clones, a)
           | Some p \<Rightarrow> (let out = map (sync_columns p) clones
                        in (out, count_sync (filter (\<lambda>n. p (n_id n) \<noteq> None) out) a))), cs1))"

subsection \<open>The contract\<close>

definition json_storage :: "cluster_store storage" where
  "json_storage = \<lparr>st_generate = cs_generate, st_consume = cs_consume, st_register = cs_register,
     st_heartbeat = cs_heartbeat, st_delete = cs_delete\<rparr>"

lemma cs_save_sel [simp]:
  "cs_tokens (snd (cs_save io cs)) = cs_tokens cs" "cs_nodes (snd (cs_save io cs)) = cs_nodes cs"
  by (simp_all add: cs_save_def)

lemma beat_node_sel [simp]:
  "n_key (beat_node now r ip n) = n_key n" "n_id (beat_node now r ip n) = n_id n"
  "n_first (beat_node now r ip n) = n_first n" "n_last (beat_node now r ip n) = now"
  by (simp_all add: beat_node_def refresh_status_def)

lemma cs_consume_result:
  assumes "cs_consume e t cs = (b, cs')"
  shows "cs_nodes cs' = cs_nodes cs" "cs_tokens cs' = fmdrop (trim_space t) (cs_tokens cs)"
    "b \<longleftrightarrow> (\<exists>x. fmlookup (cs_tokens cs) (trim_space t) = Some x \<and> oe_now e \<le> x)"
  using assms by (auto simp: cs_consume_def Let_def not_less split: option.splits if_splits)

lemma cs_register_result:
  assumes "cs_register e r ip cs = (res, cs')" and "cs_consume e (rg_token r) cs = (b, cs1)"
  shows "cs_tokens cs' = cs_tokens cs1"
    "res = (if b then Inr (new_node e r ip) else Inl InvalidToken)"
    "cs_nodes cs' = (if b then fmupd (n_id (new_node e r ip)) (new_node e r ip) (cs_nodes cs) else cs_nodes cs)"
  using assms cs_consume_result [OF assms(2)]
  by (auto simp: cs_register_def Let_def split: if_splits bool.splits)

interpretation json: cluster_storage json_storage cs_tokens cs_nodes 0 "\<lambda>_. True"
proof unfold_locales
  fix e d and s s' :: cluster_store and t
  assume "st_generate json_storage e d s = (t, s')"
  then show "t = token_name e \<and> cs_nodes s' = cs_nodes s
      \<and> (cs_tokens s' = cs_tokens s
         \<or> (\<exists>x. cs_tokens s' = fmupd t x (cs_tokens s) \<and> \<bar>x - (oe_now e + default_ttl d)\<bar> \<le> 0))"
    by (auto simp: json_storage_def cs_generate_def)
next
  fix e t and s s' :: cluster_store and b
  assume "st_consume json_storage e t s = (b, s')"
  then have "cs_consume e t s = (b, s')" by (simp add: json_storage_def)
  note r = cs_consume_result [OF this]
  show "cs_nodes s' = cs_nodes s
      \<and> (cs_tokens s' = cs_tokens s \<or> cs_tokens s' = fmdrop (trim_space t) (cs_tokens s))
      \<and> (True \<longrightarrow> cs_tokens s' = fmdrop (trim_space t) (cs_tokens s) \<or> trim_space t = [])
      \<and> (b \<longrightarrow> trim_space t = [] \<or> (\<exists>x. fmlookup (cs_tokens s) (trim_space t) = Some x \<and> oe_now e \<le> x))
      \<and> (\<forall>x. env_ok e \<and> trim_space t \<noteq> [] \<and> fmlookup (cs_tokens s) (trim_space t) = Some x \<and> oe_now e < x \<longrightarrow> b)"
    using r by auto
  show "\<not> b \<and> cs_tokens s' = cs_tokens s" if "trim_space t = []" "fmlookup (cs_tokens s) [] = None"
    using r that by (auto intro!: fmap_ext)
next
  fix e r ip and s s' s1 :: cluster_store and res b
  assume "st_register json_storage e r ip s = (res, s')" and c: "st_consume json_storage e (rg_token r) s = (b, s1)"
  then have "cs_register e r ip s = (res, s')" "cs_consume e (rg_token r) s = (b, s1)"
    by (simp_all add: json_storage_def)
  note q = cs_register_result [OF this]
  show "cs_tokens s' = cs_tokens s1
      \<and> (\<forall>n. res = Inr n \<longrightarrow> b \<and> n = new_node e r ip
           \<and> (\<exists>n'. cs_nodes s' = fmupd (n_id n) n' (cs_nodes s) \<and> n_id n' = n_id n \<and> n_key n' = n_key n \<and> n_name n' = n_name n))
      \<and> (isl res \<longrightarrow> cs_nodes s' = cs_nodes s)
      \<and> (b \<and> env_ok e \<and> fmlookup (cs_nodes s) (''node-'' @ oe_hex2 e) = None \<longrightarrow> \<not> isl res)"
    using q by auto
next
  fix e h ip and s s' :: cluster_store and out
  assume "st_heartbeat json_storage e h ip s = (out, s')"
  then show "cs_tokens s' = cs_tokens s
      \<and> (isl out \<longrightarrow> cs_nodes s' = cs_nodes s)
      \<and> (\<not> isl out \<longrightarrow> (\<exists>n n'. fmlookup (cs_nodes s) (hb_node h) = Some n \<and> n_key n = hb_key h
            \<and> cs_nodes s' = fmupd (hb_node h) n' (cs_nodes s) \<and> n_key n' = n_key n \<and> n_id n' = n_id n
            \<and> n_first n' = n_first n \<and> \<bar>n_last n' - oe_now e\<bar> \<le> 0))
      \<and> (env_ok e \<and> (\<exists>n. fmlookup (cs_nodes s) (hb_node h) = Some n \<and> n_key n = hb_key h) \<longrightarrow> \<not> isl out)"
    by (auto simp: json_storage_def cs_heartbeat_def split: option.splits if_splits)
next
  fix e i and s s' :: cluster_store and out
  assume "st_delete json_storage e i s = (out, s')"
  then show "cs_tokens s' = cs_tokens s \<and> (cs_nodes s' = cs_nodes s \<or> cs_nodes s' = fmdrop i (cs_nodes s))
      \<and> (\<not> isl out \<longrightarrow> i |\<in>| fmdom (cs_nodes s) \<and> cs_nodes s' = fmdrop i (cs_nodes s))"
    by (auto simp: json_storage_def cs_delete_def cs_save_def split: if_splits)
qed

end
