(* ===== verification/Cluster_Sql.thy ===== *)
theory Cluster_Sql
  imports Cluster_Store
begin

text \<open>
  The SQL backends: \<open>SQLiteClusterStore\<close> of \<open>panel/storage.go\<close> and \<open>PostgresClusterStore\<close> of
  \<open>panel/pgstore.go\<close>. A database is its two tables, keyed by primary key; a statement can fail,
  as the environment decides, and an INSERT fails on a duplicate key. \<open>stamp\<close> is what the engine
  keeps of an instant (its timestamp columns need not hold nanoseconds).
\<close>

record sql_db =
  tb_tokens :: "(string, time) fmap"
  tb_nodes :: "(string, node) fmap"

subsection \<open>SQLite\<close>

definition sqlite_generate :: "(time \<Rightarrow> time) \<Rightarrow> op_env \<Rightarrow> duration \<Rightarrow> sql_db \<Rightarrow> string \<times> sql_db" where
  "sqlite_generate stamp e d db =
     (let t = token_name e
      in (t, if oe_io e 0 \<and> t |\<notin>| fmdom (tb_tokens db)
             then db\<lparr>tb_tokens := fmupd t (stamp (oe_now e + default_ttl d)) (tb_tokens db)\<rparr> else db))"

text \<open>The result of the DELETE is not looked at.\<close>

definition sqlite_consume :: "op_env \<Rightarrow> string \<Rightarrow> sql_db \<Rightarrow> bool \<times> sql_db" where
  "sqlite_consume e tok db =
     (let t = trim_space tok
      in if t = [] then (False, db)
         else (case fmlookup (tb_tokens db) t of
                 None \<Rightarrow> (False, db)
               | Some x \<Rightarrow>
                   if \<not> oe_io e 0 then (False, db)
                   else (oe_now e < x,
                         if oe_io e 1 then db\<lparr>tb_tokens := fmdrop t (tb_tokens db)\<rparr> else db)))"

definition stamped :: "(time \<Rightarrow> time) \<Rightarrow> node \<Rightarrow> node" where
  "stamped stamp n = n\<lparr>n_first := stamp (n_first n), n_last := stamp (n_last n)\<rparr>"

definition sqlite_register ::
  "(time \<Rightarrow> time) \<Rightarrow> op_env \<Rightarrow> register_request \<Rightarrow> string \<Rightarrow> sql_db \<Rightarrow> (cluster_error + node) \<times> sql_db" where
  "sqlite_register stamp e r remote db =
     (case sqlite_consume e (rg_token r) db of
        (False, db1) \<Rightarrow> (Inl InvalidToken, db1)
      | (True, db1) \<Rightarrow>
          (let n = new_node e r remote
           in if oe_io e 2 \<and> n_id n |\<notin>| fmdom (tb_nodes db1)
              then (Inr n, db1\<lparr>tb_nodes := fmupd (n_id n) (stamped stamp n) (tb_nodes db1)\<rparr>)
              else (Inl DbError, db1)))"

text \<open>The row after the UPDATE of a heartbeat; the columns it does not name keep their value.\<close>

definition sql_beat :: "(time \<Rightarrow> time) \<Rightarrow> time \<Rightarrow> heartbeat_request \<Rightarrow> string \<Rightarrow> node \<Rightarrow> node" where
  "sql_beat stamp now r remote n =
     n\<lparr>n_name := (if hb_name r \<noteq> [] then hb_name r else n_name n),
       n_ip := (if hb_ip r \<noteq> [] then hb_ip r else if remote \<noteq> [] then remote else n_ip n),
       n_version := (if hb_version r \<noteq> [] then hb_version r else n_version n),
       n_status := (if hb_running r then Online else Degraded),
       n_last := stamp now,
       n_qps := hb_qps r, n_queries := hb_queries r, n_blocked := hb_blocked r, n_cache := hb_cache r,
       n_cpu := hb_cpu r, n_mem_used := hb_mem_used r, n_mem_total := hb_mem_total r,
       n_uptime := hb_uptime r, n_running := hb_running r, n_db_hash := hb_db_hash r,
       n_db_updated := hb_db_updated r\<rparr>"

definition sqlite_heartbeat ::
  "(time \<Rightarrow> time) \<Rightarrow> op_env \<Rightarrow> heartbeat_request \<Rightarrow> string \<Rightarrow> sql_db \<Rightarrow> (cluster_error + unit) \<times> sql_db" where
  "sqlite_heartbeat stamp e r remote db =
     (if \<not> oe_io e 0 then (Inl DbError, db)
      else (case fmlookup (tb_nodes db) (hb_node r) of
              None \<Rightarrow> (Inl NotRegistered, db)
            | Some n \<Rightarrow>
                if n_key n \<noteq> hb_key r then (Inl KeyMismatch, db)
                else if \<not> oe_io e 1 then (Inl DbError, db)
                else (Inr (), db\<lparr>tb_nodes := fmupd (hb_node r) (sql_beat stamp (oe_now e) r remote n) (tb_nodes db)\<rparr>)))"

definition sqlite_delete :: "op_env \<Rightarrow> string \<Rightarrow> sql_db \<Rightarrow> (cluster_error + unit) \<times> sql_db" where
  "sqlite_delete e i db =
     (if \<not> oe_io e 0 then (Inl DbError, db)
      else if i |\<notin>| fmdom (tb_nodes db) then (Inl NodeNotFound, db)
      else (Inr (), db\<lparr>tb_nodes := fmdrop i (tb_nodes db)\<rparr>))"

text \<open>\<open>ids\<close> are the rows the query returns and the driver can scan, in its order.\<close>

definition sqlite_list :: "bool \<Rightarrow> time \<Rightarrow> string list \<Rightarrow> sql_db \<Rightarrow> node list \<times> aggregate" where
  "sqlite_list io now ids db =
     (if \<not> io then ([], no_aggregate)
      else (let rows = map (\<lambda>n. (refresh_status now n)\<lparr>n_key := []\<rparr>) (List.map_filter (fmlookup (tb_nodes db)) ids)
            in (rows, aggregate_nodes rows)))"

subsection \<open>PostgreSQL\<close>

definition pg_generate :: "(time \<Rightarrow> time) \<Rightarrow> op_env \<Rightarrow> duration \<Rightarrow> sql_db \<Rightarrow> string \<times> sql_db" where
  "pg_generate stamp e d db =
     (let dur = (if d \<le> 0 then hours 24 else d); t = token_name e; x = stamp (oe_now e + dur)
      in (t, if \<not> oe_io e 0 \<or> t |\<in>| fmdom (tb_tokens db) then db
             else db\<lparr>tb_tokens := fmupd t x (tb_tokens db)\<rparr>))"

definition pg_consume :: "op_env \<Rightarrow> string \<Rightarrow> sql_db \<Rightarrow> bool \<times> sql_db" where
  "pg_consume e tok db =
     (let t = trim_space tok
      in if t = [] then (False, db)
         else if \<not> oe_io e 0 then (False, db)
         else (case fmlookup (tb_tokens db) t of
                 None \<Rightarrow> (False, db)
               | Some x \<Rightarrow>
                   (let db1 = (if oe_io e 1 then db\<lparr>tb_tokens := fmdrop t (tb_tokens db)\<rparr> else db)
                    in (oe_now e < x, db1))))"

definition pg_register ::
  "(time \<Rightarrow> time) \<Rightarrow> op_env \<Rightarrow> register_request \<Rightarrow> string \<Rightarrow> sql_db \<Rightarrow> (cluster_error + node) \<times> sql_db" where
  "pg_register stamp e r remote db =
     (let (valid, db1) = pg_consume e (rg_token r) db; n = new_node e r remote
      in if \<not> valid then (Inl InvalidToken, db1)
         else if \<not> oe_io e 2 \<or> n_id n |\<in>| fmdom (tb_nodes db1) then (Inl DbError, db1)
         else (Inr n, db1\<lparr>tb_nodes := fmupd (n_id n) (stamped stamp n) (tb_nodes db1)\<rparr>))"

text \<open>The values \<open>ProcessHeartbeat\<close> computes and the row after its UPDATE.\<close>

definition pg_beat :: "(time \<Rightarrow> time) \<Rightarrow> time \<Rightarrow> heartbeat_request \<Rightarrow> string \<Rightarrow> node \<Rightarrow> node" where
  "pg_beat stamp now r remote n =
     (let name = (if hb_name r = [] then n_name n else hb_name r);
          ip = (if hb_ip r \<noteq> [] then hb_ip r else if remote = [] then n_ip n else remote);
          version = (if hb_version r = [] then n_version n else hb_version r);
          running_int = (if hb_running r then 1 else 0 :: int);
          status = (if \<not> hb_running r then Degraded else Online)
      in n\<lparr>n_name := name, n_ip := ip, n_version := version, n_status := status, n_last := stamp now,
           n_qps := hb_qps r, n_queries := hb_queries r, n_blocked := hb_blocked r, n_cache := hb_cache r,
           n_cpu := hb_cpu r, n_mem_used := hb_mem_used r, n_mem_total := hb_mem_total r, n_uptime := hb_uptime r,
           n_running := (running_int = 1), n_db_hash := hb_db_hash r, n_db_updated := hb_db_updated r\<rparr>)"

definition pg_heartbeat ::
  "(time \<Rightarrow> time) \<Rightarrow> op_env \<Rightarrow> heartbeat_request \<Rightarrow> string \<Rightarrow> sql_db \<Rightarrow> (cluster_error + unit) \<times> sql_db" where
  "pg_heartbeat stamp e r remote db =
     (if \<not> oe_io e 0 then (Inl DbError, db)
      else (case fmlookup (tb_nodes db) (hb_node r) of
              None \<Rightarrow> (Inl NotRegistered, db)
            | Some n \<Rightarrow>
                if n_key n = hb_key r \<and> oe_io e 1
                then (Inr (), db\<lparr>tb_nodes := fmupd (hb_node r) (pg_beat stamp (oe_now e) r remote n) (tb_nodes db)\<rparr>)
                else (Inl (if n_key n \<noteq> hb_key r then KeyMismatch else DbError), db)))"

definition pg_delete :: "op_env \<Rightarrow> string \<Rightarrow> sql_db \<Rightarrow> (cluster_error + unit) \<times> sql_db" where
  "pg_delete e i db =
     (if \<not> oe_io e 0 then (Inl DbError, db)
      else (let rows = (if i |\<in>| fmdom (tb_nodes db) then 1 else 0 :: nat); db1 = db\<lparr>tb_nodes := fmdrop i (tb_nodes db)\<rparr>
            in (if rows = 0 then Inl NodeNotFound else Inr (), db1)))"

text \<open>One scanned row: its own freshness check, and no key.\<close>

definition pg_row :: "time \<Rightarrow> node \<Rightarrow> node" where
  "pg_row now n =
     (let st = (if n_last n = 0 then Offline else if minutes 3 < time_sub now (n_last n) then Offline
                else if n_running n then Online else Degraded)
      in n\<lparr>n_status := st, n_key := []\<rparr>)"

text \<open>
  The switch of the Postgres listing loop treats online and degraded nodes in one case. The
  memory columns are read as signed 64 bit integers and converted back.
\<close>

definition pg_count :: "node \<Rightarrow> aggregate \<times> rat \<times> nat \<Rightarrow> aggregate \<times> rat \<times> nat" where
  "pg_count n st =
     (let (a, cs, act) = st; a1 = a\<lparr>ag_total := Suc (ag_total a)\<rparr>
      in if n_status n = Offline then (a1\<lparr>ag_offline := Suc (ag_offline a1)\<rparr>, cs, act)
         else (let a2 = (if n_status n = Online then a1\<lparr>ag_online := Suc (ag_online a1)\<rparr>
                         else a1\<lparr>ag_degraded := Suc (ag_degraded a1)\<rparr>)
               in (a2\<lparr>ag_qps := ag_qps a2 + n_qps n, ag_queries := ag_queries a2 + n_queries n,
                      ag_blocked := ag_blocked a2 + n_blocked n\<rparr>, cs + n_cache n, Suc act)))"

definition pg_list :: "bool \<Rightarrow> time \<Rightarrow> string list \<Rightarrow> sql_db \<Rightarrow> node list \<times> aggregate" where
  "pg_list io now ids db =
     (if \<not> io then ([], no_aggregate)
      else (let rows = map (pg_row now) (List.map_filter (fmlookup (tb_nodes db)) ids);
                (a, cs, act) = fold pg_count rows (no_aggregate, 0, 0)
            in (rows, if 0 < act then a\<lparr>ag_cache := of_int (go_round (cs / of_nat act * 10)) / 10\<rparr> else a)))"

definition sqlite_storage :: "(time \<Rightarrow> time) \<Rightarrow> sql_db storage" where
  "sqlite_storage stamp = \<lparr>st_generate = sqlite_generate stamp, st_consume = sqlite_consume,
     st_register = sqlite_register stamp, st_heartbeat = sqlite_heartbeat stamp, st_delete = sqlite_delete\<rparr>"

definition pg_storage :: "(time \<Rightarrow> time) \<Rightarrow> sql_db storage" where
  "pg_storage stamp = \<lparr>st_generate = pg_generate stamp, st_consume = pg_consume,
     st_register = pg_register stamp, st_heartbeat = pg_heartbeat stamp, st_delete = pg_delete\<rparr>"

subsection \<open>The two SQL backends agree\<close>

lemma sql_generate_eq: "pg_generate stamp e d db = sqlite_generate stamp e d db"
  by (simp add: pg_generate_def sqlite_generate_def default_ttl_def Let_def)

lemma sql_consume_eq: "pg_consume e t db = sqlite_consume e t db"
  by (simp add: pg_consume_def sqlite_consume_def Let_def split: option.split)

lemma sql_register_eq: "pg_register stamp e r ip db = sqlite_register stamp e r ip db"
  by (simp add: pg_register_def sqlite_register_def sql_consume_eq Let_def split: prod.split bool.split)

lemma pg_beat_eq: "pg_beat = sql_beat"
  by (intro ext) (simp add: pg_beat_def sql_beat_def Let_def)

lemma pg_row_eq: "pg_row now n = (refresh_status now n)\<lparr>n_key := []\<rparr>"
  by (simp add: pg_row_def refresh_status_def node_status_def Let_def)

lemma sql_heartbeat_eq: "pg_heartbeat stamp e h ip db = sqlite_heartbeat stamp e h ip db"
  by (simp add: pg_heartbeat_def sqlite_heartbeat_def pg_beat_eq split: option.split)

lemma sql_delete_eq: "pg_delete e i db = sqlite_delete e i db"
proof (cases "i |\<in>| fmdom (tb_nodes db)")
  case False
  then have "fmdrop i (tb_nodes db) = tb_nodes db" by (auto intro!: fmap_ext dest: fmdom_notD)
  with False show ?thesis by (simp add: pg_delete_def sqlite_delete_def)
qed (simp add: pg_delete_def sqlite_delete_def)

lemma pg_count_eq: "pg_count = count_node"
  by (intro ext) (auto simp: pg_count_def count_node_def Let_def split: status.splits)

lemma sql_list_eq: "pg_list io now ids db = sqlite_list io now ids db"
  by (simp add: pg_list_def sqlite_list_def pg_row_eq [abs_def] pg_count_eq aggregate_nodes_def Let_def split: prod.split)

lemma sql_storage_eq: "pg_storage stamp = sqlite_storage stamp"
proof -
  have "pg_generate stamp = sqlite_generate stamp" "pg_consume = sqlite_consume"
    "pg_register stamp = sqlite_register stamp" "pg_heartbeat stamp = sqlite_heartbeat stamp" "pg_delete = sqlite_delete"
    by (intro ext, simp add: sql_generate_eq sql_consume_eq sql_register_eq sql_heartbeat_eq sql_delete_eq)+
  then show ?thesis by (simp add: pg_storage_def sqlite_storage_def)
qed

subsection \<open>The contract\<close>

locale sql_clock =
  fixes stamp :: "time \<Rightarrow> time" and grain :: int
  assumes stamp: "\<bar>stamp t - t\<bar> \<le> grain"
begin

lemma grain_nonneg: "0 \<le> grain"
  using stamp [of 0] by linarith

end

lemma sqlite_consume_result:
  assumes "sqlite_consume e t db = (b, db')"
  shows "tb_nodes db' = tb_nodes db"
    "tb_tokens db' = tb_tokens db \<or> tb_tokens db' = fmdrop (trim_space t) (tb_tokens db)"
    "env_ok e \<Longrightarrow> trim_space t \<noteq> [] \<Longrightarrow> tb_tokens db' = fmdrop (trim_space t) (tb_tokens db)"
    "b \<Longrightarrow> trim_space t \<noteq> [] \<and> (\<exists>x. fmlookup (tb_tokens db) (trim_space t) = Some x \<and> oe_now e < x)"
    "trim_space t = [] \<Longrightarrow> db' = db"
    "env_ok e \<Longrightarrow> trim_space t \<noteq> [] \<Longrightarrow> fmlookup (tb_tokens db) (trim_space t) = Some x \<Longrightarrow> oe_now e < x \<Longrightarrow> b"
proof -
  have idle: "fmlookup (tb_tokens db) k = None \<Longrightarrow> fmdrop k (tb_tokens db) = tb_tokens db" for k
    by (auto intro!: fmap_ext)
  show "tb_nodes db' = tb_nodes db"
    "tb_tokens db' = tb_tokens db \<or> tb_tokens db' = fmdrop (trim_space t) (tb_tokens db)"
    "b \<Longrightarrow> trim_space t \<noteq> [] \<and> (\<exists>x. fmlookup (tb_tokens db) (trim_space t) = Some x \<and> oe_now e < x)"
    "trim_space t = [] \<Longrightarrow> db' = db"
    using assms by (auto simp: sqlite_consume_def Let_def split: option.splits if_splits)
  show "env_ok e \<Longrightarrow> trim_space t \<noteq> [] \<Longrightarrow> tb_tokens db' = fmdrop (trim_space t) (tb_tokens db)"
    "env_ok e \<Longrightarrow> trim_space t \<noteq> [] \<Longrightarrow> fmlookup (tb_tokens db) (trim_space t) = Some x \<Longrightarrow> oe_now e < x \<Longrightarrow> b"
    using assms idle by (auto simp: sqlite_consume_def env_ok_def Let_def split: option.splits if_splits)
qed

lemma sqlite_register_result:
  assumes "sqlite_register stamp e r ip db = (res, db')" and "sqlite_consume e (rg_token r) db = (b, db1)"
  shows "tb_tokens db' = tb_tokens db1"
    "res = Inr n \<Longrightarrow> b \<and> n = new_node e r ip \<and> tb_nodes db' = fmupd (n_id n) (stamped stamp n) (tb_nodes db)"
    "isl res \<Longrightarrow> tb_nodes db' = tb_nodes db"
    "b \<Longrightarrow> env_ok e \<Longrightarrow> fmlookup (tb_nodes db) (''node-'' @ oe_hex2 e) = None \<Longrightarrow> \<not> isl res"
  using assms sqlite_consume_result(1) [OF assms(2)]
  by (auto simp: sqlite_register_def env_ok_def new_node_def Let_def split: if_splits bool.splits)

lemma sql_beat_sel [simp]:
  "n_key (sql_beat st now r ip n) = n_key n" "n_id (sql_beat st now r ip n) = n_id n"
  "n_first (sql_beat st now r ip n) = n_first n" "n_last (sql_beat st now r ip n) = st now"
  by (simp_all add: sql_beat_def)

sublocale sql_clock \<subseteq> sqlite: cluster_storage "sqlite_storage stamp" tb_tokens tb_nodes grain env_ok
proof unfold_locales
  fix e d and s s' :: sql_db and t
  assume "st_generate (sqlite_storage stamp) e d s = (t, s')"
  then show "t = token_name e \<and> tb_nodes s' = tb_nodes s
      \<and> (tb_tokens s' = tb_tokens s
         \<or> (\<exists>x. tb_tokens s' = fmupd t x (tb_tokens s) \<and> \<bar>x - (oe_now e + default_ttl d)\<bar> \<le> grain))"
    using stamp [of "oe_now e + default_ttl d"]
    by (auto simp: sqlite_storage_def sqlite_generate_def Let_def split: if_splits)
next
  fix e t and s s' :: sql_db and b
  assume "st_consume (sqlite_storage stamp) e t s = (b, s')"
  then have "sqlite_consume e t s = (b, s')" by (simp add: sqlite_storage_def)
  note r = sqlite_consume_result [OF this]
  show "tb_nodes s' = tb_nodes s
      \<and> (tb_tokens s' = tb_tokens s \<or> tb_tokens s' = fmdrop (trim_space t) (tb_tokens s))
      \<and> (env_ok e \<longrightarrow> tb_tokens s' = fmdrop (trim_space t) (tb_tokens s) \<or> trim_space t = [])
      \<and> (b \<longrightarrow> trim_space t = [] \<or> (\<exists>x. fmlookup (tb_tokens s) (trim_space t) = Some x \<and> oe_now e \<le> x))
      \<and> (\<forall>x. env_ok e \<and> trim_space t \<noteq> [] \<and> fmlookup (tb_tokens s) (trim_space t) = Some x \<and> oe_now e < x \<longrightarrow> b)"
    using r by (metis less_imp_le)
  show "\<not> b \<and> tb_tokens s' = tb_tokens s" if "trim_space t = []" "fmlookup (tb_tokens s) [] = None"
    using r that by auto
next
  fix e r ip and s s' s1 :: sql_db and res b
  assume "st_register (sqlite_storage stamp) e r ip s = (res, s')"
    and "st_consume (sqlite_storage stamp) e (rg_token r) s = (b, s1)"
  then have "sqlite_register stamp e r ip s = (res, s')" "sqlite_consume e (rg_token r) s = (b, s1)"
    by (simp_all add: sqlite_storage_def)
  note q = sqlite_register_result [OF this]
  show "tb_tokens s' = tb_tokens s1
      \<and> (\<forall>n. res = Inr n \<longrightarrow> b \<and> n = new_node e r ip
           \<and> (\<exists>n'. tb_nodes s' = fmupd (n_id n) n' (tb_nodes s) \<and> n_id n' = n_id n \<and> n_key n' = n_key n \<and> n_name n' = n_name n))
      \<and> (isl res \<longrightarrow> tb_nodes s' = tb_nodes s)
      \<and> (b \<and> env_ok e \<and> fmlookup (tb_nodes s) (''node-'' @ oe_hex2 e) = None \<longrightarrow> \<not> isl res)"
  proof (intro conjI allI impI)
    fix n assume n: "res = Inr n"
    show "\<exists>n'. tb_nodes s' = fmupd (n_id n) n' (tb_nodes s) \<and> n_id n' = n_id n \<and> n_key n' = n_key n \<and> n_name n' = n_name n"
      using q(2) [OF n] by (intro exI [of _ "stamped stamp n"]) (simp add: stamped_def)
  qed (use q in auto)
next
  fix e h ip and s s' :: sql_db and out
  assume "st_heartbeat (sqlite_storage stamp) e h ip s = (out, s')"
  then show "tb_tokens s' = tb_tokens s
      \<and> (isl out \<longrightarrow> tb_nodes s' = tb_nodes s)
      \<and> (\<not> isl out \<longrightarrow> (\<exists>n n'. fmlookup (tb_nodes s) (hb_node h) = Some n \<and> n_key n = hb_key h
            \<and> tb_nodes s' = fmupd (hb_node h) n' (tb_nodes s) \<and> n_key n' = n_key n \<and> n_id n' = n_id n
            \<and> n_first n' = n_first n \<and> \<bar>n_last n' - oe_now e\<bar> \<le> grain))
      \<and> (env_ok e \<and> (\<exists>n. fmlookup (tb_nodes s) (hb_node h) = Some n \<and> n_key n = hb_key h) \<longrightarrow> \<not> isl out)"
    using stamp [of "oe_now e"]
    by (auto simp: sqlite_storage_def sqlite_heartbeat_def env_ok_def split: option.splits if_splits)
next
  fix e i and s s' :: sql_db and out
  assume "st_delete (sqlite_storage stamp) e i s = (out, s')"
  then show "tb_tokens s' = tb_tokens s \<and> (tb_nodes s' = tb_nodes s \<or> tb_nodes s' = fmdrop i (tb_nodes s))
      \<and> (\<not> isl out \<longrightarrow> i |\<in>| fmdom (tb_nodes s) \<and> tb_nodes s' = fmdrop i (tb_nodes s))"
    by (auto simp: sqlite_storage_def sqlite_delete_def split: if_splits)
qed

sublocale sql_clock \<subseteq> pg: cluster_storage "pg_storage stamp" tb_tokens tb_nodes grain env_ok
  unfolding sql_storage_eq by (rule sqlite.cluster_storage_axioms)

context sql_clock
begin

lemma sqlite_contract: "cluster_storage (sqlite_storage stamp) tb_tokens tb_nodes grain env_ok"
  by (rule sqlite.cluster_storage_axioms)

lemma pg_contract: "cluster_storage (pg_storage stamp) tb_tokens tb_nodes grain env_ok"
  by (rule pg.cluster_storage_axioms)

end

text \<open>SQLite keeps nanoseconds, PostgreSQL microseconds.\<close>

definition micro_stamp :: "time \<Rightarrow> time" where "micro_stamp t = t div 1000 * 1000"

interpretation nano: sql_clock id 0
  by unfold_locales simp

interpretation micro: sql_clock micro_stamp 999
proof unfold_locales
  fix t
  have "t - micro_stamp t = t mod 1000" by (simp add: micro_stamp_def minus_div_mult_eq_mod)
  then show "\<bar>micro_stamp t - t\<bar> \<le> 999" using pos_mod_bound [of 1000 t] pos_mod_sign [of 1000 t] by linarith
qed

end
