(* ===== verification/Cluster_Api.thy ===== *)
theory Cluster_Api
  imports Cluster_Sql Go_Utf8
begin

text \<open>
  The HTTP side of the cluster master in \<open>panel/cluster.go\<close>: trusted proxies and \<open>clientIP\<close>, the
  four handlers over any \<open>ClusterStorage\<close>, the resolution of the database DSN
  (\<open>panel/pgstore.go\<close>) and the choice of the backend. Then the properties of the backends.
\<close>

subsection \<open>Trusted proxies\<close>

text \<open>\<open>fmt.Sprintf("%d", n)\<close> for the prefix lengths 32 and 128.\<close>

definition proxy_part :: "string \<Rightarrow> ip_net option" where
  "proxy_part part =
     (if CHR ''/'' \<in> set part then map_option snd (parse_cidr part)
      else (let a = parse_ip part
            in if a = [] then None
               else map_option snd (parse_cidr (part @ (if to4 a = [] then ''/128'' else ''/32'')))))"

fun proxy_parts :: "string list \<Rightarrow> ip_net list option" where
  "proxy_parts [] = Some []"
| "proxy_parts (p # ps) =
     (let q = trim_space p
      in if q = [] then proxy_parts ps
         else (case proxy_part q of None \<Rightarrow> None
               | Some n \<Rightarrow> map_option ((#) n) (proxy_parts ps)))"

text \<open>On an error the previous list stays.\<close>

definition set_trusted_proxies :: "string \<Rightarrow> ip_net list \<Rightarrow> bool \<times> ip_net list" where
  "set_trusted_proxies spec old =
     (case proxy_parts (split_on (CHR '','') spec) of None \<Rightarrow> (False, old) | Some ns \<Rightarrow> (True, ns))"

definition ip_in_trusted :: "ip_net list \<Rightarrow> ip \<Rightarrow> bool" where
  "ip_in_trusted nets a \<longleftrightarrow> (\<exists>n \<in> set nets. net_contains n a)"

record http_peer =
  hp_remote :: string     \<comment> \<open>\<open>RemoteAddr\<close>\<close>
  hp_xff :: string        \<comment> \<open>\<open>X-Forwarded-For\<close>, empty when absent\<close>
  hp_xrip :: string       \<comment> \<open>\<open>X-Real-IP\<close>\<close>

definition client_ip :: "ip_net list \<Rightarrow> http_peer \<Rightarrow> string" where
  "client_ip nets r =
     (case split_host_port (hp_remote r) of
        None \<Rightarrow> trim_space (hp_remote r)
      | Some (host, _) \<Rightarrow>
          if parse_ip host \<noteq> [] \<and> ip_in_trusted nets (parse_ip host)
          then
            (let fip = trim_space (hd (split_on (CHR '','') (hp_xff r))); xr = trim_space (hp_xrip r)
             in if hp_xff r \<noteq> [] \<and> parse_ip fip \<noteq> [] then fip
                else if xr \<noteq> [] \<and> parse_ip xr \<noteq> [] then xr else host)
          else host)"

subsection \<open>Handlers\<close>

datatype http_method = GET | POST | DELETE | OtherMethod

datatype 'a http_response = Failed nat | Body 'a

definition wrap64 :: "int \<Rightarrow> int" where "wrap64 x = (x + 2 ^ 63) mod 2 ^ 64 - 2 ^ 63"

text \<open>\<open>time.Duration\<close> is an \<open>int64\<close>, so the product of a large number of minutes wraps.\<close>

definition token_duration :: "int \<Rightarrow> int \<Rightarrow> duration" where
  "token_duration mins hrs =
     (if 0 < mins then wrap64 (minutes mins) else if 0 < hrs then wrap64 (hours hrs) else hours 24)"

definition handle_cluster_token ::
  "'s storage \<Rightarrow> op_env \<Rightarrow> http_method \<Rightarrow> int \<Rightarrow> int \<Rightarrow> 's \<Rightarrow> (string \<times> duration) http_response \<times> 's" where
  "handle_cluster_token S e meth mins hrs s =
     (if meth \<noteq> POST then (Failed 405, s)
      else (let d = token_duration mins hrs; (t, s') = st_generate S e d s in (Body (t, d), s')))"

definition handle_cluster_register ::
  "'s storage \<Rightarrow> op_env \<Rightarrow> http_method \<Rightarrow> register_request option \<Rightarrow> string \<Rightarrow> 's
   \<Rightarrow> (string \<times> string \<times> string) http_response \<times> 's" where
  "handle_cluster_register S e meth req remote s =
     (if meth \<noteq> POST then (Failed 405, s)
      else (case req of
              None \<Rightarrow> (Failed 400, s)
            | Some r \<Rightarrow> (case st_register S e r remote s of
                            (Inl _, s') \<Rightarrow> (Failed 401, s')
                          | (Inr n, s') \<Rightarrow> (Body (n_id n, n_key n, n_name n), s'))))"

record heartbeat_response =
  hr_ack :: time
  hr_master_hash :: string
  hr_profile :: string
  hr_profile_hash :: string

definition handle_cluster_heartbeat ::
  "'s storage \<Rightarrow> op_env \<Rightarrow> http_method \<Rightarrow> heartbeat_request option \<Rightarrow> string \<Rightarrow> string
   \<Rightarrow> (string \<Rightarrow> (string \<times> string) option) \<Rightarrow> 's \<Rightarrow> heartbeat_response http_response \<times> 's" where
  "handle_cluster_heartbeat S e meth req remote master_hash prof s =
     (if meth \<noteq> POST then (Failed 405, s)
      else (case req of
              None \<Rightarrow> (Failed 400, s)
            | Some h \<Rightarrow>
                (case st_heartbeat S e h remote s of
                   (Inl _, s') \<Rightarrow> (Failed 401, s')
                 | (Inr _, s') \<Rightarrow>
                     (let (pid, ph) = (case prof (hb_node h) of None \<Rightarrow> ([], []) | Some x \<Rightarrow> x)
                      in (Body \<lparr>hr_ack = oe_now2 e, hr_master_hash = master_hash, hr_profile = pid,
                                hr_profile_hash = ph\<rparr>, s')))))"

text \<open>The listing or the deletion of nodes; \<open>listing\<close> is the result of \<open>ListNodes\<close>.\<close>

definition handle_cluster_nodes ::
  "'s storage \<Rightarrow> op_env \<Rightarrow> http_method \<Rightarrow> string \<Rightarrow> ('s \<Rightarrow> (node list \<times> aggregate) \<times> 's) \<Rightarrow> 's
   \<Rightarrow> (node list \<times> aggregate) option http_response \<times> 's" where
  "handle_cluster_nodes S e meth id_param listing s =
     (case meth of
        GET \<Rightarrow> (let (l, s') = listing s in (Body (Some l), s'))
      | DELETE \<Rightarrow>
          (let i = trim_space id_param
           in if i = [] then (Failed 400, s)
              else (case st_delete S e i s of (Inl _, s') \<Rightarrow> (Failed 404, s') | (Inr _, s') \<Rightarrow> (Body None, s')))
      | _ \<Rightarrow> (Failed 405, s))"

subsection \<open>Choice of the backend\<close>

text \<open>\<open>urlQueryEscape\<close>, rune by rune.\<close>

definition hex_digit :: "int \<Rightarrow> char" where
  "hex_digit n = (if n < 10 then char_of (48 + n) else char_of (55 + n))"

fun hex_upper :: "nat \<Rightarrow> int \<Rightarrow> string" where
  "hex_upper 0 n = []"
| "hex_upper (Suc k) n = (if n < 16 then [hex_digit n] else hex_upper k (n div 16) @ [hex_digit (n mod 16)])"

definition unreserved :: "int \<Rightarrow> bool" where
  "unreserved c \<longleftrightarrow> (97 \<le> c \<and> c \<le> 122) \<or> (65 \<le> c \<and> c \<le> 90) \<or> (48 \<le> c \<and> c \<le> 57) \<or> c \<in> {45, 95, 46, 126}"

definition escape_rune :: "int \<Rightarrow> string" where
  "escape_rune c =
     (if unreserved c then [char_of c]
      else CHR ''%'' # (if c < 16 then ''0'' else []) @ hex_upper 8 c)"

definition url_query_escape :: "string \<Rightarrow> string" where
  "url_query_escape s = concat (map escape_rune (runes s))"

text \<open>\<open>env\<close> is the process environment.\<close>

definition postgres_dsn :: "(string \<Rightarrow> string) \<Rightarrow> string \<Rightarrow> string" where
  "postgres_dsn env flag =
     (if flag \<noteq> [] then flag
      else if env ''PANEL_DATABASE_URL'' \<noteq> [] then env ''PANEL_DATABASE_URL''
      else
        (let host = env ''PANEL_DB_HOST''; port = env ''PANEL_DB_PORT''; user = env ''PANEL_DB_USER'';
             pass = env ''PANEL_DB_PASSWORD''; name = env ''PANEL_DB_NAME''
         in if host = [] \<or> user = [] \<or> name = [] then []
            else ''postgres://'' @ url_query_escape user @ '':'' @ url_query_escape pass @ ''@''
                 @ host @ '':'' @ (if port = [] then ''5432'' else port) @ ''/'' @ name @ ''?sslmode=require''))"

datatype backend = UsePostgres string | UseSqlite string | UseJson string

definition choose_backend :: "(string \<Rightarrow> string) \<Rightarrow> string \<Rightarrow> string \<Rightarrow> backend" where
  "choose_backend env flag path =
     (let d0 = postgres_dsn env []; d1 = (if flag \<noteq> [] then flag else d0);
          dsn = (if d1 = [] \<and> prefix ''postgres://'' path then path else d1)
      in if dsn \<noteq> [] then UsePostgres dsn
         else if suffix ''.db'' path \<or> suffix ''.sqlite'' path then UseSqlite path else UseJson path)"

subsection \<open>Facts about listings\<close>

definition active :: "node \<Rightarrow> bool" where "active n \<longleftrightarrow> n_status n \<noteq> Offline"

lemma fold_count:
  "fold count_node ns (a, cs, act) = (a', cs', act') \<Longrightarrow>
     ag_total a' = ag_total a + length ns
   \<and> ag_online a' = ag_online a + length (filter (\<lambda>n. n_status n = Online) ns)
   \<and> ag_degraded a' = ag_degraded a + length (filter (\<lambda>n. n_status n = Degraded) ns)
   \<and> ag_offline a' = ag_offline a + length (filter (\<lambda>n. n_status n = Offline) ns)
   \<and> ag_qps a' = ag_qps a + (\<Sum>n\<leftarrow>filter active ns. n_qps n)
   \<and> ag_blocked a' = ag_blocked a + (\<Sum>n\<leftarrow>filter active ns. n_blocked n)
   \<and> cs' = cs + (\<Sum>n\<leftarrow>filter active ns. n_cache n) \<and> act' = act + length (filter active ns)
   \<and> ag_synced a' = ag_synced a \<and> ag_pending a' = ag_pending a"
proof (induction ns arbitrary: a cs act)
  case Nil
  then show ?case by simp
next
  case (Cons n ns)
  obtain a1 cs1 act1 where c: "count_node n (a, cs, act) = (a1, cs1, act1)" by (metis prod_cases3)
  with Cons.prems have "fold count_node ns (a1, cs1, act1) = (a', cs', act')" by simp
  from Cons.IH [OF this] c show ?case
    by (cases "n_status n") (auto simp: count_node_def Let_def active_def)
qed

lemma status_partition:
  "length (filter (\<lambda>n. n_status n = Online) ns) + length (filter (\<lambda>n. n_status n = Degraded) ns)
   + length (filter (\<lambda>n. n_status n = Offline) ns) = length ns"
proof (induction ns)
  case (Cons n ns)
  then show ?case by (cases "n_status n") auto
qed simp

lemma aggregate_fold:
  "aggregate_nodes ns = (let (a, cs, act) = fold count_node ns (no_aggregate, 0, 0)
     in if 0 < act then a\<lparr>ag_cache := of_int (go_round (cs / of_nat act * 10)) / 10\<rparr> else a)"
  by (simp add: aggregate_nodes_def)

subsection \<open>Properties\<close>

text \<open>
  C12: Every enrolment token enrols at most one node, on the JSON backend. Take any history of
  operations on a running store, whatever writes of its file fail. For each token, the nodes enrolled
  with it are at most the times it was issued, and one more if it was stored at the start and no more
  if it still is stored at the end; a token is a fresh random string, so it is issued once. And a token
  that is stored and not expired does enrol. (A restart may bring back a token whose removal could not
  be written, since the error of that write is ignored.)
\<close>

theorem json_enrolment_bound:
  assumes "cluster_run json_storage ops s = (rs, s')" and "fmlookup (cs_tokens s) [] = None"
  shows "enrolments t ops rs + (if t |\<in>| fmdom (cs_tokens s') then 1 else 0)
      \<le> length (filter (issues t) ops) + (if t |\<in>| fmdom (cs_tokens s) then 1 else 0)
    \<and> (\<forall>e r ip x. env_ok e \<and> trim_space (rg_token r) = t \<and> t \<noteq> [] \<and> fmlookup (cs_tokens s') t = Some x
        \<and> oe_now e < x \<and> fmlookup (cs_nodes s') (''node-'' @ oe_hex2 e) = None
        \<longrightarrow> \<not> isl (fst (st_register json_storage e r ip s')))"
  using json.token_bound [OF assms(1) _ assms(2)] json.token_enrols by auto

definition example_op_env :: "time \<Rightarrow> op_env" where
  "example_op_env t = \<lparr>oe_hex = ''aa'', oe_hex2 = ''bb'', oe_hex3 = ''cc'', oe_now = t, oe_now2 = t, oe_io = (\<lambda>_. True)\<rparr>"

definition example_register :: register_request where
  "example_register = \<lparr>rg_token = '' enroll-aa '', rg_name = ''edge'', rg_ip = [], rg_version = ''1''\<rparr>"

definition example_ops :: "cluster_op list" where
  "example_ops = [OpGenerate (example_op_env 1) 100, OpRegister (example_op_env 2) example_register ''10.0.0.2'',
     OpRegister (example_op_env 3) example_register ''10.0.0.3'']"

definition example_store :: cluster_store where
  "example_store = \<lparr>cs_path = [], cs_tokens = fmempty, cs_nodes = fmempty, cs_disk = None\<rparr>"

theorem json_enrolment_bound_witness:
  "enrolments ''enroll-aa'' example_ops (fst (cluster_run json_storage example_ops example_store)) \<le> 1
   \<and> enrolled (fst (cluster_run json_storage example_ops example_store) ! 1)"
proof -
  let ?r = "cluster_run json_storage example_ops example_store"
  have "enrolments ''enroll-aa'' example_ops (fst ?r) + (if ''enroll-aa'' |\<in>| fmdom (cs_tokens (snd ?r)) then 1 else 0)
      \<le> length (filter (issues ''enroll-aa'') example_ops) + (if ''enroll-aa'' |\<in>| fmdom (cs_tokens example_store) then 1 else 0)"
    using json_enrolment_bound [of example_ops example_store "fst ?r" "snd ?r"] by (simp add: example_store_def)
  moreover have "enrolled (fst ?r ! 1)" by code_simp
  moreover have "length (filter (issues ''enroll-aa'') example_ops) = 1" by code_simp
  ultimately show ?thesis by (simp add: example_store_def split: if_splits)
qed

text \<open>
  C14: The same bound for the two SQL backends, each with what its engine keeps of an instant
  (nanoseconds for SQLite, microseconds for PostgreSQL), while the statements succeed: the error of the
  DELETE that spends a token is ignored, see \<open>sql_token_reusable_on_failed_delete\<close>.
\<close>

theorem sql_enrolment_bound:
  assumes "\<forall>op \<in> set ops. env_ok (op_env_of op)" and "fmlookup (tb_tokens db) [] = None"
  shows "enrolments t ops (fst (cluster_run (sqlite_storage id) ops db))
      \<le> length (filter (issues t) ops) + (if t |\<in>| fmdom (tb_tokens db) then 1 else 0)
    \<and> enrolments t ops (fst (cluster_run (pg_storage micro_stamp) ops db))
      \<le> length (filter (issues t) ops) + (if t |\<in>| fmdom (tb_tokens db) then 1 else 0)"
  using nano.sqlite.token_bound [OF prod.collapse [symmetric] assms, of t]
    micro.pg.token_bound [OF prod.collapse [symmetric] assms, of t]
  by linarith

definition example_db :: sql_db where "example_db = \<lparr>tb_tokens = fmempty, tb_nodes = fmempty\<rparr>"

lemma example_ops_ok: "\<forall>op \<in> set example_ops. env_ok (op_env_of op)"
  by (simp add: example_ops_def example_op_env_def env_ok_def)

theorem sql_enrolment_bound_witness:
  "enrolments ''enroll-aa'' example_ops (fst (cluster_run (pg_storage micro_stamp) example_ops example_db)) \<le> 1
   \<and> enrolments ''enroll-aa'' example_ops (fst (cluster_run (sqlite_storage id) example_ops example_db)) = 1"
proof -
  have "length (filter (issues ''enroll-aa'') example_ops) = 1" by code_simp
  moreover have "enrolments ''enroll-aa'' example_ops (fst (cluster_run (sqlite_storage id) example_ops example_db)) = 1"
    by code_simp
  ultimately show ?thesis
    using sql_enrolment_bound [OF example_ops_ok, of example_db "''enroll-aa''"] by (simp add: example_db_def)
qed

text \<open>
  C13: Only the holder of its key speaks for a node. After any sequence of operations that neither
  deletes node \<open>i\<close> nor creates a new node of that name, whatever writes fail, a heartbeat for \<open>i\<close>
  is accepted by the JSON backend exactly when it carries the key the node was given.
\<close>

theorem json_heartbeat_authentic:
  assumes "cluster_run json_storage ops s = (rs, s')" and "\<forall>op \<in> set ops. \<not> touches i op"
    and "fmlookup (cs_nodes s) i = Some n" and "hb_node h = i" and "env_ok e"
  shows "fst (st_heartbeat json_storage e h ip s') = Inr () \<longleftrightarrow> hb_key h = n_key n"
proof -
  obtain n' where n': "fmlookup (cs_nodes s') i = Some n'" "n_key n' = n_key n"
    using json.key_stable [OF assms(1-3)] by blast
  obtain res s2 where h: "st_heartbeat json_storage e h ip s' = (res, s2)" by fastforce
  have "\<not> isl res \<longleftrightarrow> hb_key h = n_key n"
    using json.heartbeat_auth [OF h assms(5)] n' assms(4) by auto
  then show ?thesis using h by (cases res) auto
qed

definition example_beat :: "string \<Rightarrow> heartbeat_request" where
  "example_beat k = \<lparr>hb_node = ''node-bb'', hb_key = k, hb_name = [], hb_ip = [], hb_version = [], hb_qps = 5,
     hb_queries = 1, hb_blocked = 1, hb_cache = 50, hb_cpu = 1, hb_mem_used = 1, hb_mem_total = 2, hb_uptime = 9,
     hb_running = True, hb_db_hash = [], hb_db_updated = [], hb_applied = []\<rparr>"

definition example_enrolled :: cluster_store where
  "example_enrolled = example_store\<lparr>cs_nodes := fmupd ''node-bb'' (new_node (example_op_env 2) example_register ''10.0.0.2'') fmempty\<rparr>"

theorem json_heartbeat_authentic_witness:
  "fst (st_heartbeat json_storage (example_op_env 9) (example_beat ''zz'') []
      (snd (cluster_run json_storage [OpHeartbeat (example_op_env 5) (example_beat ''cc'') []] example_enrolled))) \<noteq> Inr ()"
proof -
  let ?n = "new_node (example_op_env 2) example_register ''10.0.0.2''"
  have "fmlookup (cs_nodes example_enrolled) ''node-bb'' = Some ?n" by (simp add: example_enrolled_def)
  then have "fst (st_heartbeat json_storage (example_op_env 9) (example_beat ''zz'') []
      (snd (cluster_run json_storage [OpHeartbeat (example_op_env 5) (example_beat ''cc'') []] example_enrolled))) = Inr ()
      \<longleftrightarrow> hb_key (example_beat ''zz'') = n_key ?n"
    by (intro json_heartbeat_authentic [OF prod.collapse [symmetric]])
       (simp_all add: example_beat_def env_ok_def example_op_env_def)
  then show ?thesis by (simp add: example_beat_def new_node_def example_op_env_def Let_def)
qed

text \<open>
  With the same precision of the timestamps the two SQL backends are the same function of the tables:
  their statements differ only in what the engines store.
\<close>

lemma sql_backends_equal:
  "sqlite_storage stamp = pg_storage stamp \<and> sqlite_list io now ids db = pg_list io now ids db"
  by (simp add: sql_storage_eq sql_list_eq)

text \<open>
  The one-time use of a token depends on the DELETE of the SQL backends, whose error is ignored:
  when it fails, the same token is accepted again and again.
\<close>

lemma sql_token_reusable_on_failed_delete:
  assumes "fmlookup (tb_tokens db) t = Some x" and "trim_space t = t" and "t \<noteq> []"
    and "oe_io e 0" and "\<not> oe_io e 1" and "oe_now e < x"
  shows "sqlite_consume e t db = (True, db) \<and> pg_consume e t db = (True, db)"
  using assms by (simp add: sqlite_consume_def pg_consume_def)

text \<open>
  The listing shows every node without its key and with a fresh status, counts each node in
  exactly one of online, degraded and offline, and sums the rates of the nodes that are not
  offline.
\<close>

lemma listing_aggregate:
  assumes "cs_list now ids None cs = ((ns, a), cs')"
  shows "ag_total a = length ns \<and> ag_online a + ag_degraded a + ag_offline a = length ns
     \<and> (\<forall>n \<in> set ns. n_key n = [] \<and> n_status n = node_status now (n_last n) (n_running n))
     \<and> ag_qps a = (\<Sum>n\<leftarrow>filter (\<lambda>n. n_status n \<noteq> Offline) ns. n_qps n)
     \<and> ag_blocked a = (\<Sum>n\<leftarrow>filter (\<lambda>n. n_status n \<noteq> Offline) ns. n_blocked n)"
proof -
  have a: "a = aggregate_nodes ns"
    and ns: "ns = map (\<lambda>n. n\<lparr>n_key := []\<rparr>) (List.map_filter (fmlookup (cs_nodes (cs_tick now cs))) ids)"
    using assms by (auto simp: cs_list_def Let_def)
  obtain a0 cs0 act where f: "fold count_node ns (no_aggregate, 0, 0) = (a0, cs0, act)" by (metis prod_cases3)
  have sel: "ag_total a = ag_total a0" "ag_online a = ag_online a0" "ag_degraded a = ag_degraded a0"
    "ag_offline a = ag_offline a0" "ag_qps a = ag_qps a0" "ag_blocked a = ag_blocked a0"
    by (auto simp: a aggregate_nodes_def f)
  have "\<forall>n \<in> set ns. n_key n = [] \<and> n_status n = node_status now (n_last n) (n_running n)"
    by (auto simp: ns cs_tick_def List.map_filter_def refresh_status_def)
  then show ?thesis
    using fold_count [OF f] status_partition [of ns] unfolding sel active_def by (simp add: no_aggregate_def)
qed

theorem listing_aggregate_witness:
  "ag_online (snd (fst (cs_list 3 [''node-bb''] None
     (snd (st_heartbeat json_storage (example_op_env 2) (example_beat ''cc'') [] example_enrolled))))) = 1
   \<and> ag_total (snd (fst (cs_list 3 [''node-bb''] None
     (snd (st_heartbeat json_storage (example_op_env 2) (example_beat ''cc'') [] example_enrolled))))) = 1"
proof -
  let ?s = "snd (st_heartbeat json_storage (example_op_env 2) (example_beat ''cc'') [] example_enrolled)"
  let ?r = "cs_list 3 [''node-bb''] None ?s"
  have "?r = ((fst (fst ?r), snd (fst ?r)), snd ?r)" by simp
  from listing_aggregate [OF this] have "ag_total (snd (fst ?r)) = length (fst (fst ?r))" by blast
  moreover have "length (fst (fst ?r)) = 1" "ag_online (snd (fst ?r)) = 1" by code_simp+
  ultimately show ?thesis by simp
qed

text \<open>Whether the direct peer is a trusted proxy.\<close>

definition direct_trusted :: "ip_net list \<Rightarrow> http_peer \<Rightarrow> bool" where
  "direct_trusted nets r \<longleftrightarrow>
     (case split_host_port (hp_remote r) of
        None \<Rightarrow> False | Some (h, _) \<Rightarrow> parse_ip h \<noteq> [] \<and> ip_in_trusted nets (parse_ip h))"

text \<open>
  C15: Forwarding headers cannot spoof an address. Unless the direct peer is a trusted proxy,
  \<open>clientIP\<close> is the same whatever the headers say; behind a trusted proxy the result is always
  a syntactically valid IP address.
\<close>

theorem client_ip_not_spoofable:
  "(\<not> direct_trusted nets r \<longrightarrow> client_ip nets (r\<lparr>hp_xff := x, hp_xrip := y\<rparr>) = client_ip nets r)
   \<and> (direct_trusted nets r \<longrightarrow> parse_ip (client_ip nets r) \<noteq> [])"
  by (auto simp: client_ip_def direct_trusted_def Let_def split: option.splits)

definition example_nets :: "ip_net list" where
  "example_nets = snd (set_trusted_proxies ''10.0.0.0/8, 192.168.1.5'' [])"

definition example_http :: "string \<Rightarrow> http_peer" where
  "example_http a = \<lparr>hp_remote = a, hp_xff = ''203.0.113.7, 10.0.0.1'', hp_xrip = []\<rparr>"

theorem client_ip_not_spoofable_witness:
  "client_ip example_nets (example_http ''198.51.100.1:999'') = ''198.51.100.1''
   \<and> parse_ip (client_ip example_nets (example_http ''192.168.1.5:80'')) \<noteq> []"
proof -
  have "\<not> direct_trusted example_nets (example_http ''198.51.100.1:999'')"
    "direct_trusted example_nets (example_http ''192.168.1.5:80'')"
    "client_ip example_nets (example_http ''198.51.100.1:999''\<lparr>hp_xff := [], hp_xrip := []\<rparr>) = ''198.51.100.1''"
    by code_simp+
  then show ?thesis using client_ip_not_spoofable by metis
qed

lemma hex_digit_unreserved:
  assumes "0 \<le> n" and "n < 16"
  shows "unreserved (of_char (hex_digit n))"
proof (cases "n < 10")
  case True
  then have "of_char (hex_digit n) = 48 + n" using assms by (simp add: hex_digit_def of_char_of)
  then show ?thesis using True assms by (simp add: unreserved_def)
next
  case False
  then have "of_char (hex_digit n) = 55 + n" using assms by (simp add: hex_digit_def of_char_of)
  then show ?thesis using False assms by (simp add: unreserved_def)
qed

lemma hex_upper_unreserved: "0 \<le> n \<Longrightarrow> c \<in> set (hex_upper k n) \<Longrightarrow> unreserved (of_char c)"
proof (induction k n rule: hex_upper.induct)
  case (2 k n)
  then show ?case
    using hex_digit_unreserved [of n] hex_digit_unreserved [of "n mod 16"]
    by (auto split: if_splits)
qed simp

text \<open>
  The credentials in a composed PostgreSQL DSN cannot break out of their field: for any
  string, the escaped text consists of unreserved characters and percent signs
  only, so it holds no colon, at sign, slash or question mark.
\<close>

lemma dsn_escape_confined:
  assumes "c \<in> set (url_query_escape s)"
  shows "c = CHR ''%'' \<or> unreserved (of_char c)"
proof -
  obtain r where r: "r \<in> set (runes s)" "c \<in> set (escape_rune r)" using assms by (auto simp: url_query_escape_def)
  have nn: "0 \<le> r" by (rule runes_nonneg [OF r(1)])
  show ?thesis
  proof (cases "unreserved r")
    case True
    then have "r < 256" by (auto simp: unreserved_def)
    then have "of_char (char_of r) = r" using nn by (simp add: of_char_of)
    then show ?thesis using r(2) True by (simp add: escape_rune_def)
  next
    case False
    have "unreserved (of_char (CHR ''0''))" by (simp add: unreserved_def)
    then show ?thesis using r(2) False hex_upper_unreserved [OF nn, of c 8]
      by (auto simp: escape_rune_def split: if_splits)
  qed
qed

theorem dsn_escape_confined_witness:
  "CHR ''4'' \<in> set (url_query_escape ''p@'') \<and> unreserved (of_char (CHR ''4''))"
proof -
  have m: "CHR ''4'' \<in> set (url_query_escape ''p@'')" by code_simp
  have "CHR ''4'' = CHR ''%'' \<or> unreserved (of_char (CHR ''4''))"
    by (rule dsn_escape_confined [OF m])
  then show ?thesis using m by simp
qed

text \<open>
  Outside ASCII the escape writes the code point in hexadecimal instead of its UTF-8 bytes, so
  decoding it gives another string: the euro sign becomes an escaped space followed by \<open>AC\<close>.
\<close>

lemma dsn_escape_not_utf8:
  "url_query_escape [CHR 0xE2, CHR 0x82, CHR 0xAC] = url_query_escape '' '' @ ''AC''"
  by code_simp

text \<open>
  The \<open>-enrollment-token\<close> command of \<open>main\<close>: the token and the store, whatever backend
  \<^const>\<open>choose_backend\<close> gives to the running panel.
\<close>

definition cli_enrollment ::
  "op_env \<Rightarrow> string \<Rightarrow> ((string, time) fmap \<times> (string, node) fmap) option \<Rightarrow> string \<times> cluster_store" where
  "cli_enrollment e path disk = cs_generate e (hours 24) (new_cluster_store path disk (oe_now e))"

text \<open>
  A nodes file that is no JSON document, such as a SQLite database, is replaced by a document that
  holds the new token and no node.
\<close>

lemma cli_enrollment_overwrites:
  assumes "oe_io e 0" and "path \<noteq> []"
  shows "cs_disk (snd (cli_enrollment e path None)) = Some (fmupd (token_name e) (oe_now e + hours 24) fmempty, fmempty)"
  using assms by (simp add: cli_enrollment_def cs_generate_def new_cluster_store_def cs_load_def cs_save_def default_ttl_def hours_def)

lemma cli_enrollment_sqlite: "choose_backend (\<lambda>_. []) [] ''/var/lib/dnsdist/nodes.db'' = UseSqlite ''/var/lib/dnsdist/nodes.db''"
  by code_simp

end
