(* ===== verification/Block_Page.thy ===== *)
theory Block_Page
  imports Go_Net
begin

text \<open>
  The Trust+ block page (\<open>panel/blockpage.go\<close>): the administrator's page with its optional copy for nginx,
  upload and reset, and the page a blocked client is shown, with the name of the host it asked for in
  place of the placeholder. What is shown: an uploaded page is the one that is served, within its limit
  of 1 MiB; a reset brings the built-in page back; and the name in the page is the one the client sent,
  in a form that cannot carry markup.
\<close>

subsection \<open>Library functions\<close>

text \<open>\<open>html.EscapeString\<close>, reading through \<open>io.LimitReader\<close>, and \<open>strings.Index\<close>.\<close>

definition html_escape_char :: "char \<Rightarrow> string" where
  "html_escape_char c =
     (if c = CHR ''&'' then ''&amp;'' else if c = CHR 0x27 then ''&#39;'' else if c = CHR ''<'' then ''&lt;''
      else if c = CHR ''>'' then ''&gt;'' else if c = CHR 0x22 then ''&#34;'' else [c])"

definition html_escape :: "string \<Rightarrow> string" where
  "html_escape s = concat (map html_escape_char s)"

fun limit_read :: "int \<Rightarrow> bytes \<Rightarrow> bytes" where
  "limit_read n [] = []"
| "limit_read n (c # s) = (if n \<le> 0 then [] else c # limit_read (n - 1) s)"

fun find_sub :: "string \<Rightarrow> string \<Rightarrow> nat option" where
  "find_sub p [] = (if p = [] then Some 0 else None)"
| "find_sub p (c # s) = (if prefix p (c # s) then Some 0 else map_option Suc (find_sub p s))"

subsection \<open>The stored page\<close>

text \<open>The path of the page, of its mirror (empty when there is none) and the listener.\<close>

record page_conf =
  pg_path :: string
  pg_mirror :: string
  pg_listen :: string
  pg_default :: bytes   \<comment> \<open>the page embedded in the program\<close>

definition page_max :: int where "page_max = 1048576"

text \<open>The outcome of the writes and of the other file operations.\<close>

record page_io =
  pi_write :: write_result
  pi_rename :: bool
  pi_mirror :: write_result
  pi_mirror_rename :: bool
  pi_remove :: bool
  pi_read :: bool

definition write_mirror :: "page_conf \<Rightarrow> page_io \<Rightarrow> bytes \<Rightarrow> fs \<Rightarrow> fs \<times> bool" where
  "write_mirror cf io data F =
     (if pg_mirror cf = [] then (F, True)
      else atomic_write F (pg_mirror cf) data (pi_mirror io) (pi_mirror_rename io))"

definition write_blockpage :: "page_conf \<Rightarrow> page_io \<Rightarrow> bytes \<Rightarrow> fs \<Rightarrow> fs \<times> bool" where
  "write_blockpage cf io data F =
     (case atomic_write F (pg_path cf) data (pi_write io) (pi_rename io) of
        (F1, False) \<Rightarrow> (F1, False)
      | (F1, True) \<Rightarrow> write_mirror cf io data F1)"

definition reset_blockpage :: "page_conf \<Rightarrow> page_io \<Rightarrow> fs \<Rightarrow> fs \<times> bool" where
  "reset_blockpage cf io F =
     (if F (pg_path cf) \<noteq> None \<and> \<not> pi_remove io then (F, False)
      else write_mirror cf io (pg_default cf) (F(pg_path cf := None)))"

definition blockpage_for :: "page_conf \<Rightarrow> page_io \<Rightarrow> fs \<Rightarrow> bytes \<times> bool" where
  "blockpage_for cf io F =
     (case (if pi_read io then F (pg_path cf) else None) of
        Some b \<Rightarrow> if trim_space b \<noteq> [] then (b, True) else (pg_default cf, False)
      | None \<Rightarrow> (pg_default cf, False))"

subsection \<open>The page a client is shown\<close>

datatype page_method = MGet | MHead | MPost | MDelete | MOther

definition placeholder :: string where "placeholder = ''{{domain}}''"

definition shown_host :: "string \<Rightarrow> string \<Rightarrow> string" where
  "shown_host req_host url_host =
     (let h = (if req_host \<noteq> [] then req_host else if url_host \<noteq> [] then url_host else ''situs ini'')
      in html_escape (case split_host_port h of Some (x, _) \<Rightarrow> x | None \<Rightarrow> h))"

definition fill_placeholder :: "bytes \<Rightarrow> string \<Rightarrow> bytes" where
  "fill_placeholder body host =
     (case find_sub placeholder body of
        None \<Rightarrow> body
      | Some i \<Rightarrow> take i body @ host @ drop (i + length placeholder) body)"

datatype page_answer = PageRefused | Page bytes   \<comment> \<open>405, or 200 with the body\<close>

definition serve_blockpage :: "page_conf \<Rightarrow> page_io \<Rightarrow> page_method \<Rightarrow> string \<Rightarrow> string \<Rightarrow> fs \<Rightarrow> page_answer" where
  "serve_blockpage cf io m req_host url_host F =
     (if m \<noteq> MGet \<and> m \<noteq> MHead then PageRefused
      else let body = fill_placeholder (fst (blockpage_for cf io F)) (shown_host req_host url_host)
           in Page (if m = MHead then [] else body))"

subsection \<open>The panel API\<close>

text \<open>
  The body of an upload. A multipart body is the sequence of its parts, each with its name and, unless
  reading it fails, its content; a part that cannot be parsed ends it with an error. Anything else is
  read up to a limit and decoded as JSON by \<open>dec\<close>, which yields the field \<open>html\<close>.
\<close>

datatype part = BadPart | Part string "bytes option"

datatype upload = BadMultipart | Multipart "part list" | Raw "bytes option"

fun page_part :: "part list \<Rightarrow> nat + bytes" where
  "page_part [] = Inr []"
| "page_part (BadPart # ps) = Inl 400"
| "page_part (Part name data # ps) =
     (if name = ''page'' \<or> name = ''file''
      then (case data of None \<Rightarrow> Inl 400 | Some d \<Rightarrow> Inr (limit_read (page_max + 1) d))
      else page_part ps)"

definition uploaded_page :: "(bytes \<Rightarrow> bytes option) \<Rightarrow> upload \<Rightarrow> nat + bytes" where
  "uploaded_page dec u =
     (case u of
        BadMultipart \<Rightarrow> Inl 400
      | Multipart ps \<Rightarrow> page_part ps
      | Raw None \<Rightarrow> Inl 400
      | Raw (Some b) \<Rightarrow>
          (let raw = limit_read (page_max + 1024) b
           in if page_max < int (length raw) then Inl 413
              else (case dec raw of None \<Rightarrow> Inl 400 | Some d \<Rightarrow> Inr d)))"

text \<open>The status code of an error, success, or the answer to GET.\<close>

record page_info =
  pf_custom :: bool
  pf_path :: string
  pf_max :: int
  pf_listen :: string
  pf_webroot :: string
  pf_enabled :: bool

datatype api_answer = ApiError nat | ApiOk | ApiInfo page_info

definition accept_page :: "page_conf \<Rightarrow> page_io \<Rightarrow> bytes \<Rightarrow> fs \<Rightarrow> api_answer \<times> fs" where
  "accept_page cf io data F =
     (if page_max < int (length data) then (ApiError 413, F)
      else if trim_space data = [] then (ApiError 400, F)
      else case write_blockpage cf io data F of (F', ok) \<Rightarrow> (if ok then ApiOk else ApiError 500, F'))"

definition handle_blockpage ::
  "(bytes \<Rightarrow> bytes option) \<Rightarrow> page_conf \<Rightarrow> page_io \<Rightarrow> page_method \<Rightarrow> upload \<Rightarrow> fs \<Rightarrow> api_answer \<times> fs" where
  "handle_blockpage dec cf io m u F =
     (case m of
        MGet \<Rightarrow>
          (ApiInfo \<lparr>pf_custom = snd (blockpage_for cf io F), pf_path = pg_path cf, pf_max = page_max,
                    pf_listen = pg_listen cf, pf_webroot = pg_mirror cf,
                    pf_enabled = (pg_listen cf \<noteq> [] \<or> pg_mirror cf \<noteq> [])\<rparr>, F)
      | MPost \<Rightarrow> (case uploaded_page dec u of Inl e \<Rightarrow> (ApiError e, F) | Inr d \<Rightarrow> accept_page cf io d F)
      | MDelete \<Rightarrow> (case reset_blockpage cf io F of (F', ok) \<Rightarrow> (if ok then ApiOk else ApiError 500, F'))
      | _ \<Rightarrow> (ApiError 405, F))"

subsection \<open>Facts\<close>

text \<open>No byte of an escaped text opens a tag or closes an attribute, and the text can be read back.\<close>

lemma html_escape_safe: "c \<in> set (html_escape s) \<Longrightarrow> c \<notin> {CHR ''<'', CHR ''>'', CHR 0x22, CHR 0x27}"
  by (induction s) (auto simp: html_escape_def html_escape_char_def split: if_splits)

fun html_unescape :: "string \<Rightarrow> string" where
  "html_unescape [] = []"
| "html_unescape (c # s) =
     (if c \<noteq> CHR ''&'' then c # html_unescape s
      else if prefix ''amp;'' s then CHR ''&'' # html_unescape (drop 4 s)
      else if prefix ''#39;'' s then CHR 0x27 # html_unescape (drop 4 s)
      else if prefix ''lt;'' s then CHR ''<'' # html_unescape (drop 3 s)
      else if prefix ''gt;'' s then CHR ''>'' # html_unescape (drop 3 s)
      else if prefix ''#34;'' s then CHR 0x22 # html_unescape (drop 4 s)
      else c # html_unescape s)"

lemma html_unescape_escape: "html_unescape (html_escape s) = s"
  by (induction s) (auto simp: html_escape_def html_escape_char_def)

lemma find_sub_some:
  "find_sub p s = Some i \<Longrightarrow> \<exists>a b. s = a @ p @ b \<and> length a = i"
proof (induction p s arbitrary: i rule: find_sub.induct)
  case (2 p c s)
  show ?case
  proof (cases "prefix p (c # s)")
    case True
    then show ?thesis using 2(2) by (auto simp: prefix_def)
  next
    case False
    then obtain j where j: "find_sub p s = Some j" "i = Suc j" using 2(2) by auto
    from 2(1) [OF False j(1)] obtain a b where "s = a @ p @ b" "length a = j" by blast
    then show ?thesis using j(2) by (intro exI [of _ "c # a"] exI [of _ b]) auto
  qed
qed (auto split: if_splits)

lemma find_sub_least:
  "find_sub p s = Some i \<Longrightarrow> s = a @ p @ b \<Longrightarrow> i \<le> length a"
proof (induction p s arbitrary: i a rule: find_sub.induct)
  case (2 p c s)
  show ?case
  proof (cases "prefix p (c # s)")
    case False
    then obtain j where j: "find_sub p s = Some j" "i = Suc j" using 2(2) by auto
    show ?thesis
    proof (cases a)
      case Nil
      then show ?thesis using 2(3) False by (auto simp: prefix_def)
    next
      case (Cons x a')
      then show ?thesis using 2(1) [OF False j(1), of a'] 2(3) j(2) by simp
    qed
  qed (use 2(2) in simp)
qed (auto split: if_splits)

lemma find_sub_none: "find_sub p s = None \<Longrightarrow> s \<noteq> a @ p @ b"
proof (induction p s arbitrary: a rule: find_sub.induct)
  case (2 p c s)
  then have f: "\<not> prefix p (c # s)" "find_sub p s = None" by (auto split: if_splits)
  show ?case
  proof (cases a)
    case Nil
    then show ?thesis using f(1) by (auto simp: prefix_def)
  next
    case (Cons x a')
    then show ?thesis using 2(1) [OF f, of a'] by auto
  qed
qed (auto split: if_splits)

text \<open>
  What a client should see of the page \<open>d\<close>: the page itself when it has no placeholder, and else the page
  with its first placeholder replaced by a text without markup that a browser shows as \<open>host\<close>.
\<close>

definition page_for :: "bytes \<Rightarrow> string \<Rightarrow> bytes \<Rightarrow> bool" where
  "page_for d host out \<longleftrightarrow>
     (if \<exists>a b. d = a @ placeholder @ b
      then (\<exists>a b esc. d = a @ placeholder @ b \<and> (\<forall>a' b'. d = a' @ placeholder @ b' \<longrightarrow> length a \<le> length a')
              \<and> out = a @ esc @ b \<and> html_unescape esc = host
              \<and> set esc \<inter> {CHR ''<'', CHR ''>'', CHR 0x22, CHR 0x27} = {})
      else out = d)"

text \<open>The host a client asked for, without its port.\<close>

definition asked_host :: "string \<Rightarrow> string \<Rightarrow> string" where
  "asked_host req_host url_host =
     (let h = (if req_host = [] then if url_host = [] then ''situs ini'' else url_host else req_host)
      in case split_host_port h of None \<Rightarrow> h | Some (host, port) \<Rightarrow> host)"

lemma fill_placeholder_page:
  assumes "html_unescape esc = host" and "set esc \<inter> {CHR ''<'', CHR ''>'', CHR 0x22, CHR 0x27} = {}"
  shows "page_for d host (fill_placeholder d esc)"
proof (cases "find_sub placeholder d")
  case None
  then have "\<nexists>a b. d = a @ placeholder @ b" using find_sub_none by blast
  with None show ?thesis by (simp add: page_for_def fill_placeholder_def)
next
  case (Some i)
  from find_sub_some [OF this] obtain a b where ab: "d = a @ placeholder @ b" "length a = i" by blast
  have least: "\<forall>a' b'. d = a' @ placeholder @ b' \<longrightarrow> length a \<le> length a'"
    using find_sub_least [OF Some] ab(2) by blast
  have out: "fill_placeholder d esc = a @ esc @ b" using Some ab by (simp add: fill_placeholder_def)
  have "\<exists>a b. d = a @ placeholder @ b" using ab(1) by blast
  then show ?thesis unfolding page_for_def
    using ab(1) least out assms by (simp only: if_True) blast
qed

text \<open>\<open>atomicWrite\<close> touches its target and the name beside it only.\<close>

lemma page_atomic_write:
  "atomic_write F p d w rn = (F', True) \<Longrightarrow> F' p = Some d"
  "atomic_write F p d w rn = (F', b) \<Longrightarrow> q \<noteq> p \<Longrightarrow> q \<noteq> tmp_name p \<Longrightarrow> F' q = F q"
  "atomic_write F p d w rn = (F', False) \<Longrightarrow> F' p = F p"
  by (auto simp: atomic_write_def write_file_def rename_file_def tmp_name_def split: write_result.splits if_splits)

definition page_names :: "page_conf \<Rightarrow> bool" where
  "page_names cf \<longleftrightarrow> pg_path cf \<noteq> pg_mirror cf \<and> pg_path cf \<noteq> tmp_name (pg_mirror cf)"

lemma write_mirror_ok:
  assumes "write_mirror cf io d F = (F', b)"
  shows "page_names cf \<Longrightarrow> F' (pg_path cf) = F (pg_path cf)"
    "b \<Longrightarrow> pg_mirror cf \<noteq> [] \<Longrightarrow> F' (pg_mirror cf) = Some d"
  using assms page_atomic_write
  by (auto simp: write_mirror_def page_names_def split: if_splits)

lemma write_blockpage_ok:
  assumes "write_blockpage cf io d F = (F', True)" and "page_names cf"
  shows "F' (pg_path cf) = Some d" "pg_mirror cf \<noteq> [] \<Longrightarrow> F' (pg_mirror cf) = Some d"
proof -
  obtain F1 where a: "atomic_write F (pg_path cf) d (pi_write io) (pi_rename io) = (F1, True)"
    and m: "write_mirror cf io d F1 = (F', True)"
    using assms(1) by (auto simp: write_blockpage_def split: prod.splits bool.splits)
  show "F' (pg_path cf) = Some d" using write_mirror_ok(1) [OF m assms(2)] page_atomic_write(1) [OF a] by simp
  show "pg_mirror cf \<noteq> [] \<Longrightarrow> F' (pg_mirror cf) = Some d" using write_mirror_ok(2) [OF m] by simp
qed

text \<open>
  The page is replaced before the mirror is written: when the mirror fails, the upload is answered with
  an error although the new page is already served.
\<close>

lemma failed_upload_is_live:
  assumes "page_names cf" and "pg_mirror cf \<noteq> []" and "pi_mirror io = WriteFailed c"
    and "pi_write io = Written" and "pi_rename io" and "int (length d) \<le> page_max" and "trim_space d \<noteq> []"
  shows "fst (accept_page cf io d F) = ApiError 500 \<and> snd (accept_page cf io d F) (pg_path cf) = Some d"
  using assms
  by (auto simp: accept_page_def write_blockpage_def write_mirror_def atomic_write_def write_file_def rename_file_def
      page_names_def tmp_name_def)

subsection \<open>Properties\<close>

lemma blockpage_for_stored:
  "F (pg_path cf) = Some d \<Longrightarrow> trim_space d \<noteq> [] \<Longrightarrow> pi_read io \<Longrightarrow> blockpage_for cf io F = (d, True)"
  by (simp add: blockpage_for_def)

lemma reset_serves_default:
  assumes "reset_blockpage cf io F = (G, True)" and "page_names cf"
  shows "blockpage_for cf io' G = (pg_default cf, False)"
proof -
  have w: "write_mirror cf io (pg_default cf) (F(pg_path cf := None)) = (G, True)"
    using assms(1) by (auto simp: reset_blockpage_def split: if_splits)
  have "G (pg_path cf) = None" using write_mirror_ok(1) [OF w assms(2)] by simp
  then show ?thesis by (simp add: blockpage_for_def)
qed

lemma shown_host_safe:
  "set (shown_host h uh) \<inter> {CHR ''<'', CHR ''>'', CHR 0x22, CHR 0x27} = {}"
  using html_escape_safe unfolding shown_host_def Let_def by blast

lemma shown_host_faithful: "html_unescape (shown_host h uh) = asked_host h uh"
  by (simp add: shown_host_def asked_host_def html_unescape_escape Let_def split: option.split)

lemma served_page:
  "blockpage_for cf io F = (d, c) \<Longrightarrow> \<exists>out. serve_blockpage cf io MGet h uh F = Page out \<and> page_for d (asked_host h uh) out"
  using fill_placeholder_page [OF shown_host_faithful shown_host_safe] by (simp add: serve_blockpage_def)

text \<open>
  C34: An uploaded page is the page that is served. After an upload that was answered with success the
  page is not blank and at most 1 MiB long; every client of the panel's own page listener gets exactly
  this page, in which, when it has a placeholder, the first one is replaced by the host the client asked
  for without its port, as a text without angle bracket and quote that a browser shows as that host; the
  mirror for nginx, when there is one, holds the page as it was uploaded, with its placeholder; and after
  a successful reset every such client gets the built-in page in the same way.
\<close>

theorem uploaded_page_served:
  assumes "handle_blockpage dec cf io MPost u F = (ApiOk, F')" and "page_names cf" and "pi_read io'"
  shows "\<exists>d out. uploaded_page dec u = Inr d \<and> int (length d) \<le> 1048576 \<and> trim_space d \<noteq> []
     \<and> serve_blockpage cf io' MGet h uh F' = Page out \<and> page_for d (asked_host h uh) out
     \<and> (pg_mirror cf \<noteq> [] \<longrightarrow> F' (pg_mirror cf) = Some d)
     \<and> (\<forall>io2 u2 G. handle_blockpage dec cf io2 MDelete u2 F' = (ApiOk, G)
          \<longrightarrow> (\<exists>out'. serve_blockpage cf io' MGet h uh G = Page out' \<and> page_for (pg_default cf) (asked_host h uh) out'))"
proof -
  obtain d where d: "uploaded_page dec u = Inr d" "accept_page cf io d F = (ApiOk, F')"
    using assms(1) by (auto simp: handle_blockpage_def split: sum.splits)
  then have s: "int (length d) \<le> page_max" "trim_space d \<noteq> []" "write_blockpage cf io d F = (F', True)"
    by (auto simp: accept_page_def split: if_splits prod.splits)
  note w = write_blockpage_ok [OF s(3) assms(2)]
  obtain out where "serve_blockpage cf io' MGet h uh F' = Page out" "page_for d (asked_host h uh) out"
    using served_page [OF blockpage_for_stored [of F' cf d io', OF w(1) s(2) assms(3)]] by blast
  moreover have "\<exists>out'. serve_blockpage cf io' MGet h uh G = Page out' \<and> page_for (pg_default cf) (asked_host h uh) out'"
    if "handle_blockpage dec cf io2 MDelete u2 F' = (ApiOk, G)" for io2 u2 G
  proof -
    have "reset_blockpage cf io2 F' = (G, True)"
      using that by (auto simp: handle_blockpage_def split: prod.splits if_splits)
    from served_page [OF reset_serves_default [OF this assms(2)]] show ?thesis .
  qed
  moreover have "int (length d) \<le> 1048576" using s(1) by (simp add: page_max_def)
  ultimately show ?thesis using d(1) s(2) w(2) by blast
qed

definition example_page_conf :: page_conf where
  "example_page_conf = \<lparr>pg_path = ''/b.html'', pg_mirror = ''/w.html'', pg_listen = [], pg_default = ''x {{domain}}''\<rparr>"

definition example_page_io :: page_io where
  "example_page_io = \<lparr>pi_write = Written, pi_rename = True, pi_mirror = Written, pi_mirror_rename = True,
     pi_remove = True, pi_read = True\<rparr>"

theorem uploaded_page_served_witness:
  "\<exists>F'. handle_blockpage Some example_page_conf example_page_io MPost (Raw (Some ''<p>{{domain}}</p>'')) Map.empty = (ApiOk, F')
     \<and> serve_blockpage example_page_conf example_page_io MGet ''a<b:80'' [] F' = Page ''<p>a&lt;b</p>''
     \<and> page_for ''<p>{{domain}}</p>'' ''a<b'' ''<p>a&lt;b</p>''"
proof -
  let ?r = "handle_blockpage Some example_page_conf example_page_io MPost (Raw (Some ''<p>{{domain}}</p>'')) Map.empty"
  have "fst ?r = ApiOk" by code_simp
  then have r: "?r = (ApiOk, snd ?r)" by (metis prod.collapse)
  have n: "page_names example_page_conf" by code_simp
  have rd: "pi_read example_page_io" by code_simp
  have u: "uploaded_page Some (Raw (Some ''<p>{{domain}}</p>'')) = Inr ''<p>{{domain}}</p>''" by code_simp
  have h: "asked_host ''a<b:80'' [] = ''a<b''" by code_simp
  have f: "serve_blockpage example_page_conf example_page_io MGet ''a<b:80'' [] (snd ?r) = Page ''<p>a&lt;b</p>''" by code_simp
  have "\<exists>d out. uploaded_page Some (Raw (Some ''<p>{{domain}}</p>'')) = Inr d
    \<and> serve_blockpage example_page_conf example_page_io MGet ''a<b:80'' [] (snd ?r) = Page out
    \<and> page_for d (asked_host ''a<b:80'' []) out"
    by (rule exE [OF uploaded_page_served [OF r n rd, of "''a<b:80''" "[]"]]) (elim exE conjE, intro exI conjI, assumption+)
  then obtain d out where d: "uploaded_page Some (Raw (Some ''<p>{{domain}}</p>'')) = Inr d"
    and p: "serve_blockpage example_page_conf example_page_io MGet ''a<b:80'' [] (snd ?r) = Page out"
      "page_for d (asked_host ''a<b:80'' []) out"
    by (elim exE conjE)
  have e: "d = ''<p>{{domain}}</p>''" using trans [OF d [symmetric] u] by (rule sum.inject(2) [THEN iffD1])
  have ot: "out = ''<p>a&lt;b</p>''" using trans [OF p(1) [symmetric] f] by (rule page_answer.inject [THEN iffD1])
  have "page_for ''<p>{{domain}}</p>'' ''a<b'' ''<p>a&lt;b</p>''" by (rule p(2) [unfolded e ot h])
  then show ?thesis by (intro exI [of _ "snd ?r"] conjI r f)
qed

end
