(* ===== verification/Panel_Routes.thy ===== *)
theory Panel_Routes
  imports Panel_Config Cluster_Api Block_Page
begin

text \<open>
  The start of the panel and its routes (\<open>main\<close>, \<open>registerMasterRoutes\<close>, \<open>cors\<close>, \<open>filesHandler\<close> of
  \<open>panel/main.go\<close>): which mode the flags select, which patterns are registered with which guard, and how
  a request gets to its handler through \<open>cors\<close>, the request multiplexer of \<open>net/http\<close> and \<open>auth\<close>. The
  handlers themselves are those of the other theories. What is shown: every administrative handler runs
  only for a request that \<open>auth\<close> lets through, and each registered route reaches its own handler.
\<close>

subsection \<open>Start\<close>

record panel_flags =
  pn_proxies :: string
  pn_source_mode :: string
  pn_build_now :: bool
  pn_gen_token :: bool
  pn_master :: bool
  pn_interval :: duration
  pn_http_addr :: string
  pn_tls :: bool
  pn_addr :: string
  pn_blockpage :: string

record panel_listeners =
  ln_nets :: "ip_net list"
  ln_secret :: bytes
  ln_main :: "string \<times> bool"          \<comment> \<open>address, TLS\<close>
  ln_second :: "string option"
  ln_blockpage :: "string option"
  ln_auto_build :: bool

datatype panel_start = BadProxies | BadMode | BuilderDisabled | BuildOnce | MintToken | NoSecret | Listen panel_listeners

text \<open>\<open>secret\<close> is the result of \<open>loadOrGenSecret\<close>.\<close>

definition start_panel :: "panel_flags \<Rightarrow> bytes option \<Rightarrow> panel_start" where
  "start_panel f secret =
     (case set_trusted_proxies (pn_proxies f) [] of
        (False, _) \<Rightarrow> BadProxies
      | (True, nets) \<Rightarrow>
          if \<not> valid_source_mode (pn_source_mode f) then BadMode
          else if pn_build_now f then (if pn_source_mode f = ''rpz-slave'' then BuilderDisabled else BuildOnce)
          else if pn_gen_token f then MintToken
          else (case secret of
                  None \<Rightarrow> NoSecret
                | Some s \<Rightarrow>
                    Listen \<lparr>ln_nets = nets, ln_secret = s, ln_main = (pn_addr f, pn_tls f),
                            ln_second = (if pn_http_addr f = [] then None else Some (pn_http_addr f)),
                            ln_blockpage = (if pn_blockpage f = [] then None else Some (pn_blockpage f)),
                            ln_auto_build = master_auto_build (pn_master f) (pn_source_mode f) (pn_interval f)\<rparr>))"

subsection \<open>Routes\<close>

datatype guard = Unguarded | Session   \<comment> \<open>\<open>auth\<close> around the handler or not\<close>

datatype handler =
  HStatic | HLogin | HStats | HRpzStatus | HRpzTest | HUpstreamStatus | HDnstapStatus | HClusterTokens | HHealth
| HCdbManifest | HCdbBlacklist | HCdbHealthz | HCdbSources | HConfig | HRpz | HUpstream | HSafeSearch | HLocalBlock
| HDotDoh | HSettings | HBlockpage | HMasterStatus | HMasterBuild | HMasterSources | HMasterWhitelist
| HMasterCustomBlacklist | HClusterToken | HClusterNodes | HClusterRegister | HClusterHeartbeat | HClusterProfileFetch
| HSmartDistProfiles | HSmartDistAssign | HEdgeClusterConfig | HDnstapTop | HFiles

type_synonym route = "string \<times> guard \<times> handler"

definition master_routes :: "route list" where
  "master_routes =
     [(''/api/master/status'', Session, HMasterStatus), (''/api/master/build'', Session, HMasterBuild),
      (''/api/master/sources'', Session, HMasterSources), (''/api/master/whitelist'', Session, HMasterWhitelist),
      (''/api/master/custom-blacklist'', Session, HMasterCustomBlacklist)]"

definition cluster_routes :: "route list" where
  "cluster_routes =
     [(''/api/cluster/token'', Session, HClusterToken), (''/api/cluster/nodes'', Session, HClusterNodes),
      (''/api/cluster/register'', Unguarded, HClusterRegister), (''/api/cluster/heartbeat'', Unguarded, HClusterHeartbeat),
      (''/api/cluster/profile'', Unguarded, HClusterProfileFetch), (''/api/cluster/profiles'', Session, HSmartDistProfiles),
      (''/api/cluster/profile/assign'', Session, HSmartDistAssign)]"

definition panel_routes :: "bool \<Rightarrow> route list" where
  "panel_routes master =
     [(''/'', Unguarded, HStatic), (''/api/login'', Unguarded, HLogin), (''/api/stats'', Session, HStats),
      (''/api/rpz/status'', Session, HRpzStatus), (''/api/rpz/test'', Session, HRpzTest),
      (''/api/upstream/status'', Session, HUpstreamStatus), (''/api/dnstap/status'', Session, HDnstapStatus),
      (''/api/cluster/tokens'', Session, HClusterTokens), (''/api/health'', Unguarded, HHealth),
      (''/cdb/manifest.json'', Unguarded, HCdbManifest), (''/cdb/blacklist.db'', Unguarded, HCdbBlacklist),
      (''/cdb/healthz'', Unguarded, HCdbHealthz), (''/cdb/sources.json'', Unguarded, HCdbSources),
      (''/api/config'', Session, HConfig), (''/api/rpz'', Session, HRpz), (''/api/upstream'', Session, HUpstream),
      (''/api/safesearch'', Session, HSafeSearch), (''/api/localblock'', Session, HLocalBlock),
      (''/api/dotdoh'', Session, HDotDoh), (''/api/settings'', Session, HSettings),
      (''/api/blockpage'', Session, HBlockpage)]
     @ (if master then master_routes @ cluster_routes else [])
     @ [(''/api/cluster/config'', Session, HEdgeClusterConfig), (''/api/dnstap/top'', Session, HDnstapTop),
        (''/files/'', Unguarded, HFiles)]"

subsection \<open>The request multiplexer\<close>

text \<open>
  \<open>http.ServeMux\<close>: the path is cleaned, a path whose subtree is registered is redirected to it, an
  unclean path is redirected to the clean one, then the exact pattern or else the longest pattern that
  ends in a slash and is a prefix decides. Percent escapes are taken as resolved.
\<close>

definition mux_clean :: "string \<Rightarrow> string" where
  "mux_clean p =
     (if p = [] then ''/''
      else let q = (if prefix ''/'' p then p else CHR ''/'' # p); c = path_clean q
           in if suffix ''/'' q \<and> c \<noteq> ''/'' then c @ ''/'' else c)"

definition mux_exact :: "route list \<Rightarrow> string \<Rightarrow> route option" where
  "mux_exact rs path = find (\<lambda>r. fst r = path) rs"

definition mux_match :: "route list \<Rightarrow> string \<Rightarrow> route option" where
  "mux_match rs path =
     (case mux_exact rs path of
        Some r \<Rightarrow> Some r
      | None \<Rightarrow>
          (case filter (\<lambda>r. suffix ''/'' (fst r) \<and> prefix (fst r) path) rs of
             [] \<Rightarrow> None
           | c # cs \<Rightarrow> Some (foldl (\<lambda>b r. if length (fst b) < length (fst r) then r else b) c cs)))"

record panel_request =
  rq_method :: string
  rq_path :: string
  rq_authorization :: string

datatype panel_outcome = Preflight | Redirected string | NotRouted | Denied int | RunHandler handler

text \<open>\<open>cors\<close> answers OPTIONS itself; \<open>auth\<close> stands in front of the guarded handlers.\<close>

definition panel_serve :: "crypto \<Rightarrow> bytes \<Rightarrow> time \<Rightarrow> bool \<Rightarrow> panel_request \<Rightarrow> panel_outcome" where
  "panel_serve C secret now master rq =
     (if rq_method rq = ''OPTIONS'' then Preflight
      else
        (let rs = panel_routes master;
             p = (if rq_method rq = ''CONNECT'' then rq_path rq else mux_clean (rq_path rq))
         in if mux_exact rs p = None \<and> \<not> suffix ''/'' p \<and> p \<noteq> [] \<and> mux_exact rs (p @ ''/'') \<noteq> None
            then Redirected (p @ ''/'')
            else if p \<noteq> rq_path rq then Redirected p
            else (case mux_match rs p of
                    None \<Rightarrow> NotRouted
                  | Some (_, Unguarded, h) \<Rightarrow> RunHandler h
                  | Some (_, Session, h) \<Rightarrow>
                      (case auth C secret now (rq_authorization rq) of Some c \<Rightarrow> Denied c | None \<Rightarrow> RunHandler h))))"

text \<open>\<open>filesHandler\<close>: a name with a hidden segment does not exist; the rest goes to the file server.\<close>

definition files_handler :: "string \<Rightarrow> string option" where
  "files_handler path =
     (let rel = trim_prefix path ''/files/''
      in if \<exists>seg \<in> set (split_on (CHR ''/'') rel). prefix ''.'' seg then None else Some rel)"

subsection \<open>Facts\<close>

definition public_handlers :: "handler list" where
  "public_handlers =
     [HStatic, HLogin, HHealth, HCdbManifest, HCdbBlacklist, HCdbHealthz, HCdbSources, HClusterRegister,
      HClusterHeartbeat, HClusterProfileFetch, HFiles]"

lemma routes_distinct: "distinct (map fst (panel_routes master))"
  by (cases master) (simp_all only:, code_simp, code_simp)

lemma routes_clean: "list_all (\<lambda>r. mux_clean (fst r) = fst r) (panel_routes master)"
  by (cases master) (simp_all only:, code_simp, code_simp)

lemma routes_public: "list_all (\<lambda>r. fst (snd r) = Unguarded \<longleftrightarrow> snd (snd r) \<in> set public_handlers) (panel_routes master)"
  by (cases master) (simp_all only:, code_simp, code_simp)

lemma find_distinct:
  "distinct (map fst rs) \<Longrightarrow> r \<in> set rs \<Longrightarrow> find (\<lambda>x. fst x = fst r) rs = Some r"
  by (induction rs) force+

lemma foldl_choice: "foldl (\<lambda>b r. if P b r then r else b) c cs \<in> insert c (set cs)"
  by (induction cs arbitrary: c) auto

lemma mux_match_in: "mux_match rs p = Some r \<Longrightarrow> r \<in> set rs"
proof (cases "mux_exact rs p")
  case None
  let ?F = "filter (\<lambda>r. suffix ''/'' (fst r) \<and> prefix (fst r) p) rs"
  assume "mux_match rs p = Some r"
  then obtain c cs where f: "?F = c # cs"
    and r: "r = foldl (\<lambda>b r. if length (fst b) < length (fst r) then r else b) c cs"
    using None by (auto simp: mux_match_def split: list.splits)
  have "r \<in> set ?F" unfolding f r using foldl_choice [of _ c cs] by simp
  then show ?thesis by simp
next
  case (Some x)
  assume "mux_match rs p = Some r"
  then have "r = x" using Some by (simp add: mux_match_def)
  moreover have "x \<in> set rs" using Some by (auto simp: mux_exact_def find_Some_iff)
  ultimately show ?thesis by simp
qed

lemma route_served:
  assumes "(p, g, h) \<in> set (panel_routes master)" and "rq_path rq = p" and "rq_method rq \<noteq> ''OPTIONS''"
  shows "panel_serve C secret now master rq =
    (if g = Unguarded then RunHandler h
     else case auth C secret now (rq_authorization rq) of Some c \<Rightarrow> Denied c | None \<Rightarrow> RunHandler h)"
proof -
  have c: "mux_clean p = p" using routes_clean [of master] assms(1) by (fastforce simp: list_all_iff)
  have e: "mux_exact (panel_routes master) p = Some (p, g, h)"
    using find_distinct [OF routes_distinct assms(1)] by (simp add: mux_exact_def)
  then have m: "mux_match (panel_routes master) p = Some (p, g, h)" by (simp add: mux_match_def)
  show ?thesis
    using assms(2,3) by (cases g) (simp_all add: panel_serve_def c e m)
qed

lemma served_guarded:
  assumes "panel_serve C secret now master rq = RunHandler h"
  obtains p g where "(p, g, h) \<in> set (panel_routes master)" "rq_method rq \<noteq> ''OPTIONS''"
    "g = Unguarded \<or> auth C secret now (rq_authorization rq) = None"
proof -
  let ?p = "if rq_method rq = ''CONNECT'' then rq_path rq else mux_clean (rq_path rq)"
  obtain p g where m: "mux_match (panel_routes master) ?p = Some (p, g, h)" "rq_method rq \<noteq> ''OPTIONS''"
    "g = Unguarded \<or> auth C secret now (rq_authorization rq) = None"
    using assms unfolding panel_serve_def Let_def
    by (auto split: if_split_asm option.split_asm prod.split_asm guard.split_asm)
  with mux_match_in [OF m(1)] show thesis by (intro that) auto
qed

text \<open>No hidden file or directory, and no step upwards, gets to the file server.\<close>

lemma files_handler_visible:
  "files_handler path = Some rel \<Longrightarrow> seg \<in> set (split_on (CHR ''/'') rel) \<Longrightarrow> seg \<noteq> ''..'' \<and> \<not> prefix ''.'' seg"
  by (auto simp: files_handler_def Let_def split: if_splits)

subsection \<open>The body limit of a session\<close>

text \<open>
  \<open>auth\<close> wraps the body in \<open>http.MaxBytesReader\<close>: a read past \<open>maxJSONBody\<close> fails. On an upload of the
  block page that is not multipart, this comes before the limit of the handler.
\<close>

definition max_json_body :: int where "max_json_body = 1048576"

fun session_body :: "upload \<Rightarrow> upload" where
  "session_body (Raw (Some b)) = Raw (if max_json_body < int (length b) then None else Some b)"
| "session_body u = u"

lemma length_limit_read: "length (limit_read n b) \<le> length b"
  by (induction n b rule: limit_read.induct) auto

text \<open>The answer 413 for an oversized body is never given behind \<open>auth\<close>; it becomes 400.\<close>

lemma oversized_body_is_bad_request:
  "uploaded_page dec (session_body (Raw body)) \<noteq> Inl 413"
  "page_max < int (length b) \<Longrightarrow>
     fst (handle_blockpage dec cf io MPost (session_body (Raw (Some b))) F) = ApiError 400"
proof -
  show "uploaded_page dec (session_body (Raw body)) \<noteq> Inl 413"
  proof (cases body)
    case (Some b)
    then show ?thesis
      using length_limit_read [of "page_max + 1024" b]
      by (auto simp: uploaded_page_def Let_def max_json_body_def page_max_def split: option.splits)
  qed (simp add: uploaded_page_def)
  show "fst (handle_blockpage dec cf io MPost (session_body (Raw (Some b))) F) = ApiError 400"
    if "page_max < int (length b)"
    using that by (simp add: handle_blockpage_def uploaded_page_def max_json_body_def page_max_def)
qed

subsection \<open>Properties\<close>

text \<open>
  C35: The routes are guarded. Whatever the request, a handler outside the public ones (the static page,
  login, health, the database publisher with its own token, enrolment, heartbeat and profile fetch with
  the key of a node, and the public files) runs only if \<open>auth\<close> accepts the request, and never for a
  preflight; the handlers of a master run only on a master. Conversely each registered route reaches its
  own handler: no pattern shadows another, and a guarded one runs exactly when \<open>auth\<close> accepts.
\<close>

theorem admin_routes_guarded:
  "(\<forall>h. panel_serve C secret now master rq = RunHandler h \<longrightarrow>
      (h \<notin> set public_handlers \<longrightarrow> auth C secret now (rq_authorization rq) = None)
      \<and> rq_method rq \<noteq> ''OPTIONS''
      \<and> (h \<in> snd ` snd ` set (master_routes @ cluster_routes) \<longrightarrow> master))
   \<and> (\<forall>(p, g, h) \<in> set (panel_routes master). rq_path rq = p \<longrightarrow> rq_method rq \<noteq> ''OPTIONS'' \<longrightarrow>
        panel_serve C secret now master rq =
          (if g = Unguarded then RunHandler h
           else case auth C secret now (rq_authorization rq) of Some c \<Rightarrow> Denied c | None \<Rightarrow> RunHandler h))"
proof (intro conjI allI impI ballI)
  fix h assume run: "panel_serve C secret now master rq = RunHandler h"
  then obtain p g where r: "(p, g, h) \<in> set (panel_routes master)" "rq_method rq \<noteq> ''OPTIONS''"
    "g = Unguarded \<or> auth C secret now (rq_authorization rq) = None" by (rule served_guarded)
  show "rq_method rq \<noteq> ''OPTIONS''" by (rule r(2))
  show "auth C secret now (rq_authorization rq) = None" if "h \<notin> set public_handlers"
    using routes_public [of master] r(1,3) that by (fastforce simp: list_all_iff)
  show master if "h \<in> snd ` snd ` set (master_routes @ cluster_routes)"
  proof (rule ccontr)
    assume "\<not> master"
    then have "h \<in> snd ` snd ` set (panel_routes False)" using r(1) by force
    with that show False by (auto simp: panel_routes_def master_routes_def cluster_routes_def)
  qed
next
  fix x assume a: "x \<in> set (panel_routes master)"
  obtain p g h where x: "x = (p, g, h)" by (cases x)
  show "case x of (p, g, h) \<Rightarrow> rq_path rq = p \<longrightarrow> rq_method rq \<noteq> ''OPTIONS'' \<longrightarrow>
        panel_serve C secret now master rq =
          (if g = Unguarded then RunHandler h
           else case auth C secret now (rq_authorization rq) of Some c \<Rightarrow> Denied c | None \<Rightarrow> RunHandler h)"
    unfolding x prod.case by (intro impI) (rule route_served [OF a [unfolded x]])
qed

definition example_panel_request :: "string \<Rightarrow> panel_request" where
  "example_panel_request p = \<lparr>rq_method = ''GET'', rq_path = p, rq_authorization = []\<rparr>"

theorem admin_routes_guarded_witness:
  "panel_serve example_crypto [] 0 True (example_panel_request ''/api/cluster/nodes'') = Denied 401
   \<and> panel_serve example_crypto [] 0 True (example_panel_request ''/api/health'') = RunHandler HHealth"
proof -
  note r = admin_routes_guarded [where C = example_crypto and secret = "[]" and now = 0 and master = True,
      THEN conjunct2, THEN bspec]
  have m: "(''/api/cluster/nodes'', Session, HClusterNodes) \<in> set (panel_routes True)"
    "(''/api/health'', Unguarded, HHealth) \<in> set (panel_routes True)" by code_simp+
  have d: "auth example_crypto [] 0 [] = Some 401" by code_simp
  have g: "rq_method (example_panel_request p) \<noteq> ''OPTIONS''" "rq_path (example_panel_request p) = p"
    "rq_authorization (example_panel_request p) = []" for p by (simp_all add: example_panel_request_def)
  have "panel_serve example_crypto [] 0 True (example_panel_request ''/api/cluster/nodes'') = Denied 401"
    using r [OF m(1), of "example_panel_request ''/api/cluster/nodes''"] unfolding prod.case g(2,3) d
    using g(1) by (simp only: guard.distinct if_False option.case simp_thms)
  moreover have "panel_serve example_crypto [] 0 True (example_panel_request ''/api/health'') = RunHandler HHealth"
    using r [OF m(2), of "example_panel_request ''/api/health''"] unfolding prod.case g(2)
    using g(1) by (simp only: if_True simp_thms)
  ultimately show ?thesis by blast
qed

end
