(* ===== verification/Profile_Doc.thy ===== *)
theory Profile_Doc
  imports Go_Net
begin

text \<open>
  The profile document of \<open>panel/smartdist_profile.go\<close>: its settings, the validation of the dnsdist
  section and of the rules, and \<open>parseSmartDistProfile\<close> with the canonical bytes and their hash.

  The reflective codec of \<open>encoding/json\<close> for these structs is the argument \<open>J\<close>; \<open>codec_ok\<close> states
  what is documented of it: a decoded value survives \<open>Marshal\<close> followed by a decoder for the struct
  or for a part of it. A nil slice and an empty one are the same list here.
\<close>

subsection \<open>Data\<close>

record rule_spec =
  r_type :: string
  r_name :: string
  r_file :: string
  r_pattern :: string
  r_target :: string
  r_ipset :: string
  r_targets :: "string list"
  r_exclude :: string

record upstream =
  u_name :: string
  u_addr :: string
  u_pool :: string

record dnsdist_settings =
  d_mode :: string
  d_sink4 :: "string list"
  d_sink6 :: "string list"
  d_acl :: "string list"
  d_ups :: "upstream list"
  d_ecs4 :: "int option"
  d_ecs6 :: "int option"
  d_qps :: "int option"
  d_conns :: "int option"
  d_queries :: "int option"

record profile =
  p_id :: string
  p_name :: string
  p_enabled :: bool
  p_rules :: "rule_spec list"
  p_dnsdist :: "dnsdist_settings option"

record profile_codec =
  pc_decode :: "bytes \<Rightarrow> profile option"  \<comment> \<open>\<open>Decode\<close> with \<open>DisallowUnknownFields\<close>\<close>
  pc_encode :: "profile \<Rightarrow> bytes"          \<comment> \<open>\<open>json.Marshal\<close>\<close>
  pc_loose :: "bytes \<Rightarrow> profile option"   \<comment> \<open>\<open>json.Unmarshal\<close> into \<open>SmartDistProfile\<close>\<close>
  pc_doc :: "bytes \<Rightarrow> (bool \<times> rule_spec list) option"  \<comment> \<open>\<open>json.Unmarshal\<close> into \<open>smartDistProfileDoc\<close>\<close>

definition codec_ok :: "profile_codec \<Rightarrow> bool" where
  "codec_ok J \<longleftrightarrow> (\<forall>b p. pc_decode J b = Some p \<longrightarrow>
     pc_decode J (pc_encode J p) = Some p \<and> pc_loose J (pc_encode J p) = Some p
     \<and> pc_doc J (pc_encode J p) = Some (p_enabled p, p_rules p))"

subsection \<open>Validation\<close>

text \<open>The regular expression \<open>^[a-z0-9-]{1,40}$\<close>.\<close>

definition name_re :: "string \<Rightarrow> bool" where
  "name_re s \<longleftrightarrow> 1 \<le> length s \<and> length s \<le> 40
     \<and> list_all (\<lambda>c. (97 \<le> byte c \<and> byte c \<le> 122) \<or> is_digit c \<or> c = CHR ''-'') s"

datatype section_error =
    BadMode string | BadSink4 string | BadSink6 string | TooManyAcl | BadAcl string | TooManyUpstreams
  | BadUpName string | BadUpPool string | BadUpAddr string | OutOfRange string int int int

fun first_error :: "'e option list \<Rightarrow> 'e option" where
  "first_error [] = None"
| "first_error (Some e # xs) = Some e"
| "first_error (None # xs) = first_error xs"

definition range_int :: "string \<Rightarrow> int option \<Rightarrow> int \<Rightarrow> int \<Rightarrow> section_error option" where
  "range_int name v lo hi =
     (case v of None \<Rightarrow> None
      | Some n \<Rightarrow> if n < lo \<or> hi < n then Some (OutOfRange name n lo hi) else None)"

definition sink_error :: "(ip \<times> bool \<Rightarrow> bool) \<Rightarrow> (string \<Rightarrow> section_error) \<Rightarrow> string \<Rightarrow> section_error option" where
  "sink_error ok bad s = (case parse_addr s of Some a \<Rightarrow> if ok a then None else Some (bad s) | None \<Rightarrow> Some (bad s))"

definition upstream_error :: "upstream \<Rightarrow> section_error option" where
  "upstream_error u =
     (if \<not> name_re (u_name u) then Some (BadUpName (u_name u))
      else if \<not> name_re (u_pool u) then Some (BadUpPool (u_pool u))
      else if parse_addr_port (u_addr u) = None then Some (BadUpAddr (u_addr u)) else None)"

definition valid_section :: "dnsdist_settings option \<Rightarrow> section_error option" where
  "valid_section sec =
     (case sec of None \<Rightarrow> None
      | Some d \<Rightarrow> first_error
          ([if d_mode d \<noteq> [] \<and> d_mode d \<noteq> ''adguard'' \<and> d_mode d \<noteq> ''rpz'' then Some (BadMode (d_mode d)) else None]
           @ map (sink_error is4 BadSink4) (d_sink4 d)
           @ map (sink_error is6 BadSink6) (d_sink6 d)
           @ [if 256 < int (length (d_acl d)) then Some TooManyAcl else None]
           @ map (\<lambda>c. if parse_prefix c = None then Some (BadAcl c) else None) (d_acl d)
           @ [if 64 < int (length (d_ups d)) then Some TooManyUpstreams else None]
           @ map upstream_error (d_ups d)
           @ [range_int ''ecs_v4'' (d_ecs4 d) 0 32, range_int ''ecs_v6'' (d_ecs6 d) 0 128,
              range_int ''max_qps_per_ip'' (d_qps d) 1 100000, range_int ''tcp_max_conns'' (d_conns d) 1 10000,
              range_int ''tcp_max_queries'' (d_queries d) 1 100000]))"

definition rule_ok :: "rule_spec \<Rightarrow> bool" where
  "rule_ok r =
     (if r_type r = ''ip_set'' then r_name r \<noteq> [] \<and> r_file r \<noteq> []
      else if r_type r = ''cname'' then r_pattern r \<noteq> [] \<and> r_target r \<noteq> []
      else if r_type r = ''alias'' then r_ipset r \<noteq> [] \<and> r_targets r \<noteq> []
      else False)"

datatype profile_error = BadJson | BadId | BadName | BadSection section_error | BadRule nat string

fun check_rules :: "nat \<Rightarrow> rule_spec list \<Rightarrow> profile_error option" where
  "check_rules i [] = None"
| "check_rules i (r # rs) = (if rule_ok r then check_rules (Suc i) rs else Some (BadRule i (r_type r)))"

text \<open>\<open>parseSmartDistProfile\<close>: the profile and its canonical bytes.\<close>

definition parse_profile :: "profile_codec \<Rightarrow> bytes \<Rightarrow> profile_error + profile \<times> bytes" where
  "parse_profile J raw =
     (case pc_decode J raw of
        None \<Rightarrow> Inl BadJson
      | Some p \<Rightarrow>
          if \<not> name_re (p_id p) then Inl BadId
          else if trim_space (p_name p) = [] \<or> 200 < int (length (p_name p)) then Inl BadName
          else (case valid_section (p_dnsdist p) of
                  Some e \<Rightarrow> Inl (BadSection e)
                | None \<Rightarrow> (case check_rules 0 (p_rules p) of
                             Some e \<Rightarrow> Inl e
                           | None \<Rightarrow> Inr (p, pc_encode J p))))"

definition canon_hash :: "lib \<Rightarrow> bytes \<Rightarrow> string" where
  "canon_hash L b = sha256_hex L b"

subsection \<open>What validation accepts\<close>

lemma first_error_None: "first_error xs = None \<longleftrightarrow> (\<forall>x \<in> set xs. x = None)"
  by (induction xs rule: first_error.induct) auto

lemma check_rules_None: "check_rules i rs = None \<longleftrightarrow> list_all rule_ok rs"
  by (induction rs arbitrary: i) auto

definition in_range :: "int option \<Rightarrow> int \<Rightarrow> int \<Rightarrow> bool" where
  "in_range v lo hi \<longleftrightarrow> (\<forall>n. v = Some n \<longrightarrow> lo \<le> n \<and> n \<le> hi)"

lemma range_int_None [simp]: "range_int name v lo hi = None \<longleftrightarrow> in_range v lo hi"
  by (auto simp: range_int_def in_range_def split: option.splits)

text \<open>The settings the generator may print.\<close>

definition section_wf :: "dnsdist_settings \<Rightarrow> bool" where
  "section_wf d \<longleftrightarrow>
     d_mode d \<in> {[], ''adguard'', ''rpz''}
     \<and> (\<forall>s \<in> set (d_sink4 d). \<exists>a z. parse_addr s = Some (a, z) \<and> length a = 4)
     \<and> (\<forall>s \<in> set (d_sink6 d). \<exists>a z. parse_addr s = Some (a, z) \<and> length a = 16)
     \<and> length (d_acl d) \<le> 256
     \<and> (\<forall>c \<in> set (d_acl d). \<exists>a n. parse_prefix c = Some (a, n) \<and> 0 \<le> n \<and> n \<le> 8 * int (length a))
     \<and> length (d_ups d) \<le> 64
     \<and> (\<forall>u \<in> set (d_ups d). name_re (u_name u) \<and> name_re (u_pool u)
          \<and> (\<exists>a p. parse_addr_port (u_addr u) = Some (a, p) \<and> 0 \<le> p \<and> p \<le> 65535))
     \<and> in_range (d_ecs4 d) 0 32 \<and> in_range (d_ecs6 d) 0 128 \<and> in_range (d_qps d) 1 100000
     \<and> in_range (d_conns d) 1 10000 \<and> in_range (d_queries d) 1 100000"

lemma sink_error_None:
  "sink_error ok bad s = None \<longleftrightarrow> (\<exists>a z. parse_addr s = Some (a, z) \<and> ok (a, z))"
  by (auto simp: sink_error_def split: option.splits)

lemma addr_port_ok:
  "(\<exists>a p. parse_addr_port s = Some (a, p) \<and> 0 \<le> p \<and> p \<le> 65535) \<longleftrightarrow> parse_addr_port s \<noteq> None"
  using parse_addr_port_range by fastforce

lemma prefix_ok:
  "(\<exists>a n. parse_prefix c = Some (a, n) \<and> 0 \<le> n \<and> n \<le> 8 * int (length a)) \<longleftrightarrow> parse_prefix c \<noteq> None"
  using parse_prefix_range by fastforce

lemma upstream_error_None:
  "upstream_error u = None \<longleftrightarrow> name_re (u_name u) \<and> name_re (u_pool u) \<and> parse_addr_port (u_addr u) \<noteq> None"
  by (simp add: upstream_error_def)

lemma valid_section_iff: "valid_section (Some d) = None \<longleftrightarrow> section_wf d"
  unfolding section_wf_def addr_port_ok prefix_ok
  by (auto simp: valid_section_def first_error_None ball_Un sink_error_None upstream_error_None is4_def is6_def
      simp del: not_None_eq not_Some_eq)

lemma valid_section_opt: "valid_section sec = None \<longleftrightarrow> (\<forall>d. sec = Some d \<longrightarrow> section_wf d)"
proof (cases sec)
  case None
  then show ?thesis by (simp add: valid_section_def)
next
  case (Some d)
  then show ?thesis using valid_section_iff [of d] by simp
qed

definition profile_wf :: "profile \<Rightarrow> bool" where
  "profile_wf p \<longleftrightarrow> name_re (p_id p) \<and> trim_space (p_name p) \<noteq> [] \<and> length (p_name p) \<le> 200
     \<and> (\<forall>d. p_dnsdist p = Some d \<longrightarrow> section_wf d) \<and> list_all rule_ok (p_rules p)"

lemma parse_profile_Inr:
  "parse_profile J raw = Inr (p, c) \<longleftrightarrow> pc_decode J raw = Some p \<and> profile_wf p \<and> c = pc_encode J p"
  by (auto simp: parse_profile_def profile_wf_def valid_section_opt [symmetric] check_rules_None [of 0, symmetric]
      split: option.splits)

text \<open>Canonical bytes are accepted as they are: parsing them again gives the same profile and bytes.\<close>

lemma parse_canonical:
  assumes "codec_ok J" and "parse_profile J raw = Inr (p, c)"
  shows "parse_profile J c = Inr (p, c)"
  using assms by (auto simp: parse_profile_Inr codec_ok_def)

end
