(* ===== verification/Profile_Store.thy ===== *)
theory Profile_Store
  imports Profile_Doc
begin

text \<open>
  \<open>SmartDistProfileStore\<close> of \<open>panel/smartdist_profile.go\<close>: the canonical documents with their hashes,
  the assignment of nodes to profiles, the history of assignments, the file they are saved to, and
  every operation with its roll back when the file cannot be written. Then the invariant, the
  abstract store the operations implement, recovery from the file, and the audit trail.
\<close>

subsection \<open>The store\<close>

record assign_event =
  ae_at :: time
  ae_from :: string
  ae_to :: string

record profile_disk =
  pd_profiles :: "(string, bytes) fmap"
  pd_assign :: "(string, string) fmap"
  pd_history :: "(string, assign_event list) fmap"

record profile_store =
  ps_path :: string
  ps_profiles :: "(string, bytes \<times> string) fmap"
  ps_assign :: "(string, string) fmap"
  ps_history :: "(string, assign_event list) fmap"
  ps_disk :: "profile_disk option"  \<comment> \<open>the file, when it can be read and parses\<close>

record summary =
  sm_id :: string
  sm_name :: string
  sm_enabled :: bool
  sm_rules :: nat
  sm_hash :: string

datatype store_error = Invalid profile_error | NoProfile | ProfileInUse | StorageFailed

text \<open>What one call meets: outcomes of the writes of the file, readings of the clock.\<close>

record profile_env =
  pe_io :: "nat \<Rightarrow> bool"
  pe_now :: "nat \<Rightarrow> time"

definition max_history :: nat where "max_history = 50"

definition last_events :: "assign_event list \<Rightarrow> assign_event list" where
  "last_events h = (if max_history < length h then drop (length h - max_history) h else h)"

definition load_entry :: "profile_codec \<Rightarrow> lib \<Rightarrow> string \<Rightarrow> bytes \<Rightarrow> (bytes \<times> string) option" where
  "load_entry J L i raw =
     (case parse_profile J raw of
        Inl _ \<Rightarrow> None
      | Inr (p, canon) \<Rightarrow> if p_id p \<noteq> i then None else Some (canon, canon_hash L canon))"

definition load_profiles :: "profile_codec \<Rightarrow> lib \<Rightarrow> (string, bytes) fmap \<Rightarrow> (string, bytes \<times> string) fmap" where
  "load_profiles J L m =
     fmmap_keys (\<lambda>i raw. the (load_entry J L i raw))
       (fmfilter (\<lambda>i. load_entry J L i (the (fmlookup m i)) \<noteq> None) m)"

definition ps_load :: "profile_codec \<Rightarrow> lib \<Rightarrow> profile_store \<Rightarrow> profile_store" where
  "ps_load J L st =
     (case (if ps_path st = [] then None else ps_disk st) of
        None \<Rightarrow> st
      | Some d \<Rightarrow>
          (let profs = ps_profiles st ++\<^sub>f load_profiles J L (pd_profiles d)
           in st\<lparr>ps_profiles := profs,
                 ps_assign := ps_assign st ++\<^sub>f
                   fmfilter (\<lambda>n. the (fmlookup (pd_assign d) n) |\<in>| fmdom profs) (pd_assign d),
                 ps_history := ps_history st ++\<^sub>f fmmap last_events (pd_history d)\<rparr>))"

definition ps_new :: "profile_codec \<Rightarrow> lib \<Rightarrow> string \<Rightarrow> profile_disk option \<Rightarrow> profile_store" where
  "ps_new J L path disk =
     ps_load J L \<lparr>ps_path = path, ps_profiles = fmempty, ps_assign = fmempty, ps_history = fmempty, ps_disk = disk\<rparr>"

definition ps_image :: "profile_store \<Rightarrow> profile_disk" where
  "ps_image st = \<lparr>pd_profiles = fmmap fst (ps_profiles st), pd_assign = ps_assign st, pd_history = ps_history st\<rparr>"

text \<open>\<open>saveLocked\<close>: \<open>atomicWrite\<close> leaves the old file in place when it fails.\<close>

definition ps_save :: "bool \<Rightarrow> profile_store \<Rightarrow> bool \<times> profile_store" where
  "ps_save io st =
     (if ps_path st = [] then (True, st)
      else if io then (True, st\<lparr>ps_disk := Some (ps_image st)\<rparr>) else (False, st))"

subsection \<open>Operations\<close>

definition summarize :: "profile \<Rightarrow> string \<Rightarrow> summary" where
  "summarize p h = \<lparr>sm_id = p_id p, sm_name = p_name p, sm_enabled = p_enabled p,
     sm_rules = length (p_rules p), sm_hash = h\<rparr>"

definition put_back :: "string \<Rightarrow> 'v option \<Rightarrow> (string, 'v) fmap \<Rightarrow> (string, 'v) fmap" where
  "put_back k prev m = (case prev of Some v \<Rightarrow> fmupd k v m | None \<Rightarrow> fmdrop k m)"

definition ps_put ::
  "profile_codec \<Rightarrow> lib \<Rightarrow> profile_env \<Rightarrow> bytes \<Rightarrow> profile_store \<Rightarrow> (store_error + summary) \<times> profile_store" where
  "ps_put J L e raw st =
     (case parse_profile J raw of
        Inl err \<Rightarrow> (Inl (Invalid err), st)
      | Inr (p, canon) \<Rightarrow>
          (let prev = fmlookup (ps_profiles st) (p_id p);
               st1 = st\<lparr>ps_profiles := fmupd (p_id p) (canon, canon_hash L canon) (ps_profiles st)\<rparr>
           in case ps_save (pe_io e 0) st1 of
                (False, st2) \<Rightarrow>
                  (Inl StorageFailed, st2\<lparr>ps_profiles := put_back (p_id p) prev (ps_profiles st2)\<rparr>)
              | (True, st2) \<Rightarrow> (Inr (summarize p (canon_hash L canon)), st2)))"

definition ps_get :: "string \<Rightarrow> profile_store \<Rightarrow> (bytes \<times> string) option" where
  "ps_get i st = fmlookup (ps_profiles st) i"

definition empty_profile :: profile where
  "empty_profile = \<lparr>p_id = [], p_name = [], p_enabled = False, p_rules = [], p_dnsdist = None\<rparr>"

text \<open>\<open>List\<close>; the order in which the map is visited does not matter, as the result is sorted.\<close>

definition ps_list :: "profile_codec \<Rightarrow> profile_store \<Rightarrow> summary list" where
  "ps_list J st =
     sort_key sm_id
       (map (\<lambda>(i, raw, h). summarize (case pc_loose J raw of Some p \<Rightarrow> p | None \<Rightarrow> empty_profile) h)
          (sorted_list_of_fmap (ps_profiles st)))"

definition ps_delete :: "profile_env \<Rightarrow> string \<Rightarrow> profile_store \<Rightarrow> (store_error + unit) \<times> profile_store" where
  "ps_delete e i st =
     (case fmlookup (ps_profiles st) i of
        None \<Rightarrow> (Inl NoProfile, st)
      | Some v \<Rightarrow>
          if i |\<in>| fmran (ps_assign st) then (Inl ProfileInUse, st)
          else (case ps_save (pe_io e 0) (st\<lparr>ps_profiles := fmdrop i (ps_profiles st)\<rparr>) of
                  (False, st2) \<Rightarrow> (Inl StorageFailed, st2\<lparr>ps_profiles := fmupd i v (ps_profiles st2)\<rparr>)
                | (True, st2) \<Rightarrow> (Inr (), st2)))"

definition NUL :: string where "NUL = [CHR 0x00]"

definition prev_of :: "string \<Rightarrow> bool \<Rightarrow> string" where
  "prev_of prev had = (if \<not> had \<or> prev = NUL then [] else prev)"

definition record_event :: "time \<Rightarrow> string \<Rightarrow> string \<Rightarrow> string \<Rightarrow> profile_store \<Rightarrow> profile_store" where
  "record_event now n from to st =
     (if from = to then st
      else (let h = (case fmlookup (ps_history st) n of Some h \<Rightarrow> h | None \<Rightarrow> []) @ [\<lparr>ae_at = now, ae_from = from, ae_to = to\<rparr>]
            in st\<lparr>ps_history := fmupd n (last_events h) (ps_history st)\<rparr>))"

definition persist_history :: "bool \<Rightarrow> profile_store \<Rightarrow> profile_store" where
  "persist_history io st = snd (ps_save io st)"

definition ps_assign_one ::
  "profile_env \<Rightarrow> string \<Rightarrow> string \<Rightarrow> profile_store \<Rightarrow> (store_error + unit) \<times> profile_store" where
  "ps_assign_one e n pid st =
     (let prev = fmlookup (ps_assign st) n
      in if pid \<noteq> [] \<and> pid |\<notin>| fmdom (ps_profiles st) then (Inl NoProfile, st)
         else
           (case ps_save (pe_io e 0)
              (st\<lparr>ps_assign := (if pid = [] then fmdrop n (ps_assign st) else fmupd n pid (ps_assign st))\<rparr>) of
              (False, st2) \<Rightarrow> (Inl StorageFailed, st2\<lparr>ps_assign := put_back n prev (ps_assign st2)\<rparr>)
            | (True, st2) \<Rightarrow>
                (Inr (), persist_history (pe_io e 1)
                   (record_event (pe_now e 0) n (prev_of (case prev of Some v \<Rightarrow> v | None \<Rightarrow> []) (prev \<noteq> None)) pid st2))))"

text \<open>The map of earlier assignments of \<open>AssignMany\<close>; a zero byte stands for none.\<close>

definition prev_map :: "(string, string) fmap \<Rightarrow> string list \<Rightarrow> (string, string) fmap" where
  "prev_map a ns = foldl (\<lambda>m n. fmupd n (case fmlookup a n of Some v \<Rightarrow> v | None \<Rightarrow> NUL) m) fmempty ns"

definition restore_assign :: "(string, string) fmap \<Rightarrow> (string, string) fmap \<Rightarrow> (string, string) fmap" where
  "restore_assign prev a = fmfilter (\<lambda>n. fmlookup prev n \<noteq> Some NUL) (a ++\<^sub>f prev)"

fun record_events ::
  "(nat \<Rightarrow> time) \<Rightarrow> nat \<Rightarrow> (string, string) fmap \<Rightarrow> string \<Rightarrow> string list \<Rightarrow> profile_store \<Rightarrow> profile_store" where
  "record_events now k prev pid [] st = st"
| "record_events now k prev pid (n # ns) st =
     (let v = (case fmlookup prev n of Some v \<Rightarrow> v | None \<Rightarrow> [])
      in record_events now (Suc k) prev pid ns (record_event (now k) n (prev_of v (v \<noteq> NUL)) pid st))"

definition ps_assign_many ::
  "profile_env \<Rightarrow> string list \<Rightarrow> string \<Rightarrow> profile_store \<Rightarrow> (store_error + unit) \<times> profile_store" where
  "ps_assign_many e ns pid st =
     (if pid |\<notin>| fmdom (ps_profiles st) then (Inl NoProfile, st)
      else
        (let prev = prev_map (ps_assign st) ns;
             st1 = st\<lparr>ps_assign := foldl (\<lambda>a n. fmupd n pid a) (ps_assign st) ns\<rparr>
         in case ps_save (pe_io e 0) st1 of
              (False, st2) \<Rightarrow> (Inl StorageFailed, st2\<lparr>ps_assign := restore_assign prev (ps_assign st2)\<rparr>)
            | (True, st2) \<Rightarrow> (Inr (), persist_history (pe_io e 1) (record_events (pe_now e) 0 prev pid ns st2))))"

definition ps_history_of :: "string \<Rightarrow> profile_store \<Rightarrow> assign_event list" where
  "ps_history_of n st = (case fmlookup (ps_history st) n of Some h \<Rightarrow> h | None \<Rightarrow> [])"

definition profile_for_node :: "profile_store \<Rightarrow> string \<Rightarrow> (string \<times> string) option" where
  "profile_for_node st n =
     (case fmlookup (ps_assign st) n of
        None \<Rightarrow> None
      | Some pid \<Rightarrow> (case fmlookup (ps_profiles st) pid of None \<Rightarrow> None | Some (raw, h) \<Rightarrow> Some (pid, h)))"

subsection \<open>Sequences of operations\<close>

datatype profile_op =
    OpPut profile_env bytes
  | OpDrop profile_env string
  | OpAssign profile_env string string
  | OpAssignMany profile_env "string list" string

definition ps_do :: "profile_codec \<Rightarrow> lib \<Rightarrow> profile_op \<Rightarrow> profile_store \<Rightarrow> (store_error + unit) \<times> profile_store" where
  "ps_do J L op st =
     (case op of
        OpPut e raw \<Rightarrow> map_prod (map_sum id (\<lambda>_. ())) id (ps_put J L e raw st)
      | OpDrop e i \<Rightarrow> ps_delete e i st
      | OpAssign e n pid \<Rightarrow> ps_assign_one e n pid st
      | OpAssignMany e ns pid \<Rightarrow> ps_assign_many e ns pid st)"

definition ps_run :: "profile_codec \<Rightarrow> lib \<Rightarrow> profile_op list \<Rightarrow> profile_store \<Rightarrow> profile_store" where
  "ps_run J L ops st = fold (\<lambda>op st. snd (ps_do J L op st)) ops st"

subsection \<open>The invariant\<close>

definition entry_ok :: "profile_codec \<Rightarrow> lib \<Rightarrow> string \<Rightarrow> bytes \<times> string \<Rightarrow> bool" where
  "entry_ok J L i v \<longleftrightarrow>
     (\<exists>p. parse_profile J (fst v) = Inr (p, fst v) \<and> p_id p = i) \<and> snd v = canon_hash L (fst v)"

text \<open>
  Every stored document is canonical, carries its own identifier and its own hash; every assigned
  profile exists; no history is longer than the limit.
\<close>

definition store_inv :: "profile_codec \<Rightarrow> lib \<Rightarrow> profile_store \<Rightarrow> bool" where
  "store_inv J L st \<longleftrightarrow>
     (\<forall>i v. fmlookup (ps_profiles st) i = Some v \<longrightarrow> entry_ok J L i v)
     \<and> (\<forall>n pid. fmlookup (ps_assign st) n = Some pid \<longrightarrow> pid |\<in>| fmdom (ps_profiles st))
     \<and> (\<forall>n h. fmlookup (ps_history st) n = Some h \<longrightarrow> length h \<le> max_history)"

lemma length_last_events: "length (last_events h) \<le> max_history"
  by (simp add: last_events_def)

lemma ps_save_sel [simp]:
  "ps_path (snd (ps_save io st)) = ps_path st" "ps_profiles (snd (ps_save io st)) = ps_profiles st"
  "ps_assign (snd (ps_save io st)) = ps_assign st" "ps_history (snd (ps_save io st)) = ps_history st"
  by (simp_all add: ps_save_def)

lemma ps_save_ok: "fst (ps_save io st) \<longleftrightarrow> ps_path st = [] \<or> io"
  by (simp add: ps_save_def)

lemma ps_save_False: "ps_save io st = (False, st') \<Longrightarrow> st' = st"
  by (simp add: ps_save_def split: if_splits)

lemma ps_save_True:
  assumes "ps_save io st = (True, st')"
  shows "ps_path st' = ps_path st" "ps_profiles st' = ps_profiles st" "ps_assign st' = ps_assign st"
    "ps_history st' = ps_history st" "ps_path st \<noteq> [] \<Longrightarrow> ps_disk st' = Some (ps_image st)"
  using assms by (auto simp: ps_save_def split: if_splits)

lemma persist_history_sel [simp]:
  "ps_path (persist_history io st) = ps_path st" "ps_profiles (persist_history io st) = ps_profiles st"
  "ps_assign (persist_history io st) = ps_assign st" "ps_history (persist_history io st) = ps_history st"
  by (simp_all add: persist_history_def)

lemma record_event_sel [simp]:
  "ps_path (record_event now n from to st) = ps_path st" "ps_profiles (record_event now n from to st) = ps_profiles st"
  "ps_assign (record_event now n from to st) = ps_assign st" "ps_disk (record_event now n from to st) = ps_disk st"
  by (simp_all add: record_event_def Let_def)

lemma record_events_sel [simp]:
  "ps_path (record_events now k prev pid ns st) = ps_path st"
  "ps_profiles (record_events now k prev pid ns st) = ps_profiles st"
  "ps_assign (record_events now k prev pid ns st) = ps_assign st"
  "ps_disk (record_events now k prev pid ns st) = ps_disk st"
  by (induction ns arbitrary: k st) (simp_all add: Let_def)

definition history_bounded :: "profile_store \<Rightarrow> bool" where
  "history_bounded st \<longleftrightarrow> (\<forall>n h. fmlookup (ps_history st) n = Some h \<longrightarrow> length h \<le> max_history)"

lemma record_event_bounded: "history_bounded st \<Longrightarrow> history_bounded (record_event now n from to st)"
  using length_last_events by (auto simp: history_bounded_def record_event_def Let_def)

lemma record_events_bounded: "history_bounded st \<Longrightarrow> history_bounded (record_events now k prev pid ns st)"
  by (induction ns arbitrary: k st) (simp_all add: Let_def record_event_bounded)

lemma fmran_sub: "fmran a |\<subseteq>| A \<longleftrightarrow> (\<forall>n pid. fmlookup a n = Some pid \<longrightarrow> pid |\<in>| A)"
  by (metis fmlookup_ran_iff fsubsetD fsubsetI)

lemma store_inv_alt:
  "store_inv J L st \<longleftrightarrow>
     (\<forall>i v. fmlookup (ps_profiles st) i = Some v \<longrightarrow> entry_ok J L i v)
     \<and> fmran (ps_assign st) |\<subseteq>| fmdom (ps_profiles st) \<and> history_bounded st"
  by (simp only: store_inv_def history_bounded_def fmran_sub)

lemma put_back_same: "put_back k (fmlookup m k) (fmupd k v m) = m"
  by (auto simp: put_back_def intro!: fmap_ext split: option.splits)

lemma fmupd_fmdrop_same: "fmlookup m k = Some v \<Longrightarrow> fmupd k v (fmdrop k m) = m"
  by (auto intro!: fmap_ext)

lemma fmupd_foldl_lookup:
  "fmlookup (foldl (\<lambda>a n. fmupd n pid a) a ns) k = (if k \<in> set ns then Some pid else fmlookup a k)"
  by (induction ns arbitrary: a) auto

lemma prev_map_lookup:
  "fmlookup (prev_map a ns) k = (if k \<in> set ns then Some (case fmlookup a k of Some v \<Rightarrow> v | None \<Rightarrow> NUL) else None)"
proof -
  have "fmlookup (foldl (\<lambda>m n. fmupd n (case fmlookup a n of Some v \<Rightarrow> v | None \<Rightarrow> NUL) m) m0 ns) k =
      (if k \<in> set ns then Some (case fmlookup a k of Some v \<Rightarrow> v | None \<Rightarrow> NUL) else fmlookup m0 k)" for m0
    by (induction ns arbitrary: m0) auto
  then show ?thesis by (simp add: prev_map_def)
qed

lemma restore_assign_same:
  assumes "NUL |\<notin>| fmran a"
  shows "restore_assign (prev_map a ns) (foldl (\<lambda>a n. fmupd n pid a) a ns) = a"
proof (rule fmap_ext)
  fix k
  have "fmlookup a k \<noteq> Some NUL" using assms by (auto simp: fmlookup_ran_iff)
  then show "fmlookup (restore_assign (prev_map a ns) (foldl (\<lambda>a n. fmupd n pid a) a ns)) k = fmlookup a k"
    by (auto simp: restore_assign_def prev_map_lookup fmupd_foldl_lookup fmlookup_dom_iff split: option.splits)
qed

lemma NUL_not_name: "\<not> name_re NUL"
  by (simp add: NUL_def name_re_def is_digit_def)

lemma inv_no_NUL:
  assumes "store_inv J L st"
  shows "NUL |\<notin>| fmran (ps_assign st)" "NUL |\<notin>| fmdom (ps_profiles st)"
proof -
  show "NUL |\<notin>| fmdom (ps_profiles st)"
  proof
    assume "NUL |\<in>| fmdom (ps_profiles st)"
    then obtain v where "fmlookup (ps_profiles st) NUL = Some v" by (auto simp: fmlookup_dom_iff)
    with assms have "entry_ok J L NUL v" unfolding store_inv_def by blast
    then show False using NUL_not_name by (auto simp: entry_ok_def parse_profile_Inr profile_wf_def)
  qed
  with assms show "NUL |\<notin>| fmran (ps_assign st)" by (auto simp: store_inv_alt)
qed

text \<open>A failed operation changes nothing, in memory or on disk.\<close>

lemma ps_put_fail: "ps_put J L e raw st = (Inl err, st') \<Longrightarrow> st' = st"
  by (auto simp: ps_put_def Let_def put_back_same dest!: ps_save_False split: sum.splits prod.splits bool.splits)

lemma ps_delete_fail: "ps_delete e i st = (Inl err, st') \<Longrightarrow> st' = st"
  by (auto simp: ps_delete_def fmupd_fmdrop_same dest!: ps_save_False split: option.splits if_splits prod.splits bool.splits)

lemma ps_assign_fail: "ps_assign_one e n pid st = (Inl err, st') \<Longrightarrow> st' = st"
proof -
  have "put_back n (fmlookup m n) (fmdrop n m) = (m :: (string, string) fmap)" for m
    by (auto simp: put_back_def intro!: fmap_ext split: option.splits)
  then show "ps_assign_one e n pid st = (Inl err, st') \<Longrightarrow> st' = st"
    by (auto simp: ps_assign_one_def Let_def put_back_same dest!: ps_save_False split: if_splits prod.splits bool.splits)
qed

lemma ps_assign_many_fail:
  "store_inv J L st \<Longrightarrow> ps_assign_many e ns pid st = (Inl err, st') \<Longrightarrow> st' = st"
  using inv_no_NUL(1) [of J L st]
  by (auto simp: ps_assign_many_def Let_def restore_assign_same dest!: ps_save_False split: if_splits prod.splits bool.splits)

lemma ps_do_fail:
  assumes "store_inv J L st" and "ps_do J L op st = (Inl err, st')"
  shows "st' = st"
proof (cases op)
  case (OpPut e raw)
  then obtain er where "ps_put J L e raw st = (Inl er, st')"
    using assms(2) by (cases "ps_put J L e raw st"; cases "fst (ps_put J L e raw st)") (auto simp: ps_do_def)
  then show ?thesis by (rule ps_put_fail)
qed (use assms ps_delete_fail ps_assign_fail ps_assign_many_fail in \<open>auto simp: ps_do_def\<close>)

subsection \<open>The abstract store\<close>

type_synonym abs_store = "(string, profile) fmap \<times> (string, string) fmap"

definition ps_abs :: "profile_codec \<Rightarrow> profile_store \<Rightarrow> abs_store" where
  "ps_abs J st = (fmmap (\<lambda>v. the (pc_decode J (fst v))) (ps_profiles st), ps_assign st)"

fun spec_step :: "profile_codec \<Rightarrow> profile_op \<Rightarrow> abs_store \<Rightarrow> store_error + abs_store" where
  "spec_step J (OpPut e raw) (P, A) =
     (case parse_profile J raw of Inl err \<Rightarrow> Inl (Invalid err) | Inr (p, c) \<Rightarrow> Inr (fmupd (p_id p) p P, A))"
| "spec_step J (OpDrop e i) (P, A) =
     (if i |\<notin>| fmdom P then Inl NoProfile else if i |\<in>| fmran A then Inl ProfileInUse else Inr (fmdrop i P, A))"
| "spec_step J (OpAssign e n pid) (P, A) =
     (if pid = [] then Inr (P, fmdrop n A) else if pid |\<notin>| fmdom P then Inl NoProfile else Inr (P, fmupd n pid A))"
| "spec_step J (OpAssignMany e ns pid) (P, A) =
     (if pid |\<notin>| fmdom P then Inl NoProfile else Inr (P, foldl (\<lambda>a n. fmupd n pid a) A ns))"

fun op_env_pe :: "profile_op \<Rightarrow> profile_env" where
  "op_env_pe (OpPut e raw) = e"
| "op_env_pe (OpDrop e i) = e"
| "op_env_pe (OpAssign e n pid) = e"
| "op_env_pe (OpAssignMany e ns pid) = e"

definition saves :: "profile_op \<Rightarrow> profile_store \<Rightarrow> bool" where
  "saves op st \<longleftrightarrow> ps_path st = [] \<or> pe_io (op_env_pe op) 0"

text \<open>The file holds the documents and assignments in memory; the history may lag behind.\<close>

definition disk_synced :: "profile_store \<Rightarrow> bool" where
  "disk_synced st \<longleftrightarrow>
     (\<exists>d. ps_disk st = Some d \<and> pd_profiles d = fmmap fst (ps_profiles st) \<and> pd_assign d = ps_assign st)"

lemma ps_abs_dom [simp]: "fmdom (fst (ps_abs J st)) = fmdom (ps_profiles st)" "snd (ps_abs J st) = ps_assign st"
  by (simp_all add: ps_abs_def)

lemma entry_ok_parse:
  assumes "codec_ok J" and "parse_profile J raw = Inr (p, c)"
  shows "entry_ok J L (p_id p) (c, canon_hash L c)" "pc_decode J c = Some p"
  using parse_canonical [OF assms] by (auto simp: entry_ok_def parse_profile_Inr)

lemma persist_synced:
  "ps_path st \<noteq> [] \<Longrightarrow> disk_synced st \<Longrightarrow> disk_synced (persist_history io st)"
  by (auto simp: disk_synced_def persist_history_def ps_save_def ps_image_def)

lemma save_synced: "ps_save io st = (True, st') \<Longrightarrow> ps_path st \<noteq> [] \<Longrightarrow> disk_synced st'"
  by (auto simp: disk_synced_def ps_save_def ps_image_def split: if_splits)

lemma record_synced: "disk_synced st \<Longrightarrow> disk_synced (record_event now n from to st)"
  "disk_synced st \<Longrightarrow> disk_synced (record_events nows k prev pid ns st)"
  by (simp_all add: disk_synced_def)

lemma bounded_persist [simp]: "history_bounded (persist_history io st) = history_bounded st"
  by (simp add: history_bounded_def)

lemma saves_save:
  assumes "saves op st" and "ps_path st1 = ps_path st"
  obtains st2 where "ps_save (pe_io (op_env_pe op) 0) st1 = (True, st2)"
    "ps_path st2 = ps_path st" "ps_profiles st2 = ps_profiles st1" "ps_assign st2 = ps_assign st1"
    "ps_history st2 = ps_history st1" "ps_path st \<noteq> [] \<Longrightarrow> disk_synced st2"
proof -
  obtain st2 where s: "ps_save (pe_io (op_env_pe op) 0) st1 = (True, st2)"
    using assms ps_save_ok [of "pe_io (op_env_pe op) 0" st1] by (metis saves_def prod.collapse)
  then show ?thesis using that ps_save_True [OF s] save_synced [OF s] assms(2) by simp
qed

lemma not_saves_save: "\<not> saves op st \<Longrightarrow> ps_path st1 = ps_path st \<Longrightarrow> ps_save (pe_io (op_env_pe op) 0) st1 = (False, st1)"
  by (simp add: saves_def ps_save_def)

text \<open>What one successful operation leaves behind.\<close>

definition step_done :: "profile_codec \<Rightarrow> lib \<Rightarrow> abs_store \<Rightarrow> profile_store \<Rightarrow> profile_store \<Rightarrow> bool" where
  "step_done J L a st st' \<longleftrightarrow> ps_abs J st' = a \<and> store_inv J L st' \<and> ps_path st' = ps_path st
     \<and> (ps_path st = [] \<or> disk_synced st')"

lemma ps_put_spec:
  assumes "codec_ok J" and "store_inv J L st" and "saves (OpPut e raw) st" and "parse_profile J raw = Inr (p, c)"
  shows "\<exists>st'. ps_put J L e raw st = (Inr (summarize p (canon_hash L c)), st')
    \<and> step_done J L (fmupd (p_id p) p (fst (ps_abs J st)), ps_assign st) st st'"
proof -
  obtain st2 where s: "ps_save (pe_io e 0) (st\<lparr>ps_profiles := fmupd (p_id p) (c, canon_hash L c) (ps_profiles st)\<rparr>) = (True, st2)"
      "ps_path st2 = ps_path st" "ps_profiles st2 = fmupd (p_id p) (c, canon_hash L c) (ps_profiles st)"
      "ps_assign st2 = ps_assign st" "ps_history st2 = ps_history st" "ps_path st \<noteq> [] \<Longrightarrow> disk_synced st2"
    using saves_save [OF assms(3), of "st\<lparr>ps_profiles := fmupd (p_id p) (c, canon_hash L c) (ps_profiles st)\<rparr>"] by auto
  note e = entry_ok_parse(1) [OF assms(1,4), of L] entry_ok_parse(2) [OF assms(1,4)]
  have "store_inv J L st2"
    using assms(2) e(1) s(3-5) by (auto simp: store_inv_alt history_bounded_def)
  moreover have "ps_abs J st2 = (fmupd (p_id p) p (fst (ps_abs J st)), ps_assign st)"
    using s(3,4) e(2) by (auto simp: ps_abs_def intro!: fmap_ext)
  ultimately have "step_done J L (fmupd (p_id p) p (fst (ps_abs J st)), ps_assign st) st st2"
    using s(2,6) by (auto simp: step_done_def)
  then show ?thesis using s(1) assms(4) by (simp add: ps_put_def)
qed

lemma ps_delete_spec:
  assumes "store_inv J L st" and "saves (OpDrop e i) st" and "i |\<in>| fmdom (ps_profiles st)" and "i |\<notin>| fmran (ps_assign st)"
  shows "\<exists>st'. ps_delete e i st = (Inr (), st') \<and> step_done J L (fmdrop i (fst (ps_abs J st)), ps_assign st) st st'"
proof -
  obtain st2 where s: "ps_save (pe_io e 0) (st\<lparr>ps_profiles := fmdrop i (ps_profiles st)\<rparr>) = (True, st2)"
      "ps_path st2 = ps_path st" "ps_profiles st2 = fmdrop i (ps_profiles st)"
      "ps_assign st2 = ps_assign st" "ps_history st2 = ps_history st" "ps_path st \<noteq> [] \<Longrightarrow> disk_synced st2"
    using saves_save [OF assms(2), of "st\<lparr>ps_profiles := fmdrop i (ps_profiles st)\<rparr>"] by auto
  have "store_inv J L st2"
    using assms(1,4) s(3-5) by (auto simp: store_inv_alt history_bounded_def)
  moreover have "ps_abs J st2 = (fmdrop i (fst (ps_abs J st)), ps_assign st)"
    using s(3,4) by (auto simp: ps_abs_def intro!: fmap_ext)
  ultimately have "step_done J L (fmdrop i (fst (ps_abs J st)), ps_assign st) st st2"
    using s(2,6) by (auto simp: step_done_def)
  then show ?thesis using s(1) assms(3,4) by (auto simp: ps_delete_def fmlookup_dom_iff)
qed

lemma ps_assign_spec:
  assumes "store_inv J L st" and "saves (OpAssign e n pid) st" and "pid = [] \<or> pid |\<in>| fmdom (ps_profiles st)"
  shows "\<exists>st'. ps_assign_one e n pid st = (Inr (), st')
    \<and> step_done J L (fst (ps_abs J st), if pid = [] then fmdrop n (ps_assign st) else fmupd n pid (ps_assign st)) st st'"
proof -
  let ?a = "if pid = [] then fmdrop n (ps_assign st) else fmupd n pid (ps_assign st)"
  obtain st2 where s: "ps_save (pe_io e 0) (st\<lparr>ps_assign := ?a\<rparr>) = (True, st2)"
      "ps_path st2 = ps_path st" "ps_profiles st2 = ps_profiles st"
      "ps_assign st2 = ?a" "ps_history st2 = ps_history st" "ps_path st \<noteq> [] \<Longrightarrow> disk_synced st2"
    using saves_save [OF assms(2), of "st\<lparr>ps_assign := ?a\<rparr>"] by auto
  let ?p = "prev_of (case fmlookup (ps_assign st) n of Some v \<Rightarrow> v | None \<Rightarrow> []) (fmlookup (ps_assign st) n \<noteq> None)"
  let ?st = "persist_history (pe_io e 1) (record_event (pe_now e 0) n ?p pid st2)"
  have "fmran ?a |\<subseteq>| fmdom (ps_profiles st)"
    using assms(1,3) by (auto simp: store_inv_alt fmran_sub)
  moreover have "history_bounded st2" using assms(1) s(5) by (simp add: store_inv_alt history_bounded_def)
  ultimately have "store_inv J L ?st"
    using assms(1) s(3,4) by (auto simp: store_inv_alt record_event_bounded)
  moreover have "ps_abs J ?st = (fst (ps_abs J st), ?a)" using s(3,4) by (simp add: ps_abs_def)
  moreover have "ps_path st \<noteq> [] \<Longrightarrow> disk_synced ?st"
    using s(2,6) by (intro persist_synced record_synced) simp_all
  ultimately have "step_done J L (fst (ps_abs J st), ?a) st ?st" using s(2) by (auto simp: step_done_def)
  then show ?thesis using s(1) assms(3) by (auto simp: ps_assign_one_def Let_def)
qed

lemma ps_assign_many_spec:
  assumes "store_inv J L st" and "saves (OpAssignMany e ns pid) st" and "pid |\<in>| fmdom (ps_profiles st)"
  shows "\<exists>st'. ps_assign_many e ns pid st = (Inr (), st')
    \<and> step_done J L (fst (ps_abs J st), foldl (\<lambda>a n. fmupd n pid a) (ps_assign st) ns) st st'"
proof -
  let ?a = "foldl (\<lambda>a n. fmupd n pid a) (ps_assign st) ns"
  obtain st2 where s: "ps_save (pe_io e 0) (st\<lparr>ps_assign := ?a\<rparr>) = (True, st2)"
      "ps_path st2 = ps_path st" "ps_profiles st2 = ps_profiles st"
      "ps_assign st2 = ?a" "ps_history st2 = ps_history st" "ps_path st \<noteq> [] \<Longrightarrow> disk_synced st2"
    using saves_save [OF assms(2), of "st\<lparr>ps_assign := ?a\<rparr>"] by auto
  let ?st = "persist_history (pe_io e 1) (record_events (pe_now e) 0 (prev_map (ps_assign st) ns) pid ns st2)"
  have "fmran ?a |\<subseteq>| fmdom (ps_profiles st)"
    using assms(1,3) by (auto simp: store_inv_alt fmran_sub fmupd_foldl_lookup)
  moreover have "history_bounded st2" using assms(1) s(5) by (simp add: store_inv_alt history_bounded_def)
  ultimately have "store_inv J L ?st"
    using assms(1) s(3,4) by (auto simp: store_inv_alt record_events_bounded)
  moreover have "ps_abs J ?st = (fst (ps_abs J st), ?a)" using s(3,4) by (simp add: ps_abs_def)
  moreover have "ps_path st \<noteq> [] \<Longrightarrow> disk_synced ?st"
    using s(2,6) by (intro persist_synced record_synced) simp_all
  ultimately have "step_done J L (fst (ps_abs J st), ?a) st ?st" using s(2) by (auto simp: step_done_def)
  then show ?thesis using s(1) assms(3) by (auto simp: ps_assign_many_def Let_def)
qed

text \<open>One operation: refused as the specification refuses it, or done, or undone for want of the file.\<close>

lemma ps_do_refines:
  assumes "codec_ok J" and "store_inv J L st"
  shows "case spec_step J op (ps_abs J st) of
      Inl err \<Rightarrow> ps_do J L op st = (Inl err, st)
    | Inr a \<Rightarrow> if saves op st then (\<exists>st'. ps_do J L op st = (Inr (), st') \<and> step_done J L a st st')
              else ps_do J L op st = (Inl StorageFailed, st)"
proof (cases op)
  case op: (OpPut e raw)
  show ?thesis
  proof (cases "parse_profile J raw")
    case (Inl err)
    then show ?thesis by (simp add: op ps_abs_def ps_do_def ps_put_def)
  next
    case (Inr pc)
    obtain p c where pc: "pc = (p, c)" by fastforce
    have "fst (ps_put J L e raw st) = Inl StorageFailed" if "\<not> saves op st"
      using that Inr pc op not_saves_save [OF that] by (simp add: ps_put_def Let_def)
    then have "ps_put J L e raw st = (Inl StorageFailed, st)" if "\<not> saves op st"
      using that ps_put_fail [of J L e raw st] by (cases "ps_put J L e raw st") auto
    with ps_put_spec [OF assms, of e raw p c] Inr pc show ?thesis
      by (auto simp: op ps_abs_def ps_do_def)
  qed
next
  case op: (OpDrop e i)
  have "fst (ps_delete e i st) = Inl StorageFailed"
    if "\<not> saves op st" "i |\<in>| fmdom (ps_profiles st)" "i |\<notin>| fmran (ps_assign st)"
    using that op not_saves_save [OF that(1)] by (auto simp: ps_delete_def fmlookup_dom_iff)
  then have f: "ps_delete e i st = (Inl StorageFailed, st)"
    if "\<not> saves op st" "i |\<in>| fmdom (ps_profiles st)" "i |\<notin>| fmran (ps_assign st)"
    using that ps_delete_fail [of e i st] by (cases "ps_delete e i st") auto
  have "ps_delete e i st = (Inl NoProfile, st)" if "i |\<notin>| fmdom (ps_profiles st)"
    using that by (simp add: ps_delete_def fmdom_notD)
  moreover have "ps_delete e i st = (Inl ProfileInUse, st)" if "i |\<in>| fmdom (ps_profiles st)" "i |\<in>| fmran (ps_assign st)"
    using that by (auto simp: ps_delete_def fmlookup_dom_iff)
  ultimately show ?thesis
    using f ps_delete_spec [OF assms(2), of e i] by (auto simp: op ps_abs_def ps_do_def)
next
  case op: (OpAssign e n pid)
  let ?ok = "pid = [] \<or> pid |\<in>| fmdom (ps_profiles st)"
  have "fst (ps_assign_one e n pid st) = Inl StorageFailed" if "\<not> saves op st" ?ok
    using that op not_saves_save [OF that(1)] by (auto simp: ps_assign_one_def Let_def)
  then have f: "ps_assign_one e n pid st = (Inl StorageFailed, st)" if "\<not> saves op st" ?ok
    using that ps_assign_fail [of e n pid st] by (cases "ps_assign_one e n pid st") auto
  have "ps_assign_one e n pid st = (Inl NoProfile, st)" if "\<not> ?ok"
    using that by (simp add: ps_assign_one_def Let_def)
  with f ps_assign_spec [OF assms(2), of e n pid] show ?thesis
    by (cases "pid = []") (auto simp: op ps_abs_def ps_do_def)
next
  case op: (OpAssignMany e ns pid)
  let ?ok = "pid |\<in>| fmdom (ps_profiles st)"
  have "fst (ps_assign_many e ns pid st) = Inl StorageFailed" if "\<not> saves op st" ?ok
    using that op not_saves_save [OF that(1)] by (auto simp: ps_assign_many_def Let_def)
  then have f: "ps_assign_many e ns pid st = (Inl StorageFailed, st)" if "\<not> saves op st" ?ok
    using that ps_assign_many_fail [OF assms(2), of e ns pid] by (cases "ps_assign_many e ns pid st") auto
  have "ps_assign_many e ns pid st = (Inl NoProfile, st)" if "\<not> ?ok"
    using that by (simp add: ps_assign_many_def)
  with f ps_assign_many_spec [OF assms(2), of e ns pid] show ?thesis
    by (auto simp: op ps_abs_def ps_do_def)
qed

subsection \<open>Loading and recovery\<close>

lemma load_profiles_lookup:
  "fmlookup (load_profiles J L m) i = (case fmlookup m i of None \<Rightarrow> None | Some raw \<Rightarrow> load_entry J L i raw)"
proof (cases "fmlookup m i")
  case (Some raw)
  then show ?thesis by (cases "load_entry J L i raw") (auto simp: load_profiles_def)
qed (simp add: load_profiles_def)

lemma load_entry_ok:
  assumes "codec_ok J" and "load_entry J L i raw = Some v"
  shows "entry_ok J L i v"
proof -
  obtain p c where "parse_profile J raw = Inr (p, c)" "p_id p = i" "v = (c, canon_hash L c)"
    using assms(2) by (auto simp: load_entry_def split: sum.splits if_splits)
  with entry_ok_parse(1) [OF assms(1)] show ?thesis by blast
qed

lemma load_entry_same: "entry_ok J L i v \<Longrightarrow> load_entry J L i (fst v) = Some v"
  by (cases v) (auto simp: entry_ok_def load_entry_def)

lemma ps_new_inv:
  assumes "codec_ok J"
  shows "store_inv J L (ps_new J L path disk)"
proof (cases "path = [] \<or> disk = None")
  case True
  then show ?thesis by (auto simp: ps_new_def ps_load_def store_inv_def)
next
  case False
  then obtain d where d: "path \<noteq> []" "disk = Some d" by auto
  have "entry_ok J L i v" if "fmlookup (load_profiles J L (pd_profiles d)) i = Some v" for i v
    using that load_entry_ok [OF assms] by (auto simp: load_profiles_lookup split: option.splits)
  then show ?thesis
    using d length_last_events
    by (auto simp: ps_new_def ps_load_def store_inv_def Let_def split: if_splits)
qed

lemma ps_new_path [simp]: "ps_path (ps_new J L path disk) = path"
  by (simp add: ps_new_def ps_load_def Let_def split: option.splits)

text \<open>A restarted panel reads back the documents and assignments the file holds.\<close>

lemma reload_synced:
  assumes "store_inv J L st" and "disk_synced st" and "path \<noteq> []"
  shows "ps_profiles (ps_new J L path (ps_disk st)) = ps_profiles st"
    "ps_assign (ps_new J L path (ps_disk st)) = ps_assign st"
proof -
  obtain d where d: "ps_disk st = Some d" "pd_profiles d = fmmap fst (ps_profiles st)" "pd_assign d = ps_assign st"
    using assms(2) by (auto simp: disk_synced_def)
  have p: "load_profiles J L (pd_profiles d) = ps_profiles st"
  proof (rule fmap_ext)
    fix i
    show "fmlookup (load_profiles J L (pd_profiles d)) i = fmlookup (ps_profiles st) i"
    proof (cases "fmlookup (ps_profiles st) i")
      case None
      then show ?thesis by (simp add: load_profiles_lookup d(2))
    next
      case (Some v)
      then have "entry_ok J L i v" using assms(1) unfolding store_inv_def by blast
      with Some show ?thesis by (simp add: load_profiles_lookup d(2) load_entry_same)
    qed
  qed
  have a: "fmfilter (\<lambda>n. the (fmlookup (ps_assign st) n) |\<in>| fmdom (ps_profiles st)) (ps_assign st) = ps_assign st"
  proof (rule fmap_ext)
    fix n
    show "fmlookup (fmfilter (\<lambda>n. the (fmlookup (ps_assign st) n) |\<in>| fmdom (ps_profiles st)) (ps_assign st)) n
        = fmlookup (ps_assign st) n"
      using assms(1) by (cases "fmlookup (ps_assign st) n") (auto simp: store_inv_def)
  qed
  show "ps_profiles (ps_new J L path (ps_disk st)) = ps_profiles st"
    "ps_assign (ps_new J L path (ps_disk st)) = ps_assign st"
    using assms(3) d(1) p a unfolding d(3) [symmetric] by (simp_all add: ps_new_def ps_load_def Let_def)
qed

definition store_ok :: "profile_codec \<Rightarrow> lib \<Rightarrow> string \<Rightarrow> profile_store \<Rightarrow> bool" where
  "store_ok J L path st \<longleftrightarrow> store_inv J L st \<and> ps_path st = path
     \<and> (disk_synced st \<or> (ps_disk st = None \<and> ps_profiles st = fmempty \<and> ps_assign st = fmempty))"

lemma ps_run_Cons: "ps_run J L (op # ops) st = ps_run J L ops (snd (ps_do J L op st))"
  by (simp add: ps_run_def)

lemma ps_do_ok:
  assumes "codec_ok J" and "path \<noteq> []" and "store_ok J L path st"
  shows "store_ok J L path (snd (ps_do J L op st))"
  using ps_do_refines [of J L st op] assms
  by (auto simp: store_ok_def step_done_def split: sum.splits if_splits)

lemma ps_run_ok:
  "codec_ok J \<Longrightarrow> path \<noteq> [] \<Longrightarrow> store_ok J L path st \<Longrightarrow> store_ok J L path (ps_run J L ops st)"
proof (induction ops arbitrary: st)
  case Nil
  then show ?case by (simp add: ps_run_def)
next
  case (Cons op ops)
  then show ?case using ps_do_ok by (simp add: ps_run_Cons)
qed

lemma fresh_ok: "codec_ok J \<Longrightarrow> path \<noteq> [] \<Longrightarrow> store_ok J L path (ps_new J L path None)"
  using ps_new_inv [of J L path None] by (simp add: store_ok_def) (simp add: ps_new_def ps_load_def)

lemma reload_ok:
  assumes "store_ok J L path st" and "path \<noteq> []"
  shows "ps_profiles (ps_new J L path (ps_disk st)) = ps_profiles st"
    "ps_assign (ps_new J L path (ps_disk st)) = ps_assign st"
  using assms reload_synced [of J L st path] by (auto simp: store_ok_def ps_new_def ps_load_def)

lemma ps_run_inv: "codec_ok J \<Longrightarrow> store_inv J L st \<Longrightarrow> store_inv J L (ps_run J L ops st)"
proof (induction ops arbitrary: st)
  case Nil
  then show ?case by (simp add: ps_run_def)
next
  case (Cons op ops)
  have "store_inv J L (snd (ps_do J L op st))"
    using ps_do_refines [OF Cons.prems, of op] Cons.prems(2) by (auto simp: step_done_def split: sum.splits if_splits)
  with Cons show ?case by (simp add: ps_run_Cons)
qed

subsection \<open>The audit trail\<close>

definition current :: "profile_store \<Rightarrow> string \<Rightarrow> string" where
  "current st n = (case fmlookup (ps_assign st) n of Some v \<Rightarrow> v | None \<Rightarrow> [])"

definition chained :: "assign_event list \<Rightarrow> bool" where
  "chained h \<longleftrightarrow> (\<forall>ev \<in> set h. ae_from ev \<noteq> ae_to ev) \<and> successively (\<lambda>a b. ae_to a = ae_from b) h"

text \<open>The history of every node is a chain of real changes that ends at its present profile.\<close>

definition trail :: "(string \<Rightarrow> string) \<Rightarrow> profile_store \<Rightarrow> bool" where
  "trail cur st \<longleftrightarrow> (\<forall>n. chained (ps_history_of n st)
     \<and> cur n = (if ps_history_of n st = [] then [] else ae_to (last (ps_history_of n st))))"

lemma chained_drop: "chained h \<Longrightarrow> chained (drop k h)"
proof -
  assume c: "chained h"
  have "successively (\<lambda>a b. ae_to a = ae_from b) (take k h @ drop k h)" using c by (simp add: chained_def)
  then have "successively (\<lambda>a b. ae_to a = ae_from b) (drop k h)" unfolding successively_append_iff by blast
  with c show ?thesis by (auto simp: chained_def dest: in_set_dropD)
qed

lemma chained_snoc:
  "chained (h @ [ev]) \<longleftrightarrow> chained h \<and> ae_from ev \<noteq> ae_to ev \<and> (h \<noteq> [] \<longrightarrow> ae_to (last h) = ae_from ev)"
  by (auto simp: chained_def successively_append_iff)

lemma last_events_snoc: "last_events (h @ [ev]) \<noteq> []" "last (last_events (h @ [ev])) = ev"
  by (simp_all add: last_events_def max_history_def)

lemma chained_last_events: "chained h \<Longrightarrow> chained (last_events h)"
  by (simp add: last_events_def chained_drop)

lemma history_record:
  "ps_history_of m (record_event now n from to st) =
     (if m = n \<and> from \<noteq> to then last_events (ps_history_of n st @ [\<lparr>ae_at = now, ae_from = from, ae_to = to\<rparr>])
      else ps_history_of m st)"
  by (auto simp: record_event_def ps_history_of_def Let_def)

lemma trail_record:
  assumes "trail cur st" and "cur n = from"
  shows "trail (cur(n := to)) (record_event now n from to st)"
proof (cases "from = to")
  case True
  then have "cur(n := to) = cur" using assms(2) by auto
  with True assms(1) show ?thesis by (simp add: record_event_def)
next
  case False
  let ?h = "ps_history_of n st" and ?ev = "\<lparr>ae_at = now, ae_from = from, ae_to = to\<rparr>"
  have "chained ?h" "?h \<noteq> [] \<Longrightarrow> ae_to (last ?h) = from" using assms by (auto simp: trail_def)
  then have "chained (last_events (?h @ [?ev]))" using False by (intro chained_last_events) (simp add: chained_snoc)
  with False assms(1) last_events_snoc [of ?h ?ev] show ?thesis
    by (auto simp: trail_def history_record) (simp add: chained_def)
qed

lemma trail_records:
  assumes "trail cur st" and "distinct ns" and "\<forall>n \<in> set ns. \<exists>v. fmlookup prev n = Some v \<and> prev_of v (v \<noteq> NUL) = cur n"
  shows "trail (\<lambda>n. if n \<in> set ns then pid else cur n) (record_events now k prev pid ns st)"
  using assms
proof (induction ns arbitrary: k st cur)
  case Nil
  then show ?case by simp
next
  case (Cons n ns)
  then obtain v where v: "fmlookup prev n = Some v" "prev_of v (v \<noteq> NUL) = cur n" by auto
  have "trail (cur(n := pid)) (record_event (now k) n (prev_of v (v \<noteq> NUL)) pid st)"
    using trail_record [OF Cons.prems(1)] v(2) by simp
  moreover have "\<forall>m \<in> set ns. \<exists>v. fmlookup prev m = Some v \<and> prev_of v (v \<noteq> NUL) = (cur(n := pid)) m"
    using Cons.prems(2,3) by auto
  ultimately have "trail (\<lambda>m. if m \<in> set ns then pid else (cur(n := pid)) m)
      (record_events now (Suc k) prev pid ns (record_event (now k) n (prev_of v (v \<noteq> NUL)) pid st))"
    using Cons.prems(2) by (intro Cons.IH) (simp_all only: distinct.simps)
  moreover have "(\<lambda>m. if m \<in> set ns then pid else (cur(n := pid)) m) = (\<lambda>m. if m \<in> set (n # ns) then pid else cur m)"
    by auto
  ultimately show ?case using v(1) by simp
qed

lemma trail_persist [simp]: "trail cur (persist_history io st) = trail cur st"
  by (simp add: trail_def ps_history_of_def)

definition op_distinct :: "profile_op \<Rightarrow> bool" where
  "op_distinct op \<longleftrightarrow> (case op of OpAssignMany e ns pid \<Rightarrow> distinct ns | _ \<Rightarrow> True)"

lemma trail_cong:
  "trail (current st) st \<Longrightarrow> ps_assign st' = ps_assign st \<Longrightarrow> ps_history st' = ps_history st \<Longrightarrow> trail (current st') st'"
  by (simp add: trail_def current_def ps_history_of_def)

lemma trail_do:
  assumes "store_inv J L st" and "trail (current st) st" and "op_distinct op"
  shows "trail (current (snd (ps_do J L op st))) (snd (ps_do J L op st))"
proof (cases "fst (ps_do J L op st)")
  case (Inl err)
  then have "snd (ps_do J L op st) = st" using ps_do_fail [OF assms(1), of op err] by (metis prod.collapse)
  with assms(2) show ?thesis by simp
next
  case (Inr u)
  show ?thesis
  proof (cases op)
    case (OpPut e raw)
    then have "ps_assign (snd (ps_do J L op st)) = ps_assign st \<and> ps_history (snd (ps_do J L op st)) = ps_history st"
      using Inr ps_save_True by (fastforce simp: ps_do_def ps_put_def Let_def split: sum.splits prod.splits bool.splits)
    with trail_cong assms(2) show ?thesis by blast
  next
    case (OpDrop e i)
    then have "ps_assign (snd (ps_do J L op st)) = ps_assign st \<and> ps_history (snd (ps_do J L op st)) = ps_history st"
      using Inr ps_save_True
      by (fastforce simp: ps_do_def ps_delete_def split: option.splits if_splits prod.splits bool.splits)
    with trail_cong assms(2) show ?thesis by blast
  next
    case (OpAssign e n pid)
    let ?a = "if pid = [] then fmdrop n (ps_assign st) else fmupd n pid (ps_assign st)"
    let ?p = "prev_of (case fmlookup (ps_assign st) n of Some v \<Rightarrow> v | None \<Rightarrow> []) (fmlookup (ps_assign st) n \<noteq> None)"
    obtain st2 where s: "ps_save (pe_io e 0) (st\<lparr>ps_assign := ?a\<rparr>) = (True, st2)"
        "snd (ps_do J L op st) = persist_history (pe_io e 1) (record_event (pe_now e 0) n ?p pid st2)"
      using Inr OpAssign by (auto simp: ps_do_def ps_assign_one_def Let_def split: if_splits prod.splits bool.splits)
    have "fmlookup (ps_assign st) n \<noteq> Some NUL" using inv_no_NUL(1) [OF assms(1)] by (auto simp: fmlookup_ran_iff)
    then have "?p = current st n" by (auto simp: prev_of_def current_def split: option.splits)
    moreover have "trail (current st) st2"
      using assms(2) ps_save_True(4) [OF s(1)] by (simp add: trail_def ps_history_of_def)
    ultimately have "trail ((current st)(n := pid)) (record_event (pe_now e 0) n ?p pid st2)"
      using trail_record by metis
    moreover have "(current st)(n := pid) = current (snd (ps_do J L op st))"
      using ps_save_True(3) [OF s(1)] s(2) by (auto simp: current_def)
    ultimately show ?thesis using s(2) by simp
  next
    case (OpAssignMany e ns pid)
    let ?prev = "prev_map (ps_assign st) ns"
    obtain st2 where s: "ps_save (pe_io e 0) (st\<lparr>ps_assign := foldl (\<lambda>a n. fmupd n pid a) (ps_assign st) ns\<rparr>) = (True, st2)"
        "snd (ps_do J L op st) = persist_history (pe_io e 1) (record_events (pe_now e) 0 ?prev pid ns st2)"
      using Inr OpAssignMany by (auto simp: ps_do_def ps_assign_many_def Let_def split: if_splits prod.splits bool.splits)
    have "trail (current st) st2"
      using assms(2) ps_save_True(4) [OF s(1)] by (simp add: trail_def ps_history_of_def)
    moreover have "distinct ns" using assms(3) OpAssignMany by (simp add: op_distinct_def)
    moreover have "\<exists>v. fmlookup ?prev n = Some v \<and> prev_of v (v \<noteq> NUL) = current st n" if "n \<in> set ns" for n
      using that by (auto simp: prev_map_lookup prev_of_def current_def split: option.splits)
        (use inv_no_NUL(1) [OF assms(1)] in \<open>auto simp: fmlookup_ran_iff\<close>)
    ultimately have "trail (\<lambda>n. if n \<in> set ns then pid else current st n) (record_events (pe_now e) 0 ?prev pid ns st2)"
      by (intro trail_records) auto
    moreover have "(\<lambda>n. if n \<in> set ns then pid else current st n) = current (snd (ps_do J L op st))"
      using ps_save_True(3) [OF s(1)] s(2) by (auto simp: current_def fmupd_foldl_lookup)
    ultimately show ?thesis using s(2) by simp
  qed
qed

lemma trail_run:
  "codec_ok J \<Longrightarrow> store_inv J L st \<Longrightarrow> trail (current st) st \<Longrightarrow> \<forall>op \<in> set ops. op_distinct op \<Longrightarrow>
   trail (current (ps_run J L ops st)) (ps_run J L ops st)"
proof (induction ops arbitrary: st)
  case Nil
  then show ?case by (simp add: ps_run_def)
next
  case (Cons op ops)
  have "store_inv J L (ps_run J L [op] st)" by (rule ps_run_inv [OF Cons.prems(1,2)])
  then have "store_inv J L (snd (ps_do J L op st))" by (simp add: ps_run_def)
  with Cons trail_do show ?case by (simp add: ps_run_Cons)
qed

lemma trail_fresh: "trail (current (ps_new J L path None)) (ps_new J L path None)"
  by (simp add: trail_def current_def ps_history_of_def ps_new_def ps_load_def chained_def)

end
