(* ===== verification/Profile_Lua.thy ===== *)
theory Profile_Lua
  imports Profile_Doc Lua_Text
begin

text \<open>
  The generators \<open>generateSmartDistLua\<close> and \<open>generateDnsdistLua\<close>, and the tokens Lua finds in what
  they print: every value of a profile reaches dnsdist as one string or number token.
\<close>

subsection \<open>Generators\<close>

datatype gen_error = GenJson | GenRule string nat | GenSection section_error

definition lua_bool :: "bool \<Rightarrow> string" where
  "lua_bool b = (if b then ''true'' else ''false'')"

definition lua_rule :: "rule_spec \<Rightarrow> string option" where
  "lua_rule r =
     (if r_type r = ''ip_set'' then
        Some (''smartdns_ip_set('' @ lua_quote (r_name r) @ '', '' @ lua_quote (r_file r) @ '')'' @ [LF])
      else if r_type r = ''cname'' then
        Some (''smartdns_cname('' @ lua_quote (r_pattern r) @ '', '' @ lua_quote (r_target r) @ '')'' @ [LF])
      else if r_type r = ''alias'' then
        (if r_exclude r \<noteq> [] then
           Some (''smartdns_ip_rules_alias('' @ lua_quote (r_ipset r) @ '', {'' @ join '', '' (map lua_quote (r_targets r))
             @ ''}, '' @ lua_quote (r_exclude r) @ '')'' @ [LF])
         else
           Some (''smartdns_ip_rules_alias('' @ lua_quote (r_ipset r) @ '', {'' @ join '', '' (map lua_quote (r_targets r))
             @ ''})'' @ [LF]))
      else None)"

fun lua_rules :: "nat \<Rightarrow> rule_spec list \<Rightarrow> gen_error + string" where
  "lua_rules i [] = Inr []"
| "lua_rules i (r # rs) =
     (case lua_rule r of
        None \<Rightarrow> Inl (GenRule (r_type r) i)
      | Some l \<Rightarrow> (case lua_rules (Suc i) rs of Inl e \<Rightarrow> Inl e | Inr s \<Rightarrow> Inr (l @ s)))"

definition smartdist_header :: string where
  "smartdist_header = ''-- SmartDist profile (auto-generated by panel agent, do not edit)'' @ [LF]"

definition generate_smartdist_lua :: "profile_codec \<Rightarrow> bytes \<Rightarrow> gen_error + string" where
  "generate_smartdist_lua J b =
     (case pc_doc J b of
        None \<Rightarrow> Inl GenJson
      | Some (enabled, rules) \<Rightarrow>
          (case lua_rules 0 rules of
             Inl e \<Rightarrow> Inl e
           | Inr s \<Rightarrow> Inr (smartdist_header @ ''SMARTDIST_ENABLED = '' @ lua_bool enabled @ [LF] @ s)))"

definition dnsdist_header :: string where
  "dnsdist_header = ''-- dnsdist profile v1 (auto-generated by panel agent, do not edit)'' @ [LF]"

definition lua_upstream :: "upstream \<Rightarrow> string" where
  "lua_upstream u = ''{name='' @ lua_quote (u_name u) @ '', address='' @ lua_quote (u_addr u)
     @ '', pool='' @ lua_quote (u_pool u) @ ''}''"

definition lua_section :: "dnsdist_settings \<Rightarrow> string" where
  "lua_section d =
     (if d_mode d \<noteq> [] then ''PROFILE_BLOCK_MODE = '' @ lua_quote (d_mode d) @ [LF] else [])
     @ (if d_sink4 d \<noteq> [] then ''PROFILE_SINKHOLE_V4 = '' @ lua_str_list (d_sink4 d) @ [LF] else [])
     @ (if d_sink6 d \<noteq> [] then ''PROFILE_SINKHOLE_V6 = '' @ lua_str_list (d_sink6 d) @ [LF] else [])
     @ (if d_acl d \<noteq> [] then ''PROFILE_ACL = '' @ lua_str_list (d_acl d) @ [LF] else [])
     @ (if d_ups d \<noteq> [] then ''PROFILE_UPSTREAMS = {'' @ join '', '' (map lua_upstream (d_ups d)) @ ''}'' @ [LF] else [])
     @ lua_int ''PROFILE_ECS_V4'' (d_ecs4 d)
     @ lua_int ''PROFILE_ECS_V6'' (d_ecs6 d)
     @ lua_int ''PROFILE_MAX_QPS_PER_IP'' (d_qps d)
     @ lua_int ''PROFILE_TCP_MAX_CONNS'' (d_conns d)
     @ lua_int ''PROFILE_TCP_MAX_QUERIES'' (d_queries d)"

definition dnsdist_lua :: "dnsdist_settings option \<Rightarrow> gen_error + string" where
  "dnsdist_lua sec =
     (case sec of
        None \<Rightarrow> Inr (dnsdist_header @ ''PROFILE_ENABLED = false'' @ [LF])
      | Some d \<Rightarrow>
          (case valid_section sec of
             Some e \<Rightarrow> Inl (GenSection e)
           | None \<Rightarrow> Inr (dnsdist_header @ ''PROFILE_ENABLED = true'' @ [LF] @ lua_section d)))"

definition generate_dnsdist_lua :: "profile_codec \<Rightarrow> bytes \<Rightarrow> gen_error + string" where
  "generate_dnsdist_lua J b =
     (case pc_loose J b of None \<Rightarrow> Inl GenJson | Some p \<Rightarrow> dnsdist_lua (p_dnsdist p))"

subsection \<open>The intended tokens\<close>

fun commas :: "lua_token list list \<Rightarrow> lua_token list" where
  "commas [] = []"
| "commas [x] = x"
| "commas (x # y # ys) = x @ TSym CHR '','' # commas (y # ys)"

definition str_token :: "string \<Rightarrow> lua_token" where "str_token s = TStr (to_valid s)"

definition list_tokens :: "string list \<Rightarrow> lua_token list" where
  "list_tokens xs = TSym CHR ''{'' # commas (map (\<lambda>x. [str_token x]) xs) @ [TSym CHR ''}'']"

definition call_tokens :: "string \<Rightarrow> lua_token list list \<Rightarrow> lua_token list" where
  "call_tokens f args = TName f # TSym CHR ''('' # commas args @ [TSym CHR '')'']"

definition set_tokens :: "string \<Rightarrow> lua_token list \<Rightarrow> lua_token list" where
  "set_tokens x v = TName x # TSym CHR ''='' # v"

definition rule_tokens :: "rule_spec \<Rightarrow> lua_token list" where
  "rule_tokens r =
     (if r_type r = ''ip_set'' then call_tokens ''smartdns_ip_set'' [[str_token (r_name r)], [str_token (r_file r)]]
      else if r_type r = ''cname'' then call_tokens ''smartdns_cname'' [[str_token (r_pattern r)], [str_token (r_target r)]]
      else call_tokens ''smartdns_ip_rules_alias''
        ([[str_token (r_ipset r)], list_tokens (r_targets r)] @ (if r_exclude r \<noteq> [] then [[str_token (r_exclude r)]] else [])))"

definition smartdist_tokens :: "bool \<Rightarrow> rule_spec list \<Rightarrow> lua_token list" where
  "smartdist_tokens enabled rules =
     set_tokens ''SMARTDIST_ENABLED'' [TName (lua_bool enabled)] @ concat (map rule_tokens rules)"

definition upstream_tokens :: "upstream \<Rightarrow> lua_token list" where
  "upstream_tokens u = TSym CHR ''{'' # commas [set_tokens ''name'' [str_token (u_name u)],
     set_tokens ''address'' [str_token (u_addr u)], set_tokens ''pool'' [str_token (u_pool u)]] @ [TSym CHR ''}'']"

definition int_tokens :: "string \<Rightarrow> int option \<Rightarrow> lua_token list" where
  "int_tokens x v = (case v of None \<Rightarrow> [] | Some n \<Rightarrow> set_tokens x [TNum n])"

definition section_tokens :: "dnsdist_settings \<Rightarrow> lua_token list" where
  "section_tokens d =
     (if d_mode d \<noteq> [] then set_tokens ''PROFILE_BLOCK_MODE'' [str_token (d_mode d)] else [])
     @ (if d_sink4 d \<noteq> [] then set_tokens ''PROFILE_SINKHOLE_V4'' (list_tokens (d_sink4 d)) else [])
     @ (if d_sink6 d \<noteq> [] then set_tokens ''PROFILE_SINKHOLE_V6'' (list_tokens (d_sink6 d)) else [])
     @ (if d_acl d \<noteq> [] then set_tokens ''PROFILE_ACL'' (list_tokens (d_acl d)) else [])
     @ (if d_ups d \<noteq> [] then set_tokens ''PROFILE_UPSTREAMS''
          (TSym CHR ''{'' # commas (map upstream_tokens (d_ups d)) @ [TSym CHR ''}'']) else [])
     @ int_tokens ''PROFILE_ECS_V4'' (d_ecs4 d) @ int_tokens ''PROFILE_ECS_V6'' (d_ecs6 d)
     @ int_tokens ''PROFILE_MAX_QPS_PER_IP'' (d_qps d) @ int_tokens ''PROFILE_TCP_MAX_CONNS'' (d_conns d)
     @ int_tokens ''PROFILE_TCP_MAX_QUERIES'' (d_queries d)"

definition dnsdist_tokens :: "dnsdist_settings option \<Rightarrow> lua_token list" where
  "dnsdist_tokens sec =
     (case sec of None \<Rightarrow> set_tokens ''PROFILE_ENABLED'' [TName ''false'']
      | Some d \<Rightarrow> set_tokens ''PROFILE_ENABLED'' [TName ''true''] @ section_tokens d)"


subsection \<open>Lexing what is printed\<close>

lemma lexes_join:
  "(\<And>x. x \<in> set xs \<Longrightarrow> lexes (f x) (g x)) \<Longrightarrow> lexes (join '', '' (map f xs)) (commas (map g xs))"
proof (induction xs)
  case Nil
  then show ?case by simp
next
  case (Cons x xs)
  have comma: "lexes '', '' [TSym CHR '','']"
    using lexes_append [OF lexes_sym [of "CHR '',''"] lexes_space [of "CHR '' ''"]] by (simp add: is_space_byte_def)
  show ?case
  proof (cases xs)
    case Nil
    with Cons show ?thesis by simp
  next
    case (Cons y ys)
    with Cons.IH Cons.prems have "lexes (join '', '' (map f xs)) (commas (map g xs))" by auto
    with lexes_append [OF _ lexes_append [OF comma]] Cons.prems Cons show ?thesis by fastforce
  qed
qed

lemma lexes_open:
  "list_all is_word w \<Longrightarrow> w \<noteq> [] \<Longrightarrow> is_letter (hd w) \<Longrightarrow> lexes (w @ ''('') [TName w, TSym CHR ''('']"
  by (rule lexes_name) (simp_all add: lexes_sym is_word_def is_letter_def is_digit_def)

lemma lexes_eq:
  assumes "list_all is_word w" and "w \<noteq> []" and "is_letter (hd w)"
  shows "lexes (w @ ''='') [TName w, TSym CHR ''='']" "lexes (w @ '' = '') [TName w, TSym CHR ''='']"
proof -
  have eq: "lexes ''='' [TSym CHR ''='']" by (rule lexes_sym) simp
  have sp: "lexes '' '' []" by (rule lexes_space) (simp add: is_space_byte_def)
  show "lexes (w @ ''='') [TName w, TSym CHR ''='']"
    using assms eq by (intro lexes_name) (simp_all add: is_word_def is_letter_def is_digit_def)
  have "lexes '' = '' [TSym CHR ''='']" using lexes_append [OF sp lexes_append [OF eq sp]] by simp
  with assms show "lexes (w @ '' = '') [TName w, TSym CHR ''='']"
    by (intro lexes_name) (simp_all add: is_word_def is_letter_def is_digit_def)
qed

lemmas word_simps = is_word_def is_letter_def is_digit_def

lemma lexes_opens:
  "lexes ''smartdns_ip_set('' [TName ''smartdns_ip_set'', TSym CHR ''('']"
  "lexes ''smartdns_cname('' [TName ''smartdns_cname'', TSym CHR ''('']"
  "lexes ''smartdns_ip_rules_alias('' [TName ''smartdns_ip_rules_alias'', TSym CHR ''('']"
  using lexes_open [of "''smartdns_ip_set''"] lexes_open [of "''smartdns_cname''"]
    lexes_open [of "''smartdns_ip_rules_alias''"]
  by (simp_all add: word_simps)

lemma lexes_syms:
  "lexes '', '' [TSym CHR '','']" "lexes '')'' [TSym CHR '')'']" "lexes '', {'' [TSym CHR '','', TSym CHR ''{'']"
  "lexes ''}, '' [TSym CHR ''}'', TSym CHR '','']" "lexes ''})'' [TSym CHR ''}'', TSym CHR '')'']"
  "lexes ''{'' [TSym CHR ''{'']" "lexes ''}'' [TSym CHR ''}'']"
proof -
  have s: "lexes '','' [TSym CHR '','']" "lexes '')'' [TSym CHR '')'']" "lexes ''{'' [TSym CHR ''{'']"
    "lexes ''}'' [TSym CHR ''}'']"
    by (simp_all add: lexes_sym)
  have sp: "lexes '' '' []" by (rule lexes_space) (simp add: is_space_byte_def)
  show "lexes '')'' [TSym CHR '')'']" "lexes ''{'' [TSym CHR ''{'']" "lexes ''}'' [TSym CHR ''}'']" by (fact s)+
  show "lexes '', '' [TSym CHR '','']" using lexes_append [OF s(1) sp] by simp
  show "lexes '', {'' [TSym CHR '','', TSym CHR ''{'']" using lexes_append [OF s(1) lexes_append [OF sp s(3)]] by simp
  show "lexes ''}, '' [TSym CHR ''}'', TSym CHR '','']" using lexes_append [OF s(4) lexes_append [OF s(1) sp]] by simp
  show "lexes ''})'' [TSym CHR ''}'', TSym CHR '')'']" using lexes_append [OF s(4,2)] by simp
qed

lemma lexes_strings: "lexes (join '', '' (map lua_quote xs)) (commas (map (\<lambda>x. [str_token x]) xs))"
  by (rule lexes_join) (simp add: str_token_def)

lemma lexes_rule:
  assumes "lua_rule r = Some l"
  shows "lexes l (rule_tokens r)"
proof -
  have q: "lexes (lua_quote x) [str_token x]" for x by (simp add: str_token_def)
  note two = lexes_append [OF _ lexes_append [OF q lexes_append [OF lexes_syms(1) lexes_append [OF q
    lexes_append [OF lexes_syms(2) lexes_LF]]]]]
  note short = lexes_append [OF lexes_opens(3) lexes_append [OF q lexes_append [OF lexes_syms(3)
    lexes_append [OF lexes_strings lexes_append [OF lexes_syms(5) lexes_LF]]]]]
  note long = lexes_append [OF lexes_opens(3) lexes_append [OF q lexes_append [OF lexes_syms(3)
    lexes_append [OF lexes_strings lexes_append [OF lexes_syms(4) lexes_append [OF q lexes_append [OF lexes_syms(2) lexes_LF]]]]]]]
  show ?thesis
    using assms two [OF lexes_opens(1), of "r_name r" "r_file r"] two [OF lexes_opens(2), of "r_pattern r" "r_target r"]
      short [of "r_ipset r" "r_targets r"] long [of "r_ipset r" "r_targets r" "r_exclude r"]
    by (auto simp: lua_rule_def rule_tokens_def call_tokens_def list_tokens_def split: if_splits)
qed

lemma lexes_rules: "lua_rules i rs = Inr s \<Longrightarrow> lexes s (concat (map rule_tokens rs))"
proof (induction rs arbitrary: i s)
  case Nil
  then show ?case by simp
next
  case (Cons r rs)
  then obtain l u where "lua_rule r = Some l" "lua_rules (Suc i) rs = Inr u" "s = l @ u"
    by (auto split: option.splits sum.splits)
  with Cons.IH lexes_rule show ?case by (auto intro: lexes_append)
qed

lemma dec_val_append [simp]: "dec_val (s @ [c]) = dec_val s * 10 + digit_val c"
  by (simp add: dec_val_def)

lemma digits_number: "0 \<le> n \<Longrightarrow> list_all is_digit (digits n) \<and> digits n \<noteq> [] \<and> dec_val (digits n) = n"
proof (induction n rule: digits.induct)
  case (1 n)
  have c: "is_digit (char_of (48 + n mod 10))" "digit_val (char_of (48 + n mod 10)) = n mod 10"
    by (simp_all add: char_digit)
  show ?case
  proof (cases "n < 10")
    case True
    then show ?thesis using c 1(2) by (subst (1 2 3) digits.simps) (simp add: dec_val_def)
  next
    case False
    then have d: "list_all is_digit (digits (n div 10)) \<and> digits (n div 10) \<noteq> [] \<and> dec_val (digits (n div 10)) = n div 10"
      using 1 by simp
    show ?thesis using False c d by (subst (1 2 3) digits.simps) simp
  qed
qed

lemma LF_not_word [simp]: "\<not> is_word LF"
  by (simp add: word_simps LF_chr)

lemma lexes_number: "0 \<le> n \<Longrightarrow> lexes (fmt_d n @ [LF]) [TNum n]"
  using lexes_num [OF lexes_LF, of "digits n"] digits_number [of n]
  by (simp add: fmt_d_def)

lemma lexes_int:
  assumes "list_all is_word w" and "w \<noteq> []" and "is_letter (hd w)" and "in_range v lo hi" and "0 \<le> lo"
  shows "lexes (lua_int w v) (int_tokens w v)"
proof (cases v)
  case None
  then show ?thesis by (simp add: lua_int_def int_tokens_def)
next
  case (Some n)
  then have "0 \<le> n" using assms(4,5) by (auto simp: in_range_def)
  from lexes_append [OF lexes_eq(2) [OF assms(1-3)] lexes_number [OF this]] Some show ?thesis
    by (simp add: lua_int_def int_tokens_def set_tokens_def)
qed

lemma lexes_setting:
  assumes "list_all is_word w" and "w \<noteq> []" and "is_letter (hd w)" and "lexes s ts"
  shows "lexes (w @ '' = '' @ s @ [LF]) (set_tokens w ts)"
  using lexes_append [OF lexes_eq(2) [OF assms(1-3)] lexes_append [OF assms(4) lexes_LF]]
  by (simp add: set_tokens_def)

lemma lexes_str_list: "lexes (lua_str_list xs) (list_tokens xs)"
  using lexes_append [OF lexes_syms(6) lexes_append [OF lexes_strings lexes_syms(7)], of xs]
  by (simp add: lua_str_list_def list_tokens_def)

lemma lexes_upstream: "lexes (lua_upstream u) (upstream_tokens u)"
proof -
  have q: "lexes (lua_quote x) [str_token x]" for x by (simp add: str_token_def)
  have n: "lexes ''name='' [TName ''name'', TSym CHR ''='']" "lexes ''address='' [TName ''address'', TSym CHR ''='']"
    "lexes ''pool='' [TName ''pool'', TSym CHR ''='']"
    using lexes_eq(1) [of "''name''"] lexes_eq(1) [of "''address''"] lexes_eq(1) [of "''pool''"]
    by (simp_all add: word_simps)
  note parts = lexes_append [OF lexes_syms(6) lexes_append [OF n(1) lexes_append [OF q lexes_append [OF lexes_syms(1)
    lexes_append [OF n(2) lexes_append [OF q lexes_append [OF lexes_syms(1) lexes_append [OF n(3)
    lexes_append [OF q lexes_syms(7)]]]]]]]]]
  show ?thesis
    using parts [of "u_name u" "u_addr u" "u_pool u"] by (simp add: lua_upstream_def upstream_tokens_def set_tokens_def)
qed

lemma lexes_upstreams:
  "lexes (''{'' @ join '', '' (map lua_upstream us) @ ''}'') (TSym CHR ''{'' # commas (map upstream_tokens us) @ [TSym CHR ''}''])"
  using lexes_append [OF lexes_syms(6) lexes_append [OF lexes_join lexes_syms(7)], of us lua_upstream upstream_tokens]
  by (simp add: lexes_upstream)

lemma lexes_if: "(b \<Longrightarrow> lexes s ts) \<Longrightarrow> lexes (if b then s else []) (if b then ts else [])"
  by simp

lemma lexes_section:
  assumes "section_wf d"
  shows "lexes (lua_section d) (section_tokens d)"
proof -
  have r: "in_range (d_ecs4 d) 0 32" "in_range (d_ecs6 d) 0 128" "in_range (d_qps d) 1 100000"
    "in_range (d_conns d) 1 10000" "in_range (d_queries d) 1 100000"
    using assms by (simp_all add: section_wf_def)
  have q: "lexes (lua_quote x) [str_token x]" for x by (simp add: str_token_def)
  have ups: "''PROFILE_UPSTREAMS = {'' @ s = ''PROFILE_UPSTREAMS'' @ '' = '' @ ''{'' @ s" for s by simp
  have eqs: "''PROFILE_BLOCK_MODE = '' @ s = ''PROFILE_BLOCK_MODE'' @ '' = '' @ s"
    "''PROFILE_SINKHOLE_V4 = '' @ s = ''PROFILE_SINKHOLE_V4'' @ '' = '' @ s"
    "''PROFILE_SINKHOLE_V6 = '' @ s = ''PROFILE_SINKHOLE_V6'' @ '' = '' @ s"
    "''PROFILE_ACL = '' @ s = ''PROFILE_ACL'' @ '' = '' @ s" for s
    by simp_all
  have u: "lexes (''PROFILE_UPSTREAMS'' @ '' = '' @ ''{'' @ join '', '' (map lua_upstream (d_ups d)) @ ''}'' @ [LF])
      (set_tokens ''PROFILE_UPSTREAMS'' (TSym CHR ''{'' # commas (map upstream_tokens (d_ups d)) @ [TSym CHR ''}'']))"
    using lexes_setting [OF _ _ _ lexes_upstreams, of "''PROFILE_UPSTREAMS''" "d_ups d"] by (simp add: word_simps)
  show ?thesis
    unfolding lua_section_def section_tokens_def eqs ups
    by (intro lexes_append lexes_if u lexes_setting q lexes_str_list lexes_int [OF _ _ _ r(1)] lexes_int [OF _ _ _ r(2)]
        lexes_int [OF _ _ _ r(3)] lexes_int [OF _ _ _ r(4)] lexes_int [OF _ _ _ r(5)]) (simp_all add: word_simps)
qed

lemma lexes_headers: "lexes smartdist_header []" "lexes dnsdist_header []"
proof -
  have "lexes (''--'' @ '' SmartDist profile (auto-generated by panel agent, do not edit)'' @ [LF]) []"
    "lexes (''--'' @ '' dnsdist profile v1 (auto-generated by panel agent, do not edit)'' @ [LF]) []"
    by (rule lexes_comment; simp add: LF_chr)+
  then show "lexes smartdist_header []" "lexes dnsdist_header []"
    by (simp_all add: smartdist_header_def dnsdist_header_def)
qed

lemma lexes_flag:
  assumes "list_all is_word w" and "w \<noteq> []" and "is_letter (hd w)"
  shows "lexes (w @ '' = '' @ lua_bool b @ [LF]) (set_tokens w [TName (lua_bool b)])"
proof -
  have "lexes (lua_bool b @ [LF]) [TName (lua_bool b)]"
    by (rule lexes_name [OF lexes_LF _ _ _ LF_not_word]) (simp_all add: lua_bool_def word_simps)
  from lexes_append [OF lexes_eq(2) [OF assms] this] show ?thesis by (simp add: set_tokens_def)
qed

lemma smartdist_lua_lexes:
  assumes "generate_smartdist_lua J b = Inr s"
  shows "\<exists>enabled rules. pc_doc J b = Some (enabled, rules) \<and> lexes s (smartdist_tokens enabled rules)"
proof -
  obtain enabled rules u where u: "pc_doc J b = Some (enabled, rules)" "lua_rules 0 rules = Inr u"
      "s = smartdist_header @ (''SMARTDIST_ENABLED'' @ '' = '' @ lua_bool enabled @ [LF]) @ u"
    using assms by (auto simp: generate_smartdist_lua_def split: option.splits sum.splits)
  have "lexes (''SMARTDIST_ENABLED'' @ '' = '' @ lua_bool enabled @ [LF]) (set_tokens ''SMARTDIST_ENABLED'' [TName (lua_bool enabled)])"
    by (rule lexes_flag) (simp_all add: word_simps)
  from lexes_append [OF lexes_headers(1) lexes_append [OF this lexes_rules [OF u(2)]]] u
  show ?thesis by (auto simp: smartdist_tokens_def)
qed

lemma dnsdist_lua_lexes:
  assumes "dnsdist_lua sec = Inr s"
  shows "lexes s (dnsdist_tokens sec)"
proof -
  have flag: "lexes (''PROFILE_ENABLED'' @ '' = '' @ lua_bool b @ [LF]) (set_tokens ''PROFILE_ENABLED'' [TName (lua_bool b)])" for b
    by (rule lexes_flag) (simp_all add: word_simps)
  show ?thesis
  proof (cases sec)
    case None
    with assms lexes_append [OF lexes_headers(2) flag [of False]] show ?thesis
      by (simp add: dnsdist_lua_def dnsdist_tokens_def lua_bool_def)
  next
    case (Some d)
    with assms have "section_wf d" and s: "s = dnsdist_header @ ''PROFILE_ENABLED = true'' @ [LF] @ lua_section d"
      by (auto simp: dnsdist_lua_def valid_section_iff [symmetric] split: option.splits)
    from lexes_append [OF lexes_headers(2) lexes_append [OF flag [of True] lexes_section [OF this(1)]]] s Some
    show ?thesis by (simp add: dnsdist_tokens_def lua_bool_def)
  qed
qed

end
