(* ===== verification/Profile_Api.thy ===== *)
theory Profile_Api
  imports Profile_Store Profile_Lua Cluster_Api Rpz_Domain
begin

text \<open>
  The HTTP handlers of \<open>panel/smartdist_profile.go\<close> and the authentication of a node that fetches its
  profile, then what is shown of the profile documents, the generated Lua and the profile store.
\<close>

subsection \<open>Handlers\<close>

definition verify_node_key :: "cluster_store \<Rightarrow> string \<Rightarrow> string \<Rightarrow> bool" where
  "verify_node_key cs i k =
     (if i = [] \<or> k = [] then False
      else (case fmlookup (cs_nodes cs) i of None \<Rightarrow> False | Some n \<Rightarrow> n_key n \<noteq> [] \<and> n_key n = k))"

text \<open>The JSON backend has \<open>VerifyNodeKey\<close>; \<^const>\<open>None\<close> stands for a backend without it.\<close>

definition verify_edge_node :: "cluster_store option \<Rightarrow> string \<Rightarrow> string \<Rightarrow> bool" where
  "verify_edge_node b i k =
     (if i = [] \<or> k = [] then False else (case b of None \<Rightarrow> False | Some cs \<Rightarrow> verify_node_key cs i k))"

definition handle_profile_fetch ::
  "cluster_store option \<Rightarrow> profile_store \<Rightarrow> http_method \<Rightarrow> string \<Rightarrow> string \<Rightarrow> bytes http_response" where
  "handle_profile_fetch b st meth node_param key_param =
     (if meth \<noteq> GET then Failed 405
      else
        (let i = trim_space node_param; k = trim_space key_param
         in if \<not> verify_edge_node b i k then Failed 401
            else (case profile_for_node st i of
                    None \<Rightarrow> Failed 404
                  | Some (pid, _) \<Rightarrow> (case ps_get pid st of None \<Rightarrow> Failed 404 | Some (raw, _) \<Rightarrow> Body raw))))"

datatype profiles_body =
  Listing "summary list" | Trail string "assign_event list" | Stored summary | Deleted

text \<open>\<open>body\<close> is what the client sends, \<^const>\<open>None\<close> when reading it fails; one MiB is the limit.\<close>

definition handle_profiles ::
  "profile_codec \<Rightarrow> lib \<Rightarrow> profile_env \<Rightarrow> http_method \<Rightarrow> string \<Rightarrow> string \<Rightarrow> bytes option \<Rightarrow> profile_store
   \<Rightarrow> profiles_body http_response \<times> profile_store" where
  "handle_profiles J L e meth history_param id_param body st =
     (case meth of
        GET \<Rightarrow>
          (let n = trim_space history_param
           in if n \<noteq> [] then (Body (Trail n (ps_history_of n st)), st) else (Body (Listing (ps_list J st)), st))
      | POST \<Rightarrow>
          (case body of
             None \<Rightarrow> (Failed 400, st)
           | Some raw \<Rightarrow>
               if 1048576 < int (length raw) then (Failed 400, st)
               else (case ps_put J L e raw st of
                       (Inl StorageFailed, st') \<Rightarrow> (Failed 500, st')
                     | (Inl _, st') \<Rightarrow> (Failed 400, st')
                     | (Inr s, st') \<Rightarrow> (Body (Stored s), st')))
      | DELETE \<Rightarrow>
          (let i = trim_space id_param
           in if i = [] then (Failed 400, st)
              else (case ps_delete e i st of
                      (Inr _, st') \<Rightarrow> (Body Deleted, st')
                    | (Inl NoProfile, st') \<Rightarrow> (Failed 404, st')
                    | (Inl ProfileInUse, st') \<Rightarrow> (Failed 409, st')
                    | (Inl _, st') \<Rightarrow> (Failed 500, st')))
      | OtherMethod \<Rightarrow> (Failed 405, st))"

record assign_request =
  aq_node :: string
  aq_nodes :: "string list"
  aq_profile :: string

text \<open>\<open>listed\<close> are the nodes of \<open>ListNodes\<close>; \<open>req\<close> is the decoded body.\<close>

definition handle_assign ::
  "profile_env \<Rightarrow> http_method \<Rightarrow> assign_request option \<Rightarrow> node list \<Rightarrow> profile_store
   \<Rightarrow> string list http_response \<times> profile_store" where
  "handle_assign e meth req listed st =
     (if meth \<noteq> POST then (Failed 405, st)
      else (case req of
              None \<Rightarrow> (Failed 400, st)
            | Some q \<Rightarrow>
                (let pid = trim_space (aq_profile q);
                     ids0 = (if aq_nodes q = [] \<and> trim_space (aq_node q) \<noteq> [] then [aq_node q] else aq_nodes q);
                     ids = map trim_space ids0
                 in if ids = [] \<or> hd ids = [] then (Failed 400, st)
                    else if \<exists>i \<in> set ids. i = [] \<or> i \<notin> n_id ` set listed then (Failed 404, st)
                    else (case ps_assign_many e ids pid st of
                            (Inl NoProfile, st') \<Rightarrow> (Failed 400, st')
                          | (Inl _, st') \<Rightarrow> (Failed 500, st')
                          | (Inr _, st') \<Rightarrow> (Body ids, st')))))"

subsection \<open>Facts\<close>

lemma verify_edge_node_iff:
  "verify_edge_node b i k \<longleftrightarrow> i \<noteq> [] \<and> k \<noteq> []
     \<and> (\<exists>cs n. b = Some cs \<and> fmlookup (cs_nodes cs) i = Some n \<and> n_key n = k)"
  by (auto simp: verify_edge_node_def verify_node_key_def split: option.splits)

text \<open>A backend without \<open>VerifyNodeKey\<close> serves no profile at all.\<close>

lemma sql_backend_serves_nothing: "handle_profile_fetch None st GET i k = Failed 401"
  by (simp add: handle_profile_fetch_def verify_edge_node_iff Let_def)

lemma inv_no_empty:
  assumes "store_inv J L st"
  shows "[] |\<notin>| fmdom (ps_profiles st)"
proof
  assume "[] |\<in>| fmdom (ps_profiles st)"
  then obtain v where "fmlookup (ps_profiles st) [] = Some v" by (auto simp: fmlookup_dom_iff)
  with assms have "entry_ok J L [] v" unfolding store_inv_def by blast
  then show False by (auto simp: entry_ok_def parse_profile_Inr profile_wf_def name_re_def)
qed

text \<open>The assign handler cannot release a node: an empty profile identifier is always refused.\<close>

lemma assign_empty_refused:
  assumes "store_inv J L st" and "trim_space (aq_profile q) = []"
  shows "handle_assign e POST (Some q) listed st \<in> {(Failed 400, st), (Failed 404, st)}"
proof -
  have m: "ps_assign_many e ids [] st = (Inl NoProfile, st)" for ids
    using inv_no_empty [OF assms(1)] by (simp add: ps_assign_many_def)
  show ?thesis
    unfolding handle_assign_def Let_def
    by (simp only: assms(2) m option.case prod.case sum.case store_error.case http_method.distinct if_False insert_iff
        simp_thms split: if_split)
qed

text \<open>A node named twice in one request gets two events that do not chain.\<close>

lemma duplicate_nodes_break_trail:
  fixes e p v
  defines "st \<equiv> \<lparr>ps_path = [], ps_profiles = fmupd [p] v fmempty, ps_assign = fmempty, ps_history = fmempty, ps_disk = None\<rparr>"
  shows "\<not> chained (ps_history_of [n] (snd (ps_assign_many e [[n], [n]] [p] st)))"
  by (simp add: st_def ps_assign_many_def ps_save_def prev_map_def Let_def prev_of_def record_event_def last_events_def
      max_history_def ps_history_of_def persist_history_def chained_def NUL_def)

subsection \<open>A concrete codec, profile and store\<close>

definition example_rule :: rule_spec where
  "example_rule = \<lparr>r_type = ''cname'', r_name = [], r_file = [], r_pattern = ''x'' @ [QUOTE] @ '')os.exit()--'',
     r_target = ''a'' @ [BSLASH, LF], r_ipset = [], r_targets = [], r_exclude = []\<rparr>"

definition example_section :: dnsdist_settings where
  "example_section = \<lparr>d_mode = ''rpz'', d_sink4 = [''10.0.0.1''], d_sink6 = [''::1''], d_acl = [''10.0.0.0/8''],
     d_ups = [\<lparr>u_name = ''cf'', u_addr = ''1.1.1.1:53'', u_pool = ''p''\<rparr>], d_ecs4 = Some 24, d_ecs6 = None,
     d_qps = None, d_conns = None, d_queries = Some 100\<rparr>"

definition example_profile :: profile where
  "example_profile = \<lparr>p_id = ''p1'', p_name = ''Edge'', p_enabled = True, p_rules = [example_rule],
     p_dnsdist = Some example_section\<rparr>"

definition example_codec :: profile_codec where
  "example_codec = \<lparr>pc_decode = (\<lambda>b. if b = ''doc'' \<or> b = ''cafe'' then Some example_profile else None),
     pc_encode = (\<lambda>p. ''cafe''),
     pc_loose = (\<lambda>b. if b = ''doc'' \<or> b = ''cafe'' then Some example_profile else None),
     pc_doc = (\<lambda>b. if b = ''doc'' \<or> b = ''cafe'' then Some (True, [example_rule]) else None)\<rparr>"

lemma example_codec_ok: "codec_ok example_codec"
  by (simp add: codec_ok_def example_codec_def example_profile_def)

lemma example_section_wf: "valid_section (Some example_section) = None"
  by code_simp

lemma example_profile_wf: "profile_wf example_profile"
proof -
  have "name_re ''p1''" "rule_ok example_rule" by code_simp+
  moreover have "trim_space ''Edge'' = ''Edge''" by (rule trim_space_plain) (simp add: is_plain_def)
  ultimately show ?thesis
    using example_section_wf by (simp add: profile_wf_def example_profile_def valid_section_iff)
qed

lemma example_parse: "parse_profile example_codec ''doc'' = Inr (example_profile, ''cafe'')"
  using example_profile_wf by (simp add: parse_profile_Inr) (simp add: example_codec_def)

definition example_penv :: "bool \<Rightarrow> profile_env" where
  "example_penv io = \<lparr>pe_io = (\<lambda>_. io), pe_now = (\<lambda>k. 100 + int k)\<rparr>"

definition example_profile_ops :: "profile_op list" where
  "example_profile_ops =
     [OpPut (example_penv True) ''doc'', OpAssignMany (example_penv True) [''node-bb'', ''node-cc''] ''p1'',
      OpAssign (example_penv False) ''node-bb'' [], OpDrop (example_penv True) ''p1'']"

definition example_profiles :: profile_store where
  "example_profiles = ps_run example_codec example_lib example_profile_ops (ps_new example_codec example_lib ''/v/p.json'' None)"

subsection \<open>Properties\<close>

text \<open>
  A submitted document is accepted exactly when it decodes to a profile with an identifier of
  the required form, a name of one to 200 bytes that is not blank, complete rules of a known type
  and a dnsdist section in range: sinkholes of the right address family, prefixes, upstreams with
  an address and a port of 16 bits, at most 256 and 64 entries, numbers within their bounds. What
  is stored is then its canonical encoding.
\<close>

lemma profile_accepted_iff:
  "parse_profile J raw = Inr (p, c) \<longleftrightarrow> pc_decode J raw = Some p \<and> profile_wf p \<and> c = pc_encode J p"
  by (rule parse_profile_Inr)

text \<open>
  Quoting is exact: Lua reads a quoted string back as the string itself, with bytes that are
  not UTF-8 replaced as Go's range loop replaces them, and stops at its closing quote whatever
  follows; no rune is lost or changed.
\<close>

lemma lua_quote_round_trip:
  "lua_string (tl (lua_quote s @ t)) = Some (to_valid s, t) \<and> hd (lua_quote s) = QUOTE \<and> runes (to_valid s) = runes s"
  using lua_string_quote [of s t] by (simp add: lua_quote_def)

text \<open>
  C18: Whatever a profile holds, the Lua that is generated from it consists of the intended calls and
  assignments: every string of the profile is one string token and every number one number token,
  so nothing a profile holds can act as code on the node.
\<close>

theorem generated_lua_tokens:
  assumes "generate_smartdist_lua J b = Inr s" and "generate_dnsdist_lua J b = Inr d"
  shows "(\<exists>enabled rules. pc_doc J b = Some (enabled, rules) \<and> lua_lex s = Some (smartdist_tokens enabled rules))
     \<and> (\<exists>p. pc_loose J b = Some p \<and> lua_lex d = Some (dnsdist_tokens (p_dnsdist p)))"
proof -
  obtain enabled rules where r: "pc_doc J b = Some (enabled, rules)" "lexes s (smartdist_tokens enabled rules)"
    using smartdist_lua_lexes [OF assms(1)] by blast
  obtain p where p: "pc_loose J b = Some p" "dnsdist_lua (p_dnsdist p) = Inr d"
    using assms(2) by (auto simp: generate_dnsdist_lua_def split: option.splits)
  show ?thesis
    using r p(1) lexes_whole [OF r(2)] lexes_whole [OF dnsdist_lua_lexes [OF p(2)]] by auto
qed

lemma example_rules_printed: "lua_rules 0 [example_rule] \<noteq> Inl e" 
  by (simp add: example_rule_def lua_rule_def)

theorem generated_lua_tokens_witness:
  "\<exists>s. generate_smartdist_lua example_codec ''doc'' = Inr s
     \<and> lua_lex s = Some ([TName ''SMARTDIST_ENABLED'', TSym CHR ''='', TName ''true'', TName ''smartdns_cname'', TSym CHR ''('',
         TStr (''x'' @ [QUOTE] @ '')os.exit()--''), TSym CHR '','', TStr (''a'' @ [BSLASH, LF]), TSym CHR '')''])"
proof -
  have doc: "pc_doc example_codec ''doc'' = Some (True, [example_rule])"
    "pc_loose example_codec ''doc'' = Some example_profile"
    by (simp_all add: example_codec_def)
  obtain s where s: "generate_smartdist_lua example_codec ''doc'' = Inr s"
    using example_rules_printed doc(1)
    by (cases "lua_rules 0 [example_rule]") (auto simp: generate_smartdist_lua_def)
  obtain d where "generate_dnsdist_lua example_codec ''doc'' = Inr d"
    using doc(2) example_section_wf by (auto simp: generate_dnsdist_lua_def dnsdist_lua_def example_profile_def)
  from generated_lua_tokens [OF s this] doc(1)
  have "lua_lex s = Some (smartdist_tokens True [example_rule])" by auto
  moreover have "to_valid (''x'' @ [QUOTE] @ '')os.exit()--'') = ''x'' @ [QUOTE] @ '')os.exit()--''"
    "to_valid (''a'' @ [BSLASH, LF]) = ''a'' @ [BSLASH, LF]"
    by (rule to_valid_ascii; simp add: is_ascii_def QUOTE_def BSLASH_def LF_chr)+
  ultimately show ?thesis
    using s by (auto simp: smartdist_tokens_def set_tokens_def rule_tokens_def call_tokens_def str_token_def
        example_rule_def lua_bool_def)
qed

text \<open>
  C16: Every operation of the profile store implements one step of the abstract store of documents
  and assignments: it is refused exactly when the specification refuses it, with the same error;
  otherwise it is done completely, or, when the file cannot be written, fails and leaves memory and
  file exactly as they were.
\<close>

theorem profile_store_refines:
  assumes "codec_ok J" and "store_inv J L st"
  shows "case spec_step J op (ps_abs J st) of
      Inl err \<Rightarrow> ps_do J L op st = (Inl err, st)
    | Inr a \<Rightarrow> if saves op st then (\<exists>st'. ps_do J L op st = (Inr (), st') \<and> ps_abs J st' = a \<and> store_inv J L st')
              else ps_do J L op st = (Inl StorageFailed, st)"
  using ps_do_refines [OF assms, of op] by (auto simp: step_done_def split: sum.splits if_splits)

lemma example_fresh_inv: "store_inv example_codec L (ps_new example_codec L path disk)"
  by (rule ps_new_inv [OF example_codec_ok])

theorem profile_store_refines_witness:
  "ps_do example_codec example_lib (OpPut (example_penv False) ''doc'') (ps_new example_codec example_lib ''/v'' None)
   = (Inl StorageFailed, ps_new example_codec example_lib ''/v'' None)"
  using profile_store_refines [OF example_codec_ok example_fresh_inv [of example_lib "''/v''" None],
      where op = "OpPut (example_penv False) ''doc''"]
  by (simp add: example_parse ps_abs_def saves_def example_penv_def)

text \<open>
  C17: Whatever the file holds at startup, after any sequence of operations every stored document
  is canonical and carries its own identifier and hash, every assigned profile exists, and no
  history is longer than 50 events.
\<close>

theorem profile_store_invariant:
  assumes "codec_ok J" and "st = ps_run J L ops (ps_new J L path disk)"
  shows "(\<forall>i raw h. fmlookup (ps_profiles st) i = Some (raw, h) \<longrightarrow>
            h = canon_hash L raw \<and> (\<exists>p. parse_profile J raw = Inr (p, raw) \<and> p_id p = i))
     \<and> (\<forall>n pid. fmlookup (ps_assign st) n = Some pid \<longrightarrow>
            (\<exists>raw. fmlookup (ps_profiles st) pid = Some (raw, canon_hash L raw)
                   \<and> profile_for_node st n = Some (pid, canon_hash L raw)))
     \<and> (\<forall>n. length (ps_history_of n st) \<le> 50)"
proof -
  have inv: "store_inv J L st" unfolding assms(2) by (rule ps_run_inv [OF assms(1) ps_new_inv [OF assms(1)]])
  have e: "h = canon_hash L raw \<and> (\<exists>p. parse_profile J raw = Inr (p, raw) \<and> p_id p = i)"
    if "fmlookup (ps_profiles st) i = Some (raw, h)" for i raw h
  proof -
    have "entry_ok J L i (raw, h)" using inv that unfolding store_inv_def by blast
    then show ?thesis by (auto simp: entry_ok_def)
  qed
  have a: "\<exists>raw. fmlookup (ps_profiles st) pid = Some (raw, canon_hash L raw)
      \<and> profile_for_node st n = Some (pid, canon_hash L raw)" if n: "fmlookup (ps_assign st) n = Some pid" for n pid
  proof -
    have "pid |\<in>| fmdom (ps_profiles st)" using inv n unfolding store_inv_def by blast
    then obtain raw h where "fmlookup (ps_profiles st) pid = Some (raw, h)" by (auto simp: fmlookup_dom_iff)
    with e [OF this] n show ?thesis by (auto simp: profile_for_node_def)
  qed
  have "length (ps_history_of n st) \<le> 50" for n
    using inv by (auto simp: store_inv_def ps_history_of_def max_history_def split: option.splits)
  with e a show ?thesis by blast
qed

theorem profile_store_invariant_witness:
  "profile_for_node example_profiles ''node-cc'' = Some (''p1'', canon_hash example_lib ''cafe'')"
proof -
  have a: "fmlookup (ps_assign example_profiles) ''node-cc'' = Some ''p1''" by code_simp
  have r: "fmlookup (ps_profiles example_profiles) ''p1'' = Some (''cafe'', canon_hash example_lib ''cafe'')" by code_simp
  have "\<exists>raw. fmlookup (ps_profiles example_profiles) ''p1'' = Some (raw, canon_hash example_lib raw)
      \<and> profile_for_node example_profiles ''node-cc'' = Some (''p1'', canon_hash example_lib raw)"
    using profile_store_invariant [OF example_codec_ok example_profiles_def] a by blast
  with r show ?thesis by auto
qed

text \<open>
  C20: Restarting loses nothing: after any sequence of operations on a store that started without a
  file, whatever writes failed, a store opened on the file holds the same documents, hashes and
  assignments.
\<close>

theorem profile_store_recovers:
  assumes "codec_ok J" and "path \<noteq> []" and "st = ps_run J L ops (ps_new J L path None)"
  shows "ps_profiles (ps_new J L path (ps_disk st)) = ps_profiles st
     \<and> ps_assign (ps_new J L path (ps_disk st)) = ps_assign st"
  using reload_ok [OF ps_run_ok [OF assms(1,2) fresh_ok [OF assms(1,2)]] assms(2), of L ops] assms(3) by simp

theorem profile_store_recovers_witness:
  "current (ps_new example_codec example_lib ''/v/p.json'' (ps_disk example_profiles)) ''node-bb'' = ''p1''"
proof -
  have "ps_assign (ps_new example_codec example_lib ''/v/p.json'' (ps_disk example_profiles)) = ps_assign example_profiles"
    using profile_store_recovers [OF example_codec_ok _ example_profiles_def] by simp
  moreover have "current example_profiles ''node-bb'' = ''p1''" by code_simp
  ultimately show ?thesis by (simp add: current_def)
qed

text \<open>
  C21: The history of a node is a faithful audit trail: on a store that started without a file, when
  no request names a node twice, the recorded events of a node are real changes, each starts where
  the one before ended, and the last one ends at the profile the node has now.
\<close>

theorem assignment_audit_trail:
  assumes "codec_ok J" and "\<forall>op \<in> set ops. op_distinct op" and "st = ps_run J L ops (ps_new J L path None)"
  shows "chained (ps_history_of n st)
     \<and> current st n = (if ps_history_of n st = [] then [] else ae_to (last (ps_history_of n st)))"
  using trail_run [OF assms(1) ps_new_inv [OF assms(1)] trail_fresh assms(2)] assms(3) unfolding trail_def by blast

theorem assignment_audit_trail_witness:
  "ae_to (last (ps_history_of ''node-bb'' example_profiles)) = ''p1''"
proof -
  have d: "\<forall>op \<in> set example_profile_ops. op_distinct op" by (simp add: example_profile_ops_def op_distinct_def)
  have "current example_profiles ''node-bb'' = ''p1''" by code_simp
  with assignment_audit_trail [OF example_codec_ok d example_profiles_def, of "''node-bb''"] show ?thesis
    by (auto split: if_splits)
qed

text \<open>
  C19: A profile is served only to a caller that presents the identifier and the key of a registered
  node, and what it gets is the canonical document of the profile assigned to that node, with the
  hash announced in the heartbeat. A backend that cannot verify keys serves nothing.
\<close>

theorem profile_fetch_authentic:
  assumes "store_inv J L st"
  shows "handle_profile_fetch b st GET i k = Body raw \<longleftrightarrow>
    (\<exists>cs n. b = Some cs \<and> fmlookup (cs_nodes cs) (trim_space i) = Some n \<and> n_key n = trim_space k)
    \<and> trim_space i \<noteq> [] \<and> trim_space k \<noteq> []
    \<and> (\<exists>p pid. profile_for_node st (trim_space i) = Some (pid, canon_hash L raw)
          \<and> parse_profile J raw = Inr (p, raw) \<and> p_id p = pid \<and> ps_get pid st = Some (raw, canon_hash L raw))"
proof -
  have e: "h = canon_hash L r \<and> (\<exists>p. parse_profile J r = Inr (p, r) \<and> p_id p = pid)"
    if "fmlookup (ps_profiles st) pid = Some (r, h)" for pid r h
  proof -
    have "entry_ok J L pid (r, h)" using assms that unfolding store_inv_def by blast
    then show ?thesis by (auto simp: entry_ok_def)
  qed
  have "(\<exists>pid h. profile_for_node st (trim_space i) = Some (pid, h) \<and> (\<exists>h2. ps_get pid st = Some (raw, h2)))
      \<longleftrightarrow> (\<exists>p pid. profile_for_node st (trim_space i) = Some (pid, canon_hash L raw)
          \<and> parse_profile J raw = Inr (p, raw) \<and> p_id p = pid \<and> ps_get pid st = Some (raw, canon_hash L raw))" (is "?A \<longleftrightarrow> ?B")
  proof
    assume ?A
    then obtain pid h h2 where g: "profile_for_node st (trim_space i) = Some (pid, h)" "ps_get pid st = Some (raw, h2)"
      by blast
    then have "h = h2" by (auto simp: profile_for_node_def ps_get_def split: option.splits)
    moreover note e [OF g(2) [unfolded ps_get_def]]
    ultimately show ?B using g by blast
  next
    assume ?B
    then show ?A by blast
  qed
  moreover have "handle_profile_fetch b st GET i k = Body raw \<longleftrightarrow>
      verify_edge_node b (trim_space i) (trim_space k)
      \<and> (\<exists>pid h. profile_for_node st (trim_space i) = Some (pid, h) \<and> (\<exists>h2. ps_get pid st = Some (raw, h2)))"
    by (auto simp: handle_profile_fetch_def Let_def split: option.splits)
  ultimately show ?thesis by (auto simp: verify_edge_node_iff)
qed

theorem profile_fetch_authentic_witness:
  "handle_profile_fetch (Some example_enrolled) example_profiles GET '' node-bb'' ''zz'' \<noteq> Body ''cafe''
   \<and> handle_profile_fetch (Some example_enrolled) example_profiles GET '' node-bb'' ''cc'' = Body ''cafe''"
proof -
  have inv: "store_inv example_codec example_lib example_profiles"
    unfolding example_profiles_def by (rule ps_run_inv [OF example_codec_ok example_fresh_inv])
  have k: "fmlookup (cs_nodes example_enrolled) ''node-bb'' = Some (new_node (example_op_env 2) example_register ''10.0.0.2'')"
    by (simp add: example_enrolled_def)
  have key: "n_key (new_node (example_op_env 2) example_register ''10.0.0.2'') \<noteq> ''zz''"
    by (simp add: new_node_def example_op_env_def Let_def)
  have t: "trim_space '' node-bb'' = ''node-bb''" "trim_space ''zz'' = ''zz''" by code_simp+
  have "handle_profile_fetch (Some example_enrolled) example_profiles GET '' node-bb'' ''zz'' \<noteq> Body ''cafe''"
    unfolding profile_fetch_authentic [OF inv] t option.inject using k key by fastforce
  moreover have "handle_profile_fetch (Some example_enrolled) example_profiles GET '' node-bb'' ''cc'' = Body ''cafe''"
    by code_simp
  ultimately show ?thesis by blast
qed

end
