(* ===== verification/Edge_Apply.thy ===== *)
theory Edge_Apply
  imports Profile_Lua
begin

text \<open>
  \<open>applyDnsdistProfile\<close> of \<open>panel/smartdist_dnsdist_apply.go\<close>: the gate through which the dnsdist
  section of a profile reaches the running resolver. The state is the file system and what the
  running dnsdist has loaded; every write, rename, check and restart may fail.
\<close>

subsection \<open>The gate\<close>

definition dnsdist_path :: string where "dnsdist_path = ''/etc/dnsdist/dnsdist-profile.lua''"
definition new_path :: string where "new_path = dnsdist_path @ ''.new''"
definition lkg_path :: string where "lkg_path = dnsdist_path @ ''.lkg''"

record node_world =
  nw_fs :: fs
  nw_loaded :: "bytes option option"
    \<comment> \<open>the profile file dnsdist has loaded; \<^const>\<open>None\<close> after a restart that failed\<close>
  nw_restarts :: nat

text \<open>
  What one call meets. \<open>ap_check\<close> is \<open>checkDnsdistConfigFn\<close> (a sandboxed run of the dnsdist binary)
  on the candidate text; \<open>ap_flag\<close> is the flag \<open>-dnsdist-restart\<close>.
\<close>

record apply_env =
  ap_readable :: bool
  ap_new :: write_result
  ap_check :: "bytes \<Rightarrow> bool"
  ap_lkg :: write_result
  ap_rename :: bool
  ap_flag :: bool
  ap_restart1 :: bool
  ap_back :: bool
  ap_restart2 :: bool
  ap_remove :: bool

datatype apply_error =
    GenFailed gen_error | NewFailed | CheckFailed | LkgFailed | RenameFailed
  | RollbackFailed | SecondRestartFailed | RolledBack

definition remove_file :: "fs \<Rightarrow> string \<Rightarrow> bool \<Rightarrow> fs" where
  "remove_file fs p ok = (if ok then fs(p := None) else fs)"

definition restart_dnsdist :: "bool \<Rightarrow> node_world \<Rightarrow> bool \<times> node_world" where
  "restart_dnsdist ok w =
     (ok, w\<lparr>nw_loaded := (if ok then Some (nw_fs w dnsdist_path) else None), nw_restarts := Suc (nw_restarts w)\<rparr>)"

text \<open>The part after the new text is in place.\<close>

definition restart_or_roll_back :: "apply_env \<Rightarrow> bytes option \<Rightarrow> node_world \<Rightarrow> apply_error option \<times> node_world" where
  "restart_or_roll_back e old w =
     (if \<not> ap_flag e then (None, w)
      else
        (case restart_dnsdist (ap_restart1 e) w of
           (True, w1) \<Rightarrow> (None, w1)
         | (False, w1) \<Rightarrow>
             (let (back, fs2) =
                    (case old of
                       Some _ \<Rightarrow> (case rename_file (nw_fs w1) lkg_path dnsdist_path (ap_back e) of (fs', ok) \<Rightarrow> (ok, fs'))
                     | None \<Rightarrow> (True, remove_file (nw_fs w1) dnsdist_path (ap_remove e)));
                  w2 = w1\<lparr>nw_fs := fs2\<rparr>
              in if \<not> back then (Some RollbackFailed, w2)
                 else (case restart_dnsdist (ap_restart2 e) w2 of
                         (False, w3) \<Rightarrow> (Some SecondRestartFailed, w3)
                       | (True, w3) \<Rightarrow> (Some RolledBack, w3)))))"

definition apply_dnsdist_profile ::
  "profile_codec \<Rightarrow> apply_env \<Rightarrow> bytes \<Rightarrow> node_world \<Rightarrow> apply_error option \<times> node_world" where
  "apply_dnsdist_profile J e body w =
     (case generate_dnsdist_lua J body of
        Inl err \<Rightarrow> (Some (GenFailed err), w)
      | Inr lua \<Rightarrow>
          (let old = (if ap_readable e then nw_fs w dnsdist_path else None)
           in if old = Some lua then (None, w)
              else
                (case write_file (nw_fs w) new_path lua (ap_new e) of
                   (fs1, False) \<Rightarrow> (Some NewFailed, w\<lparr>nw_fs := fs1\<rparr>)
                 | (fs1, True) \<Rightarrow>
                     if \<not> ap_check e lua then (Some CheckFailed, w\<lparr>nw_fs := remove_file fs1 new_path (ap_remove e)\<rparr>)
                     else
                       (case (case old of Some prev \<Rightarrow> write_file fs1 lkg_path prev (ap_lkg e) | None \<Rightarrow> (fs1, True)) of
                          (fs2, False) \<Rightarrow> (Some LkgFailed, w\<lparr>nw_fs := remove_file fs2 new_path (ap_remove e)\<rparr>)
                        | (fs2, True) \<Rightarrow>
                            (case rename_file fs2 new_path dnsdist_path (ap_rename e) of
                               (fs3, False) \<Rightarrow> (Some RenameFailed, w\<lparr>nw_fs := fs3\<rparr>)
                             | (fs3, True) \<Rightarrow> restart_or_roll_back e old (w\<lparr>nw_fs := fs3\<rparr>))))))"

subsection \<open>Facts\<close>

lemma paths_distinct [simp]:
  "new_path \<noteq> dnsdist_path" "lkg_path \<noteq> dnsdist_path" "new_path \<noteq> lkg_path"
  "dnsdist_path \<noteq> new_path" "dnsdist_path \<noteq> lkg_path" "lkg_path \<noteq> new_path"
  by (simp_all add: new_path_def lkg_path_def)

lemma write_file_cases:
  assumes "write_file fs p d r = (fs', ok)"
  shows "q \<noteq> p \<Longrightarrow> fs' q = fs q" "ok \<Longrightarrow> fs' p = Some d"
  using assms by (auto simp: write_file_def split: write_result.splits)

lemma rename_file_cases:
  assumes "rename_file fs a b ok = (fs', r)" and "a \<noteq> b"
  shows "r \<Longrightarrow> fs' b = fs a" "\<not> r \<Longrightarrow> fs' = fs" "r \<longleftrightarrow> ok \<and> fs a \<noteq> None" "q \<noteq> a \<Longrightarrow> q \<noteq> b \<Longrightarrow> fs' q = fs q"
  using assms by (auto simp: rename_file_def split: if_splits)

lemma remove_file_other [simp]: "q \<noteq> p \<Longrightarrow> remove_file fs p ok q = fs q"
  by (simp add: remove_file_def)

text \<open>
  The world when the candidate is in place: the active file holds it, the saved copy holds the old
  text when there was one, and nothing was restarted.
\<close>

definition staged :: "bytes \<Rightarrow> bytes option \<Rightarrow> node_world \<Rightarrow> node_world \<Rightarrow> bool" where
  "staged lua old w w1 \<longleftrightarrow> nw_fs w1 dnsdist_path = Some lua \<and> nw_loaded w1 = nw_loaded w
     \<and> nw_restarts w1 = nw_restarts w \<and> (\<forall>prev. old = Some prev \<longrightarrow> nw_fs w1 lkg_path = Some prev)
     \<and> (\<forall>q. q \<notin> {dnsdist_path, new_path, lkg_path} \<longrightarrow> nw_fs w1 q = nw_fs w q)"

text \<open>Every outcome of the gate before the restart.\<close>

lemma apply_stages:
  assumes "apply_dnsdist_profile J e body w = (res, w')" and "generate_dnsdist_lua J body = Inr lua"
    and "old = (if ap_readable e then nw_fs w dnsdist_path else None)"
  obtains (same) "old = Some lua" "res = None" "w' = w"
  | (stopped) err where "old \<noteq> Some lua" "res = Some err" "err \<in> {NewFailed, CheckFailed, LkgFailed, RenameFailed}"
      "nw_fs w' dnsdist_path = nw_fs w dnsdist_path" "nw_loaded w' = nw_loaded w" "nw_restarts w' = nw_restarts w"
      "\<forall>q. q \<notin> {dnsdist_path, new_path, lkg_path} \<longrightarrow> nw_fs w' q = nw_fs w q"
  | (placed) w1 where "old \<noteq> Some lua" "ap_check e lua" "staged lua old w w1"
      "restart_or_roll_back e old w1 = (res, w')"
proof (cases "old = Some lua")
  case True
  with assms have "res = None" "w' = w" by (auto simp: apply_dnsdist_profile_def)
  with True same show ?thesis by blast
next
  case False
  obtain fs1 ok1 where f1: "write_file (nw_fs w) new_path lua (ap_new e) = (fs1, ok1)" by fastforce
  obtain fs2 ok2 where f2: "(case old of Some prev \<Rightarrow> write_file fs1 lkg_path prev (ap_lkg e) | None \<Rightarrow> (fs1, True)) = (fs2, ok2)"
    by fastforce
  obtain fs3 ok3 where f3: "rename_file fs2 new_path dnsdist_path (ap_rename e) = (fs3, ok3)" by fastforce
  have a1: "fs1 q = nw_fs w q" if "q \<noteq> new_path" for q using write_file_cases(1) [OF f1 that] .
  have a2: "fs2 q = fs1 q" if "q \<noteq> lkg_path" for q
    using f2 that by (auto split: option.splits dest: write_file_cases(1))
  have l2: "fs2 lkg_path = Some prev" if "old = Some prev" ok2 for prev
    using f2 that by (auto dest: write_file_cases(2))
  note a3 = rename_file_cases [OF f3 paths_distinct(1)]
  have res: "(res, w') =
      (if \<not> ok1 then (Some NewFailed, w\<lparr>nw_fs := fs1\<rparr>)
       else if \<not> ap_check e lua then (Some CheckFailed, w\<lparr>nw_fs := remove_file fs1 new_path (ap_remove e)\<rparr>)
       else if \<not> ok2 then (Some LkgFailed, w\<lparr>nw_fs := remove_file fs2 new_path (ap_remove e)\<rparr>)
       else if \<not> ok3 then (Some RenameFailed, w\<lparr>nw_fs := fs3\<rparr>)
       else restart_or_roll_back e old (w\<lparr>nw_fs := fs3\<rparr>))"
    using assms(1) False f1 f2 f3
    by (cases ok1; cases "ap_check e lua"; cases ok2; cases ok3) (simp_all add: apply_dnsdist_profile_def assms(2) assms(3) [symmetric] Let_def)
  show ?thesis
  proof (cases "ok1 \<and> ap_check e lua \<and> ok2 \<and> ok3")
    case True
    have "nw_fs (w\<lparr>nw_fs := fs3\<rparr>) dnsdist_path = Some lua"
      using a3(1) True a2 [of new_path] write_file_cases(2) [OF f1] by simp
    then have "staged lua old w (w\<lparr>nw_fs := fs3\<rparr>)"
      using a1 a2 a3(4) l2 True by (auto simp: staged_def)
    with placed False True res show ?thesis by simp
  next
    case False2: False
    have "\<exists>err. res = Some err \<and> err \<in> {NewFailed, CheckFailed, LkgFailed, RenameFailed}"
      "nw_fs w' dnsdist_path = nw_fs w dnsdist_path" "nw_loaded w' = nw_loaded w" "nw_restarts w' = nw_restarts w"
      "\<forall>q. q \<notin> {dnsdist_path, new_path, lkg_path} \<longrightarrow> nw_fs w' q = nw_fs w q"
      using res False2 a1 a2 a3(2) by (auto split: if_splits)
    with stopped False show ?thesis by blast
  qed
qed

lemma roll_back_cases:
  assumes "restart_or_roll_back e old w1 = (res, w')" and "staged lua old w w1"
  obtains (kept) "\<not> ap_flag e" "res = None" "w' = w1"
  | (restarted) "ap_flag e" "res = None" "nw_fs w' = nw_fs w1" "nw_loaded w' = Some (Some lua)" "nw_restarts w' = Suc (nw_restarts w1)"
  | (stuck) "ap_flag e" "res = Some RollbackFailed" "nw_fs w' = nw_fs w1" "nw_loaded w' = None" "old \<noteq> None" "\<not> ap_back e"
  | (undone) "ap_flag e" "res \<in> {Some SecondRestartFailed, Some RolledBack}"
      "nw_fs w' dnsdist_path = (if old = None \<and> \<not> ap_remove e then Some lua else old)"
      "\<forall>q. q \<notin> {dnsdist_path, new_path, lkg_path} \<longrightarrow> nw_fs w' q = nw_fs w1 q"
      "nw_loaded w' = (if res = Some RolledBack then Some (nw_fs w' dnsdist_path) else None)"
proof (cases "ap_flag e")
  case False
  with assms(1) show ?thesis by (intro kept) (simp_all add: restart_or_roll_back_def)
next
  case flag: True
  have act: "nw_fs w1 dnsdist_path = Some lua" using assms(2) by (simp add: staged_def)
  show ?thesis
  proof (cases "ap_restart1 e")
    case True
    with assms(1) flag act show ?thesis
      by (intro restarted) (auto simp: restart_or_roll_back_def restart_dnsdist_def)
  next
    case r1: False
    let ?w1 = "w1\<lparr>nw_loaded := None, nw_restarts := Suc (nw_restarts w1)\<rparr>"
    show ?thesis
    proof (cases old)
      case None
      let ?fs = "remove_file (nw_fs w1) dnsdist_path (ap_remove e)"
      have "(res, w') = (if ap_restart2 e then (Some RolledBack, ?w1\<lparr>nw_fs := ?fs, nw_loaded := Some (?fs dnsdist_path), nw_restarts := Suc (Suc (nw_restarts w1))\<rparr>)
          else (Some SecondRestartFailed, ?w1\<lparr>nw_fs := ?fs, nw_restarts := Suc (Suc (nw_restarts w1))\<rparr>))"
        using assms(1) flag r1 None by (auto simp: restart_or_roll_back_def restart_dnsdist_def Let_def)
      with None act flag show ?thesis
        by (intro undone) (auto simp: remove_file_def split: if_splits)
    next
      case (Some prev)
      have l: "nw_fs w1 lkg_path = Some prev" using assms(2) Some by (simp add: staged_def)
      show ?thesis
      proof (cases "ap_back e")
        case False
        then have "rename_file (nw_fs w1) lkg_path dnsdist_path (ap_back e) = (nw_fs w1, False)" by (simp add: rename_file_def)
        with assms(1) flag r1 Some False show ?thesis
          by (intro stuck) (auto simp: restart_or_roll_back_def restart_dnsdist_def Let_def)
      next
        case True
        let ?fs = "(nw_fs w1)(dnsdist_path := Some prev, lkg_path := None)"
        have "rename_file (nw_fs w1) lkg_path dnsdist_path (ap_back e) = (?fs, True)"
          using l True by (auto simp: rename_file_def)
        then have "(res, w') = (if ap_restart2 e then (Some RolledBack, ?w1\<lparr>nw_fs := ?fs, nw_loaded := Some (?fs dnsdist_path), nw_restarts := Suc (Suc (nw_restarts w1))\<rparr>)
          else (Some SecondRestartFailed, ?w1\<lparr>nw_fs := ?fs, nw_restarts := Suc (Suc (nw_restarts w1))\<rparr>))"
          using assms(1) flag r1 Some by (auto simp: restart_or_roll_back_def restart_dnsdist_def Let_def)
        with Some flag show ?thesis
          by (intro undone) (auto split: if_splits)
      qed
    qed
  qed
qed

lemma apply_generate: "apply_dnsdist_profile J e body w = (None, w') \<Longrightarrow> \<exists>lua. generate_dnsdist_lua J body = Inr lua"
  by (auto simp: apply_dnsdist_profile_def split: sum.splits)

lemma apply_not_generated:
  "generate_dnsdist_lua J body = Inl err \<Longrightarrow> apply_dnsdist_profile J e body w = (Some (GenFailed err), w)"
  by (simp add: apply_dnsdist_profile_def)

text \<open>All outcomes of the gate when the active file can be read.\<close>

lemma apply_outcome:
  assumes "apply_dnsdist_profile J e body w = (res, w')" and "generate_dnsdist_lua J body = Inr lua" and "ap_readable e"
  shows "(res = None \<and> nw_fs w' dnsdist_path = Some lua
           \<and> (w' = w \<or> ap_check e lua \<and> nw_loaded w' = (if ap_flag e then Some (Some lua) else nw_loaded w)))
    \<or> (\<exists>err \<in> {NewFailed, CheckFailed, LkgFailed, RenameFailed}. res = Some err
           \<and> nw_fs w' dnsdist_path = nw_fs w dnsdist_path \<and> nw_loaded w' = nw_loaded w \<and> nw_restarts w' = nw_restarts w)
    \<or> (res = Some RollbackFailed \<and> ap_check e lua \<and> nw_fs w' dnsdist_path = Some lua \<and> nw_loaded w' = None \<and> \<not> ap_back e)
    \<or> (res \<in> {Some SecondRestartFailed, Some RolledBack} \<and> ap_check e lua
           \<and> nw_fs w' dnsdist_path = (if nw_fs w dnsdist_path = None \<and> \<not> ap_remove e then Some lua else nw_fs w dnsdist_path)
           \<and> nw_loaded w' = (if res = Some RolledBack then Some (nw_fs w' dnsdist_path) else None))"
  using assms(1,2) refl
proof (cases rule: apply_stages)
  case same
  with assms(3) show ?thesis by auto
next
  case (stopped err)
  then show ?thesis by blast
next
  case (placed w1)
  from placed(4,3) show ?thesis
    by (cases rule: roll_back_cases) (use placed(2,3) assms(3) in \<open>simp_all add: staged_def\<close>)
qed

text \<open>The files besides the active one, its candidate and its saved copy are never touched.\<close>

lemma apply_frame:
  assumes "apply_dnsdist_profile J e body w = (res, w')" and "q \<notin> {dnsdist_path, new_path, lkg_path}"
  shows "nw_fs w' q = nw_fs w q"
proof (cases "generate_dnsdist_lua J body")
  case (Inl err)
  with assms(1) show ?thesis by (simp add: apply_not_generated)
next
  case (Inr lua)
  from assms(1) Inr refl show ?thesis
  proof (cases rule: apply_stages)
    case (placed w1)
    from placed(4,3) show ?thesis
      by (cases rule: roll_back_cases) (use placed(3) assms(2) in \<open>simp_all add: staged_def\<close>)
  qed (use assms(2) in auto)
qed

end
