(* ===== verification/Edge_Agent.thy ===== *)
theory Edge_Agent
  imports Edge_Apply Profile_Api
begin

text \<open>
  The agent of an edge node: its saved state, registration, the heartbeat, the synchronisation of the
  profile (\<open>panel/smartdist_agent.go\<close>), the background loop with its start and stop, and the
  configuration handler (\<open>EdgeClusterAgent\<close> in \<open>panel/cluster.go\<close>). The network and the master are
  functions of the environment of a step; each write to disk has an outcome there.
\<close>

subsection \<open>State\<close>

record agent_state =
  ea_id :: string
  ea_key :: string
  ea_url :: string
  ea_name :: string
  ea_beat :: string
  ea_error :: string
  ea_hash :: string

text \<open>The background loop: each start makes a channel and a goroutine that ends when it is closed.\<close>

record runner =
  rn_interval :: duration
  rn_running :: bool
  rn_stop :: "nat option"
  rn_live :: "nat list"
  rn_closed :: "nat list"
  rn_next :: nat

record agent =
  ed_file :: string
  ed_master :: string
  ed_tok :: string
  ed_name :: string
  ed_state :: agent_state
  ed_saved :: "agent_state option"
  ed_runner :: runner
  ed_world :: node_world

definition ensure_running :: "runner \<Rightarrow> runner" where
  "ensure_running r =
     (if rn_running r \<or> rn_interval r \<le> 0 then r
      else r\<lparr>rn_running := True, rn_stop := Some (rn_next r), rn_live := rn_live r @ [rn_next r], rn_next := Suc (rn_next r)\<rparr>)"

definition stop_runner :: "runner \<Rightarrow> runner" where
  "stop_runner r =
     (if \<not> rn_running r then r
      else r\<lparr>rn_running := False,
             rn_closed := (case rn_stop r of Some c \<Rightarrow> c # rn_closed r | None \<Rightarrow> rn_closed r), rn_stop := None\<rparr>)"

definition set_state :: "(agent_state \<Rightarrow> agent_state) \<Rightarrow> agent \<Rightarrow> agent" where
  "set_state f a = a\<lparr>ed_state := f (ed_state a)\<rparr>"

text \<open>\<open>saveState\<close>; every caller ignores its error.\<close>

definition agent_save :: "bool \<Rightarrow> agent \<Rightarrow> agent" where
  "agent_save io a = (if ed_file a = [] \<or> \<not> io then a else a\<lparr>ed_saved := Some (ed_state a)\<rparr>)"

definition no_state :: agent_state where
  "no_state = \<lparr>ea_id = [], ea_key = [], ea_url = [], ea_name = [], ea_beat = [], ea_error = [], ea_hash = []\<rparr>"

text \<open>\<open>loadState\<close>: \<^const>\<open>None\<close> when the file cannot be read, else what \<open>Unmarshal\<close> leaves in the struct.\<close>

definition load_state :: "agent \<Rightarrow> agent" where
  "load_state a =
     (case ed_saved a of
        None \<Rightarrow> a
      | Some s \<Rightarrow>
          (let a1 = a\<lparr>ed_state := s\<rparr>
           in if ea_url s \<noteq> [] \<and> ed_master a1 = [] then a1\<lparr>ed_master := ea_url s\<rparr> else a1))"

definition trim_url :: "string \<Rightarrow> string" where
  "trim_url u = trim_right_byte (trim_space u) (CHR ''/'')"

definition init_agent ::
  "string \<Rightarrow> string \<Rightarrow> string \<Rightarrow> string \<Rightarrow> duration \<Rightarrow> agent_state option \<Rightarrow> node_world \<Rightarrow> agent" where
  "init_agent state_file url tok name interval saved w =
     (let a = load_state \<lparr>ed_file = state_file, ed_master = trim_url url, ed_tok = trim_space tok, ed_name = trim_space name,
                ed_state = no_state, ed_saved = saved,
                ed_runner = \<lparr>rn_interval = interval, rn_running = False, rn_stop = None, rn_live = [], rn_closed = [], rn_next = 0\<rparr>,
                ed_world = w\<rparr>
      in if ed_master a \<noteq> [] \<or> ea_url (ed_state a) \<noteq> [] then a\<lparr>ed_runner := ensure_running (ed_runner a)\<rparr> else a)"

subsection \<open>The database in use\<close>

text \<open>
  \<open>getEdgeDBHash\<close>: \<open>dec\<close> reads the fields \<open>sha256\<close> and \<open>built_at\<close> of a manifest, \<open>link\<close> is the target
  of the symbolic link \<open>blacklist.db\<close>.
\<close>

definition manifest_hash :: "(bytes \<Rightarrow> (string \<times> string) option) \<Rightarrow> fs \<Rightarrow> string \<Rightarrow> (string \<times> string) option" where
  "manifest_hash dec fs p =
     (case fs p of
        None \<Rightarrow> None
      | Some b \<Rightarrow> (case dec b of None \<Rightarrow> None | Some (h, t) \<Rightarrow> if h \<noteq> [] then Some (h, t) else None))"

definition edge_db_hash :: "(bytes \<Rightarrow> (string \<times> string) option) \<Rightarrow> fs \<Rightarrow> string option \<Rightarrow> string \<times> string" where
  "edge_db_hash dec fs link =
     (case manifest_hash dec fs ''/var/lib/dnsdist/blacklist.db.manifest.json'' of
        Some r \<Rightarrow> r
      | None \<Rightarrow>
          (case manifest_hash dec fs ''/var/lib/dnsdist/manifest.json'' of
             Some r \<Rightarrow> r
           | None \<Rightarrow>
               (case link of
                  None \<Rightarrow> ([], [])
                | Some target \<Rightarrow>
                    (let base = path_base target; parts = split_on (CHR ''.'') base
                     in if prefix ''blacklist.'' base \<and> suffix ''.db'' base \<and> 3 \<le> length parts then (parts ! 1, []) else ([], [])))))"

subsection \<open>Profile synchronisation\<close>

definition smart_path :: string where "smart_path = ''/etc/dnsdist/smartdist-profile.lua''"

definition smart_disabled :: string where
  "smart_disabled = smartdist_header @ ''SMARTDIST_ENABLED = false'' @ [LF]"

text \<open>The reply to the GET of the profile: no reply, or a status and a body that may break off.\<close>

datatype fetch = NoFetch | Fetched int "bytes option"

text \<open>The reply to a POST: none, a status other than 200 with its message, or 200 with a decoded body.\<close>

datatype 'a reply = NoReply string | Refused int string | Answer "'a option"

record agent_env =
  he_reply :: "string \<Rightarrow> heartbeat_request \<Rightarrow> heartbeat_response reply"
  he_fetch :: "string \<Rightarrow> string \<Rightarrow> string \<Rightarrow> fetch"
  he_register :: "string \<Rightarrow> register_request \<Rightarrow> (string \<times> string \<times> string) reply"
  he_tele :: heartbeat_request
  he_now :: string
  he_save :: "nat \<Rightarrow> bool"
  he_write :: write_result
  he_rename :: bool
  he_apply :: apply_env
  he_host :: "string option"
  he_hex :: string
  he_version :: string

datatype sync_error =
    WriteFailedSmart | NoHash | NotEnrolled | FetchFailed | FetchStatus int | HashMismatch
  | BadProfile gen_error | ApplyFailed apply_error

definition set_profile_hash :: "bool \<Rightarrow> string \<Rightarrow> agent \<Rightarrow> agent" where
  "set_profile_hash io h a = agent_save io (set_state (\<lambda>s. s\<lparr>ea_hash := h\<rparr>) a)"

definition write_smart :: "agent_env \<Rightarrow> string \<Rightarrow> agent \<Rightarrow> bool \<times> agent" where
  "write_smart e content a =
     (case atomic_write (nw_fs (ed_world a)) smart_path content (he_write e) (he_rename e) of
        (fs', ok) \<Rightarrow> (ok, a\<lparr>ed_world := (ed_world a)\<lparr>nw_fs := fs'\<rparr>\<rparr>))"

definition limit_reader :: "int \<Rightarrow> bytes \<Rightarrow> bytes" where
  "limit_reader n b = (if int (length b) \<le> n then b else take (nat n) b)"

text \<open>The part of the synchronisation after the body has been read.\<close>

definition install_profile ::
  "profile_codec \<Rightarrow> lib \<Rightarrow> agent_env \<Rightarrow> string \<Rightarrow> bytes \<Rightarrow> agent \<Rightarrow> sync_error option \<times> agent" where
  "install_profile J L e want body a =
     (if sha256_hex L body \<noteq> want then (Some HashMismatch, a)
      else
        (case generate_smartdist_lua J body of
           Inl err \<Rightarrow> (Some (BadProfile err), a)
         | Inr lua \<Rightarrow>
             (case write_smart e lua a of
                (False, a1) \<Rightarrow> (Some WriteFailedSmart, a1)
              | (True, a1) \<Rightarrow>
                  (case apply_dnsdist_profile J (he_apply e) body (ed_world a1) of
                     (Some err, w) \<Rightarrow> (Some (ApplyFailed err), a1\<lparr>ed_world := w\<rparr>)
                   | (None, w) \<Rightarrow> (None, set_profile_hash (he_save e 1) (sha256_hex L body) (a1\<lparr>ed_world := w\<rparr>))))))"

definition sync_profile ::
  "profile_codec \<Rightarrow> lib \<Rightarrow> agent_env \<Rightarrow> string \<Rightarrow> string \<Rightarrow> agent \<Rightarrow> sync_error option \<times> agent" where
  "sync_profile J L e pid want0 a =
     (let want = to_lower L (trim_space want0); st = ed_state a
      in if trim_space pid = [] then
           (case write_smart e smart_disabled a of
              (False, a1) \<Rightarrow> (Some WriteFailedSmart, a1)
            | (True, a1) \<Rightarrow> (None, set_profile_hash (he_save e 1) [] a1))
         else if want = [] then (Some NoHash, a)
         else if want = ea_hash st then (None, a)
         else if ed_master a = [] \<or> ea_id st = [] \<or> ea_key st = [] then (Some NotEnrolled, a)
         else
           (case he_fetch e (ed_master a) (ea_id st) (ea_key st) of
              NoFetch \<Rightarrow> (Some FetchFailed, a)
            | Fetched code body \<Rightarrow>
                if code \<noteq> 200 then (Some (FetchStatus code), a)
                else (case body of
                        None \<Rightarrow> (Some FetchFailed, a)
                      | Some b \<Rightarrow> install_profile J L e want (limit_reader 8388608 b) a)))"

subsection \<open>Heartbeat and registration\<close>

datatype agent_error = Unregistered | Network string | Rejected string | NoMaster | BadReply

text \<open>\<open>fmt.Sprintf("HTTP %d", code)\<close> stands in for a missing message.\<close>

definition reject_msg :: "int \<Rightarrow> string \<Rightarrow> string" where
  "reject_msg code msg = (if msg = [] then ''HTTP '' @ fmt_d code else msg)"

definition fail_with :: "bool \<Rightarrow> string \<Rightarrow> agent \<Rightarrow> agent" where
  "fail_with io msg a = agent_save io (set_state (\<lambda>s. s\<lparr>ea_error := msg\<rparr>) a)"

text \<open>The request carries the telemetry and the hash the agent really applied.\<close>

definition beat_request :: "agent_env \<Rightarrow> agent \<Rightarrow> heartbeat_request" where
  "beat_request e a =
     (he_tele e)\<lparr>hb_node := ea_id (ed_state a), hb_key := ea_key (ed_state a), hb_name := ea_name (ed_state a),
                hb_ip := [], hb_version := he_version e, hb_applied := ea_hash (ed_state a)\<rparr>"

definition empty_response :: heartbeat_response where
  "empty_response = \<lparr>hr_ack = 0, hr_master_hash = [], hr_profile = [], hr_profile_hash = []\<rparr>"

definition send_heartbeat :: "profile_codec \<Rightarrow> lib \<Rightarrow> agent_env \<Rightarrow> agent \<Rightarrow> agent_error option \<times> agent" where
  "send_heartbeat J L e a =
     (if ed_master a = [] \<or> ea_id (ed_state a) = [] \<or> ea_key (ed_state a) = [] then (Some Unregistered, a)
      else
        (case he_reply e (ed_master a) (beat_request e a) of
           NoReply msg \<Rightarrow> (Some (Network msg), fail_with (he_save e 0) (''heartbeat gagal: '' @ msg) a)
         | Refused code msg \<Rightarrow>
             (Some (Rejected (reject_msg code msg)), fail_with (he_save e 0) (''heartbeat ditolak: '' @ reject_msg code msg) a)
         | Answer body \<Rightarrow>
             (let resp = (case body of Some r \<Rightarrow> r | None \<Rightarrow> empty_response);
                  a1 = agent_save (he_save e 0) (set_state (\<lambda>s. s\<lparr>ea_beat := he_now e, ea_error := []\<rparr>) a)
              in (None, snd (sync_profile J L e (hr_profile resp) (hr_profile_hash resp) a1)))))"

definition agent_register ::
  "profile_codec \<Rightarrow> lib \<Rightarrow> agent_env \<Rightarrow> string \<Rightarrow> string \<Rightarrow> string \<Rightarrow> agent \<Rightarrow> agent_error option \<times> agent" where
  "agent_register J L e url tok name a =
     (let target = trim_url url;
          name1 = (if name = [] then ed_name a else name);
          name2 = (if name1 \<noteq> [] then name1
                   else (case he_host e of Some h \<Rightarrow> if h \<noteq> [] then h else ''edge-'' @ he_hex e | None \<Rightarrow> ''edge-'' @ he_hex e))
      in if target = [] then (Some NoMaster, a)
         else
           (case he_register e target \<lparr>rg_token = tok, rg_name = name2, rg_ip = [], rg_version = he_version e\<rparr> of
              NoReply msg \<Rightarrow> (Some (Network msg), fail_with (he_save e 2) (''koneksi master gagal: '' @ msg) a)
            | Refused code msg \<Rightarrow>
                (Some (Rejected (reject_msg code msg)), fail_with (he_save e 2) (''pendaftaran ditolak: '' @ reject_msg code msg) a)
            | Answer None \<Rightarrow> (Some BadReply, a)
            | Answer (Some (i, k, nm)) \<Rightarrow>
                (let a1 = set_state (\<lambda>s. s\<lparr>ea_url := target, ea_id := i, ea_key := k, ea_name := nm, ea_error := []\<rparr>)
                            (a\<lparr>ed_master := target\<rparr>);
                     a2 = agent_save (he_save e 2) a1;
                     a3 = a2\<lparr>ed_runner := ensure_running (ed_runner a2)\<rparr>
                 in (None, snd (send_heartbeat J L e a3)))))"

subsection \<open>The background loop\<close>

definition agent_start :: "profile_codec \<Rightarrow> lib \<Rightarrow> agent_env \<Rightarrow> agent \<Rightarrow> agent" where
  "agent_start J L e a =
     (if (ea_id (ed_state a) = [] \<or> ea_key (ed_state a) = []) \<and> ed_tok a \<noteq> [] \<and> ed_master a \<noteq> []
      then snd (agent_register J L e (ed_master a) (ed_tok a) (ed_name a) a)
      else if ea_id (ed_state a) \<noteq> [] then snd (send_heartbeat J L e a) else a)"

definition agent_tick :: "profile_codec \<Rightarrow> lib \<Rightarrow> agent_env \<Rightarrow> agent \<Rightarrow> agent" where
  "agent_tick J L e a =
     (if \<not> (ea_id (ed_state a) \<noteq> [] \<and> ea_key (ed_state a) \<noteq> [])
      then (if ed_tok a \<noteq> [] \<and> ed_master a \<noteq> [] then snd (agent_register J L e (ed_master a) (ed_tok a) (ed_name a) a) else a)
      else snd (send_heartbeat J L e a))"

text \<open>The life of one loop: its start and then one tick per environment.\<close>

definition agent_run :: "profile_codec \<Rightarrow> lib \<Rightarrow> agent_env \<Rightarrow> agent_env list \<Rightarrow> agent \<Rightarrow> agent" where
  "agent_run J L e es a = fold (agent_tick J L) es (agent_start J L e a)"

subsection \<open>The configuration handler\<close>

text \<open>\<open>validateMasterURL\<close> on the result of \<open>url.Parse\<close>: host, presence of credentials, scheme, text.\<close>

definition validate_master_url :: "(string \<Rightarrow> (string \<times> bool \<times> string \<times> string) option) \<Rightarrow> string \<Rightarrow> string option" where
  "validate_master_url parse raw =
     (case parse (trim_space raw) of
        None \<Rightarrow> None
      | Some (host, user, scheme, shown) \<Rightarrow>
          if host = [] \<or> user \<or> (scheme \<noteq> ''http'' \<and> scheme \<noteq> ''https'') then None
          else Some (trim_right_byte shown (CHR ''/'')))"

record edge_view =
  ev_enrolled :: bool
  ev_id :: string
  ev_name :: string
  ev_master :: string
  ev_beat :: string
  ev_error :: string

definition handle_edge_config ::
  "profile_codec \<Rightarrow> lib \<Rightarrow> agent_env \<Rightarrow> (string \<Rightarrow> (string \<times> bool \<times> string \<times> string) option) \<Rightarrow> http_method
   \<Rightarrow> (string \<times> string \<times> string) option \<Rightarrow> agent option \<Rightarrow> edge_view option http_response \<times> agent option" where
  "handle_edge_config J L e parse meth req ag =
     (case ag of
        None \<Rightarrow> (Failed 404, None)
      | Some a \<Rightarrow>
          (case meth of
             GET \<Rightarrow>
               (Body (Some \<lparr>ev_enrolled = (ea_id (ed_state a) \<noteq> [] \<and> ea_key (ed_state a) \<noteq> []), ev_id = ea_id (ed_state a),
                  ev_name = ea_name (ed_state a), ev_master = ed_master a, ev_beat = ea_beat (ed_state a),
                  ev_error = ea_error (ed_state a)\<rparr>), Some a)
           | POST \<Rightarrow>
               (case req of
                  None \<Rightarrow> (Failed 400, Some a)
                | Some (url, tok, name) \<Rightarrow>
                    if url = [] \<or> tok = [] then (Failed 400, Some a)
                    else (case validate_master_url parse url of
                            None \<Rightarrow> (Failed 400, Some a)
                          | Some u \<Rightarrow>
                              (case agent_register J L e u tok name a of
                                 (Some _, a') \<Rightarrow> (Failed 400, Some a')
                               | (None, a') \<Rightarrow> (Body None, Some a'))))
           | _ \<Rightarrow> (Failed 405, Some a)))"

subsection \<open>The loop is unique\<close>

text \<open>Starts and stops from any caller, and goroutines that end once their channel is closed.\<close>

inductive runner_step :: "runner \<Rightarrow> runner \<Rightarrow> bool" where
  start: "runner_step r (ensure_running r)"
| stop: "runner_step r (stop_runner r)"
| finish: "c \<in> set (rn_live r) \<Longrightarrow> c \<in> set (rn_closed r) \<Longrightarrow> runner_step r (r\<lparr>rn_live := remove1 c (rn_live r)\<rparr>)"

inductive runner_reachable :: "duration \<Rightarrow> runner \<Rightarrow> bool" for i where
  init: "runner_reachable i \<lparr>rn_interval = i, rn_running = False, rn_stop = None, rn_live = [], rn_closed = [], rn_next = 0\<rparr>"
| step: "runner_reachable i r \<Longrightarrow> runner_step r r' \<Longrightarrow> runner_reachable i r'"

inductive_cases runner_step_elim: "runner_step r r'"

definition active_loops :: "runner \<Rightarrow> nat list" where
  "active_loops r = filter (\<lambda>c. c \<notin> set (rn_closed r)) (rn_live r)"

definition runner_inv :: "runner \<Rightarrow> bool" where
  "runner_inv r \<longleftrightarrow> distinct (rn_live r) \<and> (\<forall>c \<in> set (rn_live r) \<union> set (rn_closed r). c < rn_next r)
     \<and> active_loops r = (case rn_stop r of Some c \<Rightarrow> [c] | None \<Rightarrow> []) \<and> (rn_running r \<longleftrightarrow> rn_stop r \<noteq> None)"

lemma ensure_inv: "runner_inv r \<Longrightarrow> runner_inv (ensure_running r)"
  by (auto simp: runner_inv_def ensure_running_def active_loops_def filter_empty_conv ball_Un less_Suc_eq split: option.splits)

lemma stop_inv: "runner_inv r \<Longrightarrow> runner_inv (stop_runner r)"
proof -
  assume r: "runner_inv r"
  show ?thesis
  proof (cases "rn_running r")
    case False
    with r show ?thesis by (simp add: stop_runner_def)
  next
    case True
    with r obtain c where c: "rn_stop r = Some c" "active_loops r = [c]" by (auto simp: runner_inv_def)
    then have "c \<in> set (active_loops r)" by simp
    then have l: "c \<in> set (rn_live r)" by (simp add: active_loops_def)
    have "active_loops (stop_runner r) = filter (\<lambda>d. d \<noteq> c) (active_loops r)"
      using True c(1) by (auto simp: stop_runner_def active_loops_def intro!: filter_cong)
    then have "active_loops (stop_runner r) = []" using c(2) by simp
    with r True c(1) l show ?thesis by (auto simp: runner_inv_def stop_runner_def)
  qed
qed

lemma finish_inv:
  assumes "runner_inv r" and "c \<in> set (rn_closed r)"
  shows "runner_inv (r\<lparr>rn_live := remove1 c (rn_live r)\<rparr>)"
proof -
  have "filter (\<lambda>d. d \<notin> set (rn_closed r)) (remove1 c xs) = filter (\<lambda>d. d \<notin> set (rn_closed r)) xs" for xs
    using assms(2) by (induction xs) auto
  with assms(1) show ?thesis
    by (auto simp: runner_inv_def active_loops_def dest: notin_set_remove1)
qed

lemma runner_step_inv: "runner_step r r' \<Longrightarrow> runner_inv r \<Longrightarrow> runner_inv r'"
  by (induction rule: runner_step.induct) (simp_all add: ensure_inv stop_inv finish_inv)

lemma runner_reachable_inv: "runner_reachable i r \<Longrightarrow> runner_inv r"
proof (induction rule: runner_reachable.induct)
  case init
  then show ?case by (simp add: runner_inv_def active_loops_def)
next
  case (step r r')
  then show ?case using runner_step_inv by blast
qed

text \<open>Goroutines end one by one; each end shortens the list.\<close>

lemma drain:
  assumes "set (rn_live r) \<subseteq> set (rn_closed r)"
  shows "runner_step\<^sup>*\<^sup>* r (r\<lparr>rn_live := []\<rparr>)"
  using assms
proof (induction "length (rn_live r)" arbitrary: r)
  case 0
  then have "r\<lparr>rn_live := []\<rparr> = r" by (cases r) simp
  then show ?case by simp
next
  case (Suc k)
  then obtain c cs where c: "rn_live r = c # cs" by (cases "rn_live r") auto
  let ?r = "r\<lparr>rn_live := cs\<rparr>"
  have "runner_step r ?r" using finish [of c r] c Suc.prems by auto
  moreover have "runner_step\<^sup>*\<^sup>* ?r (?r\<lparr>rn_live := []\<rparr>)" using Suc c by (intro Suc.hyps(1)) auto
  ultimately show ?case by (simp add: converse_rtranclp_into_rtranclp)
qed

lemma stop_drains:
  assumes "runner_inv r"
  shows "runner_step\<^sup>*\<^sup>* (stop_runner r) ((stop_runner r)\<lparr>rn_live := []\<rparr>)"
proof (rule drain)
  have "active_loops (stop_runner r) = []"
    using stop_inv [OF assms] assms by (auto simp: runner_inv_def stop_runner_def split: option.splits)
  then show "set (rn_live (stop_runner r)) \<subseteq> set (rn_closed (stop_runner r))"
    by (auto simp: active_loops_def filter_empty_conv)
qed

text \<open>No operation of the agent changes its loop but by the guarded start.\<close>

lemma save_runner [simp]: "ed_runner (agent_save io a) = ed_runner a" "ed_runner (set_state f a) = ed_runner a"
  "ed_runner (set_profile_hash io h a) = ed_runner a" "ed_runner (fail_with io msg a) = ed_runner a"
  by (simp_all add: agent_save_def set_state_def set_profile_hash_def fail_with_def)

lemma write_smart_frame: "write_smart e s a = (ok, a') \<Longrightarrow> a' = a\<lparr>ed_world := ed_world a'\<rparr>"
  by (auto simp: write_smart_def split: prod.splits)

lemma write_smart_runner: "write_smart e s a = (ok, a1) \<Longrightarrow> ed_runner a1 = ed_runner a"
  by (auto simp: write_smart_def split: prod.splits)

text \<open>The four ways an installation ends.\<close>

lemma install_cases:
  obtains (mismatch) "sha256_hex L b \<noteq> want" "install_profile J L e want b a = (Some HashMismatch, a)"
  | (bad) err where "sha256_hex L b = want" "generate_smartdist_lua J b = Inl err"
      "install_profile J L e want b a = (Some (BadProfile err), a)"
  | (unwritten) s a1 where "sha256_hex L b = want" "generate_smartdist_lua J b = Inr s" "write_smart e s a = (False, a1)"
      "install_profile J L e want b a = (Some WriteFailedSmart, a1)"
  | (unapplied) s a1 err w where "sha256_hex L b = want" "generate_smartdist_lua J b = Inr s" "write_smart e s a = (True, a1)"
      "apply_dnsdist_profile J (he_apply e) b (ed_world a1) = (Some err, w)"
      "install_profile J L e want b a = (Some (ApplyFailed err), a1\<lparr>ed_world := w\<rparr>)"
  | (installed) s a1 w where "sha256_hex L b = want" "generate_smartdist_lua J b = Inr s" "write_smart e s a = (True, a1)"
      "apply_dnsdist_profile J (he_apply e) b (ed_world a1) = (None, w)"
      "install_profile J L e want b a = (None, set_profile_hash (he_save e 1) want (a1\<lparr>ed_world := w\<rparr>))"
proof (cases "sha256_hex L b = want")
  case False
  then show ?thesis by (intro mismatch) (simp_all add: install_profile_def)
next
  case h: True
  show ?thesis
  proof (cases "generate_smartdist_lua J b")
    case (Inl err)
    with h show ?thesis by (intro bad) (simp_all add: install_profile_def)
  next
    case g: (Inr s)
    obtain ok a1 where w: "write_smart e s a = (ok, a1)" by fastforce
    obtain res v where r: "apply_dnsdist_profile J (he_apply e) b (ed_world a1) = (res, v)" by fastforce
    show ?thesis
    proof (cases ok)
      case False
      with h g w show ?thesis by (intro unwritten [of s a1]) (simp_all add: install_profile_def)
    next
      case True
      with h g w r unapplied [of s a1 _ v] installed [of s a1 v] show ?thesis
        by (cases res) (simp_all add: install_profile_def)
    qed
  qed
qed

lemma install_runner: "ed_runner (snd (install_profile J L e want b a)) = ed_runner a"
  by (cases rule: install_cases [of L b want J e a]) (simp_all add: write_smart_runner)

lemma sync_runner: "ed_runner (snd (sync_profile J L e pid want a)) = ed_runner a"
proof (cases "trim_space pid = []")
  case True
  obtain ok a1 where "write_smart e smart_disabled a = (ok, a1)" by fastforce
  with True write_smart_runner [OF this] show ?thesis by (cases ok) (simp_all add: sync_profile_def Let_def)
next
  case False
  then show ?thesis
    by (simp add: sync_profile_def Let_def install_runner split: fetch.split option.split)
qed

lemma heartbeat_runner: "ed_runner (snd (send_heartbeat J L e a)) = ed_runner a"
  by (simp add: send_heartbeat_def Let_def sync_runner split: reply.split)

lemma register_runner:
  "ed_runner (snd (agent_register J L e url tok name a)) \<in> {ed_runner a, ensure_running (ed_runner a)}"
proof -
  define name2 where "name2 = (let name1 = (if name = [] then ed_name a else name)
    in if name1 \<noteq> [] then name1
       else (case he_host e of Some h \<Rightarrow> if h \<noteq> [] then h else ''edge-'' @ he_hex e | None \<Rightarrow> ''edge-'' @ he_hex e))"
  let ?reply = "he_register e (trim_url url) \<lparr>rg_token = tok, rg_name = name2, rg_ip = [], rg_version = he_version e\<rparr>"
  show ?thesis
  proof (cases ?reply)
    case (Answer x)
    then show ?thesis
      by (cases x) (auto simp: agent_register_def Let_def name2_def heartbeat_runner)
  qed (simp_all add: agent_register_def Let_def name2_def)
qed

subsection \<open>What a synchronisation changes\<close>

lemma smart_paths [simp]:
  "smart_path \<noteq> dnsdist_path" "smart_path \<noteq> new_path" "smart_path \<noteq> lkg_path"
  "dnsdist_path \<noteq> smart_path" "dnsdist_path \<noteq> tmp_name smart_path"
  by (simp_all add: smart_path_def new_path_def lkg_path_def dnsdist_path_def tmp_name_def)

lemma write_smart_world:
  assumes "write_smart e s a = (ok, a1)"
  shows "nw_fs (ed_world a1) smart_path = (if ok then Some s else nw_fs (ed_world a) smart_path)"
    "nw_fs (ed_world a1) dnsdist_path = nw_fs (ed_world a) dnsdist_path"
    "nw_loaded (ed_world a1) = nw_loaded (ed_world a)" "ed_state a1 = ed_state a" "ed_master a1 = ed_master a" "ed_tok a1 = ed_tok a"
  using assms atomic_write_cases [of "nw_fs (ed_world a)" smart_path s "he_write e" "he_rename e"]
  by (auto simp: write_smart_def split: prod.splits)

lemma set_profile_hash_sel [simp]:
  "ed_world (set_profile_hash io h a) = ed_world a" "ea_hash (ed_state (set_profile_hash io h a)) = h"
  "ed_master (set_profile_hash io h a) = ed_master a" "ea_id (ed_state (set_profile_hash io h a)) = ea_id (ed_state a)"
  "ea_key (ed_state (set_profile_hash io h a)) = ea_key (ed_state a)"
  by (simp_all add: set_profile_hash_def agent_save_def set_state_def)

text \<open>The files hold what is generated from a body with the given hash.\<close>

definition smart_from :: "profile_codec \<Rightarrow> lib \<Rightarrow> string \<Rightarrow> node_world \<Rightarrow> bool" where
  "smart_from J L h w \<longleftrightarrow> (\<exists>b s. sha256_hex L b = h \<and> generate_smartdist_lua J b = Inr s \<and> nw_fs w smart_path = Some s)"

definition both_from :: "profile_codec \<Rightarrow> lib \<Rightarrow> string \<Rightarrow> node_world \<Rightarrow> bool" where
  "both_from J L h w \<longleftrightarrow> (\<exists>b s d. sha256_hex L b = h \<and> generate_smartdist_lua J b = Inr s \<and> nw_fs w smart_path = Some s
     \<and> generate_dnsdist_lua J b = Inr d \<and> nw_fs w dnsdist_path = Some d)"

lemma apply_none_lua:
  assumes "apply_dnsdist_profile J e b w = (None, w')"
  shows "\<exists>d. generate_dnsdist_lua J b = Inr d \<and> nw_fs w' dnsdist_path = Some d"
proof -
  obtain d where d: "generate_dnsdist_lua J b = Inr d"
    using assms by (cases "generate_dnsdist_lua J b") (auto simp: apply_not_generated)
  from assms d refl have "nw_fs w' dnsdist_path = Some d"
  proof (cases rule: apply_stages)
    case same
    then show ?thesis by (auto split: if_splits)
  next
    case (placed w1)
    from placed(4,3) show ?thesis by (cases rule: roll_back_cases) (use placed(3) in \<open>simp_all add: staged_def\<close>)
  qed simp
  with d show ?thesis by blast
qed

lemma install_effect:
  assumes "install_profile J L e want b a = (res, a')"
  shows "res = None \<and> ea_hash (ed_state a') = want \<and> both_from J L want (ed_world a')
    \<or> res \<noteq> None \<and> ed_state a' = ed_state a
       \<and> (nw_fs (ed_world a') smart_path = nw_fs (ed_world a) smart_path \<or> smart_from J L want (ed_world a'))"
proof (cases rule: install_cases [of L b want J e a])
  case (unwritten s a1)
  with assms write_smart_world [OF unwritten(3)] show ?thesis by auto
next
  case (unapplied s a1 err w)
  then have "nw_fs w smart_path = Some s"
    using write_smart_world(1) [OF unapplied(3)] apply_frame [OF unapplied(4), of smart_path] by simp
  with assms unapplied write_smart_world [OF unapplied(3)] show ?thesis by (auto simp: smart_from_def)
next
  case (installed s a1 w)
  then have "nw_fs w smart_path = Some s"
    using write_smart_world(1) [OF installed(3)] apply_frame [OF installed(4), of smart_path] by simp
  with assms installed apply_none_lua [OF installed(4)] show ?thesis by (auto simp: both_from_def)
qed (use assms in auto)

lemma sync_effect:
  assumes "sync_profile J L e pid want a = (res, a')"
  shows "(trim_space pid = [] \<and> (res = None \<and> ea_hash (ed_state a') = [] \<and> nw_fs (ed_world a') smart_path = Some smart_disabled
             \<or> res \<noteq> None \<and> ed_state a' = ed_state a \<and> nw_fs (ed_world a') smart_path = nw_fs (ed_world a) smart_path))
    \<or> (trim_space pid \<noteq> [] \<and> (a' = a
         \<or> res = None \<and> ea_hash (ed_state a') = to_lower L (trim_space want) \<and> both_from J L (to_lower L (trim_space want)) (ed_world a')
         \<or> res \<noteq> None \<and> ed_state a' = ed_state a
            \<and> (nw_fs (ed_world a') smart_path = nw_fs (ed_world a) smart_path
               \<or> smart_from J L (to_lower L (trim_space want)) (ed_world a'))))"
proof (cases "trim_space pid = []")
  case True
  obtain ok a1 where w: "write_smart e smart_disabled a = (ok, a1)" by fastforce
  with True assms write_smart_world [OF w] show ?thesis by (cases ok) (auto simp: sync_profile_def Let_def)
next
  case False
  have "a' = a \<or> (\<exists>b. install_profile J L e (to_lower L (trim_space want)) b a = (res, a'))"
    using assms False by (auto simp: sync_profile_def Let_def split: if_splits fetch.splits option.splits)
  then show ?thesis
  proof
    assume "\<exists>b. install_profile J L e (to_lower L (trim_space want)) b a = (res, a')"
    then obtain b where "install_profile J L e (to_lower L (trim_space want)) b a = (res, a')" by blast
    from install_effect [OF this] False show ?thesis by blast
  qed (use False in simp)
qed

text \<open>What a change of the agent or the node goes back to.\<close>

lemma install_change:
  assumes "install_profile J L e want b a = (res, a')" and "a' \<noteq> a"
  shows "\<exists>lua ok a1. sha256_hex L b = want \<and> generate_smartdist_lua J b = Inr lua \<and> write_smart e lua a = (ok, a1)
    \<and> (ed_world a' = ed_world a1 \<or> ok \<and> ed_world a' = snd (apply_dnsdist_profile J (he_apply e) b (ed_world a1)))"
proof (cases rule: install_cases [of L b want J e a])
  case (unapplied s a1 err w)
  with assms have "ed_world a' = snd (apply_dnsdist_profile J (he_apply e) b (ed_world a1))" by auto
  with unapplied show ?thesis by blast
next
  case (installed s a1 w)
  with assms have "ed_world a' = snd (apply_dnsdist_profile J (he_apply e) b (ed_world a1))" by auto
  with installed show ?thesis by blast
qed (use assms in auto)

lemma sync_change:
  assumes "sync_profile J L e pid want a = (res, a')" and "a' \<noteq> a"
  shows "if trim_space pid = []
    then nw_fs (ed_world a') dnsdist_path = nw_fs (ed_world a) dnsdist_path \<and> nw_loaded (ed_world a') = nw_loaded (ed_world a)
    else (\<exists>raw body lua ok a1.
           he_fetch e (ed_master a) (ea_id (ed_state a)) (ea_key (ed_state a)) = Fetched 200 (Some raw)
           \<and> body = limit_reader 8388608 raw \<and> sha256_hex L body = to_lower L (trim_space want)
           \<and> generate_smartdist_lua J body = Inr lua \<and> write_smart e lua a = (ok, a1)
           \<and> (ed_world a' = ed_world a1 \<or> ok \<and> ed_world a' = snd (apply_dnsdist_profile J (he_apply e) body (ed_world a1))))"
proof (cases "trim_space pid = []")
  case True
  obtain ok a1 where w: "write_smart e smart_disabled a = (ok, a1)" by fastforce
  with True assms(1) write_smart_world [OF w] show ?thesis by (cases ok) (auto simp: sync_profile_def Let_def)
next
  case False
  then obtain raw where r: "he_fetch e (ed_master a) (ea_id (ed_state a)) (ea_key (ed_state a)) = Fetched 200 (Some raw)"
    "install_profile J L e (to_lower L (trim_space want)) (limit_reader 8388608 raw) a = (res, a')"
    using assms by (auto simp: sync_profile_def Let_def split: if_splits fetch.splits option.splits)
  from install_change [OF r(2) assms(2)] r(1) False show ?thesis by auto
qed

subsection \<open>Everything a valid profile holds can be printed and applied\<close>

lemma rules_printable: "list_all rule_ok rs \<Longrightarrow> \<exists>s. lua_rules i rs = Inr s"
proof (induction rs arbitrary: i)
  case Nil
  then show ?case by simp
next
  case (Cons r rs)
  then obtain s where "lua_rules (Suc i) rs = Inr s" by fastforce
  moreover have "lua_rule r \<noteq> None"
    using Cons.prems by (auto simp: lua_rule_def rule_ok_def split: if_splits)
  ultimately show ?case by auto
qed

lemma canonical_printable:
  assumes "codec_ok J" and "parse_profile J raw = Inr (p, raw)"
  obtains s d where "generate_smartdist_lua J raw = Inr s" "generate_dnsdist_lua J raw = Inr d"
proof -
  have p: "pc_decode J raw = Some p" "profile_wf p" "raw = pc_encode J p"
    using assms(2) unfolding parse_profile_Inr by blast+
  then have c: "pc_loose J raw = Some p" "pc_doc J raw = Some (p_enabled p, p_rules p)"
    using assms(1) unfolding codec_ok_def by metis+
  obtain s where "generate_smartdist_lua J raw = Inr s"
    using rules_printable [of "p_rules p" 0] p(2) c(2) by (auto simp: generate_smartdist_lua_def profile_wf_def)
  moreover have "valid_section (p_dnsdist p) = None" using p(2) by (simp add: valid_section_opt profile_wf_def)
  then obtain d where "generate_dnsdist_lua J raw = Inr d"
    using c(1) by (cases "p_dnsdist p") (auto simp: generate_dnsdist_lua_def dnsdist_lua_def)
  ultimately show ?thesis using that by blast
qed

text \<open>No write, rename, check or restart fails.\<close>

definition apply_env_good :: "apply_env \<Rightarrow> bool" where
  "apply_env_good e \<longleftrightarrow> ap_readable e \<and> ap_new e = Written \<and> (\<forall>b. ap_check e b) \<and> ap_lkg e = Written \<and> ap_rename e \<and> ap_restart1 e"

lemma apply_good:
  assumes "apply_env_good e" and "generate_dnsdist_lua J b = Inr d"
  shows "\<exists>w'. apply_dnsdist_profile J e b w = (None, w')"
proof -
  obtain res w' where a: "apply_dnsdist_profile J e b w = (res, w')" by fastforce
  have "res = None"
    using a assms
    by (cases "nw_fs w dnsdist_path")
       (auto simp: apply_dnsdist_profile_def Let_def apply_env_good_def write_file_def rename_file_def restart_or_roll_back_def
        restart_dnsdist_def split: if_splits)
  with a show ?thesis by blast
qed

subsection \<open>A node and its master\<close>

text \<open>
  One heartbeat of an agent against a master with the JSON backend \<open>cs\<close> and the profile store \<open>st\<close>:
  the replies are what the handlers of the master return, the profile is fetched from the state the
  heartbeat leaves.
\<close>

definition connect ::
  "op_env \<Rightarrow> string \<Rightarrow> string \<Rightarrow> cluster_store \<Rightarrow> profile_store \<Rightarrow> agent \<Rightarrow> agent_env \<Rightarrow> agent_env" where
  "connect oe ip mh cs st a e = e\<lparr>
     he_reply := (\<lambda>url req. case fst (handle_cluster_heartbeat json_storage oe POST (Some req) ip mh (profile_for_node st) cs) of
                    Body r \<Rightarrow> Answer (Some r) | Failed c \<Rightarrow> Refused (int c) []),
     he_fetch := (\<lambda>url i k. case handle_profile_fetch (Some (snd (st_heartbeat json_storage oe (beat_request e a) ip cs))) st GET i k of
                    Body raw \<Rightarrow> Fetched 200 (Some raw) | Failed c \<Rightarrow> Fetched (int c) (Some []))\<rparr>"

definition cycle ::
  "profile_codec \<Rightarrow> lib \<Rightarrow> op_env \<Rightarrow> string \<Rightarrow> string \<Rightarrow> profile_store \<Rightarrow> agent_env \<Rightarrow> agent \<times> cluster_store \<Rightarrow> agent \<times> cluster_store" where
  "cycle J L oe ip mh st e s =
     (let (a, cs) = s
      in (snd (send_heartbeat J L (connect oe ip mh cs st a e) a),
          snd (handle_cluster_heartbeat json_storage oe POST (Some (beat_request e a)) ip mh (profile_for_node st) cs)))"

definition hex_text :: "string \<Rightarrow> bool" where
  "hex_text h \<longleftrightarrow> h \<noteq> [] \<and> list_all (\<lambda>c. is_digit c \<or> (97 \<le> byte c \<and> byte c \<le> 102)) h"

text \<open>A node that is enrolled at the master under the identifier and key its agent holds.\<close>

definition enrolled_as :: "string \<Rightarrow> string \<Rightarrow> agent \<Rightarrow> cluster_store \<Rightarrow> bool" where
  "enrolled_as i k a cs \<longleftrightarrow> i \<noteq> [] \<and> k \<noteq> [] \<and> trim_space i = i \<and> trim_space k = k
     \<and> ea_id (ed_state a) = i \<and> ea_key (ed_state a) = k \<and> ed_master a \<noteq> []
     \<and> (\<exists>n. fmlookup (cs_nodes cs) i = Some n \<and> n_key n = k \<and> n_id n = i)"

definition write_env_good :: "agent_env \<Rightarrow> bool" where
  "write_env_good e \<longleftrightarrow> he_write e = Written \<and> he_rename e \<and> apply_env_good (he_apply e)"

lemma hex_normal:
  assumes "hex_text h"
  shows "to_lower L (trim_space h) = h" "h \<noteq> []"
proof -
  have p: "list_all is_plain h" and a: "list_all is_ascii h" and l: "\<forall>c \<in> set h. lower_byte c = c"
    using assms by (auto simp: hex_text_def list_all_iff is_plain_def is_ascii_def is_digit_def lower_byte_def)
  from l have "map lower_byte h = h" by (simp add: map_idI)
  with trim_space_plain [OF p] to_lower_ascii [OF a] show "to_lower L (trim_space h) = h" by simp
  show "h \<noteq> []" using assms by (simp add: hex_text_def)
qed

lemma save_state_sel [simp]:
  "ed_state (agent_save io a) = ed_state a" "ed_master (agent_save io a) = ed_master a" "ed_world (agent_save io a) = ed_world a"
  by (simp_all add: agent_save_def)

lemma set_state_sel [simp]:
  "ed_state (set_state f a) = f (ed_state a)" "ed_master (set_state f a) = ed_master a" "ed_world (set_state f a) = ed_world a"
  by (simp_all add: set_state_def)

lemma install_ids:
  assumes "install_profile J L e want b a = (res, a')"
  shows "ed_master a' = ed_master a \<and> ea_id (ed_state a') = ea_id (ed_state a) \<and> ea_key (ed_state a') = ea_key (ed_state a)"
proof (cases rule: install_cases [of L b want J e a])
  case (unwritten s a1)
  with assms write_smart_world [OF unwritten(3)] show ?thesis by simp
next
  case (unapplied s a1 err w)
  with assms write_smart_world [OF unapplied(3)] show ?thesis by auto
next
  case (installed s a1 w)
  with assms write_smart_world [OF installed(3)] show ?thesis by auto
qed (use assms in auto)

lemma sync_ids:
  assumes "sync_profile J L e pid want a = (res, a')"
  shows "ed_master a' = ed_master a \<and> ea_id (ed_state a') = ea_id (ed_state a) \<and> ea_key (ed_state a') = ea_key (ed_state a)"
proof (cases "trim_space pid = []")
  case True
  obtain ok a1 where w: "write_smart e smart_disabled a = (ok, a1)" by fastforce
  with True assms write_smart_world [OF w] show ?thesis by (cases ok) (auto simp: sync_profile_def Let_def)
next
  case False
  then show ?thesis
    using assms install_ids
    by (auto simp: sync_profile_def Let_def split: if_splits fetch.splits option.splits)
qed

lemma install_good:
  assumes "write_env_good e" and "codec_ok J" and "parse_profile J raw = Inr (p, raw)" and "sha256_hex L raw = h"
  shows "\<exists>a'. install_profile J L e h raw a = (None, a')"
proof -
  obtain s d where g: "generate_smartdist_lua J raw = Inr s" "generate_dnsdist_lua J raw = Inr d"
    by (rule canonical_printable [OF assms(2,3)])
  obtain a1 where w: "write_smart e s a = (True, a1)"
    using assms(1) by (simp add: write_env_good_def write_smart_def atomic_write_ok)
  obtain v where "apply_dnsdist_profile J (he_apply e) raw (ed_world a1) = (None, v)"
    using apply_good [OF _ g(2)] assms(1) by (auto simp: write_env_good_def)
  with g w assms(4) show ?thesis by (simp add: install_profile_def)
qed

text \<open>What the master does with the heartbeat of an enrolled node.\<close>

lemma master_beat:
  assumes "enrolled_as i k a cs"
  obtains n' cs' where "st_heartbeat json_storage oe (beat_request e a) ip cs = (Inr (), cs')"
    "fmlookup (cs_nodes cs') i = Some n'" "n_key n' = k" "n_id n' = i" "n_applied n' = ea_hash (ed_state a)"
proof -
  obtain n where n: "fmlookup (cs_nodes cs) i = Some n" "n_key n = k" "n_id n = i"
    using assms by (auto simp: enrolled_as_def)
  have r: "hb_node (beat_request e a) = i" "hb_key (beat_request e a) = k" "hb_applied (beat_request e a) = ea_hash (ed_state a)"
    using assms by (auto simp: beat_request_def enrolled_as_def)
  let ?n = "beat_node (oe_now oe) (beat_request e a) ip n"
  have "n_applied ?n = ea_hash (ed_state a)" using r by (simp add: beat_node_def refresh_status_def)
  with n r that [of "snd (cs_save (oe_io oe 0) (cs\<lparr>cs_nodes := fmupd i ?n (cs_nodes cs)\<rparr>))" ?n]
  show ?thesis by (simp add: json_storage_def cs_heartbeat_def)
qed

lemma name_re_trim: "name_re s \<Longrightarrow> trim_space s = s \<and> s \<noteq> []"
proof -
  assume n: "name_re s"
  then have "list_all is_plain s" by (auto simp: name_re_def list_all_iff is_plain_def is_digit_def)
  with n show ?thesis by (auto simp: trim_space_plain name_re_def)
qed

lemma assigned_profile:
  assumes "store_inv J L st" and "profile_for_node st i = Some (pid, h)"
  obtains raw p where "ps_get pid st = Some (raw, h)" "h = sha256_hex L raw" "parse_profile J raw = Inr (p, raw)"
    "trim_space pid = pid" "pid \<noteq> []"
proof -
  obtain raw where r: "fmlookup (ps_profiles st) pid = Some (raw, h)"
    using assms(2) by (auto simp: profile_for_node_def split: option.splits)
  then have "entry_ok J L pid (raw, h)" using assms(1) unfolding store_inv_def by blast
  then obtain p where p: "parse_profile J raw = Inr (p, raw)" "p_id p = pid" "h = canon_hash L raw"
    by (auto simp: entry_ok_def)
  then have "name_re pid" by (auto simp: parse_profile_Inr profile_wf_def)
  with p r name_re_trim [of pid] that show ?thesis by (simp add: ps_get_def canon_hash_def)
qed

lemma cycle_master:
  assumes "enrolled_as i k a cs" and "cycle J L oe ip mh st e (a, cs) = (a', cs')"
  shows "st_heartbeat json_storage oe (beat_request e a) ip cs = (Inr (), cs')"
    "\<exists>n. fmlookup (cs_nodes cs') i = Some n \<and> n_key n = k \<and> n_id n = i \<and> n_applied n = ea_hash (ed_state a)"
    "a' = snd (send_heartbeat J L (connect oe ip mh cs st a e) a)"
proof -
  obtain n cs1 where b: "st_heartbeat json_storage oe (beat_request e a) ip cs = (Inr (), cs1)"
      "fmlookup (cs_nodes cs1) i = Some n" "n_key n = k" "n_id n = i" "n_applied n = ea_hash (ed_state a)"
    by (rule master_beat [OF assms(1)])
  have "cs' = cs1"
    using assms(2) b(1) by (auto simp: cycle_def handle_cluster_heartbeat_def split: prod.splits)
  with b show "st_heartbeat json_storage oe (beat_request e a) ip cs = (Inr (), cs')"
    "\<exists>n. fmlookup (cs_nodes cs') i = Some n \<and> n_key n = k \<and> n_id n = i \<and> n_applied n = ea_hash (ed_state a)"
    by auto
  show "a' = snd (send_heartbeat J L (connect oe ip mh cs st a e) a)" using assms(2) by (simp add: cycle_def)
qed

lemma beat_request_connect [simp]: "beat_request (connect oe ip mh cs st a0 e) a = beat_request e a"
  by (simp add: beat_request_def connect_def)

text \<open>The agent side of a cycle is the synchronisation with the assigned profile.\<close>

lemma cycle_agent:
  assumes "enrolled_as i k a cs" and "profile_for_node st i = Some (pid, h)"
    and "cycle J L oe ip mh st e (a, cs) = (a', cs')"
  shows "\<exists>a1 res. sync_profile J L (connect oe ip mh cs st a e) pid h a1 = (res, a')
     \<and> ed_master a1 = ed_master a \<and> ea_id (ed_state a1) = i \<and> ea_key (ed_state a1) = k
     \<and> ea_hash (ed_state a1) = ea_hash (ed_state a) \<and> ed_world a1 = ed_world a"
proof -
  let ?e = "connect oe ip mh cs st a e"
  have ids: "ea_id (ed_state a) = i" "ea_key (ed_state a) = k" "ed_master a \<noteq> []" "i \<noteq> []" "k \<noteq> []"
    using assms(1) by (simp_all add: enrolled_as_def)
  have "hb_node (beat_request e a) = i" using ids by (simp add: beat_request_def)
  then have "he_reply ?e u (beat_request e a) = Answer (Some \<lparr>hr_ack = oe_now2 oe, hr_master_hash = mh, hr_profile = pid, hr_profile_hash = h\<rparr>)" for u
    using cycle_master(1) [OF assms(1,3)] assms(2) by (simp add: connect_def handle_cluster_heartbeat_def)
  then have "a' = snd (sync_profile J L ?e pid h
      (agent_save (he_save ?e 0) (set_state (\<lambda>s. s\<lparr>ea_beat := he_now ?e, ea_error := []\<rparr>) a)))"
    using cycle_master(3) [OF assms(1,3)] ids by (simp add: send_heartbeat_def)
  then show ?thesis
    using ids by (intro exI [of _ "agent_save (he_save ?e 0) (set_state (\<lambda>s. s\<lparr>ea_beat := he_now ?e, ea_error := []\<rparr>) a)"]
        exI [of _ "fst (sync_profile J L ?e pid h (agent_save (he_save ?e 0) (set_state (\<lambda>s. s\<lparr>ea_beat := he_now ?e, ea_error := []\<rparr>) a)))"])
      simp
qed

lemma cycle_converges:
  assumes "codec_ok J" and "store_inv J L st" and "profile_for_node st i = Some (pid, h)" and "hex_text h"
    and "enrolled_as i k a cs" and "write_env_good e" and "\<And>raw. ps_get pid st = Some (raw, h) \<Longrightarrow> int (length raw) \<le> 8388608"
    and "cycle J L oe ip mh st e (a, cs) = (a', cs')"
  shows "ea_hash (ed_state a') = h" "enrolled_as i k a' cs'" "ea_hash (ed_state a) \<noteq> h \<Longrightarrow> both_from J L h (ed_world a')"
proof -
  let ?e = "connect oe ip mh cs st a e"
  obtain raw p where r: "ps_get pid st = Some (raw, h)" "h = sha256_hex L raw" "parse_profile J raw = Inr (p, raw)"
      "trim_space pid = pid" "pid \<noteq> []"
    by (rule assigned_profile [OF assms(2,3)])
  obtain a1 res where s: "sync_profile J L ?e pid h a1 = (res, a')" "ed_master a1 = ed_master a"
      "ea_id (ed_state a1) = i" "ea_key (ed_state a1) = k" "ea_hash (ed_state a1) = ea_hash (ed_state a)" "ed_world a1 = ed_world a"
    using cycle_agent [OF assms(5,3,8)] by blast
  have ids: "ed_master a \<noteq> []" "i \<noteq> []" "k \<noteq> []" "trim_space i = i" "trim_space k = k"
    using assms(5) by (simp_all add: enrolled_as_def)
  obtain n where n: "fmlookup (cs_nodes cs') i = Some n" "n_key n = k" "n_id n = i" using cycle_master(2) [OF assms(5,8)] by blast
  show "enrolled_as i k a' cs'" using sync_ids [OF s(1)] s(2-4) ids n by (auto simp: enrolled_as_def)
  have f: "he_fetch ?e u i k = Fetched 200 (Some raw)" for u
  proof -
    have "handle_profile_fetch (Some cs') st GET i k = Body raw"
      using n ids r(1) assms(3) by (simp add: handle_profile_fetch_def verify_edge_node_iff)
    then show ?thesis using cycle_master(1) [OF assms(5,8)] by (simp add: connect_def)
  qed
  note hex = hex_normal [OF assms(4)]
  have "ea_hash (ed_state a') = h \<and> (ea_hash (ed_state a) \<noteq> h \<longrightarrow> both_from J L h (ed_world a'))"
  proof (cases "ea_hash (ed_state a) = h")
    case True
    with s(1,5) r(4,5) hex show ?thesis by (simp add: sync_profile_def Let_def)
  next
    case False
    have "limit_reader 8388608 raw = raw" using assms(7) [OF r(1)] by (simp add: limit_reader_def)
    then have i: "install_profile J L ?e h raw a1 = (res, a')"
      using s(1-5) r(4,5) hex False ids f by (simp add: sync_profile_def Let_def)
    have "write_env_good ?e" using assms(6) by (simp add: write_env_good_def connect_def)
    from install_good [OF this assms(1) r(3) r(2) [symmetric], of a1] i have "res = None" by auto
    with install_effect [OF i] show ?thesis by auto
  qed
  then show "ea_hash (ed_state a') = h" "ea_hash (ed_state a) \<noteq> h \<Longrightarrow> both_from J L h (ed_world a')" by auto
qed

subsection \<open>Properties\<close>

text \<open>
  C23: The gate for the dnsdist profile is safe. When it succeeds, the active file holds exactly the
  generated text, which either was there already (and nothing was touched) or has passed the check
  of the configuration and been loaded by the restart. When it fails, the file that was active is
  active again and, after a completed roll back, loaded; the one exception is a roll back whose own
  rename fails, which leaves the new, checked text in place without a running dnsdist. No other
  file changes.
\<close>

theorem dnsdist_gate:
  assumes "apply_dnsdist_profile J e body w = (res, w')" and "ap_readable e" and "nw_fs w dnsdist_path \<noteq> None"
  shows "(res = None \<longrightarrow> (\<exists>lua. generate_dnsdist_lua J body = Inr lua \<and> nw_fs w' dnsdist_path = Some lua
            \<and> (w' = w \<or> ap_check e lua \<and> nw_loaded w' = (if ap_flag e then Some (Some lua) else nw_loaded w))))
     \<and> (res = Some RollbackFailed \<longrightarrow> (\<exists>lua. generate_dnsdist_lua J body = Inr lua \<and> ap_check e lua
            \<and> nw_fs w' dnsdist_path = Some lua \<and> nw_loaded w' = None))
     \<and> (res \<notin> {None, Some RollbackFailed} \<longrightarrow> nw_fs w' dnsdist_path = nw_fs w dnsdist_path)
     \<and> (res = Some RolledBack \<longrightarrow> nw_loaded w' = Some (nw_fs w dnsdist_path))
     \<and> (\<forall>q. q \<notin> {dnsdist_path, new_path, lkg_path} \<longrightarrow> nw_fs w' q = nw_fs w q)"
proof (cases "generate_dnsdist_lua J body")
  case (Inl err)
  with assms(1) show ?thesis by (auto simp: apply_not_generated)
next
  case (Inr lua)
  from apply_outcome [OF assms(1) Inr assms(2)] show ?thesis
    using Inr assms(3) apply_frame [OF assms(1)] by (elim disjE) auto
qed

definition example_apply :: "bool \<Rightarrow> apply_env" where
  "example_apply ok = \<lparr>ap_readable = True, ap_new = Written, ap_check = (\<lambda>b. True), ap_lkg = Written, ap_rename = True,
     ap_flag = True, ap_restart1 = ok, ap_back = True, ap_restart2 = True, ap_remove = True\<rparr>"

definition example_world :: node_world where
  "example_world = \<lparr>nw_fs = [dnsdist_path \<mapsto> ''old''], nw_loaded = Some (Some ''old''), nw_restarts = 0\<rparr>"

theorem dnsdist_gate_witness:
  "fst (apply_dnsdist_profile example_codec (example_apply False) ''doc'' example_world) = Some RolledBack
   \<and> nw_loaded (snd (apply_dnsdist_profile example_codec (example_apply False) ''doc'' example_world)) = Some (Some ''old'')"
proof -
  let ?r = "apply_dnsdist_profile example_codec (example_apply False) ''doc'' example_world"
  obtain d where d: "generate_dnsdist_lua example_codec ''doc'' = Inr d" "d \<noteq> ''old''"
    using example_section_wf
    by (auto simp: generate_dnsdist_lua_def dnsdist_lua_def example_profile_def example_codec_def dnsdist_header_def)
  have "fst ?r = Some RolledBack"
    using d by (simp add: apply_dnsdist_profile_def Let_def example_apply_def example_world_def write_file_def rename_file_def
        restart_or_roll_back_def restart_dnsdist_def)
  moreover from this have "nw_loaded (snd ?r) = Some (nw_fs example_world dnsdist_path)"
    using dnsdist_gate [where J = example_codec and e = "example_apply False" and body = "''doc''" and w = example_world, OF surjective_pairing]
    by (simp add: example_apply_def example_world_def)
  ultimately show ?thesis by (simp add: example_world_def)
qed

text \<open>
  C24: The agent never installs what it cannot verify. Whatever the network answers and whichever
  writes fail: a failure never changes the recorded hash; a change of the recorded hash or of the
  SmartDist file has its reason, a released assignment or a body with exactly the announced hash, from
  which both files are generated before the hash is recorded; and when anything on the node changes at
  all, also the dnsdist profile or the running dnsdist, then either the assignment was released and
  dnsdist was not touched, or the master sent a body with the announced hash and what happened to the
  node is the writing of the SmartDist file from that body, followed at most by the dnsdist gate on
  that body. A body with another hash changes nothing.
\<close>

theorem sync_verified:
  assumes "sync_profile J L e pid want a = (res, a')"
  shows "(res \<noteq> None \<longrightarrow> ed_state a' = ed_state a)
     \<and> (ea_hash (ed_state a') \<noteq> ea_hash (ed_state a) \<longrightarrow>
          (if trim_space pid = [] then ea_hash (ed_state a') = [] \<and> nw_fs (ed_world a') smart_path = Some smart_disabled
           else ea_hash (ed_state a') = to_lower L (trim_space want) \<and> both_from J L (ea_hash (ed_state a')) (ed_world a')))
     \<and> (nw_fs (ed_world a') smart_path \<noteq> nw_fs (ed_world a) smart_path \<longrightarrow>
          (if trim_space pid = [] then nw_fs (ed_world a') smart_path = Some smart_disabled
           else smart_from J L (to_lower L (trim_space want)) (ed_world a')))
     \<and> (a' \<noteq> a \<longrightarrow>
          (if trim_space pid = []
           then nw_fs (ed_world a') dnsdist_path = nw_fs (ed_world a) dnsdist_path
             \<and> nw_loaded (ed_world a') = nw_loaded (ed_world a)
           else (\<exists>raw body lua ok a1.
                  he_fetch e (ed_master a) (ea_id (ed_state a)) (ea_key (ed_state a)) = Fetched 200 (Some raw)
                  \<and> body = limit_reader 8388608 raw \<and> sha256_hex L body = to_lower L (trim_space want)
                  \<and> generate_smartdist_lua J body = Inr lua \<and> write_smart e lua a = (ok, a1)
                  \<and> (ed_world a' = ed_world a1
                     \<or> ok \<and> ed_world a' = snd (apply_dnsdist_profile J (he_apply e) body (ed_world a1))))))"
proof -
  have both: "both_from J L h w \<Longrightarrow> smart_from J L h w" for h w
    by (auto simp: both_from_def smart_from_def)
  show ?thesis
    by (intro conjI) (use sync_effect [OF assms] both in auto, use sync_change [OF assms] in auto)
qed

definition example_tele :: heartbeat_request where "example_tele = example_beat []"

definition example_agent_env :: "bool \<Rightarrow> agent_env" where
  "example_agent_env ok = \<lparr>he_reply = (\<lambda>_ _. NoReply []), he_fetch = (\<lambda>_ _ _. Fetched 200 (Some ''doc'')), he_register = (\<lambda>_ _. NoReply []),
     he_tele = example_tele, he_now = ''now'', he_save = (\<lambda>_. True), he_write = Written, he_rename = True,
     he_apply = example_apply ok, he_host = None, he_hex = ''00'', he_version = ''1''\<rparr>"

definition example_agent :: agent where
  "example_agent = (init_agent ''/v/agent.json'' ''http://m/'' [] '' edge '' (seconds 30)
     (Some \<lparr>ea_id = ''node-bb'', ea_key = ''cc'', ea_url = ''http://m'', ea_name = ''edge'', ea_beat = [], ea_error = [], ea_hash = []\<rparr>) example_world)"

theorem sync_verified_witness:
  "snd (sync_profile example_codec example_lib (example_agent_env True) ''p1'' ''beef'' example_agent) = example_agent
   \<and> ea_hash (ed_state (snd (sync_profile example_codec example_lib (example_agent_env True) ''p1'' ''doc'' example_agent))) = ''doc''
   \<and> both_from example_codec example_lib ''doc''
       (ed_world (snd (sync_profile example_codec example_lib (example_agent_env True) ''p1'' ''doc'' example_agent)))"
proof -
  let ?s = "\<lambda>h. sync_profile example_codec example_lib (example_agent_env True) ''p1'' h example_agent"
  have t: "trim_space ''p1'' = ''p1''" "to_lower example_lib (trim_space ''beef'') = ''beef''"
    "to_lower example_lib (trim_space ''doc'') = ''doc''" by code_simp+
  have sha: "sha256_hex example_lib b = b" for b by (simp add: example_lib_def)
  have "snd (?s ''beef'') = example_agent"
  proof (rule ccontr)
    assume "snd (?s ''beef'') \<noteq> example_agent"
    with sync_verified [where J = example_codec and L = example_lib and e = "example_agent_env True" and pid = "''p1''"
        and want = "''beef''" and a = example_agent, OF surjective_pairing]
    obtain raw where raw: "he_fetch (example_agent_env True) (ed_master example_agent) (ea_id (ed_state example_agent))
        (ea_key (ed_state example_agent)) = Fetched 200 (Some raw)"
      "sha256_hex example_lib (limit_reader 8388608 raw) = to_lower example_lib (trim_space ''beef'')" using t(1) by auto
    have "raw = ''doc''" using raw(1) by (simp add: example_agent_env_def)
    with raw(2) show False using sha t(2) by (simp add: limit_reader_def)
  qed
  moreover have h: "ea_hash (ed_state (snd (?s ''doc''))) = ''doc''" "ea_hash (ed_state example_agent) \<noteq> ''doc''"
    by code_simp+
  moreover have "both_from example_codec example_lib ''doc'' (ed_world (snd (?s ''doc'')))"
    using sync_verified [where J = example_codec and L = example_lib and e = "example_agent_env True" and pid = "''p1''"
        and want = "''doc''" and a = example_agent, OF surjective_pairing] h t by simp
  ultimately show ?thesis by blast
qed

text \<open>
  C22: Assignments reach the nodes. When a profile is assigned to an enrolled node and the node can
  write its files and restart dnsdist, one heartbeat makes the agent run that profile: its recorded
  hash is the one assigned, and if it was not before, both files hold what is generated from a
  document with that hash. The next heartbeat, whatever it meets on the node, makes the master's
  listing show the node as synced.
\<close>

theorem assignment_converges:
  assumes "codec_ok J" and "store_inv J L st" and "profile_for_node st i = Some (pid, h)" and "hex_text h"
    and "enrolled_as i k a cs" and "write_env_good e" and "\<forall>raw. ps_get pid st = Some (raw, h) \<longrightarrow> int (length raw) \<le> 8388608"
    and "cycle J L oe ip mh st e (a, cs) = (a1, cs1)" and "cycle J L oe2 ip2 mh2 st e2 (a1, cs1) = (a2, cs2)"
  shows "ea_hash (ed_state a1) = h
     \<and> (if ea_hash (ed_state a) = h then True else both_from J L h (ed_world a1))
     \<and> (\<exists>n. fmlookup (cs_nodes cs2) i = Some n \<and> n_sync (sync_columns (profile_for_node st) n) = ''synced'')"
proof -
  note c = cycle_converges [OF assms(1-6) _ assms(8)]
  have h: "ea_hash (ed_state a1) = h" and en: "enrolled_as i k a1 cs1" using c(1,2) assms(7) by auto
  obtain n where n: "fmlookup (cs_nodes cs2) i = Some n" "n_id n = i" "n_applied n = h"
    using cycle_master(2) [OF en assms(9)] h by blast
  moreover have "h \<noteq> []" using assms(4) by (simp add: hex_text_def)
  ultimately have "n_sync (sync_columns (profile_for_node st) n) = ''synced''"
    using assms(3) by (simp add: sync_columns_def profile_sync_state_def)
  with h n(1) c(3) assms(7) show ?thesis by auto
qed

theorem assignment_converges_witness:
  "let s1 = cycle example_codec example_lib (example_op_env 5) [] [] example_profiles (example_agent_env True) (example_agent, example_enrolled);
       s2 = cycle example_codec example_lib (example_op_env 6) [] [] example_profiles (example_agent_env False) s1
   in ea_hash (ed_state (fst s1)) = ''cafe''
      \<and> (\<exists>n. fmlookup (cs_nodes (snd s2)) ''node-bb'' = Some n \<and> n_sync (sync_columns (profile_for_node example_profiles) n) = ''synced'')"
proof -
  have inv: "store_inv example_codec example_lib example_profiles"
    unfolding example_profiles_def by (rule ps_run_inv [OF example_codec_ok example_fresh_inv])
  have p: "profile_for_node example_profiles ''node-bb'' = Some (''p1'', ''cafe'')" by code_simp
  have hex: "hex_text ''cafe''" by code_simp
  have t: "trim_space ''node-bb'' = ''node-bb''" "trim_space ''cc'' = ''cc''" "ea_id (ed_state example_agent) = ''node-bb''"
    "ea_key (ed_state example_agent) = ''cc''" "ed_master example_agent = ''http://m''" by code_simp+
  have "n_key (new_node (example_op_env 2) example_register ''10.0.0.2'') = ''cc''"
    "n_id (new_node (example_op_env 2) example_register ''10.0.0.2'') = ''node-bb''"
    by (simp_all add: new_node_def example_op_env_def Let_def)
  then have en: "enrolled_as ''node-bb'' ''cc'' example_agent example_enrolled"
    using t by (simp add: enrolled_as_def example_enrolled_def)
  have good: "write_env_good (example_agent_env True)"
    by (simp add: write_env_good_def example_agent_env_def apply_env_good_def example_apply_def)
  have "ps_get ''p1'' example_profiles = Some (''cafe'', ''cafe'')" by code_simp
  then have small: "\<forall>raw. ps_get ''p1'' example_profiles = Some (raw, ''cafe'') \<longrightarrow> int (length raw) \<le> 8388608" by simp
  show ?thesis
    unfolding Let_def
    using assignment_converges [OF example_codec_ok inv p hex en good small surjective_pairing surjective_pairing]
    by (metis prod.collapse)
qed

text \<open>
  At most one heartbeat loop is alive: after any sequence of starts and stops from any callers
  and of ends of loops, the loops whose channel is open are none, or exactly one while the agent
  counts as running. After a stop every loop that is still alive can only end, and all of them do.
\<close>

lemma one_heartbeat_loop:
  assumes "runner_reachable interval r"
  shows "length (active_loops r) = (if rn_running r then 1 else 0)
     \<and> active_loops (stop_runner r) = [] \<and> runner_step\<^sup>*\<^sup>* (stop_runner r) ((stop_runner r)\<lparr>rn_live := []\<rparr>)"
proof -
  have inv: "runner_inv r" by (rule runner_reachable_inv [OF assms])
  have "active_loops (stop_runner r) = []"
    using stop_inv [OF inv] inv by (auto simp: runner_inv_def stop_runner_def split: option.splits)
  with inv stop_drains [OF inv] show ?thesis by (auto simp: runner_inv_def split: option.splits)
qed

theorem one_heartbeat_loop_witness:
  "active_loops (ensure_running (stop_runner (ensure_running \<lparr>rn_interval = 5, rn_running = False, rn_stop = None,
     rn_live = [], rn_closed = [], rn_next = 0\<rparr>))) = [1]"
proof -
  let ?r = "ensure_running (stop_runner (ensure_running \<lparr>rn_interval = 5, rn_running = False, rn_stop = None,
     rn_live = [], rn_closed = [], rn_next = 0\<rparr>))"
  have "runner_reachable 5 ?r" by (intro runner_reachable.step [OF _ start] runner_reachable.step [OF _ stop] runner_reachable.init)
  from one_heartbeat_loop [OF this] have "length (active_loops ?r) = (if rn_running ?r then 1 else 0)" by blast
  then show ?thesis by (simp add: ensure_running_def stop_runner_def active_loops_def)
qed

subsection \<open>Two consequences of the order of steps\<close>

text \<open>
  The SmartDist file is written before the dnsdist section is applied. When applying it fails and
  the assignment is then reverted, the agent still has the hash of the old profile, so it takes
  itself to be in step and leaves the SmartDist file of the other profile in place.
\<close>

lemma stale_after_revert:
  assumes "install_profile J L e want b a = (Some (ApplyFailed err), a')" and "hex_text (ea_hash (ed_state a))"
    and "trim_space pid \<noteq> []"
  shows "\<exists>s. generate_smartdist_lua J b = Inr s \<and> sha256_hex L b = want \<and> nw_fs (ed_world a') smart_path = Some s
    \<and> sync_profile J L e2 pid (ea_hash (ed_state a)) a' = (None, a')"
proof (cases rule: install_cases [of L b want J e a])
  case (unapplied s a1 err2 w)
  then have "a' = a1\<lparr>ed_world := w\<rparr>" "nw_fs w smart_path = Some s"
    using assms(1) write_smart_world(1) [OF unapplied(3)] apply_frame [OF unapplied(4), of smart_path] by simp_all
  with unapplied write_smart_world(4) [OF unapplied(3)] hex_normal(1) [OF assms(2), of L] hex_normal(2) [OF assms(2)] assms(3) show ?thesis
    by (auto simp: sync_profile_def Let_def)
qed (use assms(1) in auto)

text \<open>A reply of status 200 that cannot be decoded counts as one without a profile: SmartDist is switched off.\<close>

lemma undecodable_reply_disables:
  assumes "ed_master a \<noteq> []" and "ea_id (ed_state a) \<noteq> []" and "ea_key (ed_state a) \<noteq> []"
    and "he_reply e (ed_master a) (beat_request e a) = Answer None" and "he_write e = Written" and "he_rename e"
  shows "ea_hash (ed_state (snd (send_heartbeat J L e a))) = []
    \<and> nw_fs (ed_world (snd (send_heartbeat J L e a))) smart_path = Some smart_disabled"
proof -
  obtain a1 where w: "write_smart e smart_disabled
      (agent_save (he_save e 0) (set_state (\<lambda>s. s\<lparr>ea_beat := he_now e, ea_error := []\<rparr>) a)) = (True, a1)"
    using assms(5,6) by (simp add: write_smart_def atomic_write_ok)
  with write_smart_world(1) [OF w] assms show ?thesis
    by (simp add: send_heartbeat_def empty_response_def sync_profile_def Let_def)
qed

end
