(* ===== verification/Cdb_Lookup.thy ===== *)
theory Cdb_Lookup
  imports Rpz_Files Go_Net
begin

unbundle bit_operations_syntax

text \<open>
  The lookup behind \<open>/api/rpz/test\<close> of the panel (\<open>panel/status.go\<close>) and the command that writes a
  database from a list of names (\<open>tools/gen-cdb-go\<close>): the DNS wire form of a name, the CDB hash, the
  probe loop over the table of a file read into memory, and the command line tool. The writer of the
  file is package \<open>colinmarc/cdb\<close>, outside the repository; \<open>cdb_file\<close> states the layout the comment
  of \<open>cdbContainsDomain\<close> documents.
\<close>

subsection \<open>The wire form of a name\<close>

fun wire_labels :: "string list \<Rightarrow> bytes option" where
  "wire_labels [] = Some [byte_of 0]"
| "wire_labels (l # ls) =
     (if l = [] \<or> 63 < length l then None
      else map_option (\<lambda>k. byte_of (length l) # l @ k) (wire_labels ls))"

definition wire_domain_key :: "lib \<Rightarrow> string \<Rightarrow> bytes option" where
  "wire_domain_key L domain =
     (let d = trim_byte (to_lower L (trim_space domain)) (CHR ''.'')
      in if d = [] \<or> 253 < length d then None else wire_labels (split_on (CHR ''.'') d))"

subsection \<open>Reading the database\<close>

text \<open>\<open>le32\<close> answers 0 beyond the end of the file.\<close>

definition le32 :: "bytes \<Rightarrow> int \<Rightarrow> u32" where
  "le32 b off =
     (if int (length b) < off + 4 then 0
      else of_char (b ! nat off) OR push_bit 8 (of_char (b ! nat (off + 1)))
        OR push_bit 16 (of_char (b ! nat (off + 2))) OR push_bit 24 (of_char (b ! nat (off + 3))))"

definition cdb_hash :: "bytes \<Rightarrow> u32" where
  "cdb_hash key = foldl (\<lambda>h c. (h + push_bit 5 h) XOR of_char c) 5381 key"

text \<open>A slice expression \<open>b[lo:hi]\<close>; \<^const>\<open>None\<close> is the panic of the runtime.\<close>

definition slice_of :: "bytes \<Rightarrow> u32 \<Rightarrow> u32 \<Rightarrow> bytes option" where
  "slice_of b lo hi =
     (if lo \<le> hi \<and> uint hi \<le> int (length b) then Some (take (unat hi - unat lo) (drop (unat lo) b)) else None)"

text \<open>
  The probe loop, with the arithmetic of the source at its width: the slot number and the slice
  bounds are computed in \<open>uint32\<close>, the guards in 64 bits.
\<close>

lemma u32_add:
  fixes a b :: u32
  assumes "uint a + uint b < 2 ^ 32"
  shows "uint (a + b) = uint a + uint b"
  using assms by (simp add: uint_plus_if_size word_size)

lemma unat_of_uint:
  fixes x y :: u32
  assumes "uint x = uint y + int k"
  shows "unat x = unat y + k"
proof -
  have "int (unat x) = int (unat y + k)" using assms by simp
  then show ?thesis by (simp only: of_nat_eq_iff)
qed

lemma u32_next:
  fixes i n :: u32
  assumes "i < n"
  shows "uint (i + 1) = uint i + 1" "unat n - unat (i + 1) < unat n - unat i"
proof -
  have lt: "uint i < uint n" "uint n < 2 ^ 32" using assms uint_lt2p [of n] by (simp_all add: word_less_def)
  have "uint i + uint (1::u32) < 2 ^ 32" unfolding uint_1 using lt by linarith
  from u32_add [OF this] show *: "uint (i + 1) = uint i + 1" unfolding uint_1 .
  then have "unat (i + 1) = unat i + 1" by (intro unat_of_uint) simp
  moreover have "unat i < unat n" using assms by (simp add: word_less_nat_alt)
  ultimately show "unat n - unat (i + 1) < unat n - unat i" by simp
qed

function cdb_probe :: "bytes \<Rightarrow> bytes \<Rightarrow> u32 \<Rightarrow> u32 \<Rightarrow> u32 \<Rightarrow> u32 \<Rightarrow> u32 \<Rightarrow> bool option" where
  "cdb_probe data key h toff n start i =
     (if \<not> i < n then Some False
      else
        (let slot = (start + i) mod n; off = uint toff + uint slot * 8
         in if int (length data) < off + 8 then Some False
            else
              (let th = le32 data off
               in if th = 0 then Some False
                  else if th \<noteq> h then cdb_probe data key h toff n start (i + 1)
                  else
                    (let tpos = le32 data (off + 4)
                     in if int (length data) < uint tpos + 8 then cdb_probe data key h toff n start (i + 1)
                        else
                          (let klen = le32 data (uint tpos)
                           in if int (length data) < uint tpos + 8 + uint klen
                              then cdb_probe data key h toff n start (i + 1)
                              else (case slice_of data (tpos + 8) (tpos + 8 + klen) of
                                      None \<Rightarrow> None
                                    | Some k \<Rightarrow>
                                        if k = key then Some True
                                        else cdb_probe data key h toff n start (i + 1)))))))"
  by pat_completeness auto
termination
proof (relation "measure (\<lambda>(data, key, h, toff, n, start, i). unat n - unat i)", goal_cases)
  case 1
  show ?case by simp
next
  case (2 data key h toff n start i)
  then show ?case by (simp add: u32_next)
next
  case (3 data key h toff n start i)
  then show ?case by (simp add: u32_next)
next
  case (4 data key h toff n start i)
  then show ?case by (simp add: u32_next)
next
  case (5 data key h toff n start i)
  then show ?case by (simp add: u32_next)
qed

declare cdb_probe.simps [simp del]

definition cdb_contains :: "lib \<Rightarrow> bytes \<Rightarrow> string \<Rightarrow> bool option" where
  "cdb_contains L data domain =
     (case wire_domain_key L domain of
        None \<Rightarrow> Some False
      | Some key \<Rightarrow>
          if length data < 256 * 8 then Some False
          else
            (let h = cdb_hash key; idx = uint (h AND 255) * 8;
                 toff = le32 data idx; n = le32 data (idx + 4)
             in if n = 0 then Some False
                else if int (length data) < uint toff + uint n * 8 then Some False
                else cdb_probe data key h toff n (drop_bit 8 h mod n) 0))"

subsection \<open>The layout of a database file\<close>

text \<open>
  What the writer promises: the header gives for each low byte of a hash a table of slots inside the
  file; a slot whose hash is not 0 points to the record of a stored key with that hash; and on the
  probe path of a stored key no empty slot precedes its own. The file is smaller than 4 GiB, because
  its positions have 32 bits.
\<close>

definition table_off :: "bytes \<Rightarrow> int \<Rightarrow> u32" where "table_off data b = le32 data (8 * b)"
definition table_len :: "bytes \<Rightarrow> int \<Rightarrow> u32" where "table_len data b = le32 data (8 * b + 4)"
definition slot_hash :: "bytes \<Rightarrow> u32 \<Rightarrow> int \<Rightarrow> u32" where
  "slot_hash data toff s = le32 data (uint toff + 8 * s)"
definition slot_pos :: "bytes \<Rightarrow> u32 \<Rightarrow> int \<Rightarrow> u32" where
  "slot_pos data toff s = le32 data (uint toff + 8 * s + 4)"

definition record_at :: "bytes \<Rightarrow> u32 \<Rightarrow> bytes \<Rightarrow> bool" where
  "record_at data pos k \<longleftrightarrow>
     uint pos + 8 + int (length k) \<le> int (length data) \<and> uint (le32 data (uint pos)) = int (length k)
     \<and> take (length k) (drop (unat pos + 8) data) = k"

definition on_path :: "bytes \<Rightarrow> u32 \<Rightarrow> int \<Rightarrow> int \<Rightarrow> int \<Rightarrow> bytes \<Rightarrow> bool" where
  "on_path data toff n start i k \<longleftrightarrow>
     (\<exists>j \<in> {i..<n}. (\<forall>m \<in> {i..<j}. slot_hash data toff ((start + m) mod n) \<noteq> 0)
        \<and> slot_hash data toff ((start + j) mod n) = cdb_hash k
        \<and> record_at data (slot_pos data toff ((start + j) mod n)) k)"

definition cdb_file :: "bytes \<Rightarrow> bytes set \<Rightarrow> bool" where
  "cdb_file data keys \<longleftrightarrow>
     2048 \<le> length data \<and> int (length data) < 2 ^ 32
     \<and> (\<forall>b \<in> {0..<256}. uint (table_off data b) + 8 * uint (table_len data b) \<le> int (length data))
     \<and> (\<forall>b \<in> {0..<256}. \<forall>s \<in> {0..<uint (table_len data b)}.
          slot_hash data (table_off data b) s \<noteq> 0 \<longrightarrow>
          (\<exists>k \<in> keys. slot_hash data (table_off data b) s = cdb_hash k
             \<and> record_at data (slot_pos data (table_off data b) s) k))
     \<and> (\<forall>k \<in> keys. cdb_hash k \<noteq> 0 \<longrightarrow>
          (let b = uint (cdb_hash k) mod 256; n = uint (table_len data b)
           in 0 < n \<and> on_path data (table_off data b) n (uint (cdb_hash k) div 256 mod n) 0 k))"

subsection \<open>The probe loop finds what the layout holds\<close>

lemma record_unique: "record_at data p k \<Longrightarrow> record_at data p k' \<Longrightarrow> k = k'"
  by (metis record_at_def of_nat_eq_iff)

lemma nat_record:
  fixes p l :: u32
  shows "uint p + 8 + uint l \<le> int n \<longleftrightarrow> unat p + 8 + unat l \<le> n"
proof -
  have "uint p + 8 + uint l = int (unat p + 8 + unat l)" by simp
  then show ?thesis by (simp only: of_nat_le_iff)
qed

lemma record_at_nat:
  "record_at data p k \<longleftrightarrow>
     unat p + 8 + unat (le32 data (uint p)) \<le> length data
     \<and> take (unat (le32 data (uint p))) (drop (unat p + 8) data) = k"
proof -
  let ?l = "le32 data (uint p)"
  have "uint ?l = int (length k) \<longleftrightarrow> unat ?l = length k" by (metis of_nat_eq_iff of_nat_unat)
  moreover have "uint p + 8 + int (length k) \<le> int (length data) \<longleftrightarrow> unat p + 8 + length k \<le> length data"
  proof -
    have "uint p + 8 + int (length k) = int (unat p + 8 + length k)" by simp
    then show ?thesis by (simp only: of_nat_le_iff)
  qed
  ultimately show ?thesis by (auto simp: record_at_def)
qed

lemma slice_record:
  assumes "int (length data) < 2 ^ 32" and "uint p + 8 + uint l \<le> int (length data)"
  shows "slice_of data (p + 8) (p + 8 + l) = Some (take (unat l) (drop (unat p + 8) data))"
proof -
  have pos: "uint l \<ge> 0" "uint p \<ge> 0" by simp_all
  have eight: "uint (8::u32) = 8" by simp
  have "uint p + uint (8::u32) < 2 ^ 32" unfolding eight using assms pos by linarith
  from u32_add [OF this] have a: "uint (p + 8) = uint p + 8" unfolding eight .
  have "uint (p + 8 + l) = uint (p + 8) + uint l" by (rule u32_add) (use assms pos a in linarith)
  with a have b: "uint (p + 8 + l) = uint p + 8 + uint l" by simp
  have "p + 8 \<le> p + 8 + l" using a b pos by (simp add: word_le_def)
  moreover have "unat (p + 8) = unat p + 8" by (rule unat_of_uint) (simp add: a)
  moreover have "unat (p + 8 + l) = unat p + (8 + unat l)" by (rule unat_of_uint) (simp add: b)
  ultimately show ?thesis using assms(2) b by (simp add: slice_of_def)
qed

lemma probe_step:
  assumes "int (length data) < 2 ^ 32" and "uint toff + 8 * uint n \<le> int (length data)" and "i < n" and "start < n"
  defines "s \<equiv> (uint start + uint i) mod uint n"
  shows "cdb_probe data key h toff n start i =
    (if slot_hash data toff s = 0 then Some False
     else if slot_hash data toff s = h \<and> record_at data (slot_pos data toff s) key then Some True
     else cdb_probe data key h toff n start (i + 1))"
proof -
  have n: "0 < uint n" "uint i < uint n" "uint start < uint n" using assms(3,4) by (simp_all add: word_less_def)
     (use uint_ge_0 [of i] in linarith)+
  have "uint (start + i) = uint start + uint i"
    using n assms(2) assms(1) uint_ge_0 [of toff] by (intro u32_add) linarith
  then have slot: "uint ((start + i) mod n) = s" by (simp add: s_def uint_mod)
  have "s < uint n" using n(1) by (simp add: s_def)
  then have fits: "\<not> int (length data) < uint toff + s * 8 + 8" using assms(2) by linarith
  let ?p = "slot_pos data toff s" and ?l = "le32 data (uint (slot_pos data toff s))"
  have nat: "uint ?p + 8 + uint ?l \<le> int (length data) \<longleftrightarrow> unat ?p + 8 + unat ?l \<le> length data"
    by (simp add: nat_record)
  have rec: "record_at data ?p key \<longleftrightarrow>
    uint ?p + 8 + uint ?l \<le> int (length data) \<and> take (unat ?l) (drop (unat ?p + 8) data) = key"
    unfolding nat by (rule record_at_nat)
  have short: "int (length data) < uint ?p + 8 \<Longrightarrow> \<not> uint ?p + 8 + uint ?l \<le> int (length data)"
    using uint_ge_0 [of ?l] by linarith
  have body: "le32 data (uint toff + s * 8) = slot_hash data toff s"
    "le32 data (uint toff + s * 8 + 4) = ?p"
    by (simp_all add: slot_hash_def slot_pos_def mult.commute)
  show ?thesis
    using assms(1,3) fits short slice_record [OF assms(1), of ?p ?l]
    by (subst cdb_probe.simps) (auto simp: Let_def slot body rec)
qed

lemma on_path_end: "n \<le> i \<Longrightarrow> \<not> on_path data toff n start i k"
  by (simp add: on_path_def)

lemma on_path_step:
  assumes "i < n"
  shows "on_path data toff n start i k \<longleftrightarrow>
    (slot_hash data toff ((start + i) mod n) = cdb_hash k \<and> record_at data (slot_pos data toff ((start + i) mod n)) k)
    \<or> (slot_hash data toff ((start + i) mod n) \<noteq> 0 \<and> on_path data toff n start (i + 1) k)"
    (is "?path i \<longleftrightarrow> ?here \<or> (?go \<and> ?path (i + 1))")
proof
  assume "?path i"
  then obtain j where j: "j \<in> {i..<n}" "\<forall>m \<in> {i..<j}. slot_hash data toff ((start + m) mod n) \<noteq> 0"
    "slot_hash data toff ((start + j) mod n) = cdb_hash k" "record_at data (slot_pos data toff ((start + j) mod n)) k"
    unfolding on_path_def by blast
  show "?here \<or> (?go \<and> ?path (i + 1))"
  proof (cases "j = i")
    case True
    with j show ?thesis by simp
  next
    case False
    with j have "j \<in> {i + 1..<n}" "\<forall>m \<in> {i + 1..<j}. slot_hash data toff ((start + m) mod n) \<noteq> 0" ?go by auto
    with j show ?thesis unfolding on_path_def by blast
  qed
next
  assume "?here \<or> (?go \<and> ?path (i + 1))"
  then show "?path i"
  proof
    assume ?here
    with assms show ?thesis unfolding on_path_def by (intro bexI [of _ i]) auto
  next
    assume r: "?go \<and> ?path (i + 1)"
    then obtain j where j: "j \<in> {i + 1..<n}" "\<forall>m \<in> {i + 1..<j}. slot_hash data toff ((start + m) mod n) \<noteq> 0"
      "slot_hash data toff ((start + j) mod n) = cdb_hash k" "record_at data (slot_pos data toff ((start + j) mod n)) k"
      unfolding on_path_def by blast
    have "slot_hash data toff ((start + m) mod n) \<noteq> 0" if "m \<in> {i..<j}" for m
      using j(2) r that by (cases "m = i") auto
    with j r show ?thesis unfolding on_path_def by (intro bexI [of _ j]) auto
  qed
qed

text \<open>
  The loop returns on every file, and answers whether the key is reached before an empty slot. The
  hash 0 marks an empty slot, so a key with that hash is never found.
\<close>

lemma probe_result:
  assumes "int (length data) < 2 ^ 32" and "uint toff + 8 * uint n \<le> int (length data)" and "start < n"
    and "cdb_hash key = h"
  shows "cdb_probe data key h toff n start i
    = Some (h \<noteq> 0 \<and> on_path data toff (uint n) (uint start) (uint i) key)"
proof (induction "unat n - unat i" arbitrary: i rule: less_induct)
  case less
  show ?case
  proof (cases "i < n")
    case False
    then have "uint n \<le> uint i" by (simp add: word_less_def)
    with False show ?thesis by (subst cdb_probe.simps) (simp add: on_path_end)
  next
    case True
    then have lt: "uint i < uint n" by (simp add: word_less_def)
    let ?s = "(uint start + uint i) mod uint n"
    have ih: "cdb_probe data key h toff n start (i + 1)
        = Some (h \<noteq> 0 \<and> on_path data toff (uint n) (uint start) (uint i + 1) key)"
      using less [of "i + 1"] u32_next [OF True] by simp
    consider "slot_hash data toff ?s = 0" | "slot_hash data toff ?s \<noteq> 0" by blast
    then show ?thesis
    proof cases
      case 1
      then show ?thesis
        unfolding probe_step [OF assms(1,2) True assms(3)] on_path_step [OF lt] assms(4) by auto
    next
      case 2
      then show ?thesis
        unfolding probe_step [OF assms(1,2) True assms(3)] on_path_step [OF lt] assms(4) ih by auto
    qed
  qed
qed

lemma low_byte: "uint (h AND 255) = uint (h :: u32) mod 256"
proof -
  have "h AND 255 = take_bit 8 h" by (simp add: take_bit_eq_mask mask_eq_exp_minus_1)
  then show ?thesis by (simp add: take_bit_eq_mod uint_mod_distrib)
qed

lemma table_start:
  assumes "n \<noteq> (0 :: u32)"
  shows "drop_bit 8 h mod n < n" "uint (drop_bit 8 h mod n) = uint h div 256 mod uint n"
proof -
  show "drop_bit 8 h mod n < n" using assms by (simp add: word_mod_less_divisor word_gt_0)
  show "uint (drop_bit 8 h mod n) = uint h div 256 mod uint n"
    by (simp add: drop_bit_eq_div uint_mod_distrib uint_div_distrib)
qed

text \<open>The lookup of a name answers whether its wire form is a stored key with a hash other than 0.\<close>

lemma cdb_contains_iff:
  assumes "cdb_file data keys"
  shows "cdb_contains L data d =
    Some (case wire_domain_key L d of None \<Rightarrow> False | Some k \<Rightarrow> k \<in> keys \<and> cdb_hash k \<noteq> 0)"
proof (cases "wire_domain_key L d")
  case None
  then show ?thesis by (simp add: cdb_contains_def)
next
  case key: (Some k)
  let ?h = "cdb_hash k" and ?b = "uint (cdb_hash k) mod 256"
  let ?n = "table_len data ?b" and ?t = "table_off data ?b"
  have big: "2048 \<le> length data" "int (length data) < 2 ^ 32" using assms by (simp_all add: cdb_file_def)
  have b: "?b \<in> {0..<256}" by simp
  have fits: "uint ?t + 8 * uint ?n \<le> int (length data)" using assms b unfolding cdb_file_def by blast
  have unfold: "cdb_contains L data d =
      (if ?n = 0 then Some False else cdb_probe data k ?h ?t ?n (drop_bit 8 ?h mod ?n) 0)"
    using key big(1) fits by (simp add: cdb_contains_def Let_def low_byte table_off_def table_len_def mult.commute)
  have stored: "?h \<noteq> 0 \<Longrightarrow> k \<in> keys \<Longrightarrow> 0 < uint ?n \<and> on_path data ?t (uint ?n) (uint ?h div 256 mod uint ?n) 0 k"
    using assms by (simp add: cdb_file_def Let_def)
  show ?thesis
  proof (cases "?n = 0")
    case True
    with stored key unfold show ?thesis by auto
  next
    case False
    let ?st = "uint ?h div 256 mod uint ?n"
    have probe: "cdb_contains L data d = Some (?h \<noteq> 0 \<and> on_path data ?t (uint ?n) ?st 0 k)"
      using unfold False probe_result [OF big(2) fits table_start(1) [OF False] refl]
      by (simp add: table_start(2) [OF False])
    have "k \<in> keys" if nz: "?h \<noteq> 0" and p: "on_path data ?t (uint ?n) ?st 0 k"
    proof -
      from p obtain j where j: "slot_hash data ?t ((?st + j) mod uint ?n) = ?h"
        "record_at data (slot_pos data ?t ((?st + j) mod uint ?n)) k" unfolding on_path_def by blast
      have "0 < uint ?n" using False by (simp add: word_neq_0_conv word_less_def)
      then have "(?st + j) mod uint ?n \<in> {0..<uint ?n}" by simp
      with assms b j(1) nz obtain k' where "k' \<in> keys" "record_at data (slot_pos data ?t ((?st + j) mod uint ?n)) k'"
        unfolding cdb_file_def by metis
      with record_unique j(2) show ?thesis by blast
    qed
    with probe stored key show ?thesis by auto
  qed
qed

subsection \<open>Names whose wire form is canonical\<close>

text \<open>
  Host names in lower case: on these \<open>dns.PackDomainName\<close> (which knows escapes and does not fold
  case) is documented to give the plain wire form, and \<open>wireDomainKey\<close> changes nothing.
\<close>

definition host_byte :: "char \<Rightarrow> bool" where
  "host_byte c \<longleftrightarrow> (97 \<le> byte c \<and> byte c \<le> 122) \<or> is_digit c \<or> c = CHR ''-'' \<or> c = CHR ''_'' \<or> c = CHR ''.''"

definition wire_of :: "string \<Rightarrow> bytes option" where
  "wire_of d = wire_labels (split_on (CHR ''.'') d)"

definition plain_name :: "string \<Rightarrow> bool" where
  "plain_name d \<longleftrightarrow> list_all host_byte d \<and> length d \<le> 253 \<and> wire_of d \<noteq> None"

definition pack_ok :: "lib \<Rightarrow> bool" where
  "pack_ok L \<longleftrightarrow> (\<forall>d. plain_name d \<longrightarrow> dns_pack L (d @ ''.'') = wire_of d)"

lemma byte_byte_of [simp]: "n < 256 \<Longrightarrow> byte (byte_of n) = n"
  by (simp add: byte_of_def)

lemma byte_of_inj: "n < 256 \<Longrightarrow> m < 256 \<Longrightarrow> byte_of n = byte_of m \<longleftrightarrow> n = m"
  using byte_byte_of by fastforce

lemma wire_labels_inj: "wire_labels ls = Some k \<Longrightarrow> wire_labels ls' = Some k \<Longrightarrow> ls = ls'"
proof (induction ls arbitrary: ls' k)
  case Nil
  then show ?case by (cases ls') (auto simp: byte_of_inj split: if_splits)
next
  case (Cons l ls)
  then obtain k1 where k1: "l \<noteq> []" "length l \<le> 63" "wire_labels ls = Some k1" "k = byte_of (length l) # l @ k1"
    by (auto split: if_splits)
  with Cons.prems(2) obtain l' ls2 where ls': "ls' = l' # ls2" by (cases ls') (auto simp: byte_of_inj)
  with Cons.prems(2) obtain k2 where k2: "length l' \<le> 63" "wire_labels ls2 = Some k2"
    "k = byte_of (length l') # l' @ k2" by (auto split: if_splits)
  have e: "byte_of (length l) # l @ k1 = byte_of (length l') # l' @ k2" using k1(4) k2(3) by (rule trans [OF sym])
  then have "length l = length l'" using k1(2) k2(1) by (simp add: byte_of_inj)
  with e have "l = l'" "k1 = k2" by simp_all
  with Cons.IH k1(3) k2(2) ls' show ?case by blast
qed

lemma wire_of_inj: "wire_of d = Some k \<Longrightarrow> wire_of d' = Some k \<Longrightarrow> d = d'"
  unfolding wire_of_def by (metis join_split wire_labels_inj)

lemma wire_labels_nonempty: "wire_labels ls = Some k \<Longrightarrow> l \<in> set ls \<Longrightarrow> l \<noteq> []"
  by (induction ls arbitrary: k) (auto split: if_splits)

lemma split_on_hd: "s \<noteq> [] \<Longrightarrow> hd s = c \<Longrightarrow> hd (split_on c s) = []"
  by (cases s) auto

lemma split_on_snoc: "split_on c (s @ [c]) = split_on c s @ [[]]"
  by (induction s) (auto split: list.splits)

lemma wire_of_ends:
  assumes "wire_of d = Some k"
  shows "d \<noteq> []" "hd d \<noteq> CHR ''.''" "last d \<noteq> CHR ''.''"
proof -
  note ne = wire_labels_nonempty [OF assms [unfolded wire_of_def]]
  show d: "d \<noteq> []" using ne by force
  show "hd d \<noteq> CHR ''.''" using ne split_on_hd [OF d] by (metis hd_in_set split_on_ne)
  show "last d \<noteq> CHR ''.''"
  proof
    assume "last d = CHR ''.''"
    then have "d = butlast d @ [CHR ''.'']" using d by (metis append_butlast_last_id)
    then have "[] \<in> set (split_on (CHR ''.'') d)" by (metis split_on_snoc in_set_conv_decomp)
    with ne show False by blast
  qed
qed

lemma drop_first: "s \<noteq> [] \<Longrightarrow> hd s \<noteq> c \<Longrightarrow> dropWhile (\<lambda>d. d = c) s = s"
  by (cases s) simp_all

lemma trim_byte_no: "s \<noteq> [] \<Longrightarrow> hd s \<noteq> c \<Longrightarrow> last s \<noteq> c \<Longrightarrow> trim_byte s c = s"
  by (simp add: trim_byte_def trim_right_byte_def drop_first hd_rev)

lemma host_byte_facts: "host_byte c \<Longrightarrow> is_plain c \<and> is_ascii c \<and> lower_byte c = c"
  by (auto simp: host_byte_def is_plain_def is_ascii_def lower_byte_def is_digit_def)

lemma plain_lower: "list_all host_byte d \<Longrightarrow> to_lower L d = d"
  by (induction d) (auto simp: to_lower_def host_byte_facts map_idI list_all_iff)

lemma plain_wire_key: "plain_name d \<Longrightarrow> wire_domain_key L d = wire_of d"
proof -
  assume p: "plain_name d"
  then obtain k where k: "wire_of d = Some k" by (auto simp: plain_name_def)
  have "list_all is_plain d" using p by (auto simp: plain_name_def list_all_iff host_byte_facts)
  then have "trim_space d = d" by (rule trim_space_plain)
  with p wire_of_ends [OF k] show ?thesis
    by (simp add: wire_domain_key_def plain_lower plain_name_def trim_byte_no wire_of_def)
qed

text \<open>A database whose keys are the wire forms of plain names answers exactly for these names.\<close>

lemma names_found:
  assumes "cdb_file data ((the \<circ> wire_of) ` names)" and "\<forall>d \<in> names. plain_name d" and "plain_name q"
  shows "cdb_contains L data q = Some (q \<in> names \<and> cdb_hash (the (wire_of q)) \<noteq> 0)"
proof -
  obtain k where k: "wire_of q = Some k" using assms(3) by (auto simp: plain_name_def)
  have "k \<in> (the \<circ> wire_of) ` names \<longleftrightarrow> q \<in> names"
  proof
    assume "k \<in> (the \<circ> wire_of) ` names"
    then obtain d where "d \<in> names" "the (wire_of d) = k" by auto
    with assms(2) wire_of_inj [OF k, of d] show "q \<in> names" by (auto simp: plain_name_def)
  qed (use k in force)
  with cdb_contains_iff [OF assms(1), of L q] plain_wire_key [OF assms(3)] k show ?thesis by simp
qed

subsection \<open>The handler of /api/rpz/test\<close>

record rpz_test_reply =
  rt_domain :: string
  rt_matched :: bool
  rt_action :: string
  rt_sinkholes :: "string list"
  rt_database :: string

definition upper_byte :: "char \<Rightarrow> char" where
  "upper_byte c = (if 97 \<le> byte c \<and> byte c \<le> 122 then char_of (byte c - 32) else c)"

text \<open>
  The block mode and the sinkhole addresses come from \<open>loadNodeConfig\<close>; the block mode is a word of
  ASCII characters. The left result is the status of an error reply.
\<close>

definition handle_rpz_test ::
  "lib \<Rightarrow> fs \<Rightarrow> string \<Rightarrow> string \<Rightarrow> string list \<Rightarrow> bool \<Rightarrow> string \<Rightarrow> (int + rpz_test_reply) option" where
  "handle_rpz_test L F files_dir block_mode sinkholes get query =
     (if \<not> get then Some (Inl 405)
      else if trim_space query = [] then Some (Inl 400)
      else
        (let domain = trim_suffix (to_lower L (trim_space query)) ''.'';
             db = (if files_dir = [] then [] else path_join files_dir ''trust.db'');
             look = (if files_dir = [] then Some False
                     else (case F db of None \<Rightarrow> Some False | Some b \<Rightarrow> cdb_contains L b domain))
         in map_option (\<lambda>matched. Inr \<lparr>rt_domain = domain, rt_matched = matched,
                rt_action = (if matched then map upper_byte block_mode else ''PASS''),
                rt_sinkholes = sinkholes, rt_database = db\<rparr>) look))"

text \<open>The reply of the handler for a host name, when the database holds plain names.\<close>

lemma rpz_test_answers:
  assumes "F (path_join dir ''trust.db'') = Some data" and "cdb_file data ((the \<circ> wire_of) ` names)"
    and "\<forall>d \<in> names. plain_name d" and q: "plain_name q" and "dir \<noteq> []"
  shows "handle_rpz_test L F dir mode sink True q = Some (Inr \<lparr>rt_domain = q,
     rt_matched = (q \<in> names \<and> cdb_hash (the (wire_of q)) \<noteq> 0),
     rt_action = (if q \<in> names \<and> cdb_hash (the (wire_of q)) \<noteq> 0 then map upper_byte mode else ''PASS''),
     rt_sinkholes = sink, rt_database = path_join dir ''trust.db''\<rparr>)"
proof -
  obtain k where k: "wire_of q = Some k" using q by (auto simp: plain_name_def)
  have "list_all is_plain q" using q by (auto simp: plain_name_def list_all_iff host_byte_facts)
  then have t: "trim_space q = q" by (rule trim_space_plain)
  have "\<not> suffix ''.'' q" using wire_of_ends(3) [OF k] by (auto simp: suffix_def)
  then have d: "trim_suffix (to_lower L q) ''.'' = q" using q by (simp add: plain_lower plain_name_def trim_suffix_no)
  show ?thesis
    using assms(1,5) names_found [OF assms(2,3) q, of L] wire_of_ends(1) [OF k]
    by (simp add: handle_rpz_test_def t d Let_def)
qed

subsection \<open>The command gen-cdb-go\<close>

datatype name_error = GenEmpty | GenNameLong int | GenLabelEmpty | GenLabelLong int | GenNotPacked

definition gen_normalize :: "lib \<Rightarrow> string \<Rightarrow> string" where
  "gen_normalize L domain = trim_right_byte (to_lower L (trim_space domain)) (CHR ''.'')"

fun check_labels :: "string list \<Rightarrow> name_error option" where
  "check_labels [] = None"
| "check_labels (l # ls) =
     (if l = [] then Some GenLabelEmpty
      else if 63 < length l then Some (GenLabelLong (int (length l))) else check_labels ls)"

text \<open>\<open>keyFor\<close> without the wire format; \<open>wireName\<close> makes the same checks before it packs.\<close>

definition check_name :: "lib \<Rightarrow> string \<Rightarrow> name_error + string" where
  "check_name L domain =
     (let d = gen_normalize L domain
      in if d = [] then Inl GenEmpty
         else if 253 < length d then Inl (GenNameLong (int (length d)))
         else (case check_labels (split_on (CHR ''.'') d) of Some e \<Rightarrow> Inl e | None \<Rightarrow> Inr d))"

definition wire_name :: "lib \<Rightarrow> string \<Rightarrow> name_error + bytes" where
  "wire_name L domain =
     (case check_name L domain of
        Inl e \<Rightarrow> Inl e
      | Inr d \<Rightarrow> (case dns_pack L (d @ ''.'') of None \<Rightarrow> Inl GenNotPacked | Some k \<Rightarrow> Inr k))"

definition key_for :: "lib \<Rightarrow> string \<Rightarrow> bool \<Rightarrow> name_error + bytes" where
  "key_for L domain wire = (if wire then wire_name L domain else check_name L domain)"

record gen_opts =
  go_value :: string
  go_wire :: bool
  go_out :: string
  go_domains :: "string list"

fun gen_args :: "gen_opts \<Rightarrow> string list \<Rightarrow> int + gen_opts" where
  "gen_args g [] = Inr g"
| "gen_args g (a # as) =
     (if a = ''-h'' \<or> a = ''--help'' then Inl 0
      else if a = ''--value'' then
        (case as of [] \<Rightarrow> Inl 2 | v # as' \<Rightarrow> gen_args (g\<lparr>go_value := v\<rparr>) as')
      else if prefix ''--value='' a then gen_args (g\<lparr>go_value := trim_prefix a ''--value=''\<rparr>) as
      else if a = ''--no-wire'' then gen_args (g\<lparr>go_wire := False\<rparr>) as
      else if go_out g = [] then gen_args (g\<lparr>go_out := a\<rparr>) as
      else gen_args (g\<lparr>go_domains := go_domains g @ [a]\<rparr>) as)"

datatype gen_io = GenCreate | GenPut nat | GenClose

text \<open>The writing loop: names that are refused are skipped, a failed write stops it.\<close>

fun gen_put :: "lib \<Rightarrow> (gen_io \<Rightarrow> bool) \<Rightarrow> bytes \<Rightarrow> bool \<Rightarrow> (bytes \<times> bytes) list \<Rightarrow> string list
    \<Rightarrow> (bytes \<times> bytes) list \<times> bool" where
  "gen_put L io v wire acc [] = (acc, True)"
| "gen_put L io v wire acc (d # ds) =
     (case key_for L d wire of
        Inl _ \<Rightarrow> gen_put L io v wire acc ds
      | Inr k \<Rightarrow> if io (GenPut (length acc)) then gen_put L io v wire (acc @ [(k, v)]) ds else (acc, False))"

definition gen_limit :: int where "gen_limit = 1024 * 1024"

definition gen_stdin :: "bytes \<Rightarrow> string list" where
  "gen_stdin stdin = filter (\<lambda>l. l \<noteq> []) (map trim_space (fst (scan_lines gen_limit stdin)))"

definition gen_inputs :: "gen_opts \<Rightarrow> bytes \<Rightarrow> string list" where
  "gen_inputs g stdin = (if go_domains g = [] then gen_stdin stdin else go_domains g)"

definition gen_start :: gen_opts where
  "gen_start = \<lparr>go_value = ''x'', go_wire = True, go_out = [], go_domains = []\<rparr>"

text \<open>
  \<open>run\<close>: the exit code and the files. A database that was not finished has some content \<open>torn\<close>.
\<close>

definition run_gen ::
  "lib \<Rightarrow> (gen_io \<Rightarrow> bool) \<Rightarrow> bytes option \<Rightarrow> string list \<Rightarrow> bytes \<Rightarrow> fs \<Rightarrow> int \<times> fs" where
  "run_gen L io torn args stdin F =
     (if args = [] then (2, F)
      else
        (case gen_args gen_start args of
           Inl code \<Rightarrow> (code, F)
         | Inr g \<Rightarrow>
             if go_out g = [] then (2, F)
             else if go_domains g = [] \<and> \<not> snd (scan_lines gen_limit stdin) then (2, F)
             else if \<not> io GenCreate then (1, F)
             else
               (case gen_put L io (go_value g) (go_wire g) [] (gen_inputs g stdin) of
                  (es, False) \<Rightarrow> (1, F(go_out g := torn))
                | (es, True) \<Rightarrow>
                    if es = [] then (2, F(go_out g := (if io GenClose then Some (cdb_image L []) else torn)))
                    else if \<not> io GenClose then (1, F(go_out g := torn))
                    else (0, F(go_out g \<mapsto> cdb_image L es)))))"

subsection \<open>What a finished run holds\<close>

definition gen_accepted :: "lib \<Rightarrow> string \<Rightarrow> string list" where
  "gen_accepted L d = (case check_name L d of Inl _ \<Rightarrow> [] | Inr n \<Rightarrow> [n])"

text \<open>The names a run accepts, in order.\<close>

definition gen_names :: "lib \<Rightarrow> string list \<Rightarrow> string list" where
  "gen_names L ds = concat (map (gen_accepted L) ds)"

definition wire_entry :: "bytes \<Rightarrow> string \<Rightarrow> bytes \<times> bytes" where
  "wire_entry v n = (the (wire_of n), v)"

lemma gen_put_plain:
  assumes "pack_ok L" and "\<forall>n \<in> set (gen_names L ds). plain_name n" and "gen_put L io v True acc ds = (es, True)"
  shows "es = acc @ map (wire_entry v) (gen_names L ds)"
  using assms(2,3)
proof (induction ds arbitrary: acc)
  case Nil
  then show ?case by (simp add: gen_names_def)
next
  case (Cons d ds)
  show ?case
  proof (cases "check_name L d")
    case (Inl e)
    with Cons show ?thesis by (simp add: gen_names_def gen_accepted_def key_for_def wire_name_def)
  next
    case (Inr n)
    then have names: "gen_names L (d # ds) = n # gen_names L ds" by (simp add: gen_names_def gen_accepted_def)
    with Cons.prems(1) have n: "plain_name n" and rest: "\<forall>n \<in> set (gen_names L ds). plain_name n" by simp_all
    from n obtain k where k: "wire_of n = Some k" by (auto simp: plain_name_def)
    with n assms(1) have "dns_pack L (n @ ''.'') = Some k" by (simp add: pack_ok_def)
    with Inr have key: "key_for L d True = Inr k" by (simp add: key_for_def wire_name_def)
    with Cons.prems(2) have "gen_put L io v True (acc @ [(k, v)]) ds = (es, True)" by (simp split: if_splits)
    from Cons.IH [OF rest this] k names show ?thesis by (simp add: wire_entry_def)
  qed
qed

lemma run_gen_ok:
  assumes "run_gen L io torn args stdin F = (0, F')" and "gen_args gen_start args = Inr g"
  obtains es where "gen_put L io (go_value g) (go_wire g) [] (gen_inputs g stdin) = (es, True)" "es \<noteq> []"
    "F' = F(go_out g \<mapsto> cdb_image L es)"
  using assms by (auto simp: run_gen_def split: if_splits prod.splits bool.splits)

text \<open>What is promised of the writer for one list of entries.\<close>

definition writer_ok :: "lib \<Rightarrow> (bytes \<times> bytes) list \<Rightarrow> bool" where
  "writer_ok L es \<longleftrightarrow> cdb_file (cdb_image L es) (fst ` set es)"

lemma fst_wire_entries: "fst ` set (map (wire_entry v) ns) = (the \<circ> wire_of) ` set ns"
  by (force simp: wire_entry_def image_def)

subsection \<open>A concrete database\<close>

text \<open>A file with the one key \<open>a.b\<close>: the header, one record and a table of two slots.\<close>

definition zeros :: "nat \<Rightarrow> bytes" where "zeros n = replicate n (byte_of 0)"

definition example_key :: bytes where
  "example_key = [byte_of 1, CHR ''a'', byte_of 1, CHR ''b'', byte_of 0]"

definition example_image :: bytes where
  "example_image = zeros 1584 @ map byte_of [13, 8, 0, 0, 2, 0, 0, 0] @ zeros 456
     @ map byte_of [5, 0, 0, 0, 0, 0, 0, 0] @ example_key @ zeros 8
     @ map byte_of [198, 239, 254, 7, 0, 8, 0, 0]"

lemma word_byte_of [simp]: "n < 256 \<Longrightarrow> (of_char (byte_of n) :: u32) = of_nat n"
  by (metis byte_byte_of of_nat_of_char)

lemma example_image_length: "length example_image = 2077"
  by (simp add: example_image_def zeros_def example_key_def)

lemma example_zero: "i < 2048 \<Longrightarrow> \<not> (1584 \<le> i \<and> i < 1592) \<Longrightarrow> example_image ! i = byte_of 0"
  by (auto simp: example_image_def zeros_def nth_append)

lemma le32_zero:
  assumes "0 \<le> off" and "\<forall>i < 4. b ! (nat off + i) = byte_of 0"
  shows "le32 b off = 0"
proof -
  have n: "nat (off + 1) = nat off + 1" "nat (off + 2) = nat off + 2" "nat (off + 3) = nat off + 3"
    using assms(1) by (simp_all add: nat_add_distrib)
  have "b ! nat off = byte_of 0" "b ! (nat off + 1) = byte_of 0" "b ! (nat off + 2) = byte_of 0" "b ! (nat off + 3) = byte_of 0"
    using assms(2) [rule_format, of 0] assms(2) [rule_format, of 1] assms(2) [rule_format, of 2] assms(2) [rule_format, of 3]
    by simp_all
  then show ?thesis by (simp add: le32_def n)
qed

lemma example_tables:
  assumes "b \<in> {0..<256}" and "b \<noteq> 198"
  shows "table_off example_image b = 0" "table_len example_image b = 0"
  using assms by (auto simp: table_off_def table_len_def intro!: le32_zero example_zero)

lemma example_table_198:
  "table_off example_image 198 = 2061" "table_len example_image 198 = 2"
  by (simp_all add: table_off_def table_len_def le32_def example_image_length)
     (simp_all add: example_image_def zeros_def nth_append)

lemma example_cdb_slots:
  "slot_hash example_image 2061 0 = 0" "slot_hash example_image 2061 1 = 134148038"
  "slot_pos example_image 2061 1 = 2048"
  by (simp_all add: slot_hash_def slot_pos_def le32_def example_image_length)
     (simp_all add: example_image_def example_key_def zeros_def nth_append)

lemma example_cdb_record: "record_at example_image 2048 example_key"
  by (simp add: record_at_def example_image_length le32_def)
     (simp add: example_image_def example_key_def zeros_def nth_append)

lemma example_key_hash: "cdb_hash example_key = 134148038"
  by (simp add: cdb_hash_def example_key_def)

lemma example_cdb: "cdb_file example_image {example_key}"
  unfolding cdb_file_def
proof (intro conjI)
  show "2048 \<le> length example_image" "int (length example_image) < 2 ^ 32" by (simp_all add: example_image_length)
  show "\<forall>b \<in> {0..<256}. uint (table_off example_image b) + 8 * uint (table_len example_image b) \<le> int (length example_image)"
  proof
    fix b :: int assume "b \<in> {0..<256}"
    then show "uint (table_off example_image b) + 8 * uint (table_len example_image b) \<le> int (length example_image)"
      by (cases "b = 198") (simp_all add: example_tables example_table_198 example_image_length)
  qed
  show "\<forall>b \<in> {0..<256}. \<forall>s \<in> {0..<uint (table_len example_image b)}.
          slot_hash example_image (table_off example_image b) s \<noteq> 0 \<longrightarrow>
          (\<exists>k \<in> {example_key}. slot_hash example_image (table_off example_image b) s = cdb_hash k
             \<and> record_at example_image (slot_pos example_image (table_off example_image b) s) k)"
  proof (intro ballI impI)
    fix b s :: int
    assume b: "b \<in> {0..<256}" and s: "s \<in> {0..<uint (table_len example_image b)}"
      and nz: "slot_hash example_image (table_off example_image b) s \<noteq> 0"
    have "b = 198" using b s example_tables(2) [of b] by fastforce
    with s have "s = 0 \<or> s = 1" by (auto simp: example_table_198)
    with nz \<open>b = 198\<close> have "s = 1" by (auto simp: example_table_198 example_cdb_slots)
    with \<open>b = 198\<close> show "\<exists>k \<in> {example_key}. slot_hash example_image (table_off example_image b) s = cdb_hash k
             \<and> record_at example_image (slot_pos example_image (table_off example_image b) s) k"
      by (simp add: example_table_198 example_cdb_slots example_key_hash example_cdb_record)
  qed
  have path: "on_path example_image 2061 2 1 0 example_key"
    by (simp add: on_path_step example_cdb_slots example_key_hash example_cdb_record)
  show "\<forall>k \<in> {example_key}. cdb_hash k \<noteq> 0 \<longrightarrow>
          (let b = uint (cdb_hash k) mod 256; n = uint (table_len example_image b)
           in 0 < n \<and> on_path example_image (table_off example_image b) n (uint (cdb_hash k) div 256 mod n) 0 k)"
    using path by (simp add: example_key_hash example_table_198)
qed

definition cdb_lib :: lib where
  "cdb_lib = example_lib\<lparr>dns_pack := (\<lambda>s. wire_of (butlast s)), cdb_image := (\<lambda>es. example_image)\<rparr>"

lemma cdb_lib_pack: "pack_ok cdb_lib"
  by (simp add: pack_ok_def cdb_lib_def)

lemma example_name: "wire_of ''a.b'' = Some example_key" "plain_name ''a.b''"
  by (simp_all add: wire_of_def example_key_def plain_name_def host_byte_def)

subsection \<open>Properties\<close>

text \<open>
  C25: The lookup of the panel in a database file of the documented layout: it always returns (the
  probe loop ends, no slice is out of bounds), and it answers yes exactly when the wire form of the
  name exists, is a stored key and its hash is not 0.
\<close>

theorem cdb_lookup_correct:
  assumes "cdb_file data keys"
  shows "cdb_contains L data d =
    Some (case wire_domain_key L d of None \<Rightarrow> False | Some k \<Rightarrow> k \<in> keys \<and> cdb_hash k \<noteq> 0)"
  by (rule cdb_contains_iff [OF assms])

lemma example_wire: "wire_domain_key example_lib '' A.b. '' = Some example_key"
  "wire_domain_key example_lib ''x.y'' = Some [byte_of 1, CHR ''x'', byte_of 1, CHR ''y'', byte_of 0]"
  "wire_domain_key example_lib ''a..b'' = None"
  by (code_simp, code_simp, code_simp)

theorem cdb_lookup_correct_witness:
  "cdb_contains example_lib example_image '' A.b. '' = Some True
   \<and> cdb_contains example_lib example_image ''x.y'' = Some False
   \<and> cdb_contains example_lib example_image ''a..b'' = Some False"
  unfolding cdb_lookup_correct [OF example_cdb] example_wire
  by (simp add: example_key_hash) (simp add: example_key_def)

text \<open>
  C26: After a publication of the RPZ daemon, the panel finds in the published database exactly the
  domains of the published raw file (but for a name whose hash is 0), provided these are host names
  in lower case.
\<close>

theorem published_domains_found:
  assumes pub: "publish_delta L enc io now tmp stage_dir cfg d F = (Inr r, F')"
    and paths: "publish_paths tmp stage_dir cfg d" and pack: "pack_ok L"
    and raw: "F' (raw_domain_file cfg) = Some b" and plain: "\<forall>n \<in> set (file_domains L b). plain_name n"
    and writer: "writer_ok L (map (wire_entry []) (file_domains L b))" and q: "plain_name q"
  shows "\<exists>img. F' (cdb_path cfg) = Some img \<and>
    cdb_contains L img q = Some (q \<in> set (file_domains L b) \<and> cdb_hash (the (wire_of q)) \<noteq> 0)"
proof -
  let ?ds = "file_domains L b"
  have entries: "entries_for L True ?ds = map (wire_entry []) ?ds"
    using pack plain by (simp add: entries_for_def cdb_key_def wire_entry_def pack_ok_def)
  have "published_ok L enc cfg now r F'" by (rule publish_delta_ok [OF pub paths]) simp
  then have img: "F' (cdb_path cfg) = Some (cdb_image L (map (wire_entry []) ?ds))"
    using raw entries by (simp add: published_ok_def Let_def)
  have "cdb_file (cdb_image L (map (wire_entry []) ?ds)) ((the \<circ> wire_of) ` set ?ds)"
    using writer unfolding writer_ok_def fst_wire_entries .
  from names_found [OF this plain q, of L] img show ?thesis by blast
qed

definition cdb_delta :: delta where
  "cdb_delta = example_delta\<lparr>added := [''a.b''], deleted := [''x.y'']\<rparr>"

definition pack_lib :: "bytes \<Rightarrow> lib" where
  "pack_lib img = example_lib\<lparr>dns_pack := (\<lambda>s. wire_of (butlast s)), cdb_image := (\<lambda>es. img)\<rparr>"

lemma cdb_publication:
  "(case publish_delta (pack_lib img) (\<lambda>m. []) (\<lambda>_. True) 9 ''/d/.tmp'' ''/d/.pub'' example_cfg cdb_delta example_files of
      (Inl e, F) \<Rightarrow> False
    | (Inr r, F) \<Rightarrow> (case F ''/d/raw.txt'' of None \<Rightarrow> False | Some b \<Rightarrow> file_domains (pack_lib img) b = [''a.b'']))
   \<and> publish_paths ''/d/.tmp'' ''/d/.pub'' example_cfg cdb_delta"
  by code_simp

theorem published_domains_found_witness:
  "\<exists>F img. snd (publish_delta cdb_lib (\<lambda>m. []) (\<lambda>_. True) 9 ''/d/.tmp'' ''/d/.pub'' example_cfg cdb_delta example_files) = F
     \<and> F ''/d/t.cdb'' = Some img \<and> cdb_contains cdb_lib img ''a.b'' = Some True"
proof -
  let ?r = "publish_delta cdb_lib (\<lambda>m. []) (\<lambda>_. True) 9 ''/d/.tmp'' ''/d/.pub'' example_cfg cdb_delta example_files"
  have lib: "pack_lib example_image = cdb_lib" by (simp add: pack_lib_def cdb_lib_def)
  note p = cdb_publication [of example_image, unfolded lib]
  from p obtain r F b where r: "?r = (Inr r, F)" and b: "F ''/d/raw.txt'' = Some b" "file_domains cdb_lib b = [''a.b'']"
    by (auto split: prod.splits sum.splits option.splits)
  have cfg: "raw_domain_file example_cfg = ''/d/raw.txt''" "cdb_path example_cfg = ''/d/t.cdb''"
    by (simp_all add: example_cfg_def)
  have w: "writer_ok cdb_lib (map (wire_entry []) (file_domains cdb_lib b))"
    unfolding b using example_cdb by (simp add: writer_ok_def wire_entry_def example_name cdb_lib_def)
  have "\<exists>img. F (cdb_path example_cfg) = Some img \<and> cdb_contains cdb_lib img ''a.b''
      = Some (''a.b'' \<in> set (file_domains cdb_lib b) \<and> cdb_hash (the (wire_of ''a.b'')) \<noteq> 0)"
    by (rule published_domains_found [OF r conjunct2 [OF p] cdb_lib_pack])
      (use w b example_name(2) in \<open>simp_all add: cfg\<close>)
  then show ?thesis using r by (auto simp: cfg b example_name example_key_hash)
qed

text \<open>
  A run of \<open>gen-cdb-go\<close> in wire format that exits with 0 leaves a database in which the panel finds
  exactly the names the run accepted, from the arguments or from standard input.
\<close>

lemma gen_cdb_found:
  assumes run: "run_gen L io torn args stdin F = (0, F')" and args: "gen_args gen_start args = Inr g" and wire: "go_wire g"
    and pack: "pack_ok L" and plain: "\<forall>n \<in> set (gen_names L (gen_inputs g stdin)). plain_name n"
    and writer: "writer_ok L (map (wire_entry (go_value g)) (gen_names L (gen_inputs g stdin)))" and q: "plain_name q"
  shows "\<exists>img. F' = F(go_out g \<mapsto> img) \<and>
    cdb_contains L img q = Some (q \<in> set (gen_names L (gen_inputs g stdin)) \<and> cdb_hash (the (wire_of q)) \<noteq> 0)"
proof -
  let ?ns = "gen_names L (gen_inputs g stdin)"
  obtain es where es: "gen_put L io (go_value g) True [] (gen_inputs g stdin) = (es, True)"
    "F' = F(go_out g \<mapsto> cdb_image L es)" using run_gen_ok [OF run args] wire by metis
  have "es = map (wire_entry (go_value g)) ?ns" using gen_put_plain [OF pack plain es(1)] by simp
  moreover have "cdb_file (cdb_image L (map (wire_entry (go_value g)) ?ns)) ((the \<circ> wire_of) ` set ?ns)"
    using writer unfolding writer_ok_def fst_wire_entries .
  ultimately show ?thesis using names_found [OF _ plain q, of _ L] es(2) by blast
qed

lemma gen_run:
  "fst (run_gen (pack_lib img) (\<lambda>_. True) None [''/o'', ''--value=1'', ''A.B.'', ''a..b''] [] Map.empty) = 0
   \<and> gen_args gen_start [''/o'', ''--value=1'', ''A.B.'', ''a..b'']
      = Inr \<lparr>go_value = ''1'', go_wire = True, go_out = ''/o'', go_domains = [''A.B.'', ''a..b'']\<rparr>
   \<and> gen_names (pack_lib img) [''A.B.'', ''a..b''] = [''a.b'']"
  by code_simp

theorem gen_cdb_found_witness:
  "\<exists>img. snd (run_gen cdb_lib (\<lambda>_. True) None [''/o'', ''--value=1'', ''A.B.'', ''a..b''] [] Map.empty) ''/o'' = Some img
     \<and> cdb_contains cdb_lib img ''a.b'' = Some True"
proof -
  let ?r = "run_gen cdb_lib (\<lambda>_. True) None [''/o'', ''--value=1'', ''A.B.'', ''a..b''] [] Map.empty"
  let ?g = "\<lparr>go_value = ''1'', go_wire = True, go_out = ''/o'', go_domains = [''A.B.'', ''a..b'']\<rparr>"
  have lib: "pack_lib example_image = cdb_lib" by (simp add: pack_lib_def cdb_lib_def)
  note p = gen_run [of example_image, unfolded lib]
  have r: "?r = (0, snd ?r)" using p by (metis prod.collapse)
  have names: "gen_names cdb_lib (gen_inputs ?g []) = [''a.b'']" using p by (simp add: gen_inputs_def)
  have w: "writer_ok cdb_lib (map (wire_entry ''1'') [''a.b''])"
    using example_cdb by (simp add: writer_ok_def wire_entry_def example_name cdb_lib_def)
  have "\<exists>img. snd ?r = Map.empty(go_out ?g \<mapsto> img) \<and> cdb_contains cdb_lib img ''a.b''
      = Some (''a.b'' \<in> set (gen_names cdb_lib (gen_inputs ?g [])) \<and> cdb_hash (the (wire_of ''a.b'')) \<noteq> 0)"
    by (rule gen_cdb_found [OF r _ _ cdb_lib_pack]) (use p w names example_name(2) in simp_all)
  then show ?thesis by (auto simp: names example_name example_key_hash)
qed

end
