(* ===== verification/Feed_Build.thy ===== *)
theory Feed_Build
  imports Cdb_Lookup Go_Utf8
begin

text \<open>
  The database builder of the central master (\<open>panel/builder.go\<close>) and the command \<open>trust-builder\<close>
  (\<open>tools/trust-builder\<close>): downloading a feed in parts behind a cache, reading the whitelist, parsing
  the lines of feeds in the four formats that are understood, writing the database and publishing it.
  The HTTP servers, the CDB writer and \<open>dns.PackDomainName\<close> are parameters.
\<close>

subsection \<open>Printing addresses\<close>

text \<open>\<open>net.IP.String\<close> on the 16 bytes \<open>net.ParseIP\<close> returns.\<close>

definition hex_lower :: "int \<Rightarrow> char" where
  "hex_lower v = (if v < 10 then char_of (48 + v) else char_of (87 + v))"

function hex_text :: "int \<Rightarrow> string" where
  "hex_text n = (if n < 16 then [hex_lower (n mod 16)] else hex_text (n div 16) @ [hex_lower (n mod 16)])"
  by pat_completeness auto
termination
  by (relation "measure nat") auto

declare hex_text.simps [simp del]

definition groups16 :: "ip \<Rightarrow> int list" where
  "groups16 a = map (\<lambda>i. uint (a ! (2 * i)) * 256 + uint (a ! (2 * i + 1))) [0..<8]"

text \<open>The length of the run of zero groups that starts the list.\<close>

definition zero_run :: "int list \<Rightarrow> nat" where "zero_run gs = length (takeWhile (\<lambda>g. g = 0) gs)"

text \<open>The first of the longest runs, as position and length; runs shorter than 2 do not count.\<close>

definition best_run :: "int list \<Rightarrow> nat \<times> nat" where
  "best_run gs = foldl (\<lambda>(p, n) i. let m = zero_run (drop i gs) in if n < m then (i, m) else (p, n)) (0, 0) [0..<length gs]"

definition ipv6_text :: "ip \<Rightarrow> string" where
  "ipv6_text a =
     (let gs = groups16 a; (p, n) = best_run gs; txt = (\<lambda>xs. join '':'' (map hex_text xs))
      in if n < 2 then txt gs else txt (take p gs) @ ''::'' @ txt (drop (p + n) gs))"

definition ipv4_text :: "ip \<Rightarrow> string" where
  "ipv4_text a = join ''.'' (map (\<lambda>w. fmt_d (uint w)) a)"

definition ip_text :: "ip \<Rightarrow> string" where
  "ip_text a = (if to4 a \<noteq> [] then ipv4_text (to4 a) else ipv6_text a)"

subsection \<open>The whitelist\<close>

definition default_limit :: int where "default_limit = 65536"

text \<open>\<open>loadWhitelistSet\<close>: the entries and whether a line was too long (the entries before it count).\<close>

definition whitelist_entry :: "lib \<Rightarrow> string \<Rightarrow> string option" where
  "whitelist_entry L l =
     (let t = trim_space (to_lower L l) in if t = [] \<or> prefix ''#'' t then None else Some (trim_suffix t ''.''))"

definition whitelist_list :: "lib \<Rightarrow> bytes \<Rightarrow> string list" where
  "whitelist_list L b = List.map_filter (whitelist_entry L) (fst (scan_lines default_limit b))"

text \<open>
  The set a build uses: empty without a file, \<open>nil\<close> (empty again) when the file cannot be opened. The
  flag is the error, of which the build only writes a line to its log.
\<close>

definition load_whitelist_set :: "lib \<Rightarrow> bool \<Rightarrow> string \<Rightarrow> fs \<Rightarrow> string list \<times> bool" where
  "load_whitelist_set L open_ok path F =
     (if path = [] then ([], True)
      else if \<not> open_ok then ([], False)
      else (case F path of
              None \<Rightarrow> ([], True)
            | Some b \<Rightarrow> (whitelist_list L b, snd (scan_lines default_limit b))))"

subsection \<open>One line of a feed\<close>

definition cut_comment :: "char \<Rightarrow> string \<Rightarrow> string" where
  "cut_comment c s = (if c \<in> set s then trim_space (takeWhile (\<lambda>x. x \<noteq> c) s) else s)"

definition strip_hosts :: "string \<Rightarrow> string" where
  "strip_hosts s =
     (if prefix ''0.0.0.0 '' s then trim_space (trim_prefix s ''0.0.0.0 '')
      else if prefix ''127.0.0.1 '' s then trim_space (trim_prefix s ''127.0.0.1 '')
      else s)"

definition strip_dnsmasq :: "string \<Rightarrow> string" where
  "strip_dnsmasq s =
     (if prefix ''address=/'' s \<and> 3 \<le> length (split_on (CHR ''/'') s) then split_on (CHR ''/'') s ! 1 else s)"

text \<open>The name or address a line stands for, if any.\<close>

definition feed_item :: "lib \<Rightarrow> string \<Rightarrow> string option" where
  "feed_item L text =
     (let l = cut_comment (CHR ''!'') (cut_comment (CHR ''#'') (trim_space (to_lower L text)))
      in if l = [] \<or> prefix '';'' l then None
         else
           (let h = strip_hosts l
            in if prefix ''@@||'' h then None
               else
                 (let d = strip_dnsmasq (trim_suffix (trim_prefix h ''||'') ''^'')
                  in if CHR ''/'' \<in> set d \<or> CHR ''*'' \<in> set d \<or> d = [] then None else Some d)))"

text \<open>
  What is done with it. \<open>canon\<close> tells whether an address is brought into its canonical form first
  (the panel does, \<open>trust-builder\<close> does not).
\<close>

datatype key_outcome = KeyIP bytes | KeyDomain bytes | Whitelisted | Unpackable

definition feed_key :: "lib \<Rightarrow> bool \<Rightarrow> (string \<Rightarrow> bool) \<Rightarrow> string \<Rightarrow> key_outcome" where
  "feed_key L canon wl d =
     (if parse_ip d \<noteq> []
      then (let a = (if canon then ip_text (parse_ip d) else d)
            in if wl a then Whitelisted else KeyIP (a @ [byte_of 0]))
      else (let p = trim_suffix d ''.''
            in if wl p then Whitelisted
               else (case dns_pack L (p @ ''.'') of None \<Rightarrow> Unpackable | Some k \<Rightarrow> KeyDomain k)))"

subsection \<open>Writing the database\<close>

record feed_acc =
  fa_entries :: "(bytes \<times> bytes) list"
  fa_domains :: nat
  fa_ips :: nat
  fa_whitelisted :: nat

definition feed_acc0 :: feed_acc where
  "feed_acc0 = \<lparr>fa_entries = [], fa_domains = 0, fa_ips = 0, fa_whitelisted = 0\<rparr>"

text \<open>The lines of one feed; \<open>put n\<close> is the outcome of the write number \<open>n\<close>, a failed one ends the build.\<close>

fun feed_lines :: "lib \<Rightarrow> bool \<Rightarrow> (string \<Rightarrow> bool) \<Rightarrow> (nat \<Rightarrow> bool) \<Rightarrow> feed_acc \<Rightarrow> string list \<Rightarrow> feed_acc \<times> bool" where
  "feed_lines L canon wl put a [] = (a, True)"
| "feed_lines L canon wl put a (l # ls) =
     (case feed_item L l of
        None \<Rightarrow> feed_lines L canon wl put a ls
      | Some d \<Rightarrow>
          (case feed_key L canon wl d of
             Whitelisted \<Rightarrow> feed_lines L canon wl put (a\<lparr>fa_whitelisted := fa_whitelisted a + 1\<rparr>) ls
           | Unpackable \<Rightarrow> feed_lines L canon wl put a ls
           | KeyIP k \<Rightarrow>
               (let a' = a\<lparr>fa_ips := fa_ips a + 1\<rparr>
                in if put (length (fa_entries a))
                   then feed_lines L canon wl put (a'\<lparr>fa_entries := fa_entries a @ [(k, [])]\<rparr>) ls
                   else (a', False))
           | KeyDomain k \<Rightarrow>
               (let a' = a\<lparr>fa_domains := fa_domains a + 1\<rparr>
                in if put (length (fa_entries a))
                   then feed_lines L canon wl put (a'\<lparr>fa_entries := fa_entries a @ [(k, [])]\<rparr>) ls
                   else (a', False))))"

definition feed_limit :: int where "feed_limit = 1024 * 1024"

text \<open>
  All feeds in order. A file that cannot be opened is skipped; the scanner's error (a line of 1 MiB or
  more) is not looked at, so the rest of such a feed is lost without a message.
\<close>

fun feed_files :: "lib \<Rightarrow> bool \<Rightarrow> (string \<Rightarrow> bool) \<Rightarrow> (nat \<Rightarrow> bool) \<Rightarrow> feed_acc \<Rightarrow> bytes option list \<Rightarrow> feed_acc \<times> bool" where
  "feed_files L canon wl put a [] = (a, True)"
| "feed_files L canon wl put a (None # fs) = feed_files L canon wl put a fs"
| "feed_files L canon wl put a (Some b # fs) =
     (case feed_lines L canon wl put a (fst (scan_lines feed_limit b)) of
        (a', False) \<Rightarrow> (a', False)
      | (a', True) \<Rightarrow> feed_files L canon wl put a' fs)"

subsection \<open>Downloading a feed\<close>

record head_reply =
  hd_status :: int
  hd_etag :: string
  hd_lastmod :: string
  hd_length :: int        \<comment> \<open>\<open>ContentLength\<close>, -1 when unknown\<close>

text \<open>
  A server: the reply to HEAD, and the body sent for a GET with or without a range. \<^const>\<open>None\<close> is a
  transport error. The status of a GET is not looked at by the source.
\<close>

record feed_server =
  sv_head :: "string \<Rightarrow> head_reply option"
  sv_get :: "string \<Rightarrow> (int \<times> int) option \<Rightarrow> bytes option"

datatype dl_io = DlCreate | DlWrite nat | DlRename

text \<open>The ranges of the parts, as the numbers in the header \<open>Range: bytes=a-b\<close>.\<close>

definition chunk_ranges :: "int \<Rightarrow> int \<Rightarrow> (int \<times> int) list" where
  "chunk_ranges conn len =
     map (\<lambda>i. (i * (len div conn), if i = conn - 1 then len - 1 else i * (len div conn) + len div conn - 1))
       (map int [0..<nat conn])"

fun write_chunks :: "(dl_io \<Rightarrow> bool) \<Rightarrow> nat \<Rightarrow> bytes option list \<Rightarrow> bytes option" where
  "write_chunks io k [] = Some []"
| "write_chunks io k (None # rs) = None"
| "write_chunks io k (Some d # rs) =
     (if io (DlWrite k) then map_option ((@) d) (write_chunks io (k + 1) rs) else None)"

definition cache_valid :: "head_reply \<Rightarrow> string \<Rightarrow> fs \<Rightarrow> bool" where
  "cache_valid h dest F \<longleftrightarrow>
     (case F (dest @ ''.meta'') of
        None \<Rightarrow> False
      | Some m \<Rightarrow>
          (let ps = split_on LF m; e = trim_space (hd ps); t = (if 2 \<le> length ps then trim_space (ps ! 1) else [])
           in ((hd_etag h \<noteq> [] \<and> e = hd_etag h) \<or> (hd_lastmod h \<noteq> [] \<and> t = hd_lastmod h)) \<and> F dest \<noteq> None))"

definition finish_download :: "(dl_io \<Rightarrow> bool) \<Rightarrow> write_result \<Rightarrow> head_reply \<Rightarrow> string \<Rightarrow> bytes \<Rightarrow> fs \<Rightarrow> bool \<times> fs" where
  "finish_download io meta h dest b F =
     (if \<not> io DlRename then (False, F(dest @ ''.downloading'' := None))
      else (True, fst (write_file (F(dest \<mapsto> b, dest @ ''.downloading'' := None)) (dest @ ''.meta'')
                         (hd_etag h @ [LF] @ hd_lastmod h @ [LF]) meta)))"

text \<open>
  \<open>downloadSourceToFile\<close>: whether \<open>dest\<close> can be used, and the files. \<open>clean\<close> tells whether a left-over
  temporary file is removed first (the panel does). \<^const>\<open>None\<close> is the panic of a division by 0 or of
  a slice of negative length.
\<close>

definition download_source ::
  "bool \<Rightarrow> feed_server \<Rightarrow> (dl_io \<Rightarrow> bool) \<Rightarrow> write_result \<Rightarrow> string \<Rightarrow> string \<Rightarrow> int \<Rightarrow> bool \<Rightarrow> fs
   \<Rightarrow> (bool \<times> fs) option" where
  "download_source clean sv io meta url dest conn force F =
     (case sv_head sv url of
        None \<Rightarrow> Some (False, F)
      | Some h \<Rightarrow>
          if hd_status h = 404 then Some (False, F)
          else if \<not> force \<and> cache_valid h dest F then Some (True, F)
          else
            (let tmp = dest @ ''.downloading''; F0 = (if clean then F(tmp := None) else F)
             in if hd_length h \<le> 0
                then (case sv_get sv url None of
                        None \<Rightarrow> Some (False, F0)
                      | Some b \<Rightarrow>
                          if \<not> io DlCreate then Some (False, F0)
                          else if \<not> io (DlWrite 0) then Some (False, F0(tmp := None))
                          else Some (finish_download io meta h dest b F0))
                else if conn \<le> 0 then None
                else if \<not> io DlCreate then Some (False, F0)
                else (case write_chunks io 0 (map (\<lambda>r. sv_get sv url (Some r)) (chunk_ranges conn (hd_length h))) of
                        None \<Rightarrow> Some (False, F0(tmp := None))
                      | Some b \<Rightarrow> Some (finish_download io meta h dest b F0))))"

text \<open>A server that holds one body and honours ranges inside it.\<close>

definition serves :: "feed_server \<Rightarrow> string \<Rightarrow> bytes \<Rightarrow> bool" where
  "serves sv url c \<longleftrightarrow>
     sv_get sv url None = Some c
     \<and> (\<forall>a b. 0 \<le> a \<longrightarrow> a \<le> b \<longrightarrow> b < int (length c) \<longrightarrow>
          sv_get sv url (Some (a, b)) = Some (take (nat (b - a + 1)) (drop (nat a) c)))
     \<and> (\<exists>h. sv_head sv url = Some h \<and> hd_status h \<noteq> 404 \<and> (hd_length h = int (length c) \<or> hd_length h \<le> 0))"

lemma write_chunks_all:
  "write_chunks io k rs = Some b \<Longrightarrow> b = concat (map the rs)"
  by (induction io k rs arbitrary: b rule: write_chunks.induct) (auto split: if_splits)

text \<open>The parts of a body cut into \<open>n\<close> pieces of \<open>m\<close> bytes and the rest.\<close>

lemma concat_parts:
  "concat (map (\<lambda>i. take m (drop (i * m) c)) [0..<n]) @ drop (n * m) c = c"
proof (induction n)
  case (Suc n)
  have "take m (drop (n * m) c) @ drop (Suc n * m) c = drop (n * m) c"
    by (metis append_take_drop_id drop_drop mult_Suc)
  with Suc show ?case by simp
qed simp

lemma chunks_exact:
  assumes "serves sv url c" and "0 < conn" and "conn \<le> int (length c)"
  shows "concat (map the (map (\<lambda>r. sv_get sv url (Some r)) (chunk_ranges conn (int (length c))))) = c"
proof -
  define n where "n = nat conn - 1"
  define m where "m = nat (int (length c) div conn)"
  have conn: "conn = int n + 1" using assms(2) by (simp add: n_def)
  have d1: "1 \<le> int (length c) div conn" using zdiv_mono1 [OF assms(3,2)] assms(2) by simp
  then have m: "int (length c) div conn = int m" "1 \<le> m" by (simp_all add: m_def)
  have "conn * (int (length c) div conn) \<le> int (length c)"
    using assms(2) by (simp add: mult_div_mod_eq [symmetric] minus_mod_eq_mult_div [symmetric])
  then have "(int n + 1) * int m \<le> int (length c)" using m(1) conn by metis
  then have "int (n * m + m) \<le> int (length c)" by (simp add: distrib_right)
  then have le: "n * m + m \<le> length c" by (simp only: of_nat_le_iff)
  have get: "sv_get sv url (Some (a, b)) = Some (take (nat (b - a + 1)) (drop (nat a) c))"
    if "0 \<le> a" "a \<le> b" "b < int (length c)" for a b
    using assms(1) that unfolding serves_def by blast
  have mid: "the (sv_get sv url (Some (int i * int m, int i * int m + int m - 1))) = take m (drop (i * m) c)" if "i < n" for i
  proof -
    have "i * m + m \<le> n * m" using that by (metis Suc_leI mult_Suc mult_le_mono1 add.commute)
    then have "int i * int m + int m - 1 < int (length c)" using le m(2) by (simp flip: of_nat_mult)
    then show ?thesis using get [of "int i * int m"] m(2) by (simp flip: of_nat_mult)
  qed
  have last: "the (sv_get sv url (Some (int n * int m, int (length c) - 1))) = drop (n * m) c"
    using get [of "int n * int m" "int (length c) - 1"] le m(2) by (simp flip: of_nat_mult add: nat_diff_distrib')
  have "map the (map (\<lambda>r. sv_get sv url (Some r)) (chunk_ranges conn (int (length c))))
      = map (\<lambda>i. take m (drop (i * m) c)) [0..<n] @ [drop (n * m) c]"
    using mid last m(1) by (simp add: chunk_ranges_def conn nat_add_distrib)
  then show ?thesis using concat_parts [of m c n] by simp
qed

text \<open>With a body shorter than the number of connections the first range is malformed.\<close>

lemma short_body_range: "0 < len \<Longrightarrow> len < conn \<Longrightarrow> hd (chunk_ranges conn len) = (0, -1)"
  by (simp add: chunk_ranges_def hd_map upt_rec)

text \<open>What a download that succeeds leaves in the cache.\<close>

lemma download_exact:
  assumes "serves sv url c" and "0 < conn" and "conn \<le> int (length c)"
    and "download_source clean sv io meta url dest conn True F = Some (True, F')"
  shows "F' dest = Some c"
proof -
  obtain h where h: "sv_head sv url = Some h" "hd_status h \<noteq> 404" "hd_length h = int (length c) \<or> hd_length h \<le> 0"
    and g: "sv_get sv url None = Some c" using assms(1) unfolding serves_def by blast
  have fin: "F' dest = Some b" if "finish_download io meta h dest b F0 = (True, F')" for b F0
    using that by (auto simp: finish_download_def write_file_def split: if_splits write_result.splits)
  show ?thesis
  proof (cases "hd_length h \<le> 0")
    case True
    with assms(4) h(1,2) g fin show ?thesis by (auto simp: download_source_def Let_def split: if_splits)
  next
    case False
    then have len: "hd_length h = int (length c)" using h(3) by simp
    with assms(2,4) h(1,2) False obtain b F0 where
      "write_chunks io 0 (map (\<lambda>r. sv_get sv url (Some r)) (chunk_ranges conn (int (length c)))) = Some b"
      "finish_download io meta h dest b F0 = (True, F')"
      by (auto simp: download_source_def Let_def split: if_splits option.splits)
    with write_chunks_all chunks_exact [OF assms(1-3)] fin show ?thesis by metis
  qed
qed

text \<open>A download touches only the cached feed, its \<open>.meta\<close> file and the temporary file.\<close>

lemma download_source_other:
  assumes "download_source clean sv io meta u dest conn force F = Some (ok, F')"
    and "p \<noteq> dest" and "p \<noteq> dest @ ''.meta''" and "p \<noteq> dest @ ''.downloading''"
  shows "F' p = F p"
  using assms
  by (auto simp: download_source_def Let_def finish_download_def write_file_def
      split: option.splits if_splits write_result.splits)

subsection \<open>The file system of the master\<close>

text \<open>
  Regular files and symbolic links, by absolute path; a link holds the path it resolves to (the source
  writes the base name of a file of the same directory). Every call has an outcome; the source ignores
  most of them.
\<close>

record disk =
  dk_files :: fs
  dk_links :: "string \<rightharpoonup> string"

definition disk_exists :: "disk \<Rightarrow> string \<Rightarrow> bool" where
  "disk_exists w p \<longleftrightarrow> dk_files w p \<noteq> None \<or> dk_links w p \<noteq> None"

definition disk_read :: "disk \<Rightarrow> string \<Rightarrow> bytes option" where
  "disk_read w p = (case dk_links w p of Some t \<Rightarrow> dk_files w t | None \<Rightarrow> dk_files w p)"

definition disk_remove :: "bool \<Rightarrow> string \<Rightarrow> disk \<Rightarrow> disk" where
  "disk_remove ok p w =
     (if ok then w\<lparr>dk_files := (dk_files w)(p := None), dk_links := (dk_links w)(p := None)\<rparr> else w)"

definition disk_rename :: "bool \<Rightarrow> string \<Rightarrow> string \<Rightarrow> disk \<Rightarrow> disk" where
  "disk_rename ok a b w =
     (if ok \<and> disk_exists w a
      then w\<lparr>dk_files := (dk_files w)(a := None, b := dk_files w a),
             dk_links := (dk_links w)(a := None, b := dk_links w a)\<rparr>
      else w)"

definition disk_symlink :: "bool \<Rightarrow> string \<Rightarrow> string \<Rightarrow> disk \<Rightarrow> disk" where
  "disk_symlink ok target p w =
     (if ok \<and> \<not> disk_exists w p then w\<lparr>dk_links := (dk_links w)(p \<mapsto> target)\<rparr> else w)"

definition disk_put :: "string \<Rightarrow> bytes \<Rightarrow> disk \<Rightarrow> disk" where
  "disk_put p b w = w\<lparr>dk_files := (dk_files w)(p \<mapsto> b), dk_links := (dk_links w)(p := None)\<rparr>"

subsection \<open>Removing old databases\<close>

definition hex_byte :: "char \<Rightarrow> bool" where
  "hex_byte c \<longleftrightarrow> is_digit c \<or> (97 \<le> byte c \<and> byte c \<le> 102)"

definition old_db :: "string \<Rightarrow> string \<Rightarrow> string \<times> bool \<Rightarrow> bool" where
  "old_db pre active e \<longleftrightarrow>
     (case e of (name, is_dir) \<Rightarrow>
        \<not> is_dir \<and> name \<noteq> path_base active \<and> prefix (pre @ ''.'') name \<and> suffix ''.db'' name
        \<and> (let m = trim_suffix (trim_prefix name (pre @ ''.'')) ''.db'' in length m = 64 \<and> list_all hex_byte m))"

text \<open>The removals in the order of the listing, up to the first that fails.\<close>

fun remove_old :: "(nat \<Rightarrow> bool) \<Rightarrow> nat \<Rightarrow> string \<Rightarrow> string \<Rightarrow> string \<Rightarrow> (string \<times> bool) list \<Rightarrow> disk \<Rightarrow> (nat \<times> bool) \<times> disk" where
  "remove_old ok k dir pre active [] w = ((k, True), w)"
| "remove_old ok k dir pre active (e # es) w =
     (if \<not> old_db pre active e then remove_old ok k dir pre active es w
      else if ok k then remove_old ok (k + 1) dir pre active es (disk_remove True (path_join dir (fst e)) w)
      else ((k, False), w))"

definition cleanup_versioned_dbs ::
  "(nat \<Rightarrow> bool) \<Rightarrow> (string \<times> bool) list option \<Rightarrow> string \<Rightarrow> string \<Rightarrow> string \<Rightarrow> disk \<Rightarrow> (nat \<times> bool) \<times> disk" where
  "cleanup_versioned_dbs ok listing dir pre active w =
     (case listing of None \<Rightarrow> ((0, False), w) | Some es \<Rightarrow> remove_old ok 0 dir pre active es w)"

subsection \<open>The state of the builder\<close>

record master_state =
  ms_building :: bool
  ms_last_time :: time
  ms_status :: string
  ms_error :: string
  ms_sha :: string
  ms_entries :: nat
  ms_logs :: "string list"

definition append_master_log :: "string \<Rightarrow> string \<Rightarrow> master_state \<Rightarrow> master_state" where
  "append_master_log clock msg m =
     (let l = ms_logs m @ [''['' @ clock @ ''] '' @ msg]
      in m\<lparr>ms_logs := (if 100 < length l then drop (length l - 100) l else l)\<rparr>)"

lemma master_log_bound: "length (ms_logs m) \<le> 100 \<Longrightarrow> length (ms_logs (append_master_log c msg m)) \<le> 100"
  by (simp add: append_master_log_def Let_def)

record build_conf =
  bc_out :: string
  bc_sources :: string
  bc_whitelist :: string
  bc_custom :: string
  bc_conn :: int
  bc_force :: bool
  bc_local :: string

datatype build_io =
    BiMkdir | BiOpenWhitelist | BiOpenSources | BiStatCustom | BiRemoveTmp | BiCreate | BiOpenFeed nat | BiPut nat
  | BiClose | BiStat | BiOpenHash | BiRenameDb | BiRemoveLink | BiSymlink | BiRenameLink | BiRemoveOld nat
  | BiStatLocal | BiLocalLink | BiLocalRename

text \<open>
  What one run meets: outcomes, the servers and the outcomes of each download, the MD5 of an address,
  the directory listing at the clean-up, the rendered build instant, the clock.
\<close>

record build_env =
  be_io :: "build_io \<Rightarrow> bool"
  be_server :: feed_server
  be_dl :: "nat \<Rightarrow> dl_io \<Rightarrow> bool"
  be_meta :: "nat \<Rightarrow> write_result"
  be_md5 :: "string \<Rightarrow> string"
  be_listing :: "(string \<times> bool) list option"
  be_built_at :: string
  be_manifest :: write_result
  be_manifest_rename :: bool
  be_now :: time

definition source_urls :: "bool \<Rightarrow> string \<Rightarrow> disk \<Rightarrow> string list" where
  "source_urls ok path w =
     (if path = [] \<or> \<not> ok then []
      else (case disk_read w path of
              None \<Rightarrow> []
            | Some b \<Rightarrow> filter (\<lambda>l. l \<noteq> [] \<and> \<not> prefix ''#'' l) (map trim_space (fst (scan_lines default_limit b)))))"

text \<open>The downloads one after another; a failed one is skipped.\<close>

fun download_all :: "build_env \<Rightarrow> nat \<Rightarrow> string \<Rightarrow> int \<Rightarrow> bool \<Rightarrow> string list \<Rightarrow> disk \<Rightarrow> (string list \<times> disk) option" where
  "download_all e k cache conn force [] w = Some ([], w)"
| "download_all e k cache conn force (u # us) w =
     (let dest = path_join cache (be_md5 e u @ ''.txt'')
      in case download_source True (be_server e) (be_dl e k) (be_meta e k) u dest conn force (dk_files w) of
           None \<Rightarrow> None
         | Some (ok, F) \<Rightarrow>
             map_option (\<lambda>(ps, w'). (if ok then dest # ps else ps, w'))
               (download_all e (k + 1) cache conn force us (w\<lparr>dk_files := F\<rparr>)))"

definition trust_name :: "string \<Rightarrow> string" where "trust_name sha = ''trust.'' @ sha @ ''.db''"

text \<open>The manifest, printed field by field.\<close>

definition build_manifest :: "string \<Rightarrow> int \<Rightarrow> string \<Rightarrow> nat \<Rightarrow> bytes" where
  "build_manifest sha len built n =
     (let q = (\<lambda>s. [CHR 0x22] @ s @ [CHR 0x22]); f = (\<lambda>k v. ''  '' @ q k @ '': '' @ v)
      in ''{'' @ [LF] @ join ('','' @ [LF])
           [f ''version'' (fmt_d 1), f ''sha256'' (q sha), f ''size'' (fmt_d len), f ''built_at'' (q built),
            f ''download_url'' (q ''/files/trust.db''), f ''entries'' (fmt_d (int n))] @ [LF] @ ''}'' @ [LF])"

text \<open>Publication of a finished temporary database with image \<open>img\<close>; no outcome is looked at.\<close>

definition publish_build :: "lib \<Rightarrow> build_conf \<Rightarrow> build_env \<Rightarrow> bytes \<Rightarrow> nat \<Rightarrow> disk \<Rightarrow> disk" where
  "publish_build L c e img n w =
     (let sha = sha256_hex L img; tmp = path_join (bc_out c) ''trust_building.tmp'';
          hashed = path_join (bc_out c) (trust_name sha); link = path_join (bc_out c) ''trust.db'';
          w1 = disk_rename (be_io e BiRenameDb) tmp hashed w;
          w2 = disk_remove (be_io e BiRemoveLink) (link @ ''.tmp'') w1;
          w3 = disk_symlink (be_io e BiSymlink) hashed (link @ ''.tmp'') w2;
          w4 = disk_rename (be_io e BiRenameLink) (link @ ''.tmp'') link w3;
          w5 = snd (cleanup_versioned_dbs (\<lambda>k. be_io e (BiRemoveOld k)) (be_listing e) (bc_out c) ''trust'' hashed w4);
          w6 = w5\<lparr>dk_files := fst (atomic_write (dk_files w5) (path_join (bc_out c) ''manifest.json'')
                   (build_manifest sha (int (length img)) (be_built_at e) n) (be_manifest e) (be_manifest_rename e))\<rparr>;
          lt = path_join (bc_local c) ''blacklist.db.tmp''
      in if \<not> be_io e BiStatLocal then w6
         else disk_rename (be_io e BiLocalRename) lt (path_join (bc_local c) ''blacklist.db'')
                (disk_symlink (be_io e BiLocalLink) hashed lt w6))"

datatype build_error = AlreadyBuilding | NoOutputDir | NoSources | CannotCreate | PutFailed | CloseFailed | TooSmall | CannotHash

text \<open>The contents of the source files the writing loop sees.\<close>

definition feed_contents :: "build_env \<Rightarrow> disk \<Rightarrow> string list \<Rightarrow> bytes option list" where
  "feed_contents e w ps =
     map (\<lambda>k. if be_io e (BiOpenFeed k) then disk_read w (ps ! k) else None) [0..<length ps]"

definition all_sources :: "build_conf \<Rightarrow> build_env \<Rightarrow> string list \<Rightarrow> disk \<Rightarrow> string list" where
  "all_sources c e ps w =
     (if bc_custom c \<noteq> [] \<and> be_io e BiStatCustom \<and> disk_read w (bc_custom c) \<noteq> None then ps @ [bc_custom c] else ps)"

text \<open>The whitelist, the downloads and the list of sources.\<close>

definition gather_sources :: "lib \<Rightarrow> build_conf \<Rightarrow> build_env \<Rightarrow> disk \<Rightarrow> (string list \<times> string list \<times> disk) option" where
  "gather_sources L c e w =
     (let wl = fst (load_whitelist_set L (be_io e BiOpenWhitelist) (bc_whitelist c) (dk_files w));
          conn = (if bc_conn c \<le> 0 then 8 else bc_conn c)
      in map_option (\<lambda>(ps, w1). (wl, all_sources c e ps w1, w1))
           (download_all e 0 (path_join (bc_out c) ''.cache'') conn (bc_force c)
              (source_urls (be_io e BiOpenSources) (bc_sources c) w) w))"

text \<open>Creating, filling and closing the temporary database.\<close>

definition write_database ::
  "lib \<Rightarrow> build_conf \<Rightarrow> build_env \<Rightarrow> string list \<Rightarrow> string list \<Rightarrow> disk \<Rightarrow> (build_error + feed_acc \<times> bytes) \<times> disk" where
  "write_database L c e wl srcs w =
     (let tmp = path_join (bc_out c) ''trust_building.tmp''; w1 = disk_remove (be_io e BiRemoveTmp) tmp w
      in if \<not> be_io e BiCreate then (Inl CannotCreate, w1)
         else
           (case feed_files L True (\<lambda>d. d \<in> set wl) (\<lambda>k. be_io e (BiPut k)) feed_acc0 (feed_contents e w1 srcs) of
              (a, False) \<Rightarrow> (Inl PutFailed, disk_remove True tmp w1)
            | (a, True) \<Rightarrow>
                (let img = cdb_image L (fa_entries a)
                 in if \<not> be_io e BiClose then (Inl CloseFailed, disk_remove True tmp w1)
                    else if \<not> be_io e BiStat \<or> length img < 2048 then (Inl TooSmall, disk_remove True tmp w1)
                    else if \<not> be_io e BiOpenHash then (Inl CannotHash, disk_put tmp img w1)
                    else (Inr (a, img), disk_put tmp img w1))))"

text \<open>
  \<open>BuildMasterCDB\<close>. \<^const>\<open>None\<close> is a panic; the messages of the log, the durations and the size in
  megabytes are left out.
\<close>

definition build_master_cdb ::
  "lib \<Rightarrow> build_conf \<Rightarrow> build_env \<Rightarrow> master_state \<Rightarrow> disk \<Rightarrow> (build_error option \<times> master_state \<times> disk) option" where
  "build_master_cdb L c e m w =
     (if ms_building m then Some (Some AlreadyBuilding, m, w)
      else if \<not> be_io e BiMkdir then Some (Some NoOutputDir, m, w)
      else
        (case gather_sources L c e w of
           None \<Rightarrow> None
         | Some (wl, srcs, w1) \<Rightarrow>
             if srcs = [] then Some (Some NoSources, m\<lparr>ms_status := ''error'', ms_error := ''tidak ada sumber blacklist yang valid untuk dikompilasi''\<rparr>, w1)
             else
               (case write_database L c e wl srcs w1 of
                  (Inl err, w2) \<Rightarrow> Some (Some err, m, w2)
                | (Inr (a, img), w2) \<Rightarrow>
                    (let n = fa_domains a + fa_ips a
                     in Some (None,
                          m\<lparr>ms_last_time := be_now e, ms_status := ''success'', ms_error := [],
                            ms_sha := sha256_hex L img, ms_entries := n\<rparr>,
                          publish_build L c e img n w2)))))"

text \<open>Only a build without sources is reported; any other failure leaves the status of the build before.\<close>

lemma stale_build_status:
  assumes "build_master_cdb L c e m w = Some (Some err, m', w')" and "err \<noteq> NoSources"
  shows "m' = m"
  using assms by (auto simp: build_master_cdb_def Let_def split: if_splits option.splits prod.splits sum.splits)

subsection \<open>Keys of addresses and keys of names never coincide\<close>

lemma digits_head: "0 \<le> n \<Longrightarrow> digits n \<noteq> [] \<and> 48 \<le> bint (hd (digits n))"
proof (induction n rule: digits.induct)
  case (1 n)
  have "48 \<le> bint (char_of (48 + n mod 10))" by (simp add: bint_char_of)
  with 1 show ?case
    by (cases "n < 10") (subst (1 2) digits.simps; simp)+
qed

lemma digits_short: "0 \<le> n \<Longrightarrow> n < 256 \<Longrightarrow> length (digits n) \<le> 3"
  by (subst digits.simps, subst digits.simps, subst digits.simps) auto

lemma hex_lower_range: "0 \<le> v \<Longrightarrow> v < 16 \<Longrightarrow> 48 \<le> bint (hex_lower v)"
  by (auto simp: hex_lower_def bint_char_of)

lemma hex_text_head: "0 \<le> n \<Longrightarrow> hex_text n \<noteq> [] \<and> 48 \<le> bint (hd (hex_text n))"
proof (induction n rule: hex_text.induct)
  case (1 n)
  have "48 \<le> bint (hex_lower (n mod 16))" by (intro hex_lower_range) auto
  with 1 show ?case
    by (cases "n < 16") (subst (1 2) hex_text.simps; simp)+
qed

lemma hex_text_short: "0 \<le> n \<Longrightarrow> n < 65536 \<Longrightarrow> length (hex_text n) \<le> 4"
  by (subst hex_text.simps, subst hex_text.simps, subst hex_text.simps, subst hex_text.simps) auto

lemma join_length:
  "\<forall>x \<in> set xs. length x \<le> m \<Longrightarrow> length (join [c] xs) \<le> length xs * (m + 1)"
  by (induction "[c]" xs rule: join.induct) auto

lemma join_hd: "xs \<noteq> [] \<Longrightarrow> hd xs \<noteq> [] \<Longrightarrow> hd (join sep xs) = hd (hd xs) \<and> join sep xs \<noteq> []"
  by (cases xs; cases "tl xs") (auto simp: hd_append)

lemma groups16_range: "g \<in> set (groups16 a) \<Longrightarrow> 0 \<le> g \<and> g < 65536"
proof -
  assume "g \<in> set (groups16 a)"
  then obtain x y :: "8 word" where g: "g = uint x * 256 + uint y" by (auto simp: groups16_def)
  have "uint x < 256" "uint y < 256" "0 \<le> uint x" "0 \<le> uint y" using uint_lt2p [of x] uint_lt2p [of y] by simp_all
  with g show ?thesis by linarith
qed

text \<open>The text of an address is short and starts with a digit, a letter or a colon.\<close>

definition addr_text :: "string \<Rightarrow> bool" where
  "addr_text s \<longleftrightarrow> s \<noteq> [] \<and> 48 \<le> bint (hd s) \<and> length s \<le> 47"

lemma ipv4_addr_text:
  assumes "length a = 4"
  shows "addr_text (ipv4_text a)"
proof -
  let ?xs = "map (\<lambda>w. fmt_d (uint (w :: 8 word))) a"
  have d: "fmt_d (uint w) \<noteq> [] \<and> 48 \<le> bint (hd (fmt_d (uint w))) \<and> length (fmt_d (uint w)) \<le> 3" for w :: "8 word"
  proof -
    have "0 \<le> uint w" "uint w < 256" using uint_lt2p [of w] by simp_all
    then show ?thesis using digits_head [of "uint w"] digits_short [of "uint w"] by (simp add: fmt_d_def)
  qed
  have ne: "?xs \<noteq> []" using assms by auto
  have hd: "hd ?xs = fmt_d (uint (hd a))" using assms by (cases a) auto
  have "length (join ''.'' ?xs) \<le> length ?xs * (3 + 1)" by (rule join_length) (use d in auto)
  with assms join_hd [OF ne, of "''.''"] hd d [of "hd a"] show ?thesis by (simp add: addr_text_def ipv4_text_def)
qed

lemma ipv6_addr_text: "addr_text (ipv6_text a)"
proof -
  define gs where "gs = groups16 a"
  obtain p n where pn: "best_run gs = (p, n)" by fastforce
  have len: "length gs = 8" by (simp add: gs_def groups16_def)
  have h: "hex_text g \<noteq> [] \<and> 48 \<le> bint (hd (hex_text g)) \<and> length (hex_text g) \<le> 4" if "g \<in> set gs" for g
    using that groups16_range [of g a] hex_text_head [of g] hex_text_short [of g] by (simp add: gs_def)
  have short: "length (join '':'' (map hex_text xs)) \<le> length xs * 5" if "set xs \<subseteq> set gs" for xs
    using join_length [of "map hex_text xs" 4 "CHR '':''"] h that by auto
  have start: "join '':'' (map hex_text xs) \<noteq> [] \<and> 48 \<le> bint (hd (join '':'' (map hex_text xs)))"
    if "set xs \<subseteq> set gs" "xs \<noteq> []" for xs
    using join_hd [of "map hex_text xs" "'':''"] h [of "hd xs"] that by (cases xs) auto
  have colon: "bint (CHR '':'') = 58" by (simp add: bint_def)
  show ?thesis
  proof (cases "n < 2")
    case True
    have "gs \<noteq> []" using len by auto
    with True short [of gs] start [of gs] len show ?thesis
      by (simp add: addr_text_def ipv6_text_def pn flip: gs_def)
  next
    case False
    let ?l = "join '':'' (map hex_text (take p gs))" and ?r = "join '':'' (map hex_text (drop (p + n) gs))"
    have tx: "ipv6_text a = ?l @ ''::'' @ ?r" using False by (simp add: ipv6_text_def pn flip: gs_def)
    have "length (take p gs) + length (drop (p + n) gs) \<le> 8" using len by simp
    moreover have "length ?l \<le> length (take p gs) * 5" "length ?r \<le> length (drop (p + n) gs) * 5"
      by (intro short set_take_subset set_drop_subset)+
    ultimately have "length ?l + 2 + length ?r \<le> 47" by linarith
    moreover have "48 \<le> bint (hd (?l @ ''::'' @ ?r))"
      using start [OF set_take_subset, of p] colon by (cases "take p gs = []") (auto simp: hd_append)
    ultimately show ?thesis unfolding tx addr_text_def by simp
  qed
qed

lemma ip_addr_text: "parse_ip s \<noteq> [] \<Longrightarrow> addr_text (ip_text (parse_ip s))"
  using ipv6_addr_text ipv4_addr_text parse_ip_length [of s]
  by (auto simp: ip_text_def to4_def v4_in_v6_def split: if_splits)

lemma addr_key_no_wire:
  assumes "addr_text s" and "wire_of q = Some k"
  shows "k \<noteq> s @ [byte_of 0]"
proof
  assume k: "k = s @ [byte_of 0]"
  obtain l ls where "split_on (CHR ''.'') q = l # ls" by (cases "split_on (CHR ''.'') q") auto
  with assms(2) obtain r where r: "length l \<le> 63" "k = byte_of (length l) # l @ r" "r \<noteq> []"
    by (cases ls) (auto simp: wire_of_def split: if_splits)
  have "bint (hd s) = int (length l)" using k r(1,2) assms(1) by (cases s) (auto simp: addr_text_def bint_byte)
  moreover have "length k = length s + 1" using k by simp
  moreover have "length l + 2 \<le> length k" using r(2,3) by (cases r) auto
  ultimately show False using assms(1) by (simp add: addr_text_def)
qed

subsection \<open>What the writing loop stores\<close>

definition line_keys :: "lib \<Rightarrow> bool \<Rightarrow> (string \<Rightarrow> bool) \<Rightarrow> string \<Rightarrow> bytes list" where
  "line_keys L canon wl l =
     (case feed_item L l of
        None \<Rightarrow> []
      | Some d \<Rightarrow> (case feed_key L canon wl d of KeyIP k \<Rightarrow> [k] | KeyDomain k \<Rightarrow> [k] | _ \<Rightarrow> []))"

definition file_keys :: "lib \<Rightarrow> bool \<Rightarrow> (string \<Rightarrow> bool) \<Rightarrow> bytes option \<Rightarrow> bytes list" where
  "file_keys L canon wl f =
     (case f of None \<Rightarrow> [] | Some b \<Rightarrow> concat (map (line_keys L canon wl) (fst (scan_lines feed_limit b))))"

definition keys_count :: "feed_acc \<Rightarrow> bool" where
  "keys_count a \<longleftrightarrow> length (fa_entries a) = fa_domains a + fa_ips a"

lemma line_keys_simps:
  "feed_item L l = None \<Longrightarrow> line_keys L canon wl l = []"
  "feed_item L l = Some d \<Longrightarrow> feed_key L canon wl d = KeyIP k \<Longrightarrow> line_keys L canon wl l = [k]"
  "feed_item L l = Some d \<Longrightarrow> feed_key L canon wl d = KeyDomain k \<Longrightarrow> line_keys L canon wl l = [k]"
  "feed_item L l = Some d \<Longrightarrow> feed_key L canon wl d = Whitelisted \<Longrightarrow> line_keys L canon wl l = []"
  "feed_item L l = Some d \<Longrightarrow> feed_key L canon wl d = Unpackable \<Longrightarrow> line_keys L canon wl l = []"
  by (simp_all add: line_keys_def)

lemma keys_count_simps:
  "keys_count (a\<lparr>fa_ips := Suc (fa_ips a), fa_entries := fa_entries a @ [x]\<rparr>) = keys_count a"
  "keys_count (a\<lparr>fa_domains := Suc (fa_domains a), fa_entries := fa_entries a @ [x]\<rparr>) = keys_count a"
  "keys_count (a\<lparr>fa_whitelisted := n\<rparr>) = keys_count a"
  by (simp_all add: keys_count_def)

lemma feed_lines_ok:
  "feed_lines L canon wl put a ls = (a', True) \<Longrightarrow>
   fa_entries a' = fa_entries a @ map (\<lambda>k. (k, [])) (concat (map (line_keys L canon wl) ls))
   \<and> (keys_count a \<longrightarrow> keys_count a')"
proof (induction ls arbitrary: a)
  case Nil
  then show ?case by simp
next
  case (Cons l ls)
  show ?case
  proof (cases "feed_item L l")
    case None
    with Cons show ?thesis by (simp add: line_keys_simps)
  next
    case (Some d)
    show ?thesis
    proof (cases "feed_key L canon wl d")
      case (KeyIP k)
      let ?a = "a\<lparr>fa_ips := fa_ips a + 1, fa_entries := fa_entries a @ [(k, [])]\<rparr>"
      have "feed_lines L canon wl put ?a ls = (a', True)"
        using Some KeyIP Cons.prems by (auto simp: Let_def split: if_splits)
      from Cons.IH [OF this] show ?thesis by (simp add: line_keys_simps(2) [OF Some KeyIP] keys_count_simps)
    next
      case (KeyDomain k)
      let ?a = "a\<lparr>fa_domains := fa_domains a + 1, fa_entries := fa_entries a @ [(k, [])]\<rparr>"
      have "feed_lines L canon wl put ?a ls = (a', True)"
        using Some KeyDomain Cons.prems by (auto simp: Let_def split: if_splits)
      from Cons.IH [OF this] show ?thesis by (simp add: line_keys_simps(3) [OF Some KeyDomain] keys_count_simps)
    next
      case Whitelisted
      then have "feed_lines L canon wl put (a\<lparr>fa_whitelisted := fa_whitelisted a + 1\<rparr>) ls = (a', True)"
        using Some Cons.prems by simp
      from Cons.IH [OF this] show ?thesis by (simp add: line_keys_simps(4) [OF Some Whitelisted] keys_count_simps)
    next
      case Unpackable
      with Some Cons.prems have "feed_lines L canon wl put a ls = (a', True)" by simp
      from Cons.IH [OF this] show ?thesis by (simp add: line_keys_simps(5) [OF Some Unpackable])
    qed
  qed
qed

lemma feed_files_ok:
  "feed_files L canon wl put a fs = (a', True) \<Longrightarrow>
   fa_entries a' = fa_entries a @ map (\<lambda>k. (k, [])) (concat (map (file_keys L canon wl) fs))
   \<and> (keys_count a \<longrightarrow> keys_count a')"
proof (induction L canon wl put a fs rule: feed_files.induct)
  case (3 L canon wl put a b fs)
  then obtain a1 where l: "feed_lines L canon wl put a (fst (scan_lines feed_limit b)) = (a1, True)"
    and r: "feed_files L canon wl put a1 fs = (a', True)" by (auto split: prod.splits bool.splits)
  from 3(1) [OF l [symmetric] refl r] feed_lines_ok [OF l] show ?case by (simp add: file_keys_def)
qed (auto simp: file_keys_def)

text \<open>The names that a list of feeds blocks: they stand on a line, are no address and not whitelisted.\<close>

definition line_name :: "lib \<Rightarrow> (string \<Rightarrow> bool) \<Rightarrow> string \<Rightarrow> string option" where
  "line_name L wl l =
     (case feed_item L l of
        None \<Rightarrow> None
      | Some d \<Rightarrow> if parse_ip d \<noteq> [] \<or> wl (trim_suffix d ''.'') then None else Some (trim_suffix d ''.''))"

definition feed_names :: "lib \<Rightarrow> (string \<Rightarrow> bool) \<Rightarrow> bytes option list \<Rightarrow> string set" where
  "feed_names L wl fs =
     {p. \<exists>b l. Some b \<in> set fs \<and> l \<in> set (fst (scan_lines feed_limit b)) \<and> line_name L wl l = Some p}"

definition addr_keys :: "bytes set" where
  "addr_keys = {s @ [byte_of 0] | s. addr_text s}"

lemma line_keys_name:
  assumes "pack_ok L" and "\<forall>p. line_name L wl l = Some p \<longrightarrow> plain_name p" and "k \<in> set (line_keys L True wl l)"
  shows "k \<in> addr_keys \<or> (\<exists>p. line_name L wl l = Some p \<and> wire_of p = Some k)"
proof -
  from assms(3) obtain d where d: "feed_item L l = Some d" by (cases "feed_item L l") (auto simp: line_keys_def)
  show ?thesis
  proof (cases "parse_ip d = []")
    case False
    with assms(3) d have "k = ip_text (parse_ip d) @ [byte_of 0]"
      by (auto simp: line_keys_def feed_key_def Let_def split: if_splits)
    with ip_addr_text [OF False] show ?thesis unfolding addr_keys_def by blast
  next
    case True
    let ?p = "trim_suffix d ''.''"
    have nw: "\<not> wl ?p" and k: "dns_pack L (?p @ ''.'') = Some k"
      using assms(3) d True by (auto simp: line_keys_def feed_key_def Let_def split: if_splits option.splits)
    have n: "line_name L wl l = Some ?p" using d True nw by (simp add: line_name_def)
    with assms(1,2) k have "wire_of ?p = Some k" by (simp add: pack_ok_def)
    with n show ?thesis by blast
  qed
qed

lemma line_name_keys:
  assumes "pack_ok L" and "line_name L wl l = Some p" and "plain_name p"
  shows "the (wire_of p) \<in> set (line_keys L canon wl l)"
proof -
  obtain d where d: "feed_item L l = Some d" using assms(2) by (cases "feed_item L l") (auto simp: line_name_def)
  with assms(2) have d2: "parse_ip d = []" "\<not> wl (trim_suffix d ''.'')" "p = trim_suffix d ''.''"
    by (simp_all add: line_name_def split: if_splits)
  obtain k where "wire_of p = Some k" using assms(3) by (auto simp: plain_name_def)
  with assms(1,3) have "dns_pack L (p @ ''.'') = Some k" by (simp add: pack_ok_def)
  with d d2 \<open>wire_of p = Some k\<close> show ?thesis by (simp add: line_keys_def feed_key_def)
qed

lemma file_keys_mem:
  "k \<in> set (concat (map (file_keys L canon wl) fs)) \<longleftrightarrow>
     (\<exists>b l. Some b \<in> set fs \<and> l \<in> set (fst (scan_lines feed_limit b)) \<and> k \<in> set (line_keys L canon wl l))"
proof -
  have "k \<in> set (file_keys L canon wl f) \<longleftrightarrow>
      (\<exists>b l. f = Some b \<and> l \<in> set (fst (scan_lines feed_limit b)) \<and> k \<in> set (line_keys L canon wl l))" for f
    by (cases f) (auto simp: file_keys_def)
  moreover have "k \<in> set (concat (map (file_keys L canon wl) fs)) \<longleftrightarrow> (\<exists>f \<in> set fs. k \<in> set (file_keys L canon wl f))"
    by simp
  moreover have "(\<exists>f \<in> A. \<exists>b l. f = Some b \<and> P b l) \<longleftrightarrow> (\<exists>b l. Some b \<in> A \<and> P b l)" for A :: "bytes option set" and P
    by auto
  ultimately show ?thesis by (simp only:)
qed

text \<open>The database of the feeds answers for exactly these names.\<close>

lemma feed_database:
  assumes "pack_ok L" and "\<forall>p \<in> feed_names L wl fs. plain_name p" and "plain_name q"
    and "cdb_file db (set (concat (map (file_keys L True wl) fs)))"
  shows "cdb_contains L db q = Some (q \<in> feed_names L wl fs \<and> cdb_hash (the (wire_of q)) \<noteq> 0)"
proof -
  let ?keys = "set (concat (map (file_keys L True wl) fs))"
  obtain k where k: "wire_of q = Some k" using assms(3) by (auto simp: plain_name_def)
  have plain: "plain_name p" if "Some b \<in> set fs" "l \<in> set (fst (scan_lines feed_limit b))" "line_name L wl l = Some p" for b l p
    using assms(2) that unfolding feed_names_def by blast
  have "k \<in> ?keys \<longleftrightarrow> q \<in> feed_names L wl fs"
  proof
    assume "k \<in> ?keys"
    then obtain b l where b: "Some b \<in> set fs" "l \<in> set (fst (scan_lines feed_limit b))" "k \<in> set (line_keys L True wl l)"
      unfolding file_keys_mem by blast
    have "k \<notin> addr_keys" using addr_key_no_wire [OF _ k] unfolding addr_keys_def by blast
    then obtain p where p: "line_name L wl l = Some p" "wire_of p = Some k"
      using line_keys_name [OF assms(1) _ b(3)] plain b(1,2) by blast
    then have "p = q" using wire_of_inj [OF p(2) k] by simp
    with p(1) b(1,2) show "q \<in> feed_names L wl fs" unfolding feed_names_def by blast
  next
    assume "q \<in> feed_names L wl fs"
    then obtain b l where b: "Some b \<in> set fs" "l \<in> set (fst (scan_lines feed_limit b))" "line_name L wl l = Some q"
      unfolding feed_names_def by blast
    have "the (wire_of q) \<in> set (line_keys L True wl l)" by (rule line_name_keys [OF assms(1) b(3) assms(3)])
    with b k show "k \<in> ?keys" unfolding file_keys_mem by auto
  qed
  with cdb_contains_iff [OF assms(4), of L q] plain_wire_key [OF assms(3)] k show ?thesis by simp
qed

subsection \<open>What a publication leaves behind\<close>

lemma remove_old_other:
  "remove_old ok k dir pre active es w = (r, w') \<Longrightarrow>
   \<forall>e \<in> set es. old_db pre active e \<longrightarrow> path_join dir (fst e) \<noteq> p \<Longrightarrow>
   dk_files w' p = dk_files w p \<and> dk_links w' p = dk_links w p"
  by (induction ok k dir pre active es w rule: remove_old.induct) (auto simp: disk_remove_def split: if_splits)

text \<open>The paths a build touches are different from each other, and the listing holds file names.\<close>

definition build_paths :: "build_conf \<Rightarrow> string \<Rightarrow> (string \<times> bool) list option \<Rightarrow> bool" where
  "build_paths c sha listing \<longleftrightarrow>
     (let o1 = path_join (bc_out c); tmp = o1 ''trust_building.tmp''; hashed = o1 (trust_name sha); link = o1 ''trust.db'';
          mf = o1 ''manifest.json'';
          ps = [tmp, hashed, link, link @ ''.tmp'', mf, tmp_name mf, path_join (bc_local c) ''blacklist.db.tmp'', path_join (bc_local c) ''blacklist.db'']
      in distinct ps \<and>
         (case listing of None \<Rightarrow> True
          | Some es \<Rightarrow> list_all (\<lambda>e. old_db ''trust'' hashed e \<longrightarrow> o1 (fst e) \<noteq> hashed \<and> o1 (fst e) \<noteq> link) es))"

definition link_calls_ok :: "build_env \<Rightarrow> bool" where
  "link_calls_ok e \<longleftrightarrow> be_io e BiRenameDb \<and> be_io e BiRemoveLink \<and> be_io e BiSymlink \<and> be_io e BiRenameLink"

lemma publish_build_layout:
  assumes "link_calls_ok e" and paths: "build_paths c (sha256_hex L img) (be_listing e)"
    and tmp: "dk_files w (path_join (bc_out c) ''trust_building.tmp'') = Some img"
      "dk_links w (path_join (bc_out c) ''trust_building.tmp'') = None"
  shows "dk_links (publish_build L c e img n w) (path_join (bc_out c) ''trust.db'')
        = Some (path_join (bc_out c) (trust_name (sha256_hex L img)))"
    and "dk_files (publish_build L c e img n w) (path_join (bc_out c) (trust_name (sha256_hex L img))) = Some img"
    and "dk_links (publish_build L c e img n w) (path_join (bc_out c) (trust_name (sha256_hex L img))) = None"
proof -
  let ?t = "path_join (bc_out c) ''trust_building.tmp''" and ?h = "path_join (bc_out c) (trust_name (sha256_hex L img))"
  let ?l = "path_join (bc_out c) ''trust.db''" and ?m = "path_join (bc_out c) ''manifest.json''"
  let ?lt = "path_join (bc_local c) ''blacklist.db.tmp''" and ?lb = "path_join (bc_local c) ''blacklist.db''"
  have d: "distinct [?t, ?h, ?l, ?l @ ''.tmp'', ?m, tmp_name ?m, ?lt, ?lb]"
    using paths by (simp only: build_paths_def Let_def)
  define w4 where "w4 = disk_rename True (?l @ ''.tmp'') ?l (disk_symlink True ?h (?l @ ''.tmp'')
      (disk_remove True (?l @ ''.tmp'') (disk_rename True ?t ?h w)))"
  have w4: "dk_links w4 ?l = Some ?h" "dk_files w4 ?h = Some img" "dk_links w4 ?h = None"
    using d tmp by (auto simp: w4_def disk_rename_def disk_symlink_def disk_remove_def disk_exists_def)
  define w5 where "w5 = snd (cleanup_versioned_dbs (\<lambda>k. be_io e (BiRemoveOld k)) (be_listing e) (bc_out c) ''trust'' ?h w4)"
  have keep: "\<forall>x \<in> set es. old_db ''trust'' ?h x \<longrightarrow> path_join (bc_out c) (fst x) \<noteq> ?h \<and> path_join (bc_out c) (fst x) \<noteq> ?l"
    if "be_listing e = Some es" for es
    using paths that unfolding build_paths_def Let_def list_all_iff by simp
  have w5: "dk_links w5 ?l = Some ?h" "dk_files w5 ?h = Some img" "dk_links w5 ?h = None"
  proof (atomize (full), cases "be_listing e")
    case None
    with w4 show "dk_links w5 ?l = Some ?h \<and> dk_files w5 ?h = Some img \<and> dk_links w5 ?h = None" by (simp add: w5_def cleanup_versioned_dbs_def)
  next
    case (Some es)
    then obtain r where r: "remove_old (\<lambda>k. be_io e (BiRemoveOld k)) 0 (bc_out c) ''trust'' ?h es w4 = (r, w5)"
      by (cases "remove_old (\<lambda>k. be_io e (BiRemoveOld k)) 0 (bc_out c) ''trust'' ?h es w4") (simp add: w5_def cleanup_versioned_dbs_def)
    from w4 remove_old_other [OF r, of ?l] remove_old_other [OF r, of ?h] keep [OF Some]
    show "dk_links w5 ?l = Some ?h \<and> dk_files w5 ?h = Some img \<and> dk_links w5 ?h = None" by simp
  qed
  define w6 where "w6 = w5\<lparr>dk_files := fst (atomic_write (dk_files w5) ?m
      (build_manifest (sha256_hex L img) (int (length img)) (be_built_at e) n) (be_manifest e) (be_manifest_rename e))\<rparr>"
  have w6: "dk_links w6 ?l = Some ?h" "dk_links w6 ?h = None" "dk_files w6 ?h = Some img"
    using w5 d atomic_write_cases(2) [of "dk_files w5" ?m _ _ _ _ _ ?h]
    by (auto simp: w6_def) (metis prod.collapse)
  have pb: "publish_build L c e img n w = (if \<not> be_io e BiStatLocal then w6
         else disk_rename (be_io e BiLocalRename) ?lt ?lb (disk_symlink (be_io e BiLocalLink) ?h ?lt w6))"
    using assms(1) by (simp add: publish_build_def Let_def link_calls_ok_def w6_def w5_def w4_def)
  show "dk_links (publish_build L c e img n w) ?l = Some ?h" "dk_files (publish_build L c e img n w) ?h = Some img"
    "dk_links (publish_build L c e img n w) ?h = None"
    unfolding pb using w6 d by (auto simp: disk_rename_def disk_symlink_def)
qed

lemma publish_build_link:
  assumes "link_calls_ok e" and "build_paths c (sha256_hex L img) (be_listing e)"
    and "dk_files w (path_join (bc_out c) ''trust_building.tmp'') = Some img"
    and "dk_links w (path_join (bc_out c) ''trust_building.tmp'') = None"
  shows "disk_read (publish_build L c e img n w) (path_join (bc_out c) ''trust.db'') = Some img"
  using publish_build_layout(1,2) [OF assms] by (simp add: disk_read_def)

text \<open>The files the downloads of a list of addresses may change.\<close>

definition cache_paths :: "build_env \<Rightarrow> string \<Rightarrow> string list \<Rightarrow> string set" where
  "cache_paths e cache us =
     (\<Union>u \<in> set us. let dest = path_join cache (be_md5 e u @ ''.txt'') in {dest, dest @ ''.meta'', dest @ ''.downloading''})"

lemma download_all_other:
  "download_all e k cache conn force us w = Some (ps, w') \<Longrightarrow> p \<notin> cache_paths e cache us \<Longrightarrow>
   dk_files w' p = dk_files w p \<and> dk_links w' = dk_links w"
proof (induction us arbitrary: k w ps)
  case Nil
  then show ?case by simp
next
  case (Cons u us)
  let ?d = "path_join cache (be_md5 e u @ ''.txt'')"
  from Cons.prems(1) obtain ok F1 qs where
    d: "download_source True (be_server e) (be_dl e k) (be_meta e k) u ?d conn force (dk_files w) = Some (ok, F1)"
    and r: "download_all e (k + 1) cache conn force us (w\<lparr>dk_files := F1\<rparr>) = Some (qs, w')"
    by (auto simp: Let_def split: option.splits prod.splits)
  from Cons.prems(2) have ne: "p \<noteq> ?d" "p \<noteq> ?d @ ''.meta''" "p \<noteq> ?d @ ''.downloading''" "p \<notin> cache_paths e cache us"
    by (simp_all add: cache_paths_def Let_def)
  from Cons.IH [OF r ne(4)] download_source_other [OF d ne(1-3)] show ?case by simp
qed

subsection \<open>A successful build\<close>

text \<open>The whitelist and the feed contents the writing loop of a build sees.\<close>

definition build_feeds :: "lib \<Rightarrow> build_conf \<Rightarrow> build_env \<Rightarrow> disk \<Rightarrow> (string list \<times> bytes option list) option" where
  "build_feeds L c e w =
     map_option (\<lambda>(wl, srcs, w1).
         (wl, feed_contents e (disk_remove (be_io e BiRemoveTmp) (path_join (bc_out c) ''trust_building.tmp'') w1) srcs))
       (gather_sources L c e w)"

definition build_entries :: "lib \<Rightarrow> string list \<Rightarrow> bytes option list \<Rightarrow> (bytes \<times> bytes) list" where
  "build_entries L wl fs = map (\<lambda>k. (k, [])) (concat (map (file_keys L True (\<lambda>d. d \<in> set wl)) fs))"

lemma build_success:
  assumes "build_master_cdb L c e m w = Some (None, m', w')" and "build_feeds L c e w = Some (wl, fs)"
  obtains w2 where "w' = publish_build L c e (cdb_image L (build_entries L wl fs)) (length (build_entries L wl fs)) w2"
    "dk_files w2 (path_join (bc_out c) ''trust_building.tmp'') = Some (cdb_image L (build_entries L wl fs))"
    "dk_links w2 (path_join (bc_out c) ''trust_building.tmp'') = None"
    "ms_status m' = ''success'' \<and> ms_error m' = [] \<and> ms_entries m' = length (build_entries L wl fs)
      \<and> ms_sha m' = sha256_hex L (cdb_image L (build_entries L wl fs))"
proof -
  let ?tmp = "path_join (bc_out c) ''trust_building.tmp''"
  obtain srcs w1 where g: "gather_sources L c e w = Some (wl, srcs, w1)"
    and fs: "fs = feed_contents e (disk_remove (be_io e BiRemoveTmp) ?tmp w1) srcs"
    using assms(2) by (auto simp: build_feeds_def)
  from assms(1) g obtain a img w2 where wd: "write_database L c e wl srcs w1 = (Inr (a, img), w2)"
    and m': "m' = m\<lparr>ms_last_time := be_now e, ms_status := ''success'', ms_error := [],
        ms_sha := sha256_hex L img, ms_entries := fa_domains a + fa_ips a\<rparr>"
    and w': "w' = publish_build L c e img (fa_domains a + fa_ips a) w2"
    by (auto simp: build_master_cdb_def Let_def split: if_splits sum.splits prod.splits)
  from wd fs have ff: "feed_files L True (\<lambda>d. d \<in> set wl) (\<lambda>k. be_io e (BiPut k)) feed_acc0 fs = (a, True)"
    and img: "img = cdb_image L (fa_entries a)" and w2: "dk_files w2 ?tmp = Some img" "dk_links w2 ?tmp = None"
    by (auto simp: write_database_def Let_def disk_put_def split: if_splits prod.splits bool.splits)
  have "keys_count feed_acc0" by (simp add: keys_count_def feed_acc0_def)
  with feed_files_ok [OF ff] have es: "fa_entries a = build_entries L wl fs" and "keys_count a"
    by (simp_all add: build_entries_def feed_acc0_def)
  then have n: "fa_domains a + fa_ips a = length (fa_entries a)" by (simp add: keys_count_def)
  show ?thesis using that [of w2] w' m' w2 img es n by simp
qed

lemma build_entries_keys: "fst ` set (build_entries L wl fs) = set (concat (map (file_keys L True (\<lambda>d. d \<in> set wl)) fs))"
  by (simp add: build_entries_def image_image)

text \<open>
  What a build relies on outside its own code: the documented packer and CDB writer, and generated names
  that collide with nothing. The calls whose errors \<open>BuildMasterCDB\<close> ignores (\<^const>\<open>link_calls_ok\<close>) and
  the form of the names in the feeds are hypotheses of their own where a theorem needs them.
\<close>

definition build_world_ok :: "lib \<Rightarrow> build_conf \<Rightarrow> build_env \<Rightarrow> string list \<Rightarrow> bytes option list \<Rightarrow> bool" where
  "build_world_ok L c e wl fs \<longleftrightarrow>
     pack_ok L \<and> writer_ok L (build_entries L wl fs)
     \<and> build_paths c (sha256_hex L (cdb_image L (build_entries L wl fs))) (be_listing e)"

lemma build_answers:
  assumes "build_master_cdb L c e m w = Some (None, m', w')" and "build_feeds L c e w = Some (wl, fs)"
    and "build_world_ok L c e wl fs" and "link_calls_ok e" and "\<forall>p \<in> feed_names L (\<lambda>d. d \<in> set wl) fs. plain_name p"
  shows "\<exists>db. disk_read w' (path_join (bc_out c) ''trust.db'') = Some db \<and> ms_sha m' = sha256_hex L db
    \<and> (\<forall>q. plain_name q \<longrightarrow>
        cdb_contains L db q = Some (q \<in> feed_names L (\<lambda>d. d \<in> set wl) fs \<and> cdb_hash (the (wire_of q)) \<noteq> 0))"
proof -
  let ?img = "cdb_image L (build_entries L wl fs)"
  obtain w2 where w2: "w' = publish_build L c e ?img (length (build_entries L wl fs)) w2"
    "dk_files w2 (path_join (bc_out c) ''trust_building.tmp'') = Some ?img"
    "dk_links w2 (path_join (bc_out c) ''trust_building.tmp'') = None" "ms_sha m' = sha256_hex L ?img"
    using build_success [OF assms(1,2)] by metis
  have "disk_read w' (path_join (bc_out c) ''trust.db'') = Some ?img"
    using assms(3,4) w2 unfolding build_world_ok_def by (metis publish_build_link)
  moreover have "cdb_contains L ?img q = Some (q \<in> feed_names L (\<lambda>d. d \<in> set wl) fs \<and> cdb_hash (the (wire_of q)) \<noteq> 0)"
    if "plain_name q" for q
    using assms(3,5) that unfolding build_world_ok_def writer_ok_def build_entries_keys by (metis feed_database)
  ultimately show ?thesis using w2(4) by blast
qed

lemma feed_names_not_whitelisted: "q \<in> set wl \<Longrightarrow> q \<notin> feed_names L (\<lambda>d. d \<in> set wl) fs"
  by (auto simp: feed_names_def line_name_def split: option.splits if_splits)

subsection \<open>Properties\<close>

text \<open>
  A download in parts is exact: against a server that honours ranges, a feed at least as long as
  the number of connections is put together byte for byte, and what is in the cache after the
  download is the body of the server.
\<close>

lemma chunked_download_exact:
  assumes "serves sv url c" and "0 < conn" and "conn \<le> int (length c)"
    and "download_source clean sv io meta url dest conn True F = Some (True, F')"
  shows "F' dest = Some c"
  by (rule download_exact [OF assms])

definition example_server :: "bytes \<Rightarrow> feed_server" where
  "example_server c =
     \<lparr>sv_head = (\<lambda>u. Some \<lparr>hd_status = 200, hd_etag = ''e'', hd_lastmod = [], hd_length = int (length c)\<rparr>),
      sv_get = (\<lambda>u r. case r of None \<Rightarrow> Some c | Some (a, b) \<Rightarrow> Some (take (nat (b - a + 1)) (drop (nat a) c)))\<rparr>"

lemma example_serves: "serves (example_server c) u c"
  by (simp add: serves_def example_server_def)

lemma example_download:
  "map_option (\<lambda>(ok, F). (ok, F ''/c'')) (download_source True (example_server ''abcdefgh'') (\<lambda>_. True) Written ''u'' ''/c'' 3 True Map.empty)
    = Some (True, Some ''abcdefgh'')"
  by code_simp

theorem chunked_download_exact_witness:
  "\<exists>F'. download_source True (example_server ''abcdefgh'') (\<lambda>_. True) Written ''u'' ''/c'' 3 True Map.empty = Some (True, F')
     \<and> F' ''/c'' = Some ''abcdefgh''"
proof -
  obtain F' where F': "download_source True (example_server ''abcdefgh'') (\<lambda>_. True) Written ''u'' ''/c'' 3 True Map.empty = Some (True, F')"
    using example_download by auto
  from chunked_download_exact [OF example_serves _ _ this] F' show ?thesis by simp
qed

text \<open>
  A build of the master that reports success, and whose renames and symbolic link succeeded too, from feeds
  with plain names, leaves a database behind \<open>trust.db\<close> in which the panel
  finds exactly the names the feeds block: those that stand on a line, are no address and are not in
  the whitelist. The recorded digest is the one of that database.
\<close>

lemma built_database_correct:
  assumes "build_master_cdb L c e m w = Some (None, m', w')" and "build_feeds L c e w = Some (wl, fs)"
    and "build_world_ok L c e wl fs" and "link_calls_ok e" and "\<forall>p \<in> feed_names L (\<lambda>d. d \<in> set wl) fs. plain_name p"
  shows "\<exists>db. disk_read w' (path_join (bc_out c) ''trust.db'') = Some db \<and> ms_sha m' = sha256_hex L db
    \<and> (\<forall>q. plain_name q \<longrightarrow>
        cdb_contains L db q = Some (q \<in> feed_names L (\<lambda>d. d \<in> set wl) fs \<and> cdb_hash (the (wire_of q)) \<noteq> 0))"
  by (rule build_answers [OF assms])

definition build_lib :: lib where "build_lib = cdb_lib\<lparr>sha256_hex := (\<lambda>_. ''00'')\<rparr>"

definition example_build :: build_conf where
  "example_build = \<lparr>bc_out = ''/f'', bc_sources = [], bc_whitelist = ''/w'', bc_custom = ''/b'', bc_conn = 8, bc_force = True, bc_local = ''/l''\<rparr>"

definition example_build_env :: build_env where
  "example_build_env =
     \<lparr>be_io = (\<lambda>_. True), be_server = example_server [], be_dl = (\<lambda>_ _. True), be_meta = (\<lambda>_. Written), be_md5 = id,
      be_listing = Some [(''trust.db'', False)], be_built_at = ''t'', be_manifest = Written, be_manifest_rename = True, be_now = 5\<rparr>"

definition example_feed :: bytes where
  "example_feed = unlines [''# list'', ''0.0.0.0 A.b'', ''||x.y^'', ''@@||q.r'']"

definition example_disk :: disk where
  "example_disk = \<lparr>dk_files = [''/w'' \<mapsto> unlines [''X.y.''], ''/b'' \<mapsto> example_feed], dk_links = Map.empty\<rparr>"

definition example_master :: master_state where
  "example_master = \<lparr>ms_building = False, ms_last_time = 0, ms_status = [], ms_error = [], ms_sha = [], ms_entries = 0, ms_logs = []\<rparr>"

lemma example_file_keys: "map (file_keys (pack_lib img) True (\<lambda>d. d \<in> set [''x.y''])) [Some example_feed] = [[example_key]]"
  by code_simp

lemma example_feed_lines:
  "fst (scan_lines feed_limit example_feed) = [''# list'', ''0.0.0.0 A.b'', ''||x.y^'', ''@@||q.r'']"
  "map (line_name (pack_lib img) (\<lambda>d. d \<in> set [''x.y''])) [''# list'', ''0.0.0.0 A.b'', ''||x.y^'', ''@@||q.r''] = [None, Some ''a.b'', None, None]"
  "whitelist_list (pack_lib img) (unlines [''X.y.'']) = [''x.y'']"
  by code_simp+

lemma example_build_paths: "build_paths example_build ''00'' (Some [(''trust.db'', False)])"
  by code_simp

lemma build_lib_same:
  "file_keys build_lib = file_keys (pack_lib example_image)" "line_name build_lib = line_name (pack_lib example_image)"
  "whitelist_list build_lib = whitelist_list (pack_lib example_image)"
proof -
  have l: "to_lower build_lib = to_lower (pack_lib example_image)"
    by (intro ext) (simp add: to_lower_def build_lib_def cdb_lib_def pack_lib_def)
  have p: "dns_pack build_lib = dns_pack (pack_lib example_image)"
    by (simp add: build_lib_def cdb_lib_def pack_lib_def)
  have i: "feed_item build_lib = feed_item (pack_lib example_image)" by (intro ext) (simp add: feed_item_def l)
  have k: "feed_key build_lib = feed_key (pack_lib example_image)" by (intro ext) (simp only: feed_key_def p)
  have "line_keys build_lib = line_keys (pack_lib example_image)" by (intro ext) (simp only: line_keys_def i k)
  then show "file_keys build_lib = file_keys (pack_lib example_image)" by (intro ext) (simp only: file_keys_def)
  show "line_name build_lib = line_name (pack_lib example_image)" by (intro ext) (simp only: line_name_def i)
  have "whitelist_entry build_lib = whitelist_entry (pack_lib example_image)" by (intro ext) (simp only: whitelist_entry_def l)
  then show "whitelist_list build_lib = whitelist_list (pack_lib example_image)" by (intro ext) (simp only: whitelist_list_def)
qed

lemma example_gather: "gather_sources build_lib example_build example_build_env example_disk = Some ([''x.y''], [''/b''], example_disk)"
  by (simp add: gather_sources_def source_urls_def example_build_def example_build_env_def all_sources_def load_whitelist_set_def
      disk_read_def example_disk_def build_lib_same example_feed_lines)

lemma example_feeds: "build_feeds build_lib example_build example_build_env example_disk = Some ([''x.y''], [Some example_feed])"
proof -
  have "path_join ''/f'' ''trust_building.tmp'' = ''/f/trust_building.tmp''" by code_simp
  then have "feed_contents example_build_env (disk_remove True (path_join ''/f'' ''trust_building.tmp'') example_disk) [''/b''] = [Some example_feed]"
    by (simp add: feed_contents_def example_build_env_def disk_read_def disk_remove_def example_disk_def)
  moreover have "bc_out example_build = ''/f''" "be_io example_build_env BiRemoveTmp"
    by (simp_all add: example_build_def example_build_env_def)
  ultimately show ?thesis unfolding build_feeds_def example_gather by simp
qed

lemma example_entries: "build_entries build_lib [''x.y''] [Some example_feed] = [(example_key, [])]"
  using example_file_keys [of example_image] by (simp add: build_entries_def build_lib_same)

lemma example_feed_names: "feed_names build_lib (\<lambda>d. d \<in> set [''x.y'']) [Some example_feed] = {''a.b''}"
  using example_feed_lines(2) [of example_image] by (auto simp: feed_names_def build_lib_same example_feed_lines(1))

lemma build_lib_simps:
  "cdb_image build_lib es = example_image" "sha256_hex build_lib b = ''00''" "pack_ok build_lib"
  using cdb_lib_pack by (simp_all add: build_lib_def cdb_lib_def pack_ok_def)

lemma example_build_ok: "build_world_ok build_lib example_build example_build_env [''x.y''] [Some example_feed]"
  "link_calls_ok example_build_env"
  "\<forall>p \<in> feed_names build_lib (\<lambda>d. d \<in> set [''x.y'']) [Some example_feed]. plain_name p"
  unfolding build_world_ok_def writer_ok_def example_entries example_feed_names build_lib_simps
  using example_build_paths example_cdb build_lib_simps(3) by (simp_all add: link_calls_ok_def example_name example_build_env_def)

lemma feed_lines_put: "snd (feed_lines L canon wl (\<lambda>_. True) a ls)"
  by (induction ls arbitrary: a) (simp_all add: Let_def split: option.splits key_outcome.splits)

lemma feed_files_put: "snd (feed_files L canon wl (\<lambda>_. True) a fs)"
proof (induction fs arbitrary: a)
  case (Cons f fs)
  show ?case
  proof (cases f)
    case (Some b)
    obtain a1 where "feed_lines L canon wl (\<lambda>_. True) a (fst (scan_lines feed_limit b)) = (a1, True)"
      using feed_lines_put [of L canon wl a] by (metis prod.collapse)
    with Some Cons show ?thesis by simp
  qed (use Cons in simp)
qed simp

lemma build_result_any:
  assumes "gather_sources build_lib example_build example_build_env w = Some (wl, srcs, w1)" and "srcs \<noteq> []"
  shows "\<exists>m' w'. build_master_cdb build_lib example_build example_build_env example_master w = Some (None, m', w')"
proof -
  let ?w2 = "disk_remove True (path_join ''/f'' ''trust_building.tmp'') w1"
  define cs where "cs = feed_contents example_build_env ?w2 srcs"
  define a where "a = fst (feed_files build_lib True (\<lambda>d. d \<in> set wl) (\<lambda>_. True) feed_acc0 cs)"
  have a: "feed_files build_lib True (\<lambda>d. d \<in> set wl) (\<lambda>_. True) feed_acc0 (feed_contents example_build_env ?w2 srcs) = (a, True)"
    unfolding cs_def [symmetric] a_def by (rule prod_eqI) (simp_all add: feed_files_put)
  have conf: "bc_out example_build = ''/f''" "be_io example_build_env = (\<lambda>_. True)" "ms_building example_master = False"
    by (simp_all add: example_build_def example_build_env_def example_master_def)
  have "write_database build_lib example_build example_build_env wl srcs w1
      = (Inr (a, example_image), disk_put (path_join ''/f'' ''trust_building.tmp'') example_image ?w2)"
    unfolding write_database_def Let_def conf a build_lib_simps by (simp add: example_image_length)
  with assms(2) show ?thesis
    unfolding build_master_cdb_def assms(1) conf by (simp add: Let_def)
qed

theorem built_database_correct_witness:
  "\<exists>m' w' db. build_master_cdb build_lib example_build example_build_env example_master example_disk = Some (None, m', w')
     \<and> disk_read w' ''/f/trust.db'' = Some db \<and> cdb_contains build_lib db ''a.b'' = Some True
     \<and> cdb_contains build_lib db ''x.y'' = Some False"
proof -
  obtain m' w' where b: "build_master_cdb build_lib example_build example_build_env example_master example_disk = Some (None, m', w')"
    using build_result_any [OF example_gather] by blast
  have link: "path_join (bc_out example_build) ''trust.db'' = ''/f/trust.db''" by code_simp
  have xy: "plain_name ''x.y''" by (simp add: plain_name_def wire_of_def host_byte_def)
  from built_database_correct [OF b example_feeds example_build_ok, unfolded link] obtain db where
    "disk_read w' ''/f/trust.db'' = Some db" and
    "\<forall>q. plain_name q \<longrightarrow> cdb_contains build_lib db q = Some (q \<in> {''a.b''} \<and> cdb_hash (the (wire_of q)) \<noteq> 0)"
    unfolding example_feed_names by blast
  with b example_name xy show ?thesis by (auto simp: example_key_hash)
qed

end
