(* ===== verification/Trust_Builder.thy ===== *)
theory Trust_Builder
  imports Feed_Build
begin

text \<open>
  The command \<open>trust-builder\<close> (\<open>tools/trust-builder/main.go\<close>) after the flags are parsed: the whitelist,
  the sources (addresses, local files, standard input), the database and its replacement. The parser
  of a line and the download are those of the panel (\<open>Feed_Build\<close>), with two differences: an address is
  written as it stands in the feed, and a left-over temporary download is not removed first.
\<close>

record tb_opts =
  tb_out :: string
  tb_urls :: string
  tb_whitelist :: string
  tb_conn :: int
  tb_force :: bool
  tb_args :: "string list"

datatype tb_io = TbOpenWhitelist | TbStat string | TbRemoveMeta string | TbCreate | TbOpen nat | TbPut nat | TbClose | TbRename

record tb_env =
  te_io :: "tb_io \<Rightarrow> bool"
  te_server :: feed_server
  te_dl :: "string \<Rightarrow> dl_io \<Rightarrow> bool"
  te_meta :: "string \<Rightarrow> write_result"
  te_md5 :: "string \<Rightarrow> string"
  te_terminal :: bool
  te_stdin :: bytes

definition tb_cache :: string where "tb_cache = ''/tmp/trust-builder-cache''"

definition tb_cache_path :: "tb_env \<Rightarrow> string \<Rightarrow> string" where
  "tb_cache_path e url = path_join tb_cache (te_md5 e url @ ''.txt'')"

text \<open>\<open>loadWhitelist\<close>; here a file that is missing or has a line that is too long is fatal.\<close>

definition tb_load_whitelist :: "lib \<Rightarrow> tb_env \<Rightarrow> string \<Rightarrow> fs \<Rightarrow> string list option" where
  "tb_load_whitelist L e path F =
     (if path = [] then Some []
      else
        (case (if te_io e TbOpenWhitelist then F path else None) of
           None \<Rightarrow> None
         | Some b \<Rightarrow> if snd (scan_lines default_limit b) then Some (whitelist_list L b) else None))"

text \<open>The addresses of the flag \<open>-u\<close>.\<close>

definition tb_url_list :: "tb_opts \<Rightarrow> string list" where
  "tb_url_list t = (if tb_urls t = [] then [] else filter (\<lambda>u. u \<noteq> []) (map trim_space (split_on (CHR '','') (tb_urls t))))"

text \<open>\<open>downloadToFile\<close>: the download of the panel without \<open>force\<close> and without the removal before it.\<close>

definition tb_download :: "tb_env \<Rightarrow> string \<Rightarrow> string \<Rightarrow> int \<Rightarrow> fs \<Rightarrow> (bool \<times> fs) option" where
  "tb_download e url dest conn F = download_source False (te_server e) (te_dl e url) (te_meta e url) url dest conn False F"

fun tb_downloads :: "tb_env \<Rightarrow> tb_opts \<Rightarrow> string list \<Rightarrow> fs \<Rightarrow> (string list \<times> fs) option" where
  "tb_downloads e t [] F = Some ([], F)"
| "tb_downloads e t (u # us) F =
     (let path = tb_cache_path e u;
          F0 = (if tb_force t \<and> te_io e (TbRemoveMeta u) then F(path @ ''.meta'' := None) else F)
      in case tb_download e u path (tb_conn t) F0 of
           None \<Rightarrow> None
         | Some (ok, F1) \<Rightarrow>
             map_option (\<lambda>(ps, F2). (if ok then path # ps else ps, F2)) (tb_downloads e t us F1))"

definition tb_local :: "tb_env \<Rightarrow> tb_opts \<Rightarrow> fs \<Rightarrow> string list" where
  "tb_local e t F = filter (\<lambda>p. te_io e (TbStat p) \<and> F p \<noteq> None) (tb_args t)"

definition tb_stdin_path :: string where "tb_stdin_path = tb_cache @ ''/stdin.tmp''"

text \<open>\<open>None\<close> is a panic, \<open>Some None\<close> the help text for an interactive run without input.\<close>

definition tb_sources :: "tb_env \<Rightarrow> tb_opts \<Rightarrow> fs \<Rightarrow> (string list \<times> fs) option option" where
  "tb_sources e t F =
     (if tb_urls t = [] \<and> tb_args t = []
      then (if te_terminal e then Some None
            else Some (Some ([tb_stdin_path], F(tb_stdin_path \<mapsto> te_stdin e))))
      else map_option (\<lambda>(ps, F1). Some (ps @ tb_local e t F1, F1)) (tb_downloads e t (tb_url_list t) F))"

definition tb_build :: "lib \<Rightarrow> tb_env \<Rightarrow> tb_opts \<Rightarrow> string list \<Rightarrow> string list \<Rightarrow> fs \<Rightarrow> int \<times> fs" where
  "tb_build L e t wl ps F =
     (let tmp = tb_out t @ ''.tmp''; F0 = F(tmp := None)
      in if \<not> te_io e TbCreate then (1, F0)
         else
           (case feed_files L False (\<lambda>d. d \<in> set wl) (\<lambda>k. te_io e (TbPut k)) feed_acc0
                   (map (\<lambda>k. if te_io e (TbOpen k) then F0 (ps ! k) else None) [0..<length ps]) of
              (a, False) \<Rightarrow> (1, F0)
            | (a, True) \<Rightarrow>
                if \<not> te_io e TbClose \<or> \<not> te_io e TbRename then (1, F0)
                else (0, F0(tb_out t \<mapsto> cdb_image L (fa_entries a)))))"

text \<open>\<open>main\<close>: the exit code and the files.\<close>

definition trust_builder :: "lib \<Rightarrow> tb_env \<Rightarrow> tb_opts \<Rightarrow> fs \<Rightarrow> (int \<times> fs) option" where
  "trust_builder L e t F =
     (case tb_load_whitelist L e (tb_whitelist t) F of
        None \<Rightarrow> Some (1, F)
      | Some wl \<Rightarrow>
          (case tb_sources e t F of
             None \<Rightarrow> None
           | Some None \<Rightarrow> Some (0, F)
           | Some (Some (ps, F1)) \<Rightarrow> if ps = [] then Some (1, F1) else Some (tb_build L e t wl ps F1)))"

subsection \<open>Facts\<close>

text \<open>The flag \<open>-c 0\<close> ends the program with a panic as soon as a feed has a known length.\<close>

lemma zero_connections_panic:
  assumes "sv_head sv u = Some h" and "hd_status h \<noteq> 404" and "0 < hd_length h" and "\<not> cache_valid h dest F"
  shows "download_source clean sv io meta u dest 0 False F = None"
  using assms by (simp add: download_source_def Let_def)

definition tb_separate :: "tb_env \<Rightarrow> tb_opts \<Rightarrow> bool" where
  "tb_separate e t \<longleftrightarrow> tb_out t \<noteq> tb_stdin_path \<and>
     (\<forall>u \<in> set (tb_url_list t). tb_out t \<notin> {tb_cache_path e u, tb_cache_path e u @ ''.meta'', tb_cache_path e u @ ''.downloading''})"

lemma tb_downloads_other:
  "tb_downloads e t us F = Some (ps, F') \<Longrightarrow>
   \<forall>u \<in> set us. p \<notin> {tb_cache_path e u, tb_cache_path e u @ ''.meta'', tb_cache_path e u @ ''.downloading''} \<Longrightarrow> F' p = F p"
proof (induction us arbitrary: F ps)
  case Nil
  then show ?case by simp
next
  case (Cons u us)
  let ?F0 = "if tb_force t \<and> te_io e (TbRemoveMeta u) then F(tb_cache_path e u @ ''.meta'' := None) else F"
  from Cons.prems(1) obtain ok F1 qs where d: "download_source False (te_server e) (te_dl e u) (te_meta e u) u
      (tb_cache_path e u) (tb_conn t) False ?F0 = Some (ok, F1)" and r: "tb_downloads e t us F1 = Some (qs, F')"
    by (auto simp: Let_def tb_download_def split: option.splits prod.splits)
  from Cons.prems(2) have ne: "p \<noteq> tb_cache_path e u" "p \<noteq> tb_cache_path e u @ ''.meta''" "p \<noteq> tb_cache_path e u @ ''.downloading''"
    by simp_all
  have "F' p = F1 p" using Cons.IH [OF r] Cons.prems(2) by simp
  also have "\<dots> = ?F0 p" by (rule download_source_other [OF d ne])
  also have "\<dots> = F p" using ne(2) by simp
  finally show ?case .
qed

text \<open>The output is replaced only by a run that exits with 0.\<close>

lemma trust_builder_atomic:
  assumes "trust_builder L e t F = Some (code, F')" and "tb_separate e t" and "code \<noteq> 0"
  shows "F' (tb_out t) = F (tb_out t)"
proof -
  have src: "F1 (tb_out t) = F (tb_out t)" if "tb_sources e t F = Some (Some (ps, F1))" for ps F1
    using that assms(2) tb_downloads_other [of e t "tb_url_list t" F _ F1 "tb_out t"]
    by (auto simp: tb_sources_def tb_separate_def split: if_splits)
  have build: "F2 (tb_out t) = F1 (tb_out t)" if "tb_build L e t wl ps F1 = (code, F2)" for wl ps F1 F2
    using that assms(3) by (auto simp: tb_build_def Let_def split: if_splits prod.splits bool.splits)
  from assms(1,3) show ?thesis
    by (auto simp: trust_builder_def split: option.splits prod.splits if_splits dest!: src build)
qed

text \<open>On feeds without addresses both builders write the same database.\<close>

lemma builders_agree:
  assumes "\<forall>l \<in> set (fst (scan_lines feed_limit b)). \<forall>d. feed_item L l = Some d \<longrightarrow> parse_ip d = []"
  shows "file_keys L False wl (Some b) = file_keys L True wl (Some b)"
proof -
  have "line_keys L False wl l = line_keys L True wl l" if "l \<in> set (fst (scan_lines feed_limit b))" for l
    using assms that by (cases "feed_item L l") (auto simp: line_keys_def feed_key_def)
  then show ?thesis by (simp add: file_keys_def cong: map_cong)
qed

end
