(* ===== verification/Local_Block.thy ===== *)
theory Local_Block
  imports Feed_Build Cluster_Api
begin

text \<open>
  The lists an operator edits: the local block list of a node (\<open>panel/localblock.go\<close>,
  \<open>localblock_http.go\<close>), the custom blacklist of the master (\<open>master_custom_blacklist.go\<close>) and its
  whitelist (\<open>normalizeWhitelist\<close> and \<open>handleMasterWhitelist\<close> of \<open>main.go\<close>); and what a later build of
  the database makes of the last two.
\<close>

subsection \<open>Names an operator may enter\<close>

definition label_byte :: "char \<Rightarrow> bool" where
  "label_byte c \<longleftrightarrow> (97 \<le> byte c \<and> byte c \<le> 122) \<or> is_digit c"

text \<open>\<open>localBlockLabelRe\<close> and \<open>whitelistLabelRE\<close>: \<open>^[a-z0-9]([a-z0-9-]{0,61}[a-z0-9])?$\<close>\<close>

definition label_re :: "string \<Rightarrow> bool" where
  "label_re s \<longleftrightarrow>
     s \<noteq> [] \<and> length s \<le> 63 \<and> label_byte (hd s) \<and> label_byte (last s)
     \<and> list_all (\<lambda>c. label_byte c \<or> c = CHR ''-'') s"

text \<open>\<open>normalizeLocalBlockDomain\<close>; \<^const>\<open>None\<close> is \<open>errLocalBlockInvalid\<close>.\<close>

definition normalize_local_block :: "lib \<Rightarrow> string \<Rightarrow> string option" where
  "normalize_local_block L s =
     (let d = trim_suffix (to_lower L (trim_space s)) ''.''
      in if d = [] \<or> 253 < length d \<or> \<not> list_all label_re (split_on (CHR ''.'') d) then None else Some d)"

subsection \<open>The local block list\<close>

record local_block =
  lb_path :: string
  lb_domains :: "string fset"

text \<open>Lines of a list file: trimmed, empty ones skipped.\<close>

definition list_lines :: "bytes \<Rightarrow> string list" where
  "list_lines b = filter (\<lambda>d. d \<noteq> []) (map trim_space (split_on LF b))"

definition new_local_block :: "string \<Rightarrow> fs \<Rightarrow> local_block" where
  "new_local_block p F =
     \<lparr>lb_path = p, lb_domains = (case F p of None \<Rightarrow> {||} | Some b \<Rightarrow> fset_of_list (list_lines b))\<rparr>"

text \<open>The text of \<open>writeLocked\<close>: the sorted names, one on a line.\<close>

definition lb_text :: "string fset \<Rightarrow> bytes" where
  "lb_text S = unlines (sorted_list_of_fset S)"

text \<open>\<open>Add\<close> and \<open>Remove\<close>. An error is an invalid name or a failed write.\<close>

datatype lb_error = InvalidDomain | WriteError

definition lb_commit :: "write_result \<Rightarrow> bool \<Rightarrow> string fset \<Rightarrow> local_block \<Rightarrow> fs \<Rightarrow> lb_error option \<times> local_block \<times> fs" where
  "lb_commit wr rn nxt st F =
     (case atomic_write F (lb_path st) (lb_text nxt) wr rn of
        (F', False) \<Rightarrow> (Some WriteError, st, F')
      | (F', True) \<Rightarrow> (None, st\<lparr>lb_domains := nxt\<rparr>, F'))"

definition lb_add :: "lib \<Rightarrow> write_result \<Rightarrow> bool \<Rightarrow> string list \<Rightarrow> local_block \<Rightarrow> fs \<Rightarrow> lb_error option \<times> local_block \<times> fs" where
  "lb_add L wr rn ds st F =
     (if None \<in> set (map (normalize_local_block L) ds) then (Some InvalidDomain, st, F)
      else lb_commit wr rn (lb_domains st |\<union>| fset_of_list (map (the \<circ> normalize_local_block L) ds)) st F)"

definition lb_remove :: "lib \<Rightarrow> write_result \<Rightarrow> bool \<Rightarrow> string \<Rightarrow> local_block \<Rightarrow> fs \<Rightarrow> lb_error option \<times> local_block \<times> fs" where
  "lb_remove L wr rn d st F =
     (case normalize_local_block L d of
        None \<Rightarrow> (Some InvalidDomain, st, F)
      | Some n \<Rightarrow> lb_commit wr rn (ffilter (\<lambda>k. k \<noteq> n) (lb_domains st)) st F)"

definition lb_list :: "local_block \<Rightarrow> string list" where
  "lb_list st = sorted_list_of_fset (lb_domains st)"

text \<open>
  \<open>handleLocalBlock\<close> behind the session check. The body is the decoded list, \<^const>\<open>None\<close> when it does
  not decode; \<open>restart\<close> is the outcome of the restart of dnsdist.
\<close>

datatype lb_request = LbGet | LbPost "string list option" | LbDelete string | LbOther

definition lb_applied :: "bool \<Rightarrow> string list http_response" where
  "lb_applied restart = (if restart then Body [] else Failed 500)"

definition handle_local_block ::
  "lib \<Rightarrow> write_result \<Rightarrow> bool \<Rightarrow> bool \<Rightarrow> lb_request \<Rightarrow> local_block \<Rightarrow> fs \<Rightarrow> string list http_response \<times> local_block \<times> fs" where
  "handle_local_block L wr rn restart r st F =
     (case r of
        LbGet \<Rightarrow> (Body (lb_list st), st, F)
      | LbPost None \<Rightarrow> (Failed 400, st, F)
      | LbPost (Some ds) \<Rightarrow>
          if ds = [] then (Failed 400, st, F)
          else (case lb_add L wr rn ds st F of
                  (Some InvalidDomain, st', F') \<Rightarrow> (Failed 400, st', F')
                | (Some WriteError, st', F') \<Rightarrow> (Failed 500, st', F')
                | (None, st', F') \<Rightarrow> (lb_applied restart, st', F'))
      | LbDelete d \<Rightarrow>
          if trim_space d = [] then (Failed 400, st, F)
          else (case lb_remove L wr rn d st F of
                  (Some _, st', F') \<Rightarrow> (Failed 400, st', F')
                | (None, st', F') \<Rightarrow> (lb_applied restart, st', F'))
      | LbOther \<Rightarrow> (Failed 405, st, F))"

subsection \<open>The custom blacklist of the master\<close>


definition custom_text :: "string list \<Rightarrow> bytes" where
  "custom_text ks = (let c = join [LF] ks in if c \<noteq> [] then c @ [LF] else c)"


subsection \<open>The whitelist of the master\<close>












subsection \<open>Facts about trimming twice\<close>

lemma trim_left_shorter: "length (trim_left_space s) \<le> length s"
  using trim_left_suffix suffix_length_le by blast

lemma trim_left_fix:
  assumes "trim_left_space u = u" and "prefix t u"
  shows "trim_left_space t = t"
proof (cases t)
  case (Cons c t')
  with assms(2) obtain u' where u: "u = c # u'" by (cases u) auto
  have s: "\<not> is_space_byte c"
    using assms(1) trim_left_shorter [of u'] by (subst (asm) trim_left_space.simps) (auto simp: u)
  show ?thesis
  proof (cases "is_ascii c")
    case True
    with Cons s show ?thesis by (subst trim_left_space.simps) simp
  next
    case False
    have "find (\<lambda>w. prefix w u) wide_spaces = None"
    proof (rule ccontr)
      assume "find (\<lambda>w. prefix w u) wide_spaces \<noteq> None"
      then obtain w where "find (\<lambda>w. prefix w u) wide_spaces = Some w" by blast
      with s False have "trim_left_space u = trim_left_space (drop (max 1 (length w)) u)"
        by (subst trim_left_space.simps) (simp add: u)
      with assms(1) trim_left_shorter [of "drop (max 1 (length w)) u"] show False by (auto simp: u)
    qed
    then have "find (\<lambda>w. prefix w t) wide_spaces = None"
      using assms(2) prefix_order.trans unfolding find_None_iff by blast
    with Cons s show ?thesis by (subst trim_left_space.simps) simp
  qed
qed simp

lemma trim_left_idem: "trim_left_space (trim_left_space s) = trim_left_space s"
proof (induction s rule: trim_left_space.induct)
  case (1 s)
  show ?case
  proof (cases s)
    case s: (Cons c s')
    let ?f = "find (\<lambda>w. prefix w s) wide_spaces"
    consider (ascii) "is_space_byte c" | (wide) w where "\<not> is_space_byte c" "\<not> is_ascii c" "?f = Some w"
      | (stop) "\<not> is_space_byte c" "is_ascii c \<or> ?f = None" by (cases ?f) auto
    then show ?thesis
    proof cases
      case ascii
      then have "trim_left_space s = trim_left_space s'" using s by (subst trim_left_space.simps) simp
      with 1(1) [OF s ascii] show ?thesis by simp
    next
      case wide
      then have "trim_left_space s = trim_left_space (drop (max 1 (length w)) s)"
        using s by (subst trim_left_space.simps) simp
      with 1(2) [OF s wide] show ?thesis by simp
    next
      case stop
      then have "trim_left_space s = s" using s by (subst trim_left_space.simps) auto
      then show ?thesis by simp
    qed
  qed simp
qed

lemma trim_right_idem: "trim_right_space_rev (trim_right_space_rev s) = trim_right_space_rev s"
proof (induction s rule: trim_right_space_rev.induct)
  case (1 s)
  show ?case
  proof (cases s)
    case s: (Cons c s')
    let ?f = "find (\<lambda>w. prefix (rev w) s) wide_spaces"
    consider (ascii) "is_space_byte c" | (wide) w where "\<not> is_space_byte c" "\<not> is_ascii c" "?f = Some w"
      | (stop) "\<not> is_space_byte c" "is_ascii c \<or> ?f = None" by (cases ?f) auto
    then show ?thesis
    proof cases
      case ascii
      then have "trim_right_space_rev s = trim_right_space_rev s'" using s by (subst trim_right_space_rev.simps) simp
      with 1(1) [OF s ascii] show ?thesis by simp
    next
      case wide
      then have "trim_right_space_rev s = trim_right_space_rev (drop (max 1 (length w)) s)"
        using s by (subst trim_right_space_rev.simps) simp
      with 1(2) [OF s wide] show ?thesis by simp
    next
      case stop
      then have "trim_right_space_rev s = s" using s by (subst trim_right_space_rev.simps) auto
      then show ?thesis by simp
    qed
  qed simp
qed

lemma trim_space_idem [simp]: "trim_space (trim_space s) = trim_space s"
proof -
  have "prefix (trim_space s) (trim_left_space s)"
    using trim_right_suffix [of "rev (trim_left_space s)"] by (simp add: trim_space_def suffix_to_prefix)
  then have "trim_left_space (trim_space s) = trim_space s" using trim_left_fix trim_left_idem by blast
  then show ?thesis by (simp add: trim_space_def trim_right_idem)
qed


subsection \<open>A list kept in a file\<close>

text \<open>
  The contract of the two list files: what is written is read back, and everything read is an entry
  that can be written again.
\<close>

locale saved_list =
  fixes render :: "string fset \<Rightarrow> bytes"
    and reload :: "bytes \<Rightarrow> string fset"
    and entry :: "string \<Rightarrow> bool"
  assumes reload_render: "\<forall>d. d |\<in>| S \<longrightarrow> entry d \<Longrightarrow> reload (render S) = S"
    and reload_entry: "d |\<in>| reload b \<Longrightarrow> entry d"
begin

lemma rewrite_stable: "reload (render (reload b)) = reload b"
  by (rule reload_render) (simp add: reload_entry)

lemma replaced:
  assumes "atomic_write F p (render S) wr rn = (F', ok)" and "\<forall>d. d |\<in>| S \<longrightarrow> entry d"
  shows "map_option reload (F' p) = (if ok then Some S else map_option reload (F p))"
  using atomic_write_cases(1) [OF assms(1)] reload_render [OF assms(2)] by simp

end

definition list_entry :: "string \<Rightarrow> bool" where
  "list_entry d \<longleftrightarrow> d \<noteq> [] \<and> LF \<notin> set d \<and> trim_space d = d"

lemma list_lines_entry: "d \<in> set (list_lines b) \<Longrightarrow> list_entry d"
  using set_trim_space split_on_no_sep by (fastforce simp: list_lines_def list_entry_def)

lemma list_lines_unlines: "\<forall>d \<in> set ds. list_entry d \<Longrightarrow> list_lines (unlines ds) = ds"
  by (simp add: list_lines_def split_unlines list_entry_def map_idI filter_id_conv)

lemma sorted_fset [simp]: "set (sorted_list_of_fset S) = fset S" "fset_of_list (sorted_list_of_fset S) = S"
  by (simp_all add: sorted_list_of_fset.rep_eq fset_of_list.rep_eq fset_inject [symmetric])

lemma custom_text_unlines: "\<forall>d \<in> set ks. d \<noteq> [] \<Longrightarrow> custom_text ks = unlines ks"
  by (induction ks rule: join.induct [of _ "[LF]"]) (auto simp: custom_text_def unlines_def Let_def split: if_splits)

interpretation local_file: saved_list lb_text "\<lambda>b. fset_of_list (list_lines b)" list_entry
  by unfold_locales
    (auto simp: lb_text_def list_lines_unlines list_lines_entry fset_of_list.rep_eq)

interpretation custom_file: saved_list "\<lambda>S. custom_text (sorted_list_of_fset S)" "\<lambda>b. fset_of_list (list_lines b)" list_entry
proof unfold_locales
  fix S assume "\<forall>d. d |\<in>| S \<longrightarrow> list_entry d"
  then have e: "\<forall>d \<in> set (sorted_list_of_fset S). list_entry d" by simp
  then have "custom_text (sorted_list_of_fset S) = unlines (sorted_list_of_fset S)"
    by (intro custom_text_unlines) (simp add: list_entry_def)
  with e show "fset_of_list (list_lines (custom_text (sorted_list_of_fset S))) = S" by (simp add: list_lines_unlines)
qed (auto simp: list_lines_entry fset_of_list.rep_eq)

subsection \<open>Facts about names\<close>

lemma label_byte_host: "label_byte c \<Longrightarrow> host_byte c"
  by (auto simp: label_byte_def host_byte_def)

lemma label_hosts: "label_re l \<Longrightarrow> list_all host_byte l"
  by (auto simp: label_re_def list_all_iff host_byte_def label_byte_def)

lemma label_bytes: "list_all label_re (split_on (CHR ''.'') d) \<Longrightarrow> list_all host_byte d"
proof -
  assume a: "list_all label_re (split_on (CHR ''.'') d)"
  have j: "list_all host_byte (join ''.'' ls)" if "list_all label_re ls" for ls
    using that
  proof (induction ls)
    case (Cons l ls)
    then have "list_all host_byte l" "list_all host_byte (join ''.'' ls)" by (simp_all add: label_hosts)
    moreover have "host_byte (CHR ''.'')" by (simp add: host_byte_def)
    ultimately show ?case by (cases "ls = []") (simp_all add: join_Cons)
  qed simp
  show ?thesis using j [OF a] by (simp add: join_split)
qed

lemma labels_ok:
  assumes "list_all label_re (split_on (CHR ''.'') d)" and "d \<noteq> []"
  shows "list_all host_byte d" and "label_byte (last d)" and "label_byte (hd d)" and "wire_of d \<noteq> None"
proof -
  show h: "list_all host_byte d" using label_bytes assms(1) .
  have ne: "\<forall>l \<in> set (split_on (CHR ''.'') d). l \<noteq> [] \<and> length l \<le> 63" using assms(1) by (auto simp: label_re_def list_all_iff)
  have "wire_labels ls \<noteq> None" if "\<forall>l \<in> set ls. l \<noteq> [] \<and> length l \<le> 63" for ls
    using that by (induction ls) auto
  with ne show "wire_of d \<noteq> None" by (simp add: wire_of_def)
  have first: "hd (split_on c s) \<noteq> [] \<Longrightarrow> hd s = hd (hd (split_on c s))" for c s
    by (cases s) (auto split: list.splits if_splits)
  have "hd d = hd (hd (split_on (CHR ''.'') d))" using first ne by (metis hd_in_set split_on_ne)
  with assms(1) show "label_byte (hd d)" by (auto simp: label_re_def list_all_iff)
  have lst: "last ls \<noteq> [] \<Longrightarrow> ls \<noteq> [] \<Longrightarrow> last (join sep ls) = last (last ls) \<and> join sep ls \<noteq> []"
    for sep and ls :: "string list"
  proof (induction ls)
    case (Cons l ls)
    then show ?case by (cases "ls = []") (auto simp: join_Cons)
  qed simp
  have "last (split_on (CHR ''.'') d) \<noteq> []" using ne by (metis last_in_set split_on_ne)
  from lst [OF this, of "''.''"] have "last d = last (last (split_on (CHR ''.'') d))" by (simp add: join_split)
  with assms(1) show "label_byte (last d)" by (metis label_re_def last_in_set list_all_iff split_on_ne)
qed

lemma normalize_facts:
  assumes "normalize_local_block L s = Some d"
  shows "d \<noteq> []" and "list_all host_byte d" and "last d \<noteq> CHR ''.''" and "plain_name d" and "list_entry d"
proof -
  from assms have d: "d \<noteq> []" "length d \<le> 253" "list_all label_re (split_on (CHR ''.'') d)"
    by (auto simp: normalize_local_block_def Let_def split: if_splits)
  show "d \<noteq> []" by (rule d(1))
  note l = labels_ok [OF d(3,1)]
  show h: "list_all host_byte d" by (rule l(1))
  show "last d \<noteq> CHR ''.''" using l(2) by (auto simp: label_byte_def is_digit_def)
  show "plain_name d" using h l(4) d(2) by (simp add: plain_name_def)
  have pl: "list_all is_plain d" using h by (simp add: list_all_iff host_byte_facts)
  then have "LF \<notin> set d" using plain_not_control by (auto simp: list_all_iff)
  with d(1) pl show "list_entry d" by (simp add: list_entry_def trim_space_plain)
qed

text \<open>A second normalisation changes nothing.\<close>

lemma normalize_idem: "normalize_local_block L s = Some d \<Longrightarrow> normalize_local_block L d = Some d"
proof -
  assume n: "normalize_local_block L s = Some d"
  note f = normalize_facts [OF n]
  have "\<not> suffix ''.'' d" using f(1,3) by (metis suffix_def last_snoc)
  then have "trim_suffix (to_lower L (trim_space d)) ''.'' = d"
    using f(2,5) by (simp add: list_entry_def plain_lower trim_suffix_no)
  with n show ?thesis by (auto simp: normalize_local_block_def Let_def split: if_splits)
qed

subsection \<open>The local block list survives a restart\<close>

datatype lb_op = LbAdd "string list" | LbRemove string

fun lb_apply :: "lib \<Rightarrow> lb_op \<times> write_result \<times> bool \<Rightarrow> local_block \<times> fs \<Rightarrow> local_block \<times> fs" where
  "lb_apply L (LbAdd ds, wr, rn) (st, F) = snd (lb_add L wr rn ds st F)"
| "lb_apply L (LbRemove d, wr, rn) (st, F) = snd (lb_remove L wr rn d st F)"

fun lb_run :: "lib \<Rightarrow> (lb_op \<times> write_result \<times> bool) list \<Rightarrow> local_block \<times> fs \<Rightarrow> local_block \<times> fs" where
  "lb_run L [] s = s"
| "lb_run L (x # xs) s = lb_run L xs (lb_apply L x s)"

text \<open>The abstract list: a set of names, changed by the operations that are valid and get written.\<close>

fun lb_abs :: "lib \<Rightarrow> lb_op \<Rightarrow> string set \<Rightarrow> string set" where
  "lb_abs L (LbAdd ds) S =
     (if \<forall>d \<in> set ds. normalize_local_block L d \<noteq> None then S \<union> {n. \<exists>d \<in> set ds. normalize_local_block L d = Some n} else S)"
| "lb_abs L (LbRemove d) S = S - {n. normalize_local_block L d = Some n}"

fun lb_abs_run :: "lib \<Rightarrow> (lb_op \<times> write_result \<times> bool) list \<Rightarrow> string set \<Rightarrow> string set" where
  "lb_abs_run L [] S = S"
| "lb_abs_run L ((x, wr, rn) # xs) S = lb_abs_run L xs (if wr = Written \<and> rn then lb_abs L x S else S)"

lemma atomic_write_outcome: "atomic_write F p b wr rn = (F', ok) \<Longrightarrow> ok \<longleftrightarrow> wr = Written \<and> rn"
  by (auto simp: atomic_write_def write_file_def rename_file_def split: write_result.splits if_splits)

definition lb_saved :: "string \<Rightarrow> local_block \<times> fs \<Rightarrow> bool" where
  "lb_saved p s \<longleftrightarrow> lb_path (fst s) = p \<and> new_local_block p (snd s) = fst s"

lemma lb_saved_entries:
  assumes "lb_saved p (st, F)" and "d |\<in>| lb_domains st"
  shows "list_entry d"
proof -
  have "lb_domains (new_local_block p F) = lb_domains st" using assms(1) by (simp add: lb_saved_def)
  with assms(2) show ?thesis
    by (cases "F p") (auto simp: new_local_block_def fset_of_list.rep_eq list_lines_entry dest!: sym [of _ "lb_domains st"])
qed

lemma lb_commit_saved:
  assumes "lb_saved p (st, F)" and "\<forall>d. d |\<in>| nxt \<longrightarrow> list_entry d" and "lb_commit wr rn nxt st F = (r, st', F')"
  shows "lb_saved p (st', F')" and "lb_domains st' = (if wr = Written \<and> rn then nxt else lb_domains st)"
proof -
  obtain ok where w: "atomic_write F p (lb_text nxt) wr rn = (F', ok)"
    and st': "st' = (if ok then st\<lparr>lb_domains := nxt\<rparr> else st)"
    using assms(1,3) by (auto simp: lb_commit_def lb_saved_def split: prod.splits bool.splits)
  show "lb_domains st' = (if wr = Written \<and> rn then nxt else lb_domains st)"
    using atomic_write_outcome [OF w] st' by auto
  have "map_option (\<lambda>b. fset_of_list (list_lines b)) (F' p)
      = (if ok then Some nxt else map_option (\<lambda>b. fset_of_list (list_lines b)) (F p))"
    by (rule local_file.replaced [OF w assms(2)])
  with assms(1) st' atomic_write_cases(1) [OF w] show "lb_saved p (st', F')"
    by (auto simp: lb_saved_def new_local_block_def split: if_splits option.splits)
qed

lemma lb_apply_saved:
  assumes "lb_saved p (st, F)" and "lb_apply L (x, wr, rn) (st, F) = (st', F')"
  shows "lb_saved p (st', F') \<and> fset (lb_domains st') = (if wr = Written \<and> rn then lb_abs L x (fset (lb_domains st)) else fset (lb_domains st))"
proof (cases x)
  case (LbAdd ds)
  let ?n = "lb_domains st |\<union>| fset_of_list (map (the \<circ> normalize_local_block L) ds)"
  show ?thesis
  proof (cases "\<forall>d \<in> set ds. normalize_local_block L d \<noteq> None")
    case False
    with assms LbAdd show ?thesis by (auto simp: lb_add_def image_iff split: if_splits)
  next
    case True
    then have "None \<notin> set (map (normalize_local_block L) ds)" by (auto simp: image_iff)
    then have "snd (lb_commit wr rn ?n st F) = (st', F')" using assms(2) LbAdd by (simp only: lb_apply.simps lb_add_def if_False)
    then obtain r where c: "lb_commit wr rn ?n st F = (r, st', F')" by (metis prod.collapse)
    have e: "\<forall>d. d |\<in>| ?n \<longrightarrow> list_entry d"
      using lb_saved_entries [OF assms(1)] normalize_facts(5) True by (fastforce simp: fset_of_list.rep_eq)
    have "fset ?n = fset (lb_domains st) \<union> {n. \<exists>d \<in> set ds. normalize_local_block L d = Some n}"
      using True by (force simp: fset_of_list.rep_eq)
    with lb_commit_saved [OF assms(1) e c] LbAdd True show ?thesis by auto
  qed
next
  case (LbRemove d)
  show ?thesis
  proof (cases "normalize_local_block L d")
    case None
    with assms LbRemove show ?thesis by (auto simp: lb_remove_def)
  next
    case (Some n)
    let ?n = "ffilter (\<lambda>k. k \<noteq> n) (lb_domains st)"
    obtain r where c: "lb_commit wr rn ?n st F = (r, st', F')"
      using assms(2) LbRemove Some by (cases "lb_commit wr rn ?n st F") (auto simp: lb_remove_def)
    have e: "\<forall>d. d |\<in>| ?n \<longrightarrow> list_entry d" using lb_saved_entries [OF assms(1)] by auto
    from lb_commit_saved [OF assms(1) e c] LbRemove Some show ?thesis by auto
  qed
qed

lemma lb_run_saved:
  "lb_saved p s \<Longrightarrow> lb_saved p (lb_run L xs s) \<and> fset (lb_domains (fst (lb_run L xs s))) = lb_abs_run L xs (fset (lb_domains (fst s)))"
proof (induction L xs s rule: lb_run.induct)
  case (2 L x xs s)
  obtain y wr rn where x: "x = (y, wr, rn)" by (cases x)
  obtain st F where s: "s = (st, F)" by (cases s)
  obtain st' F' where a: "lb_apply L x s = (st', F')" by fastforce
  from lb_apply_saved [of p st F L y wr rn st' F'] 2 a x s show ?case by auto
qed simp

text \<open>A line written by hand that is not in canonical form can never be removed again.\<close>

lemma foreign_line_stays:
  assumes "normalize_local_block L d \<noteq> Some d"
  shows "d \<in> lb_abs L (LbRemove x) S \<longleftrightarrow> d \<in> S"
  using assms normalize_idem by fastforce

subsection \<open>The text of an address\<close>











subsection \<open>What the saved whitelist holds\<close>












subsection \<open>From the lists to the database\<close>









subsection \<open>Properties\<close>

















text \<open>
  C30: The local block list survives a restart. After any additions and removals, with any outcome of
  the writes, a store opened on the file holds what the running store holds, and that is the
  initial list changed by exactly the operations that were valid and written.
\<close>

theorem local_block_durable:
  "lb_saved p (lb_run L xs (new_local_block p F, F))
   \<and> fset (lb_domains (fst (lb_run L xs (new_local_block p F, F)))) = lb_abs_run L xs (fset (lb_domains (new_local_block p F)))"
  by (rule lb_run_saved [of p "(new_local_block p F, F)", simplified]) (simp add: lb_saved_def new_local_block_def)

end
