(* ===== verification/Dnstap_Agg.thy ===== *)
theory Dnstap_Agg
  imports Go_Net "HOL-Library.Product_Lexorder" "HOL-Library.Word" "HOL-Library.Finite_Map" "HOL-Library.Multiset"
begin

text \<open>
  The query statistics of the panel (\<open>panel/dnstap.go\<close>): the aggregator with its bounded table, what a
  dnstap frame contributes, the list of the most frequent names and the two handlers. The frame
  decoder, \<open>dns.Msg.Unpack\<close>, the table of type names and the calendar are parameters.
\<close>

subsection \<open>The table\<close>

datatype dnstap_key = DnstapKey (dk_day: string) (dk_qname: string) (dk_qtype: string)

text \<open>Keys are ordered field by field, so that the library lists the table.\<close>

definition key_fields :: "dnstap_key \<Rightarrow> string \<times> string \<times> string" where
  "key_fields k = (dk_day k, dk_qname k, dk_qtype k)"

lemma key_fields_inj: "key_fields a = key_fields b \<longleftrightarrow> a = b"
  by (cases a; cases b) (simp add: key_fields_def)

instantiation dnstap_key :: linorder
begin

definition less_eq_dnstap_key :: "dnstap_key \<Rightarrow> dnstap_key \<Rightarrow> bool" where
  "less_eq_dnstap_key a b \<longleftrightarrow> key_fields a \<le> key_fields b"

definition less_dnstap_key :: "dnstap_key \<Rightarrow> dnstap_key \<Rightarrow> bool" where
  "less_dnstap_key a b \<longleftrightarrow> key_fields a < key_fields b"

instance
  by standard (auto simp: less_eq_dnstap_key_def less_dnstap_key_def key_fields_inj [symmetric] less_le_not_le)

end

definition other_bucket :: string where "other_bucket = ''_other_''"

record aggregator =
  da_cap :: int
  da_map :: "(dnstap_key, 64 word) fmap"

definition new_aggregator :: "int \<Rightarrow> aggregator" where
  "new_aggregator capacity = \<lparr>da_cap = (if capacity \<le> 0 then 50000 else capacity), da_map = fmempty\<rparr>"

text \<open>\<open>Add\<close>: a new key beyond the capacity counts for the bucket of its day. The counter is an \<open>int64\<close>.\<close>

definition count_key :: "aggregator \<Rightarrow> dnstap_key \<Rightarrow> dnstap_key" where
  "count_key a k =
     (if fmlookup (da_map a) k = None \<and> 0 < da_cap a \<and> da_cap a \<le> int (fcard (fmdom (da_map a)))
      then DnstapKey (dk_day k) other_bucket other_bucket else k)"

definition counter :: "(dnstap_key, 64 word) fmap \<Rightarrow> dnstap_key \<Rightarrow> 64 word" where
  "counter m k = (case fmlookup m k of None \<Rightarrow> 0 | Some n \<Rightarrow> n)"

definition agg_add :: "string \<Rightarrow> string \<Rightarrow> string \<Rightarrow> aggregator \<Rightarrow> aggregator" where
  "agg_add day qname qtype a =
     (let k = count_key a (DnstapKey day qname qtype)
      in a\<lparr>da_map := fmupd k (counter (da_map a) k + 1) (da_map a)\<rparr>)"

record blocked_item =
  bi_day :: string
  bi_qname :: string
  bi_qtype :: string
  bi_count :: "64 word"

text \<open>\<open>Take\<close>, with the keys in the order in which the map is iterated.\<close>

definition item_of :: "(dnstap_key, 64 word) fmap \<Rightarrow> dnstap_key \<Rightarrow> blocked_item" where
  "item_of m k = \<lparr>bi_day = dk_day k, bi_qname = dk_qname k, bi_qtype = dk_qtype k, bi_count = counter m k\<rparr>"

definition agg_take :: "dnstap_key list \<Rightarrow> aggregator \<Rightarrow> blocked_item list \<times> aggregator" where
  "agg_take order a = (map (item_of (da_map a)) order, a\<lparr>da_map := fmempty\<rparr>)"

text \<open>
  \<open>TopBlocked\<close>. \<open>order\<close> lists the keys as the table is iterated, \<open>names\<close> the names as the map of totals
  is; the sort of the source is not stable, but every order of ties arises from some \<open>names\<close>.
\<close>

definition name_total :: "(dnstap_key, 64 word) fmap \<Rightarrow> dnstap_key list \<Rightarrow> string \<Rightarrow> 64 word" where
  "name_total m order q = sum_list (map (counter m) (filter (\<lambda>k. dk_qname k = q) order))"

definition sorted_totals :: "(dnstap_key, 64 word) fmap \<Rightarrow> dnstap_key list \<Rightarrow> string list \<Rightarrow> (string \<times> 64 word) list" where
  "sorted_totals m order names = sort_key (\<lambda>(q, n). - sint n) (map (\<lambda>q. (q, name_total m order q)) names)"

definition top_blocked :: "int \<Rightarrow> dnstap_key list \<Rightarrow> string list \<Rightarrow> aggregator \<Rightarrow> blocked_item list" where
  "top_blocked n order names a =
     (let s = sorted_totals (da_map a) order names;
          n' = (if int (length s) < n \<or> n \<le> 0 then int (length s) else n)
      in map (\<lambda>(q, c). \<lparr>bi_day = [], bi_qname = q, bi_qtype = [], bi_count = c\<rparr>) (take (nat n') s))"

subsection \<open>Frames\<close>

datatype dnstap_type = ClientQuery | ClientResponse | OtherType

text \<open>A decoded message; the addresses are there and are never looked at.\<close>

record dnstap_msg =
  dm_type :: dnstap_type
  dm_query_sec :: "64 word option"
  dm_query_nsec :: "32 word option"
  dm_query :: "bytes option"
  dm_response_sec :: "64 word option"
  dm_response_nsec :: "32 word option"
  dm_response :: "bytes option"
  dm_query_address :: "bytes option"
  dm_response_address :: "bytes option"

type_synonym unix_time = "int \<times> int"   \<comment> \<open>seconds as \<open>int64\<close>, nanoseconds\<close>

definition parse_timestamp :: "unix_time \<Rightarrow> 64 word option \<Rightarrow> 32 word option \<Rightarrow> unix_time" where
  "parse_timestamp now sec nsec =
     (case sec of None \<Rightarrow> now
      | Some s \<Rightarrow> (sint s, (case nsec of None \<Rightarrow> 0 | Some n \<Rightarrow> uint n)))"

definition extract_payload :: "unix_time \<Rightarrow> dnstap_msg \<Rightarrow> (unix_time \<times> bytes) option" where
  "extract_payload now m =
     (case dm_type m of
        ClientQuery \<Rightarrow> map_option (Pair (parse_timestamp now (dm_query_sec m) (dm_query_nsec m))) (dm_query m)
      | ClientResponse \<Rightarrow> map_option (Pair (parse_timestamp now (dm_response_sec m) (dm_response_nsec m))) (dm_response m)
      | OtherType \<Rightarrow> None)"

text \<open>What a connection relies on: the calendar of the local zone, the questions of a message, type names.\<close>

record dnstap_env =
  de_day :: "unix_time \<Rightarrow> string"
  de_unpack :: "bytes \<Rightarrow> (string \<times> nat) list option"
  de_type :: "nat \<Rightarrow> string"

text \<open>\<open>Observe\<close>\<close>

definition observe :: "lib \<Rightarrow> dnstap_env \<Rightarrow> unix_time \<Rightarrow> (string \<times> nat) list \<Rightarrow> aggregator \<Rightarrow> aggregator" where
  "observe L e t questions a =
     (case questions of
        [] \<Rightarrow> a
      | (name, ty) # _ \<Rightarrow>
          agg_add (de_day e t) (trim_suffix (to_lower L name) ''.'') (if de_type e ty = [] then ''UNKNOWN'' else de_type e ty) a)"

text \<open>One round of the loop of \<open>handleConn\<close>; \<^const>\<open>None\<close> is a frame that is too large or does not decode.\<close>

definition handle_frame :: "lib \<Rightarrow> dnstap_env \<Rightarrow> unix_time \<Rightarrow> dnstap_msg option \<Rightarrow> aggregator \<Rightarrow> aggregator" where
  "handle_frame L e now f a =
     (case f of
        None \<Rightarrow> a
      | Some m \<Rightarrow>
          (case extract_payload now m of
             None \<Rightarrow> a
           | Some (t, wire) \<Rightarrow>
               if wire = [] then a
               else (case de_unpack e wire of
                       None \<Rightarrow> a
                     | Some qs \<Rightarrow> if qs = [] then a else observe L e t qs a)))"

fun handle_conn :: "lib \<Rightarrow> dnstap_env \<Rightarrow> (unix_time \<times> dnstap_msg option) list \<Rightarrow> aggregator \<Rightarrow> aggregator" where
  "handle_conn L e [] a = a"
| "handle_conn L e ((now, f) # fs) a = handle_conn L e fs (handle_frame L e now f a)"

subsection \<open>Handlers\<close>

text \<open>\<open>handleDnstapTop\<close>: \<^const>\<open>None\<close> is status 405; the limit is the text of the query parameter.\<close>

definition top_limit :: "string \<Rightarrow> int" where
  "top_limit l = (if l = [] then 10 else (case atoi l of None \<Rightarrow> 10 | Some v \<Rightarrow> if 0 < v \<and> v \<le> 100 then v else 10))"

definition handle_dnstap_top :: "bool \<Rightarrow> string \<Rightarrow> dnstap_key list \<Rightarrow> string list \<Rightarrow> aggregator \<Rightarrow> blocked_item list option" where
  "handle_dnstap_top get limit order names a = (if get then Some (top_blocked (top_limit limit) order names a) else None)"

text \<open>\<open>handleDnstapStatus\<close> (\<open>status.go\<close>): enabled, the address, whether there is data.\<close>

definition handle_dnstap_status :: "bool \<Rightarrow> string \<Rightarrow> dnstap_key list \<Rightarrow> string list \<Rightarrow> aggregator \<Rightarrow> (bool \<times> string \<times> bool) option" where
  "handle_dnstap_status get addr order names a =
     (if get then Some (addr \<noteq> [], addr, 0 < length (top_blocked 1 order names a)) else None)"

subsection \<open>Facts\<close>

text \<open>A list that an iteration over the table may produce.\<close>

definition iterates :: "dnstap_key list \<Rightarrow> (dnstap_key, 64 word) fmap \<Rightarrow> bool" where
  "iterates order m \<longleftrightarrow> distinct order \<and> set order = fset (fmdom m)"

lemma iterates_sorted: "iterates (sorted_list_of_fset (fmdom m)) m"
  by (simp add: iterates_def sorted_list_of_fset.rep_eq)

definition table_total :: "(dnstap_key, 64 word) fmap \<Rightarrow> 64 word" where
  "table_total m = sum (counter m) (fset (fmdom m))"

lemma iterates_total: "iterates order m \<Longrightarrow> sum_list (map (counter m) order) = table_total m"
  by (simp add: iterates_def table_total_def sum_list_distinct_conv_sum_set)

lemma counter_upd: "counter (fmupd k v m) k' = (if k' = k then v else counter m k')"
  by (simp add: counter_def)

lemma total_upd: "table_total (fmupd k (counter m k + 1) m) = table_total m + 1"
proof -
  let ?D = "fset (fmdom m)" and ?m = "fmupd k (counter m k + 1) m"
  have "table_total ?m = counter ?m k + sum (counter ?m) (?D - {k})"
    unfolding table_total_def by (subst sum.remove [of _ k]) simp_all
  also have "\<dots> = counter m k + 1 + sum (counter m) (?D - {k})" by (simp add: counter_upd)
  also have "counter m k + sum (counter m) (?D - {k}) = table_total m"
  proof (cases "k \<in> ?D")
    case True
    then show ?thesis unfolding table_total_def by (simp add: sum.remove)
  next
    case False
    then have "counter m k = 0" by (simp add: counter_def fmdom_notD)
    with False show ?thesis by (simp add: table_total_def)
  qed
  ultimately show ?thesis by (simp add: algebra_simps)
qed

text \<open>The days of the observations that count, in order.\<close>

definition frame_day :: "dnstap_env \<Rightarrow> unix_time \<times> dnstap_msg option \<Rightarrow> string option" where
  "frame_day e f =
     (case snd f of
        None \<Rightarrow> None
      | Some m \<Rightarrow>
          (case extract_payload (fst f) m of
             None \<Rightarrow> None
           | Some (t, wire) \<Rightarrow>
               if wire = [] \<or> de_unpack e wire = None \<or> de_unpack e wire = Some [] then None else Some (de_day e t)))"

definition observed_days :: "dnstap_env \<Rightarrow> (unix_time \<times> dnstap_msg option) list \<Rightarrow> string list" where
  "observed_days e fs = List.map_filter (frame_day e) fs"

lemma handle_frame_cases:
  obtains "frame_day e (now, f) = None" "handle_frame L e now f a = a"
  | d q t where "frame_day e (now, f) = Some d" "handle_frame L e now f a = agg_add d q t a"
proof (cases "frame_day e (now, f)")
  case None
  then have "handle_frame L e now f a = a"
    by (auto simp: frame_day_def handle_frame_def split: option.splits if_splits)
  with None that(1) show ?thesis by blast
next
  case (Some d)
  then obtain m t wire qs where m: "f = Some m" "extract_payload now m = Some (t, wire)" "wire \<noteq> []"
    "de_unpack e wire = Some qs" "qs \<noteq> []" "d = de_day e t"
    by (auto simp: frame_day_def split: option.splits if_splits)
  then have "handle_frame L e now f a = observe L e t qs a" by (simp add: handle_frame_def)
  also obtain n ty qs' where "qs = (n, ty) # qs'" using m(5) by (metis neq_Nil_conv surj_pair)
  ultimately have "handle_frame L e now f a
      = agg_add d (trim_suffix (to_lower L n) ''.'') (if de_type e ty = [] then ''UNKNOWN'' else de_type e ty) a"
    using m(6) by (simp add: observe_def)
  with Some that(2) show ?thesis by blast
qed

lemma observed_days_Cons:
  "observed_days e (f # fs) = (case frame_day e f of None \<Rightarrow> observed_days e fs | Some d \<Rightarrow> d # observed_days e fs)"
  by (simp add: observed_days_def List.map_filter_simps split: option.splits)

lemma agg_add_total: "table_total (da_map (agg_add d q t a)) = table_total (da_map a) + 1"
  by (simp add: agg_add_def Let_def total_upd)

lemma handle_conn_total:
  "table_total (da_map (handle_conn L e fs a)) = table_total (da_map a) + of_nat (length (observed_days e fs))"
proof (induction L e fs a rule: handle_conn.induct)
  case (2 L e now f fs a)
  show ?case
    by (rule handle_frame_cases [of e now f L a]) (use 2 in \<open>simp_all add: observed_days_Cons agg_add_total algebra_simps\<close>)
qed (simp add: observed_days_def List.map_filter_simps)

text \<open>The keys that are no bucket stay within the capacity; there is one bucket for a day.\<close>

definition is_bucket :: "dnstap_key \<Rightarrow> bool" where
  "is_bucket k \<longleftrightarrow> dk_qname k = other_bucket \<and> dk_qtype k = other_bucket"

definition table_ok :: "string set \<Rightarrow> aggregator \<Rightarrow> bool" where
  "table_ok days a \<longleftrightarrow> 0 < da_cap a \<and> int (card {k \<in> fset (fmdom (da_map a)). \<not> is_bucket k}) \<le> da_cap a
     \<and> (\<forall>k \<in> fset (fmdom (da_map a)). dk_day k \<in> days)"

lemma agg_add_ok:
  assumes "table_ok days a" and "d \<in> days"
  shows "table_ok days (agg_add d q t a)"
proof -
  let ?D = "fset (fmdom (da_map a))" and ?k = "count_key a (DnstapKey d q t)"
  have dom: "fset (fmdom (da_map (agg_add d q t a))) = insert ?k ?D" by (simp add: agg_add_def Let_def)
  have cap: "da_cap (agg_add d q t a) = da_cap a" by (simp add: agg_add_def Let_def)
  have day: "dk_day ?k = d" by (simp add: count_key_def)
  have "int (card {k \<in> insert ?k ?D. \<not> is_bucket k}) \<le> da_cap a"
  proof (cases "?k \<in> ?D \<or> is_bucket ?k")
    case True
    then have "{k \<in> insert ?k ?D. \<not> is_bucket k} = {k \<in> ?D. \<not> is_bucket k}" by auto
    with assms(1) show ?thesis by (simp add: table_ok_def)
  next
    case False
    then have room: "int (card ?D) < da_cap a"
      using assms(1) by (auto simp: count_key_def is_bucket_def table_ok_def fmlookup_dom_iff fcard.rep_eq split: if_splits)
    have "{k \<in> insert ?k ?D. \<not> is_bucket k} \<subseteq> insert ?k ?D" by blast
    then have "card {k \<in> insert ?k ?D. \<not> is_bucket k} \<le> card (insert ?k ?D)" by (intro card_mono) simp_all
    also have "\<dots> \<le> card ?D + 1" using False by simp
    finally show ?thesis using room by linarith
  qed
  with assms day show ?thesis by (auto simp: table_ok_def dom cap)
qed

lemma handle_conn_ok:
  "table_ok days a \<Longrightarrow> set (observed_days e fs) \<subseteq> days \<Longrightarrow> table_ok days (handle_conn L e fs a)"
proof (induction L e fs a rule: handle_conn.induct)
  case (2 L e now f fs a)
  show ?case
    by (rule handle_frame_cases [of e now f L a]) (use 2 agg_add_ok in \<open>auto simp: observed_days_Cons\<close>)
qed simp

lemma table_ok_size:
  assumes "table_ok days a" and "finite days"
  shows "int (fcard (fmdom (da_map a))) \<le> da_cap a + int (card days)"
proof -
  let ?D = "fset (fmdom (da_map a))"
  have "{k \<in> ?D. is_bucket k} \<subseteq> (\<lambda>d. DnstapKey d other_bucket other_bucket) ` days"
    using assms(1) by (auto simp: table_ok_def is_bucket_def image_iff) (metis dnstap_key.collapse)
  then have "card {k \<in> ?D. is_bucket k} \<le> card days"
    using assms(2) by (meson card_image_le card_mono finite_imageI le_trans)
  moreover have "card ?D = card {k \<in> ?D. is_bucket k} + card {k \<in> ?D. \<not> is_bucket k}"
  proof -
    have "?D = {k \<in> ?D. is_bucket k} \<union> {k \<in> ?D. \<not> is_bucket k}" by blast
    then show ?thesis by (subst card_Un_disjoint [symmetric]) auto
  qed
  ultimately show ?thesis using assms(1) by (simp add: table_ok_def fcard.rep_eq)
qed

text \<open>The list of the most frequent names: exact totals, in descending order, none left out that is larger.\<close>

lemma name_total_sum:
  assumes "distinct order" and "distinct names" and "set names = dk_qname ` set order"
  shows "sum_list (map (name_total m order) names) = sum_list (map (counter m) order)"
proof -
  have n: "name_total m order q = sum (counter m) {k \<in> set order. dk_qname k = q}" for q
    using assms(1) by (simp add: name_total_def sum_list_distinct_conv_sum_set)
  have "sum_list (map (name_total m order) names) = sum (\<lambda>q. sum (counter m) {k \<in> set order. dk_qname k = q}) (dk_qname ` set order)"
    using assms(2,3) by (simp add: sum_list_distinct_conv_sum_set n)
  also have "\<dots> = sum (counter m) (set order)" by (rule sum.image_gen [symmetric]) simp
  finally show ?thesis using assms(1) by (simp add: sum_list_distinct_conv_sum_set)
qed

definition top_count :: "int \<Rightarrow> nat \<Rightarrow> nat" where
  "top_count n len = (if int len < n \<or> n \<le> 0 then len else nat n)"

lemma top_blocked_map:
  "top_blocked n order names a =
     map (\<lambda>(q, c). \<lparr>bi_day = [], bi_qname = q, bi_qtype = [], bi_count = c\<rparr>)
       (take (top_count n (length names)) (sorted_totals (da_map a) order names))"
  by (auto simp: top_blocked_def Let_def top_count_def sorted_totals_def)

lemma set_sorted_totals: "set (sorted_totals m order names) = (\<lambda>q. (q, name_total m order q)) ` set names"
  by (simp add: sorted_totals_def)

lemma sorted_totals_desc: "sorted (map (\<lambda>(q, n). - sint n) (sorted_totals m order names))"
  by (simp add: sorted_totals_def)

lemma top_blocked_exact:
  assumes "i \<in> set (top_blocked n order names a)"
  shows "bi_count i = name_total (da_map a) order (bi_qname i)" and "bi_qname i \<in> set names"
  using assms in_set_takeD set_sorted_totals [of "da_map a" order names]
  by (fastforce simp: top_blocked_map)+

lemma top_blocked_best:
  assumes "i \<in> set (top_blocked n order names a)" and "q \<in> set names" and "q \<notin> bi_qname ` set (top_blocked n order names a)"
  shows "sint (name_total (da_map a) order q) \<le> sint (bi_count i)"
proof -
  let ?s = "sorted_totals (da_map a) order names" and ?k = "top_count n (length names)"
  obtain p c where i: "(p, c) \<in> set (take ?k ?s)" "bi_count i = c" using assms(1) by (auto simp: top_blocked_map)
  have "(q, name_total (da_map a) order q) \<in> set ?s" using assms(2) by (simp add: set_sorted_totals)
  moreover have "(q, name_total (da_map a) order q) \<notin> set (take ?k ?s)"
    using assms(3) by (force simp: top_blocked_map image_iff)
  ultimately have "(q, name_total (da_map a) order q) \<in> set (drop ?k ?s)"
    by (metis append_take_drop_id Un_iff set_append)
  moreover have "sorted (map (\<lambda>(q, n). - sint n) (take ?k ?s @ drop ?k ?s))" using sorted_totals_desc by simp
  ultimately have "(\<lambda>(q, n). - sint n) (p, c) \<le> (\<lambda>(q, n). - sint n) (q, name_total (da_map a) order q)"
    using i(1) unfolding map_append sorted_append set_map by blast
  then show ?thesis using i(2) by simp
qed

lemma top_blocked_all:
  assumes "iterates order (da_map a)" and "distinct names" and "set names = dk_qname ` set order"
  shows "sum_list (map bi_count (top_blocked 0 order names a)) = table_total (da_map a)"
proof -
  let ?s = "sorted_totals (da_map a) order names"
  have "map bi_count (top_blocked 0 order names a) = map snd ?s"
    by (simp add: top_blocked_map top_count_def sorted_totals_def case_prod_unfold comp_def)
  moreover have "mset (map snd ?s) = mset (map (name_total (da_map a) order) names)"
    by (simp add: sorted_totals_def image_mset.compositionality comp_def)
  ultimately have "sum_list (map bi_count (top_blocked 0 order names a)) = sum_list (map (name_total (da_map a) order) names)"
    by (metis sum_mset_sum_list)
  then show ?thesis
    using name_total_sum [OF _ assms(2,3)] iterates_total [OF assms(1)] assms(1) by (simp add: iterates_def)
qed

subsection \<open>Properties\<close>

text \<open>
  C31: The statistics lose nothing and stay small. After any frames the totals of all names add up to
  the number of frames that hold a question (as an \<open>int64\<close>), the table has at most its capacity and one
  more key for each day, and a list of the top names shows exact totals of which none is smaller
  than that of a name left out.
\<close>

theorem dnstap_statistics:
  assumes "a = handle_conn L e fs (new_aggregator capacity)" and "0 < capacity"
    and "iterates order (da_map a)" and "distinct names" and "set names = dk_qname ` set order"
  shows "sum_list (map bi_count (top_blocked 0 order names a)) = of_nat (length (observed_days e fs))
    \<and> int (fcard (fmdom (da_map a))) \<le> capacity + int (card (set (observed_days e fs)))
    \<and> (\<forall>i \<in> set (top_blocked n order names a). bi_count i = name_total (da_map a) order (bi_qname i)
         \<and> (\<forall>q \<in> set names - bi_qname ` set (top_blocked n order names a).
              sint (name_total (da_map a) order q) \<le> sint (bi_count i)))"
proof -
  have cap: "da_cap (handle_conn L e fs a0) = da_cap a0" for a0
    by (induction L e fs a0 rule: handle_conn.induct)
      (simp_all add: handle_frame_def observe_def agg_add_def Let_def split: option.splits list.splits)
  have "table_ok (set (observed_days e fs)) (new_aggregator capacity)"
    using assms(2) by (simp add: table_ok_def new_aggregator_def)
  then have "table_ok (set (observed_days e fs)) a" using handle_conn_ok assms(1) by simp
  from table_ok_size [OF this] have "int (fcard (fmdom (da_map a))) \<le> capacity + int (card (set (observed_days e fs)))"
    using assms(1,2) by (simp add: cap new_aggregator_def)
  moreover have "table_total (da_map a) = of_nat (length (observed_days e fs))"
    by (simp add: assms(1) handle_conn_total) (simp add: new_aggregator_def table_total_def)
  ultimately show ?thesis
    using top_blocked_all [OF assms(3-5)] top_blocked_exact(1) top_blocked_best by auto
qed

definition example_dnstap :: dnstap_env where
  "example_dnstap = \<lparr>de_day = (\<lambda>(s, _). if s < 86400 then ''1970-01-01'' else ''1970-01-02''),
     de_unpack = (\<lambda>w. Some [(w, 1)]), de_type = (\<lambda>_. ''A'')\<rparr>"

definition example_query :: "int \<Rightarrow> string \<Rightarrow> unix_time \<times> dnstap_msg option" where
  "example_query t q =
     ((0, 0), Some \<lparr>dm_type = ClientQuery, dm_query_sec = Some (word_of_int t), dm_query_nsec = None, dm_query = Some q,
        dm_response_sec = None, dm_response_nsec = None, dm_response = None,
        dm_query_address = Some ''addr'', dm_response_address = None\<rparr>)"

definition example_frames :: "(unix_time \<times> dnstap_msg option) list" where
  "example_frames = [example_query 1 ''a.b.'', example_query 2 ''a.b.'', example_query 3 ''c.d.'', ((0, 0), None)]"

lemma example_dnstap_facts:
  "map_option uint (fmlookup (da_map (handle_conn L example_dnstap example_frames (new_aggregator 1))) (DnstapKey ''1970-01-01'' ''a.b'' ''A'')) = Some 2"
  "map_option uint (fmlookup (da_map (handle_conn L example_dnstap example_frames (new_aggregator 1))) (DnstapKey ''1970-01-01'' ''_other_'' ''_other_'')) = Some 1"
  "observed_days example_dnstap example_frames = [''1970-01-01'', ''1970-01-01'', ''1970-01-01'']"
  by code_simp+

theorem dnstap_statistics_witness:
  "\<forall>L. let a = handle_conn L example_dnstap example_frames (new_aggregator 1);
          order = sorted_list_of_fset (fmdom (da_map a)); names = remdups (map dk_qname order)
      in sum_list (map bi_count (top_blocked 0 order names a)) = 3 \<and> int (fcard (fmdom (da_map a))) \<le> 2
         \<and> fmlookup (da_map a) (DnstapKey ''1970-01-01'' ''a.b'' ''A'') = Some 2"
proof
  fix L
  define a where "a = handle_conn L example_dnstap example_frames (new_aggregator 1)"
  have two: "fmlookup (da_map a) (DnstapKey ''1970-01-01'' ''a.b'' ''A'') = Some 2"
    using example_dnstap_facts(1) [of L] unfolding a_def [symmetric] by (auto simp: word_uint_eq_iff)
  let ?order = "sorted_list_of_fset (fmdom (da_map a))"
  have "set (remdups (map dk_qname ?order)) = dk_qname ` set ?order" by simp
  from dnstap_statistics [OF a_def _ iterates_sorted distinct_remdups this]
  have "sum_list (map bi_count (top_blocked 0 ?order (remdups (map dk_qname ?order)) a)) = 3 \<and> int (fcard (fmdom (da_map a))) \<le> 2"
    by (simp add: example_dnstap_facts(3))
  with two show "let a = handle_conn L example_dnstap example_frames (new_aggregator 1);
          order = sorted_list_of_fset (fmdom (da_map a)); names = remdups (map dk_qname order)
      in sum_list (map bi_count (top_blocked 0 order names a)) = 3 \<and> int (fcard (fmdom (da_map a))) \<le> 2
         \<and> fmlookup (da_map a) (DnstapKey ''1970-01-01'' ''a.b'' ''A'') = Some 2"
    unfolding a_def [symmetric] Let_def by blast
qed

end
