(* ===== verification/Cdb_Limiter.thy ===== *)
theory Cdb_Limiter
  imports Go_Float Panel_Auth "HOL-Library.Finite_Map"
begin

text \<open>
  Access to the publisher of the database (\<open>panel/cdb_ratelimit.go\<close>): a token bucket for every address
  that does not present the shared token, with \<open>float64\<close> arithmetic, the bound on the number of
  buckets, and the decision of \<open>cdbAuthorize\<close>.
\<close>

subsection \<open>The limiter\<close>

definition cdb_burst :: rat where "cdb_burst = 3"
definition cdb_refill_every :: duration where "cdb_refill_every = seconds 30"
definition cdb_max_tracked :: int where "cdb_max_tracked = 4096"

record cdb_bucket =
  bk_tokens :: rat
  bk_last :: time

type_synonym cdb_limiter = "(string, cdb_bucket) fmap"

definition cdb_limiter0 :: cdb_limiter where "cdb_limiter0 = fmempty"

definition cdb_refill :: "time \<Rightarrow> cdb_bucket \<Rightarrow> cdb_bucket" where
  "cdb_refill now b =
     (let elapsed = time_sub now (bk_last b)
      in if 0 < elapsed then
           (let t = fl (bk_tokens b + fl (go_seconds elapsed / go_seconds cdb_refill_every))
            in \<lparr>bk_tokens = (if cdb_burst < t then cdb_burst else t), bk_last = now\<rparr>)
         else b)"

text \<open>\<open>evictOldestLocked\<close>; \<open>ks\<close> is the order in which the map is iterated.\<close>

definition older :: "cdb_limiter \<Rightarrow> (string \<times> time) option \<Rightarrow> string \<Rightarrow> (string \<times> time) option" where
  "older l acc k =
     (case fmlookup l k of
        None \<Rightarrow> acc
      | Some v \<Rightarrow>
          (case acc of
             None \<Rightarrow> Some (k, bk_last v)
           | Some (m, t) \<Rightarrow> if bk_last v < t then Some (k, bk_last v) else acc))"

definition evict_oldest :: "string list \<Rightarrow> cdb_limiter \<Rightarrow> cdb_limiter" where
  "evict_oldest ks l =
     (case foldl (older l) None ks of
        None \<Rightarrow> l
      | Some (m, t) \<Rightarrow> if m \<noteq> [] then fmdrop m l else l)"

definition cdb_allow :: "string list \<Rightarrow> string \<Rightarrow> time \<Rightarrow> cdb_limiter \<Rightarrow> (bool \<times> duration) \<times> cdb_limiter" where
  "cdb_allow ks ip now l =
     (case fmlookup l ip of
        None \<Rightarrow>
          (let l1 = (if cdb_max_tracked \<le> int (fcard (fmdom l)) then evict_oldest ks l else l)
           in ((True, 0), fmupd ip \<lparr>bk_tokens = fl (cdb_burst - 1), bk_last = now\<rparr> l1))
      | Some b0 \<Rightarrow>
          (let b = cdb_refill now b0
           in if 1 \<le> bk_tokens b then ((True, 0), fmupd ip (b\<lparr>bk_tokens := fl (bk_tokens b - 1)\<rparr>) l)
              else ((False, go_trunc (fl (fl (1 - bk_tokens b) * of_int cdb_refill_every))), fmupd ip b l)))"

definition cdb_forget :: "string \<Rightarrow> cdb_limiter \<Rightarrow> cdb_limiter" where "cdb_forget ip l = fmdrop ip l"

subsection \<open>The policy\<close>

datatype cdb_access = Trusted | Untrusted | RateLimited int

text \<open>A request as the policy sees it, with the order in which the map would be iterated.\<close>

record cdb_request =
  cr_token :: string
  cr_remote :: string
  cr_now :: time
  cr_order :: "string list"

definition retry_after :: "duration \<Rightarrow> int" where
  "retry_after wait = (let secs = go_trunc (go_seconds wait) in if secs < 1 then 1 else secs)"

definition cdb_authorize :: "string \<Rightarrow> cdb_request \<Rightarrow> cdb_limiter \<Rightarrow> cdb_access \<times> cdb_limiter" where
  "cdb_authorize flag r l =
     (let token = trim_space flag; got = trim_space (cr_token r); ip = request_ip (cr_remote r)
      in if token = [] then (Trusted, l)
         else if got = token then (Trusted, cdb_forget ip l)
         else (case cdb_allow (cr_order r) ip (cr_now r) l of
                 ((True, _), l') \<Rightarrow> (Untrusted, l')
               | ((False, wait), l') \<Rightarrow> (RateLimited (retry_after wait), l')))"

fun cdb_requests :: "string \<Rightarrow> cdb_request list \<Rightarrow> cdb_limiter \<Rightarrow> cdb_access list \<times> cdb_limiter" where
  "cdb_requests flag [] l = ([], l)"
| "cdb_requests flag (r # rs) l =
     (let (a, l1) = cdb_authorize flag r l; (as, l2) = cdb_requests flag rs l1 in (a # as, l2))"

subsection \<open>Facts about one bucket\<close>

definition rate_slack :: rat where "rate_slack = 1 / 1099511627776"

lemma refill_unit: "go_seconds cdb_refill_every = 30"
  by code_simp

lemma new_tokens: "fl (cdb_burst - 1) = 2"
  by code_simp

lemma time_sub_le: "0 < time_sub a b \<Longrightarrow> time_sub a b \<le> a - b \<and> b < a"
  by (auto simp: time_sub_def max_dur_def min_dur_def)

text \<open>A bucket that is in range stays in range and gains no more than the elapsed time allows.\<close>

lemma refill_bounds:
  assumes "0 \<le> bk_tokens b" and "bk_tokens b \<le> 3"
  shows "0 \<le> bk_tokens (cdb_refill now b)" and "bk_tokens (cdb_refill now b) \<le> 3"
    and "bk_last b \<le> bk_last (cdb_refill now b)" and "bk_last (cdb_refill now b) \<in> {bk_last b, now}"
    and "bk_tokens (cdb_refill now b)
      \<le> bk_tokens b + of_int (bk_last (cdb_refill now b) - bk_last b) / 30000000000 + rate_slack / 2"
proof -
  define e where "e = time_sub now (bk_last b)"
  define x where "x = fl (go_seconds e / 30)"
  define t where "t = fl (bk_tokens b + x)"
  have r: "cdb_refill now b = (if 0 < e then \<lparr>bk_tokens = (if 3 < t then 3 else t), bk_last = now\<rparr> else b)"
    by (simp add: cdb_refill_def refill_unit cdb_burst_def Let_def e_def x_def t_def)
  have le: "e \<le> now - bk_last b \<and> bk_last b < now" if "0 < e" using time_sub_le that by (simp add: e_def)
  have x0: "0 \<le> x" if "0 < e" using that by (simp add: x_def fl_nonneg go_seconds_nonneg)
  then have t0: "0 \<le> t" if "0 < e" using that assms by (simp add: t_def fl_nonneg)
  show "0 \<le> bk_tokens (cdb_refill now b)" "bk_tokens (cdb_refill now b) \<le> 3"
    "bk_last b \<le> bk_last (cdb_refill now b)" "bk_last (cdb_refill now b) \<in> {bk_last b, now}"
    using assms t0 le by (auto simp: r)
  show "bk_tokens (cdb_refill now b)
      \<le> bk_tokens b + of_int (bk_last (cdb_refill now b) - bk_last b) / 30000000000 + rate_slack / 2"
  proof (cases "0 < e")
    case pos: True
    define d :: rat where "d = of_int (now - bk_last b)"
    have d: "of_int e \<le> d" using le [OF pos] unfolding d_def by (simp only: of_int_le_iff)
    have new: "bk_tokens (cdb_refill now b) = min 3 t" "of_int (bk_last (cdb_refill now b) - bk_last b) = d"
      using pos by (simp_all add: r d_def)
    show ?thesis
    proof (cases "e \<le> 100000000000")
      case True
      define g where "g = go_seconds e"
      define w :: rat where "w = of_int e / 1000000000"
      have w: "0 \<le> w" "w \<le> 100" using pos True by (simp_all add: w_def divide_le_eq)
      have g: "\<bar>g - w\<bar> \<le> 1 / 8796093022208" using go_seconds_near [of e] pos True by (simp add: g_def w_def)
      then have "\<bar>g / 30\<bar> \<le> 128" using w by linarith
      then have fx: "\<bar>x - g / 30\<bar> \<le> 1 / 70368744177664" unfolding x_def g_def by (rule fl_near)
      have "\<bar>bk_tokens b + x\<bar> \<le> 128" using fx g w assms by linarith
      then have ft: "\<bar>t - (bk_tokens b + x)\<bar> \<le> 1 / 70368744177664" unfolding t_def by (rule fl_near)
      have "w / 30 \<le> d / 30000000000" using d by (simp add: w_def)
      with ft fx g have "t \<le> bk_tokens b + d / 30000000000 + rate_slack / 2" unfolding rate_slack_def by linarith
      then show ?thesis unfolding new by linarith
    next
      case False
      then have "(100000000000 :: rat) \<le> of_int e" by simp
      with d have "3 \<le> d / 30000000000" by simp
      then show ?thesis using assms unfolding new rate_slack_def by linarith
    qed
  next
    case False
    then show ?thesis by (simp add: r rate_slack_def)
  qed
qed

lemma spend_bounds:
  assumes "1 \<le> t" and "t \<le> 3"
  shows "0 \<le> fl (t - 1)" and "fl (t - 1) \<le> 3" and "fl (t - 1) \<le> t - 1 + rate_slack / 2"
proof -
  have "\<bar>t - 1\<bar> \<le> 128" using assms by simp
  then have "\<bar>fl (t - 1) - (t - 1)\<bar> \<le> 1 / 70368744177664" by (rule fl_near)
  then show "fl (t - 1) \<le> 3" "fl (t - 1) \<le> t - 1 + rate_slack / 2" using assms unfolding rate_slack_def by linarith+
  show "0 \<le> fl (t - 1)" using assms by (simp add: fl_nonneg)
qed


subsection \<open>Facts about eviction\<close>

lemma foldl_older:
  assumes "acc = None \<or> (\<exists>m v. acc = Some (m, bk_last v) \<and> fmlookup l m = Some v)"
  shows "(case foldl (older l) acc ks of
           None \<Rightarrow> acc = None \<and> (\<forall>k\<in>set ks. fmlookup l k = None)
         | Some (m, t) \<Rightarrow> (\<exists>v. fmlookup l m = Some v \<and> bk_last v = t)
             \<and> (\<forall>k\<in>set ks. \<forall>v. fmlookup l k = Some v \<longrightarrow> t \<le> bk_last v)
             \<and> (\<forall>m' t'. acc = Some (m', t') \<longrightarrow> t \<le> t'))"
  using assms
proof (induction ks arbitrary: acc)
  case Nil
  then show ?case by (auto split: option.splits)
next
  case (Cons k ks)
  have ok: "older l acc k = None \<or> (\<exists>m v. older l acc k = Some (m, bk_last v) \<and> fmlookup l m = Some v)"
    using Cons.prems by (auto simp: older_def split: option.splits)
  show ?case
    using Cons.IH [OF ok] Cons.prems
    by (cases "foldl (older l) (older l acc k) ks") (auto simp: older_def split: option.splits if_splits; force)+
qed

text \<open>What is evicted is a bucket that was touched least recently.\<close>

lemma evict_oldest_least:
  assumes "fset (fmdom l) = set ks" and "fmlookup l k0 = Some v0" and "[] |\<notin>| fmdom l"
  shows "\<exists>m v. fmlookup l m = Some v \<and> evict_oldest ks l = fmdrop m l
      \<and> (\<forall>k w. fmlookup l k = Some w \<longrightarrow> bk_last v \<le> bk_last w)"
proof -
  have dom: "k \<in> set ks" if "fmlookup l k = Some w" for k w
    using that assms(1) fmdomI by fastforce
  note least = foldl_older [of None l ks, simplified]
  show ?thesis
  proof (cases "foldl (older l) None ks")
    case None
    with least dom [OF assms(2)] assms(2) show ?thesis by simp
  next
    case (Some mt)
    obtain m t where m: "mt = (m, t)" by (cases mt)
    with least Some obtain v where v: "fmlookup l m = Some v" "bk_last v = t"
      and le: "\<forall>k\<in>set ks. \<forall>w. fmlookup l k = Some w \<longrightarrow> t \<le> bk_last w" by auto
    have "m \<noteq> []" using v(1) assms(3) fmdomI by fastforce
    with Some m have "evict_oldest ks l = fmdrop m l" by (simp add: evict_oldest_def)
    with v le dom show ?thesis by blast
  qed
qed

lemma evict_oldest_room:
  assumes "fset (fmdom l) = set ks" and "fmlookup l k0 = Some v0" and "[] |\<notin>| fmdom l"
  shows "fcard (fmdom (evict_oldest ks l)) < fcard (fmdom l)" and "fmdom (evict_oldest ks l) |\<subseteq>| fmdom l"
proof -
  from evict_oldest_least [OF assms] obtain m v
    where m: "fmlookup l m = Some v" "evict_oldest ks l = fmdrop m l" by blast
  have "m |\<in>| fmdom l" using m(1) by (rule fmdomI)
  then have "fmdom (evict_oldest ks l) |\<subset>| fmdom l" unfolding m(2) by auto
  then show "fcard (fmdom (evict_oldest ks l)) < fcard (fmdom l)" "fmdom (evict_oldest ks l) |\<subseteq>| fmdom l"
    by (auto intro: pfsubset_fcard_mono)
qed

text \<open>The number of buckets stays within its ceiling, whatever addresses ask.\<close>

lemma tracked_bounded:
  assumes "cdb_authorize flag r l = (x, l')"
    and "fset (fmdom l) = set (cr_order r)" and "request_ip (cr_remote r) \<noteq> []"
    and "[] |\<notin>| fmdom l" and "int (fcard (fmdom l)) \<le> cdb_max_tracked"
  shows "[] |\<notin>| fmdom l' \<and> int (fcard (fmdom l')) \<le> cdb_max_tracked"
proof -
  define ip where "ip = request_ip (cr_remote r)"
  have drop: "fcard (fmdom (fmdrop ip l)) \<le> fcard (fmdom l)" by (auto intro: fcard_mono)
  have upd: "int (fcard (fmdom (fmupd ip b l))) \<le> cdb_max_tracked" if "fmlookup l ip = Some b0" for b b0
    using that assms(5) by (simp add: finsert_absorb fmdomI)
  have new: "[] |\<notin>| fmdom l1 \<and> int (fcard (finsert ip (fmdom l1))) \<le> cdb_max_tracked"
    if "l1 = (if cdb_max_tracked \<le> int (fcard (fmdom l)) then evict_oldest (cr_order r) l else l)" for l1
  proof (cases "cdb_max_tracked \<le> int (fcard (fmdom l))")
    case True
    then have "fmdom l \<noteq> {||}" by (auto simp: cdb_max_tracked_def fcard_fempty)
    then obtain k0 v0 where k0: "fmlookup l k0 = Some v0" by (metis all_not_fin_conv fmdomE)
    note room = evict_oldest_room [OF assms(2) k0 assms(4)]
    have "int (fcard (finsert ip (fmdom l1))) \<le> int (fcard (fmdom l1)) + 1" by (simp add: fcard_finsert_if)
    also have "\<dots> \<le> int (fcard (fmdom l))" using room(1) True that by simp
    finally show ?thesis using room(2) True that assms(4,5) by auto
  next
    case False
    then show ?thesis using that assms(4) by (simp add: fcard_finsert_if)
  qed
  show ?thesis
    using assms(1,3,4,5) drop upd new [OF refl]
    by (auto simp: cdb_authorize_def Let_def cdb_allow_def cdb_forget_def ip_def [symmetric] split: if_splits option.splits prod.splits)
qed

subsection \<open>Facts about the rate\<close>

text \<open>
  What is known of the bucket of \<open>ip\<close> after \<open>n\<close> of its requests since the bucket was made, \<open>k\<close> of them
  admitted, all of them between \<open>a\<close> and \<open>z\<close>.
\<close>

definition bucket_ok :: "time \<Rightarrow> time \<Rightarrow> nat \<Rightarrow> nat \<Rightarrow> cdb_bucket \<Rightarrow> bool" where
  "bucket_ok a z k n b \<longleftrightarrow>
     0 \<le> bk_tokens b \<and> bk_tokens b \<le> 3 \<and> a \<le> bk_last b \<and> bk_last b \<le> z
     \<and> bk_tokens b \<le> 3 - of_nat k + of_int (bk_last b - a) / 30000000000 + of_nat n * rate_slack"

text \<open>
  The same over the lives of the buckets of \<open>ip\<close>: \<open>v\<close> of them have been evicted, to which \<open>k1\<close> of the
  admissions and \<open>n1\<close> of the requests belong.
\<close>

definition life_budget :: "time \<Rightarrow> time \<Rightarrow> rat" where "life_budget a z = 3 + of_int (z - a) / 30000000000"

definition cdb_limiter_ok :: "string \<Rightarrow> time \<Rightarrow> time \<Rightarrow> nat \<Rightarrow> nat \<Rightarrow> nat \<Rightarrow> cdb_limiter \<Rightarrow> bool" where
  "cdb_limiter_ok ip a z v k n l \<longleftrightarrow>
     (\<exists>k1 k2 n1 n2. k = k1 + k2 \<and> n = n1 + n2 \<and> of_nat k1 \<le> of_nat v * life_budget a z + of_nat n1 * rate_slack
        \<and> (case fmlookup l ip of None \<Rightarrow> k2 = 0 | Some b \<Rightarrow> bucket_ok a z k2 n2 b))"

lemma bucket_spent:
  assumes "bucket_ok a z k n b"
  shows "of_nat k \<le> life_budget a z + of_nat n * rate_slack"
proof -
  have "(of_int (bk_last b - a) :: rat) / 30000000000 \<le> of_int (z - a) / 30000000000"
    using assms by (simp add: bucket_ok_def divide_right_mono)
  with assms show ?thesis unfolding bucket_ok_def life_budget_def by linarith
qed

text \<open>The bucket of \<open>ip\<close> is gone: evicted, or it was not there.\<close>

lemma limiter_gone:
  assumes "cdb_limiter_ok ip a z v k n l" and "fmlookup l' ip = None"
  shows "cdb_limiter_ok ip a z (if fmlookup l ip = None then v else Suc v) k n l'"
proof -
  obtain k1 k2 n1 n2 where k: "k = k1 + k2" "n = n1 + n2" "of_nat k1 \<le> of_nat v * life_budget a z + of_nat n1 * rate_slack"
    and c: "case fmlookup l ip of None \<Rightarrow> k2 = 0 | Some b \<Rightarrow> bucket_ok a z k2 n2 b"
    using assms(1) unfolding cdb_limiter_ok_def by blast
  show ?thesis
  proof (cases "fmlookup l ip")
    case None
    with k c assms(2) show ?thesis unfolding cdb_limiter_ok_def
      by (intro exI [of _ k1] exI [of _ 0] exI [of _ n1] exI [of _ n2]) simp
  next
    case (Some b)
    with c have "of_nat k2 \<le> life_budget a z + of_nat n2 * rate_slack" by (simp add: bucket_spent)
    with k have "of_nat (k1 + k2) \<le> of_nat (Suc v) * life_budget a z + of_nat (n1 + n2) * rate_slack"
      by (simp add: algebra_simps)
    with Some k assms(2) show ?thesis unfolding cdb_limiter_ok_def
      by (intro exI [of _ k] exI [of _ 0] exI [of _ n] exI [of _ 0]) simp
  qed
qed

lemma bucket_new: "a \<le> now \<Longrightarrow> now \<le> z \<Longrightarrow> bucket_ok a z 1 (Suc n) \<lparr>bk_tokens = 2, bk_last = now\<rparr>"
  by (simp add: bucket_ok_def rate_slack_def add_nonneg_nonneg)

lemma bucket_refill:
  assumes "bucket_ok a z k n b" and "now \<le> z"
  shows "0 \<le> bk_tokens (cdb_refill now b)" and "bk_tokens (cdb_refill now b) \<le> 3"
    and "a \<le> bk_last (cdb_refill now b)" and "bk_last (cdb_refill now b) \<le> z"
    and "bk_tokens (cdb_refill now b)
      \<le> 3 - of_nat k + of_int (bk_last (cdb_refill now b) - a) / 30000000000 + of_nat n * rate_slack + rate_slack / 2"
proof -
  have t: "0 \<le> bk_tokens b" "bk_tokens b \<le> 3" using assms(1) by (auto simp: bucket_ok_def)
  note r = refill_bounds [OF t, of now]
  show "0 \<le> bk_tokens (cdb_refill now b)" "bk_tokens (cdb_refill now b) \<le> 3" by (fact r(1) r(2))+
  show "a \<le> bk_last (cdb_refill now b)" "bk_last (cdb_refill now b) \<le> z"
    using r(3,4) assms by (auto simp: bucket_ok_def)
  define p q :: rat where "p = of_int (bk_last (cdb_refill now b) - bk_last b) / 30000000000"
    and "q = of_int (bk_last b - a) / 30000000000"
  have "of_int (bk_last (cdb_refill now b) - a) / 30000000000 = p + q"
    by (simp add: p_def q_def add_divide_distrib [symmetric] of_int_add [symmetric] del: of_int_diff of_int_add)
  with r(5) assms(1) show "bk_tokens (cdb_refill now b)
      \<le> 3 - of_nat k + of_int (bk_last (cdb_refill now b) - a) / 30000000000 + of_nat n * rate_slack + rate_slack / 2"
    unfolding bucket_ok_def p_def [symmetric] q_def [symmetric] by linarith
qed

lemma bucket_step:
  assumes "bucket_ok a z k n b" and "now \<le> z"
  shows "1 \<le> bk_tokens (cdb_refill now b)
      \<Longrightarrow> bucket_ok a z (Suc k) (Suc n) (cdb_refill now b\<lparr>bk_tokens := fl (bk_tokens (cdb_refill now b) - 1)\<rparr>)"
    and "bucket_ok a z k (Suc n) (cdb_refill now b)"
proof -
  note r = bucket_refill [OF assms]
  have s: "of_nat (Suc n) * rate_slack = of_nat n * rate_slack + rate_slack" "0 \<le> rate_slack"
    by (simp_all add: algebra_simps rate_slack_def)
  show "bucket_ok a z (Suc k) (Suc n) (cdb_refill now b\<lparr>bk_tokens := fl (bk_tokens (cdb_refill now b) - 1)\<rparr>)"
    if one: "1 \<le> bk_tokens (cdb_refill now b)"
  proof -
    note p = spend_bounds [OF one r(2)]
    have "fl (bk_tokens (cdb_refill now b) - 1)
        \<le> 3 - of_nat (Suc k) + of_int (bk_last (cdb_refill now b) - a) / 30000000000 + of_nat (Suc n) * rate_slack"
      using p(3) r(5) unfolding s(1) unfolding of_nat_Suc by linarith
    with p(1,2) r(3,4) show ?thesis by (simp add: bucket_ok_def)
  qed
  show "bucket_ok a z k (Suc n) (cdb_refill now b)"
    using r s unfolding bucket_ok_def s(1) by auto
qed

lemma limiter_step:
  assumes "cdb_limiter_ok ip a z v k n l" and "a \<le> cr_now r" and "cr_now r \<le> z"
    and "trim_space flag \<noteq> []" and "request_ip (cr_remote r) = ip \<Longrightarrow> trim_space (cr_token r) \<noteq> trim_space flag"
    and "cdb_authorize flag r l = (x, l')"
  shows "cdb_limiter_ok ip a z (if fmlookup l ip \<noteq> None \<and> fmlookup l' ip = None then Suc v else v)
      (if request_ip (cr_remote r) = ip \<and> x = Untrusted then Suc k else k)
      (if request_ip (cr_remote r) = ip then Suc n else n) l'"
proof -
  define i where "i = request_ip (cr_remote r)"
  obtain k1 k2 n1 n2 where k: "k = k1 + k2" "n = n1 + n2" "of_nat k1 \<le> of_nat v * life_budget a z + of_nat n1 * rate_slack"
    and c: "case fmlookup l ip of None \<Rightarrow> k2 = 0 | Some b \<Rightarrow> bucket_ok a z k2 n2 b"
    using assms(1) unfolding cdb_limiter_ok_def by blast
  show ?thesis
  proof (cases "i = ip")
    case other: False
    have "fmlookup l' ip = fmlookup l ip \<or> fmlookup l' ip = None"
    proof (cases "trim_space (cr_token r) = trim_space flag")
      case True
      with assms(4,6) other show ?thesis by (auto simp: cdb_authorize_def Let_def cdb_forget_def i_def)
    next
      case False
      then obtain adm w where "cdb_allow (cr_order r) i (cr_now r) l = ((adm, w), l')"
        using assms(4,6) by (auto simp: cdb_authorize_def Let_def i_def [symmetric] split: prod.splits bool.splits)
      with other show ?thesis
        by (auto simp: cdb_allow_def Let_def evict_oldest_def split: option.splits if_splits prod.splits)
    qed
    then show ?thesis
    proof
      assume same: "fmlookup l' ip = fmlookup l ip"
      then have "cdb_limiter_ok ip a z v k n l'" using assms(1) by (simp add: cdb_limiter_ok_def)
      with same other show ?thesis by (auto simp: i_def)
    next
      assume gone: "fmlookup l' ip = None"
      from limiter_gone [OF assms(1) gone] gone other show ?thesis by (cases "fmlookup l ip") (simp_all add: i_def)
    qed
  next
    case own: True
    then have ri: "request_ip (cr_remote r) = ip" by (simp add: i_def)
    then obtain adm w where al: "cdb_allow (cr_order r) ip (cr_now r) l = ((adm, w), l')" and x: "x = Untrusted \<longleftrightarrow> adm"
      using assms(4-6) by (auto simp: cdb_authorize_def Let_def split: prod.splits bool.splits)
    have step: "cdb_limiter_ok ip a z v (if adm then Suc k else k) (Suc n) l' \<and> fmlookup l' ip \<noteq> None"
    proof (cases "fmlookup l ip")
      case None
      with al have l': "adm" "fmlookup l' ip = Some \<lparr>bk_tokens = 2, bk_last = cr_now r\<rparr>"
        by (auto simp: cdb_allow_def Let_def new_tokens split: if_splits)
      with None c k bucket_new [OF assms(2,3), of n2] show ?thesis
        unfolding cdb_limiter_ok_def
        by (intro conjI exI [of _ k1] exI [of _ 1] exI [of _ n1] exI [of _ "Suc n2"]) simp_all
    next
      case (Some b)
      define d where "d = cdb_refill (cr_now r) b"
      have l': "adm \<longleftrightarrow> 1 \<le> bk_tokens d"
        "fmlookup l' ip = Some (if 1 \<le> bk_tokens d then d\<lparr>bk_tokens := fl (bk_tokens d - 1)\<rparr> else d)"
        using al Some by (auto simp: cdb_allow_def Let_def d_def split: if_splits)
      have "bucket_ok a z k2 n2 b" using c Some by simp
      note st = bucket_step [OF this assms(3), folded d_def]
      with l' k show ?thesis unfolding cdb_limiter_ok_def
        by (intro conjI exI [of _ k1] exI [of _ "if adm then Suc k2 else k2"] exI [of _ n1] exI [of _ "Suc n2"]) simp_all
    qed
    with x ri show ?thesis by auto
  qed
qed

text \<open>How often the bucket of \<open>ip\<close> disappears under requests of others.\<close>

fun evictions :: "string \<Rightarrow> string \<Rightarrow> cdb_request list \<Rightarrow> cdb_limiter \<Rightarrow> nat" where
  "evictions flag ip [] l = 0"
| "evictions flag ip (r # rs) l =
     (let l1 = snd (cdb_authorize flag r l)
      in (if fmlookup l ip \<noteq> None \<and> fmlookup l1 ip = None then 1 else 0) + evictions flag ip rs l1)"

text \<open>No bucket is evicted while no more addresses ask than the table has room for.\<close>

lemma no_evictions:
  assumes "fset (fmdom l) \<subseteq> S" and "finite S" and "card S \<le> 4096"
    and "\<forall>r\<in>set rs. request_ip (cr_remote r) \<in> S
      \<and> (request_ip (cr_remote r) = ip \<longrightarrow> trim_space (cr_token r) \<noteq> trim_space flag)"
  shows "evictions flag ip rs l = 0"
  using assms(1,4)
proof (induction rs arbitrary: l)
  case (Cons r rs)
  define i where "i = request_ip (cr_remote r)"
  obtain x l1 where s: "cdb_authorize flag r l = (x, l1)" by fastforce
  have i: "i \<in> S" using Cons.prems(2) by (simp add: i_def)
  have room: "\<not> cdb_max_tracked \<le> int (fcard (fmdom l))" if "fmlookup l i = None"
  proof -
    have "fset (fmdom l) \<subset> S" using Cons.prems(1) i that by (auto simp: fmlookup_dom_iff)
    then have "fcard (fmdom l) < card S" using assms(2) by (simp add: fcard.rep_eq psubset_card_mono)
    then show ?thesis using assms(3) by (simp add: cdb_max_tracked_def)
  qed
  have allow: "cdb_allow ks i t l = (y, l2) \<Longrightarrow> fset (fmdom l2) \<subseteq> S \<and> (fmlookup l ip \<noteq> None \<longrightarrow> fmlookup l2 ip \<noteq> None)" for ks t y l2
    using room Cons.prems(1) i by (auto simp: cdb_allow_def Let_def split: option.splits if_splits)
  have "fset (fmdom l1) \<subseteq> S \<and> (fmlookup l ip \<noteq> None \<longrightarrow> fmlookup l1 ip \<noteq> None)"
  proof (cases "trim_space flag = [] \<or> trim_space (cr_token r) = trim_space flag")
    case True
    with s Cons.prems show ?thesis
      by (auto simp: cdb_authorize_def Let_def cdb_forget_def split: if_splits)
  next
    case False
    then obtain y where "cdb_allow (cr_order r) i (cr_now r) l = (y, l1)"
      using s by (auto simp: cdb_authorize_def Let_def i_def split: prod.splits bool.splits)
    with allow show ?thesis by blast
  qed
  with Cons.IH [of l1] Cons.prems(2) s show ?case by auto
qed simp

text \<open>An eviction removes a bucket that was not used longer than any other, from a full table.\<close>

lemma eviction_oldest:
  assumes "cdb_authorize flag r l = (x, l')" and "fmlookup l ip = Some b" and "fmlookup l' ip = None"
    and "request_ip (cr_remote r) \<noteq> ip" and "fset (fmdom l) = set (cr_order r)" and "[] |\<notin>| fmdom l"
  shows "cdb_max_tracked \<le> int (fcard (fmdom l)) \<and> (\<forall>j c. fmlookup l j = Some c \<longrightarrow> bk_last b \<le> bk_last c)"
proof -
  have full: "cdb_max_tracked \<le> int (fcard (fmdom l))" "fmlookup (evict_oldest (cr_order r) l) ip = None"
    using assms(1-4) by (auto simp: cdb_authorize_def cdb_allow_def cdb_forget_def Let_def split: if_splits option.splits prod.splits)
  obtain m v where m: "fmlookup l m = Some v" "evict_oldest (cr_order r) l = fmdrop m l"
    "\<forall>k w. fmlookup l k = Some w \<longrightarrow> bk_last v \<le> bk_last w"
    using evict_oldest_least [OF assms(5,2,6)] by blast
  then have "m = ip" using full(2) assms(2) by (auto split: if_splits)
  with m full(1) assms(2) show ?thesis by simp
qed

fun from_ip :: "string \<Rightarrow> cdb_request list \<Rightarrow> nat" where
  "from_ip ip [] = 0"
| "from_ip ip (r # rs) = (if request_ip (cr_remote r) = ip then Suc (from_ip ip rs) else from_ip ip rs)"

definition admitted :: "string \<Rightarrow> cdb_request list \<Rightarrow> cdb_access list \<Rightarrow> nat" where
  "admitted ip rs as = length (filter (\<lambda>(r, x). request_ip (cr_remote r) = ip \<and> x = Untrusted) (zip rs as))"

lemma limiter_run:
  assumes "cdb_limiter_ok ip a z v k n l"
    and "\<forall>r\<in>set rs. a \<le> cr_now r \<and> cr_now r \<le> z
      \<and> (request_ip (cr_remote r) = ip \<longrightarrow> trim_space (cr_token r) \<noteq> trim_space flag)"
    and "trim_space flag \<noteq> []" and "cdb_requests flag rs l = (as, l')"
  shows "cdb_limiter_ok ip a z (v + evictions flag ip rs l) (k + admitted ip rs as) (n + from_ip ip rs) l'"
  using assms(1,2,4)
proof (induction rs arbitrary: v k n l as)
  case Nil
  then show ?case by (simp add: admitted_def)
next
  case (Cons r rs)
  obtain x l1 as1 where s: "cdb_authorize flag r l = (x, l1)" "cdb_requests flag rs l1 = (as1, l')" "as = x # as1"
    using Cons.prems(3) by (auto split: prod.splits)
  have c: "a \<le> cr_now r" "cr_now r \<le> z"
    "request_ip (cr_remote r) = ip \<Longrightarrow> trim_space (cr_token r) \<noteq> trim_space flag" using Cons.prems(2) by auto
  have "\<forall>r\<in>set rs. a \<le> cr_now r \<and> cr_now r \<le> z
      \<and> (request_ip (cr_remote r) = ip \<longrightarrow> trim_space (cr_token r) \<noteq> trim_space flag)" using Cons.prems(2) by simp
  from Cons.IH [OF limiter_step [OF Cons.prems(1) c(1,2) assms(3) c(3) s(1)] this s(2)]
  show ?case by (auto simp: s admitted_def split: if_splits)
qed

text \<open>
  C33: with a configured token, in any interleaving of requests from any number of addresses that starts
  with an empty limiter, an address that never presents the token is admitted at most three times plus
  once for every thirty seconds between the first and the last request, and as often again for every
  time its bucket was evicted to make room for others. With at most 4096 addresses nothing is evicted;
  with more, it is the bucket not used for longest (\<open>eviction_oldest\<close>). The rounding of the bucket's
  \<open>float64\<close> can add at most the last term, which stays below one until the address has sent a million
  million requests. Without a configured token nothing is bounded (\<open>no_token_unlimited\<close>).
\<close>

theorem untrusted_rate_bounded:
  assumes "trim_space flag \<noteq> []"
    and "\<forall>r\<in>set rs. request_ip (cr_remote r) = ip \<longrightarrow> trim_space (cr_token r) \<noteq> trim_space flag"
    and "\<forall>r\<in>set rs. a \<le> cr_now r \<and> cr_now r \<le> z" and "a \<le> z"
  shows "of_nat (admitted ip rs (fst (cdb_requests flag rs cdb_limiter0)))
      \<le> (1 + of_nat (evictions flag ip rs cdb_limiter0)) * (3 + of_int (z - a) / 30000000000)
        + of_nat (from_ip ip rs) * (1 / 1099511627776 :: rat)
    \<and> (card ((\<lambda>r. request_ip (cr_remote r)) ` set rs) \<le> 4096 \<longrightarrow> evictions flag ip rs cdb_limiter0 = 0)"
proof
  let ?S = "(\<lambda>r. request_ip (cr_remote r)) ` set rs" and ?v = "evictions flag ip rs cdb_limiter0"
  obtain as l' where run: "cdb_requests flag rs cdb_limiter0 = (as, l')" by (cases "cdb_requests flag rs cdb_limiter0")
  have "cdb_limiter_ok ip a z 0 0 0 cdb_limiter0" by (simp add: cdb_limiter_ok_def cdb_limiter0_def)
  from limiter_run [OF this _ assms(1) run] assms(2,3)
  obtain k1 k2 n1 n2 where k: "admitted ip rs as = k1 + k2" "from_ip ip rs = n1 + n2"
      "of_nat k1 \<le> of_nat ?v * life_budget a z + of_nat n1 * rate_slack"
    and c: "case fmlookup l' ip of None \<Rightarrow> k2 = 0 | Some b \<Rightarrow> bucket_ok a z k2 n2 b"
    by (auto simp: cdb_limiter_ok_def)
  have pos: "0 \<le> of_nat n2 * rate_slack" "0 \<le> life_budget a z" using assms(4) by (simp_all add: rate_slack_def life_budget_def)
  have "of_nat k2 \<le> life_budget a z + of_nat n2 * rate_slack"
    using c pos bucket_spent [of a z k2 n2] by (cases "fmlookup l' ip") auto
  with k have "of_nat (admitted ip rs as) \<le> (1 + of_nat ?v) * life_budget a z + of_nat (from_ip ip rs) * rate_slack"
    by (simp add: algebra_simps)
  with run show "of_nat (admitted ip rs (fst (cdb_requests flag rs cdb_limiter0)))
      \<le> (1 + of_nat ?v) * (3 + of_int (z - a) / 30000000000) + of_nat (from_ip ip rs) * (1 / 1099511627776 :: rat)"
    by (simp add: rate_slack_def life_budget_def)
  show "card ?S \<le> 4096 \<longrightarrow> ?v = 0"
    using no_evictions [of cdb_limiter0 ?S rs ip flag] assms(2) by (auto simp: cdb_limiter0_def)
qed

definition example_flood :: "cdb_request list" where
  "example_flood =
     map (\<lambda>(ip, tok, t). \<lparr>cr_token = tok, cr_remote = ip, cr_now = t, cr_order = []\<rparr>)
       [(''10.0.0.1:5000'', [], 0), (''10.0.0.1:5001'', [], 1000000000), (''10.0.0.2:5000'', ''secret'', 1000000000),
        (''10.0.0.1:5002'', ''guess'', 2000000000), (''10.0.0.1:5003'', [], 3000000000), (''10.0.0.1:5004'', [], 33000000000)]"

lemma example_flood_answers:
  "fst (cdb_requests ''secret'' example_flood cdb_limiter0)
   = [Untrusted, Untrusted, Trusted, Untrusted, RateLimited 27, Untrusted]"
  by code_simp

lemma untrusted_rate_bounded_witness:
  "admitted ''10.0.0.1'' example_flood (fst (cdb_requests ''secret'' example_flood cdb_limiter0)) = 4
   \<and> of_nat (admitted ''10.0.0.1'' example_flood (fst (cdb_requests ''secret'' example_flood cdb_limiter0)))
      \<le> 3 + of_int (33000000000 - 0) / 30000000000 + of_nat (from_ip ''10.0.0.1'' example_flood) * (1 / 1099511627776 :: rat)"
proof
  show "admitted ''10.0.0.1'' example_flood (fst (cdb_requests ''secret'' example_flood cdb_limiter0)) = 4"
    unfolding example_flood_answers by code_simp
  have "card ((\<lambda>r. request_ip (cr_remote r)) ` set example_flood) \<le> length example_flood"
    by (metis card_length length_map list.set_map)
  then have card: "card ((\<lambda>r. request_ip (cr_remote r)) ` set example_flood) \<le> 4096" by (simp add: example_flood_def)
  have flag: "trim_space ''secret'' \<noteq> []" by code_simp
  have "list_all (\<lambda>r. request_ip (cr_remote r) = ''10.0.0.1'' \<longrightarrow> trim_space (cr_token r) \<noteq> trim_space ''secret'') example_flood"
    by code_simp
  then have tok: "\<forall>r\<in>set example_flood. request_ip (cr_remote r) = ''10.0.0.1'' \<longrightarrow> trim_space (cr_token r) \<noteq> trim_space ''secret''"
    by (simp only: list_all_iff)
  show "of_nat (admitted ''10.0.0.1'' example_flood (fst (cdb_requests ''secret'' example_flood cdb_limiter0)))
      \<le> 3 + of_int (33000000000 - 0) / 30000000000 + of_nat (from_ip ''10.0.0.1'' example_flood) * (1 / 1099511627776 :: rat)"
  proof -
    have times: "\<forall>r\<in>set example_flood. 0 \<le> cr_now r \<and> cr_now r \<le> 33000000000" by (simp add: example_flood_def)
    note b = untrusted_rate_bounded [OF flag tok times, simplified]
    then have e: "evictions ''secret'' ''10.0.0.1'' example_flood cdb_limiter0 = 0" using card by blast
    show ?thesis using b unfolding e by simp
  qed
qed

subsection \<open>Behaviours worth knowing\<close>

text \<open>Without a configured token every request is let through and no bucket is touched.\<close>

lemma no_token_unlimited: "trim_space flag = [] \<Longrightarrow> cdb_authorize flag r l = (Trusted, l)"
  by (simp add: cdb_authorize_def)

lemma token_never_limited: "trim_space (cr_token r) = trim_space flag \<Longrightarrow> fst (cdb_authorize flag r l) = Trusted"
  by (simp add: cdb_authorize_def Let_def)

text \<open>The announced waiting time is cut to whole seconds: a client that waits exactly as told is refused again.\<close>

definition early_bucket :: cdb_bucket where
  "early_bucket = \<lparr>bk_tokens = 4803839602528529 / 288230376151711744, bk_last = 500000000\<rparr>"

lemma early_refill: "bk_tokens (cdb_refill 500000000 \<lparr>bk_tokens = 0, bk_last = 0\<rparr>) = bk_tokens early_bucket"
  by code_simp

lemma early_refill_last: "bk_last (cdb_refill 500000000 \<lparr>bk_tokens = 0, bk_last = 0\<rparr>) = bk_last early_bucket"
  by code_simp

lemma early_wait: "go_trunc (fl (fl (1 - bk_tokens early_bucket) * of_int cdb_refill_every)) = 29500000000"
  by code_simp

lemma early_retry: "retry_after 29500000000 = 29"
  by code_simp

lemma early_again: "bk_tokens (cdb_refill (500000000 + seconds 29) early_bucket) < 1"
  by code_simp

lemma retry_after_short:
  "\<exists>l1. cdb_allow ks ip 500000000 (fmupd ip \<lparr>bk_tokens = 0, bk_last = 0\<rparr> l) = ((False, 29500000000), l1)
      \<and> \<not> fst (fst (cdb_allow ks ip (500000000 + seconds (retry_after 29500000000)) l1))"
proof -
  have "cdb_refill 500000000 \<lparr>bk_tokens = 0, bk_last = 0\<rparr> = early_bucket"
    using early_refill early_refill_last by (rule cdb_bucket.equality) simp
  moreover have "\<not> 1 \<le> bk_tokens early_bucket" by (simp add: early_bucket_def)
  ultimately have "cdb_allow ks ip 500000000 (fmupd ip \<lparr>bk_tokens = 0, bk_last = 0\<rparr> l)
      = ((False, 29500000000), fmupd ip early_bucket (fmupd ip \<lparr>bk_tokens = 0, bk_last = 0\<rparr> l))"
    by (simp add: cdb_allow_def Let_def early_wait)
  moreover have "\<not> fst (fst (cdb_allow ks ip (500000000 + seconds 29) (fmupd ip early_bucket l')))" for l'
    using early_again by (simp add: cdb_allow_def Let_def)
  ultimately show ?thesis unfolding early_retry by blast
qed

text \<open>An address without a name cannot be evicted; then the table grows past its ceiling.\<close>

lemma evict_unnamed: "evict_oldest [[]] (fmupd [] b fmempty) = fmupd [] b fmempty"
  by (simp add: evict_oldest_def older_def)

end
