(* ===== verification/Cdb_Publish.thy ===== *)
theory Cdb_Publish
  imports Cdb_Limiter Feed_Build
begin

text \<open>
  The publisher of the database (\<open>panel/cdbpublisher.go\<close>): which file names may be asked for, how a
  name is resolved through symbolic links inside the published directory, the digest with its cache,
  and the handlers for the manifest, the file, the health check and the list of sources. The files
  directory is given by an absolute path; a request sees one state of the file system.
\<close>

subsection \<open>Files and links\<close>

datatype fs_node = RegFile bytes time | DirNode | SymLink string | OtherNode | DeniedNode

text \<open>The entries of the file system by the names on the way from the root.\<close>

type_synonym fs_tree = "string list \<Rightarrow> fs_node option"

datatype walk_error = NoEntry | WalkFailed

text \<open>\<open>filepath.EvalSymlinks\<close>; the kernel walks the same way with fewer links.\<close>

function walk :: "fs_tree \<Rightarrow> int \<Rightarrow> string list \<Rightarrow> string list \<Rightarrow> walk_error + string list" where
  "walk F n dest [] = Inr dest"
| "walk F n dest (c # cs) =
     (if c = [] \<or> c = ''.'' then walk F n dest cs
      else if c = ''..'' then walk F n (butlast dest) cs
      else
        (case F (dest @ [c]) of
           None \<Rightarrow> Inl NoEntry
         | Some DeniedNode \<Rightarrow> Inl WalkFailed
         | Some (SymLink t) \<Rightarrow>
             if n \<le> 0 then Inl WalkFailed
             else walk F (n - 1) (if prefix ''/'' t then [] else dest) (split_on (CHR ''/'') t @ cs)
         | Some DirNode \<Rightarrow> walk F n (dest @ [c]) cs
         | Some _ \<Rightarrow> if cs = [] then Inr (dest @ [c]) else Inl WalkFailed))"
  by pat_completeness auto
termination
  by (relation "measures [\<lambda>(F, n, dest, cs). nat n, \<lambda>(F, n, dest, cs). length cs]") auto

definition full_path :: "string list \<Rightarrow> string" where "full_path cs = CHR ''/'' # join ''/'' cs"

definition eval_symlinks :: "fs_tree \<Rightarrow> string \<Rightarrow> walk_error + string" where
  "eval_symlinks F p = (case walk F 255 [] (split_on (CHR ''/'') p) of Inl e \<Rightarrow> Inl e | Inr cs \<Rightarrow> Inr (full_path cs))"

definition stat :: "fs_tree \<Rightarrow> string \<Rightarrow> walk_error + fs_node" where
  "stat F p =
     (case walk F 40 [] (split_on (CHR ''/'') p) of
        Inl e \<Rightarrow> Inl e
      | Inr [] \<Rightarrow> Inr DirNode
      | Inr cs \<Rightarrow> (case F cs of None \<Rightarrow> Inl NoEntry | Some x \<Rightarrow> Inr x))"

subsection \<open>Names and directories\<close>

definition hex_digest :: "string \<Rightarrow> bool" where "hex_digest m \<longleftrightarrow> length m = 64 \<and> list_all hex_byte m"

text \<open>\<open>cdbContentAddressedRE\<close>: the digest in the name.\<close>

definition content_addressed :: "string \<Rightarrow> string option" where
  "content_addressed name =
     (let m = (\<lambda>p. take 64 (drop (length p) name));
          ok = (\<lambda>p. prefix p name \<and> hex_digest (m p) \<and> drop (length p + 64) name = ''.db'')
      in if ok ''trust.'' then Some (m ''trust.'') else if ok ''blacklist.'' then Some (m ''blacklist.'') else None)"

definition cdb_active_names :: "string list" where "cdb_active_names = [''trust.db'', ''blacklist.db'']"

definition cdb_name_allowed :: "string \<Rightarrow> bool" where
  "cdb_name_allowed name \<longleftrightarrow> name \<in> {''trust.db'', ''blacklist.db''} \<or> content_addressed name \<noteq> None"

definition cdb_files_dir :: "string \<Rightarrow> string" where "cdb_files_dir flag = path_clean flag"

definition is_file_stat :: "walk_error + fs_node \<Rightarrow> bool" where
  "is_file_stat s = (case s of Inl _ \<Rightarrow> False | Inr x \<Rightarrow> x \<noteq> DirNode)"

definition cdb_active_name :: "fs_tree \<Rightarrow> string \<Rightarrow> string option" where
  "cdb_active_name F dir = List.find (\<lambda>name. is_file_stat (stat F (path_join dir name))) cdb_active_names"

text \<open>\<open>filepath.Rel\<close> on the names of the two cleaned paths.\<close>

fun strip_common :: "string list \<Rightarrow> string list \<Rightarrow> string list \<times> string list" where
  "strip_common (b # bs) (t # ts) = (if b = t then strip_common bs ts else (b # bs, t # ts))"
| "strip_common bs ts = (bs, ts)"

definition path_names :: "string \<Rightarrow> string list" where
  "path_names p = (if p = ''.'' then [] else filter (\<lambda>c. c \<noteq> []) (split_on (CHR ''/'') p))"

definition path_rel :: "string \<Rightarrow> string \<Rightarrow> string option" where
  "path_rel base targ =
     (let b = path_clean base; t = path_clean targ
      in if b = t then Some ''.''
         else if prefix ''/'' b \<noteq> prefix ''/'' t then None
         else
           (case strip_common (path_names b) (path_names t) of
              (bs, ts) \<Rightarrow>
                if bs \<noteq> [] \<and> hd bs = ''..'' then None
                else Some (join ''/'' (replicate (length bs) ''..'' @ ts))))"

definition cdb_within_dir :: "string \<Rightarrow> string \<Rightarrow> bool" where
  "cdb_within_dir dir path =
     (case path_rel dir path of None \<Rightarrow> False | Some rel \<Rightarrow> \<not> (rel = ''..'' \<or> prefix ''../'' rel))"

datatype cdb_error = CdbUnavailable | CdbForbidden | CdbFailed

definition walk_status :: "walk_error \<Rightarrow> cdb_error" where
  "walk_status e = (case e of NoEntry \<Rightarrow> CdbUnavailable | WalkFailed \<Rightarrow> CdbFailed)"

definition resolve_name :: "fs_tree \<Rightarrow> string \<Rightarrow> string \<Rightarrow> cdb_error + string" where
  "resolve_name F dir name =
     (let full = path_join dir name
      in if \<not> cdb_name_allowed name \<or> \<not> cdb_within_dir dir full then Inl CdbForbidden
         else
           (case eval_symlinks F dir of
              Inl _ \<Rightarrow> Inl CdbUnavailable
            | Inr real_dir \<Rightarrow>
                (case eval_symlinks F full of
                   Inl e \<Rightarrow> Inl (walk_status e)
                 | Inr resolved \<Rightarrow>
                     if \<not> cdb_within_dir real_dir resolved then Inl CdbForbidden
                     else
                       (case stat F resolved of
                          Inl e \<Rightarrow> Inl (walk_status e)
                        | Inr (RegFile b t) \<Rightarrow> Inr resolved
                        | Inr _ \<Rightarrow> Inl CdbForbidden))))"

definition resolve_cdb_path :: "fs_tree \<Rightarrow> string \<Rightarrow> string \<Rightarrow> cdb_error + string" where
  "resolve_cdb_path F dir name =
     (if name = [] then
        (case cdb_active_name F dir of None \<Rightarrow> Inl CdbUnavailable | Some active \<Rightarrow> resolve_name F dir active)
      else resolve_name F dir name)"

subsection \<open>Digests\<close>

record hash_cache =
  hc_path :: string
  hc_size :: int
  hc_mtime :: time
  hc_sum :: string

definition hash_cache0 :: hash_cache where
  "hash_cache0 = \<lparr>hc_path = [], hc_size = 0, hc_mtime = 0, hc_sum = []\<rparr>"

text \<open>
  \<open>cdbFileSHA256\<close> of a resolved path, which names a regular file; \<open>rd\<close> tells whether it can be opened
  and read.
\<close>

definition cdb_file_sha256 ::
  "lib \<Rightarrow> fs_tree \<Rightarrow> bool \<Rightarrow> string \<Rightarrow> hash_cache \<Rightarrow> (cdb_error + string \<times> int) \<times> hash_cache" where
  "cdb_file_sha256 L F rd path c =
     (case stat F path of
        Inl e \<Rightarrow> (Inl (walk_status e), c)
      | Inr (RegFile b t) \<Rightarrow>
          (let size = int (length b)
           in case content_addressed (path_base path) of
                Some digest \<Rightarrow> (Inr (digest, size), c)
              | None \<Rightarrow>
                  if hc_sum c \<noteq> [] \<and> hc_path c = path \<and> hc_size c = size \<and> hc_mtime c = t then (Inr (hc_sum c, size), c)
                  else if \<not> rd then (Inl CdbFailed, c)
                  else (let digest = sha256_hex L b
                        in (Inr (digest, size), \<lparr>hc_path = path, hc_size = size, hc_mtime = t, hc_sum = digest\<rparr>)))
      | Inr _ \<Rightarrow> (Inl CdbFailed, c))"

subsection \<open>Handlers\<close>

datatype cdb_method = GetMethod | HeadMethod | OtherMethod

record cdb_query = cdb_request +
  cq_method :: cdb_method
  cq_file :: string
  cq_host :: string
  cq_tls :: bool
  cq_proto :: string

text \<open>What the flags configure, the decoder of the sidecar and the formatter of times.\<close>

record cdb_sidecar =
  sd_version :: int
  sd_built_at :: string
  sd_entries :: int
  sd_source :: string

record cdb_conf =
  cp_token :: string
  cp_dir :: string
  cp_fallback :: string
  cp_sidecar :: "bytes \<Rightarrow> cdb_sidecar option"
  cp_rfc3339 :: "time \<Rightarrow> string"

record cdb_manifest =
  mf_version :: int
  mf_sha256 :: string
  mf_size :: int
  mf_built_at :: string
  mf_filename :: string
  mf_entries :: int
  mf_source :: string
  mf_download :: string

record cdb_sources =
  so_primary :: string
  so_fallback :: "string list"
  so_all :: "string list"
  so_by :: string
  so_command :: string

datatype cdb_reply =
    CdbStatus nat
  | CdbThrottled int
  | CdbHeaders
  | CdbManifest cdb_manifest
  | CdbFile string bytes
  | CdbHealthy string int string
  | CdbSources cdb_sources

text \<open>\<open>cdbRequireGET\<close> and \<open>cdbAuthorize\<close>; the reply that ends the request, if there is one.\<close>

definition cdb_guard :: "cdb_conf \<Rightarrow> cdb_query \<Rightarrow> cdb_limiter \<Rightarrow> cdb_reply option \<times> cdb_limiter" where
  "cdb_guard cf q l =
     (if cq_method q = OtherMethod then (Some (CdbStatus 405), l)
      else
        (case cdb_authorize (cp_token cf) (cdb_request.truncate q) l of
           (RateLimited secs, l') \<Rightarrow> (Some (CdbThrottled secs), l')
         | (_, l') \<Rightarrow> (None, l')))"

definition cdb_error_reply :: "cdb_error \<Rightarrow> cdb_reply" where
  "cdb_error_reply e = CdbStatus (case e of CdbForbidden \<Rightarrow> 403 | CdbUnavailable \<Rightarrow> 404 | CdbFailed \<Rightarrow> 500)"

definition query_path :: "cdb_conf \<Rightarrow> fs_tree \<Rightarrow> cdb_query \<Rightarrow> cdb_error + string" where
  "query_path cf F q = resolve_cdb_path F (cdb_files_dir (cp_dir cf)) (trim_space (cq_file q))"

definition read_regular :: "fs_tree \<Rightarrow> string \<Rightarrow> (bytes \<times> time) option" where
  "read_regular F p = (case stat F p of Inr (RegFile b t) \<Rightarrow> Some (b, t) | _ \<Rightarrow> None)"

definition cdb_file_built_at :: "cdb_conf \<Rightarrow> fs_tree \<Rightarrow> string \<Rightarrow> string" where
  "cdb_file_built_at cf F p = (case read_regular F p of None \<Rightarrow> [] | Some (b, t) \<Rightarrow> cp_rfc3339 cf t)"

definition merge_sidecar :: "cdb_sidecar \<Rightarrow> cdb_manifest \<Rightarrow> cdb_manifest" where
  "merge_sidecar s m =
     m\<lparr>mf_version := (if 0 < sd_version s then sd_version s else mf_version m),
       mf_built_at := (if sd_built_at s \<noteq> [] then sd_built_at s else mf_built_at m),
       mf_entries := (if 0 < sd_entries s then sd_entries s else mf_entries m),
       mf_source := (if sd_source s \<noteq> [] then sd_source s else mf_source m)\<rparr>"

definition cdb_merge_sidecar :: "cdb_conf \<Rightarrow> fs_tree \<Rightarrow> cdb_manifest \<Rightarrow> cdb_manifest" where
  "cdb_merge_sidecar cf F m =
     (case read_regular F (path_join (cdb_files_dir (cp_dir cf)) ''manifest.json'') of
        None \<Rightarrow> m
      | Some (b, t) \<Rightarrow> (case cp_sidecar cf b of None \<Rightarrow> m | Some s \<Rightarrow> merge_sidecar s m))"

definition download_route :: string where "download_route = ''/cdb/blacklist.db''"

definition handle_cdb_manifest ::
  "lib \<Rightarrow> cdb_conf \<Rightarrow> fs_tree \<Rightarrow> bool \<Rightarrow> cdb_query \<Rightarrow> cdb_limiter \<times> hash_cache \<Rightarrow> cdb_reply \<times> cdb_limiter \<times> hash_cache" where
  "handle_cdb_manifest L cf F rd q s =
     (case cdb_guard cf q (fst s) of
        (Some rep, l) \<Rightarrow> (rep, l, snd s)
      | (None, l) \<Rightarrow>
          (case query_path cf F q of
             Inl e \<Rightarrow> (cdb_error_reply e, l, snd s)
           | Inr path \<Rightarrow>
               (case cdb_file_sha256 L F rd path (snd s) of
                  (Inl e, c) \<Rightarrow> (cdb_error_reply e, l, c)
                | (Inr (digest, len), c) \<Rightarrow>
                    (let m = \<lparr>mf_version = 1, mf_sha256 = digest, mf_size = len, mf_built_at = cdb_file_built_at cf F path,
                              mf_filename = path_base path, mf_entries = 0, mf_source = [], mf_download = []\<rparr>;
                         m' = (cdb_merge_sidecar cf F m)\<lparr>mf_sha256 := digest, mf_size := len, mf_download := download_route\<rparr>
                     in ((if cq_method q = HeadMethod then CdbHeaders else CdbManifest m'), l, c)))))"

text \<open>\<open>handleCDBBlacklist\<close>; a plain request gets the whole file, and \<open>rd\<close> tells whether it can be opened.\<close>

definition handle_cdb_blacklist :: "cdb_conf \<Rightarrow> fs_tree \<Rightarrow> bool \<Rightarrow> cdb_query \<Rightarrow> cdb_limiter \<Rightarrow> cdb_reply \<times> cdb_limiter" where
  "handle_cdb_blacklist cf F rd q l =
     (case cdb_guard cf q l of
        (Some rep, l') \<Rightarrow> (rep, l')
      | (None, l') \<Rightarrow>
          (case query_path cf F q of
             Inl e \<Rightarrow> (cdb_error_reply e, l')
           | Inr path \<Rightarrow>
               (case read_regular F path of
                  None \<Rightarrow> (CdbStatus 404, l')
                | Some (b, t) \<Rightarrow>
                    ((if \<not> rd then CdbStatus 500 else if cq_method q = HeadMethod then CdbHeaders else CdbFile path b), l'))))"

definition handle_cdb_healthz :: "cdb_conf \<Rightarrow> fs_tree \<Rightarrow> bool \<Rightarrow> cdb_query \<Rightarrow> cdb_limiter \<Rightarrow> cdb_reply \<times> cdb_limiter" where
  "handle_cdb_healthz cf F rd q l =
     (case cdb_guard cf q l of
        (Some rep, l') \<Rightarrow> (rep, l')
      | (None, l') \<Rightarrow>
          (case query_path cf F q of
             Inl e \<Rightarrow> (CdbStatus 500, l')
           | Inr path \<Rightarrow>
               (case read_regular F path of
                  None \<Rightarrow> (CdbStatus 500, l')
                | Some (b, t) \<Rightarrow>
                    ((if \<not> rd then CdbStatus 500
                      else if cq_method q = HeadMethod then CdbHeaders
                      else CdbHealthy (path_base path) (int (length b)) (cp_rfc3339 cf t)), l'))))"

subsection \<open>Sources for the edges\<close>

definition http_url :: "string \<Rightarrow> bool" where "http_url u \<longleftrightarrow> prefix ''http://'' u \<or> prefix ''https://'' u"

fun add_fallbacks :: "string list \<Rightarrow> string list \<Rightarrow> string list" where
  "add_fallbacks out [] = out"
| "add_fallbacks out (part # ps) =
     (let u = trim_space part
      in if u = [] \<or> \<not> http_url u \<or> u \<in> set out then add_fallbacks out ps else add_fallbacks (out @ [u]) ps)"

definition parse_fallback_urls :: "string \<Rightarrow> string list" where
  "parse_fallback_urls raw = add_fallbacks [] (split_on (CHR '','') raw)"

definition cdb_self_url :: "cdb_query \<Rightarrow> string" where
  "cdb_self_url q =
     (let s0 = (if cq_tls q then ''https'' else ''http'');
          xf = trim_space (hd (split_on (CHR '','') (cq_proto q)));
          scheme = (if xf \<in> {''http'', ''https''} then xf else s0)
      in if cq_host q = [] then [] else scheme @ ''://'' @ cq_host q)"

definition sources_doc :: "cdb_conf \<Rightarrow> cdb_query \<Rightarrow> cdb_sources" where
  "sources_doc cf q =
     (let fallbacks = parse_fallback_urls (cp_fallback cf); self = cdb_self_url q;
          primary = (if self \<noteq> [] then self @ download_route else []);
          urls = (if self \<noteq> [] then [primary] else []) @ fallbacks
      in \<lparr>so_primary = primary, so_fallback = fallbacks, so_all = urls, so_by = self,
          so_command = (if fallbacks \<noteq> [] then ''update-blacklist.sh --set-cdb-sources '' @ [CHR 0x22] @ join '','' urls @ [CHR 0x22] else [])\<rparr>)"

definition handle_cdb_sources :: "cdb_conf \<Rightarrow> cdb_query \<Rightarrow> cdb_limiter \<Rightarrow> cdb_reply \<times> cdb_limiter" where
  "handle_cdb_sources cf q l =
     (case cdb_guard cf q l of
        (Some rep, l') \<Rightarrow> (rep, l')
      | (None, l') \<Rightarrow> ((if cq_method q = HeadMethod then CdbHeaders else CdbSources (sources_doc cf q)), l'))"

subsection \<open>Facts about paths\<close>

definition plain_names :: "string list \<Rightarrow> bool" where
  "plain_names cs \<longleftrightarrow> (\<forall>c\<in>set cs. c \<notin> {[], ''.'', ''..''} \<and> CHR ''/'' \<notin> set c)"

lemma split_on_join: "cs \<noteq> [] \<Longrightarrow> \<forall>c\<in>set cs. x \<notin> set c \<Longrightarrow> split_on x (join [x] cs) = cs"
  by (induction "[x]" cs rule: join.induct) (simp_all add: split_on_none split_on_append)

lemma full_path_names:
  assumes "plain_names cs"
  shows "split_on (CHR ''/'') (full_path cs) = [] # (if cs = [] then [[]] else cs)" and "path_names (full_path cs) = cs"
    and "path_clean (full_path cs) = full_path cs"
proof -
  have cs: "c \<noteq> []" "c \<noteq> ''.''" "c \<noteq> ''..''" "CHR ''/'' \<notin> set c" if "c \<in> set cs" for c
    using assms that by (auto simp: plain_names_def)
  show sp: "split_on (CHR ''/'') (full_path cs) = [] # (if cs = [] then [[]] else cs)"
    using split_on_join [of cs "CHR ''/''"] cs(4) by (simp add: full_path_def)
  have "full_path cs \<noteq> ''.''" by (simp add: full_path_def)
  moreover have "filter (\<lambda>c. c \<noteq> []) cs = cs" using cs(1) by (simp add: filter_id_conv)
  ultimately show "path_names (full_path cs) = cs" by (simp add: path_names_def sp)
  have "foldl (clean_step True) acc cs = acc @ cs" for acc
    using cs by (induction cs arbitrary: acc) (simp_all add: clean_step_def)
  then show "path_clean (full_path cs) = full_path cs"
    using sp by (simp add: path_clean_def full_path_def clean_step_def Let_def)
qed

lemma strip_common_rest: "strip_common bs ts = (bs', ts') \<Longrightarrow> \<exists>p. bs = p @ bs' \<and> ts = p @ ts'"
proof (induction bs ts rule: strip_common.induct)
  case (1 b bs t ts)
  then show ?case by (auto split: if_splits)
qed auto

text \<open>Containment of plain paths is containment of their names.\<close>

lemma within_names:
  assumes "plain_names ds" and "plain_names cs" and "cdb_within_dir (full_path ds) (full_path cs)"
  shows "\<exists>r. cs = ds @ r"
proof (cases "full_path ds = full_path cs")
  case True
  then have "ds = cs" using full_path_names(2) assms(1,2) by metis
  then show ?thesis by simp
next
  case False
  obtain bs ts where s: "strip_common ds cs = (bs, ts)" by (cases "strip_common ds cs")
  obtain p where p: "ds = p @ bs" "cs = p @ ts" using strip_common_rest [OF s] by blast
  note n = full_path_names(2,3) [OF assms(1)] full_path_names(2,3) [OF assms(2)]
  have "prefix ''/'' (full_path ds)" "prefix ''/'' (full_path cs)" by (simp_all add: full_path_def)
  with False s assms(3) n have rel: "\<not> (bs \<noteq> [] \<and> hd bs = ''..'')"
    "\<not> (join ''/'' (replicate (length bs) ''..'' @ ts) = ''..'' \<or> prefix ''../'' (join ''/'' (replicate (length bs) ''..'' @ ts)))"
    by (auto simp: cdb_within_dir_def path_rel_def Let_def split: if_splits)
  have "bs = []"
  proof (rule ccontr)
    assume "bs \<noteq> []"
    then obtain k where k: "length bs = Suc k" by (cases bs) auto
    define rest where "rest = replicate k ''..'' @ ts"
    have "join ''/'' (replicate (length bs) ''..'' @ ts) = join ''/'' (''..'' # rest)" by (simp add: k rest_def)
    then show False using rel(2) by (cases rest) simp_all
  qed
  with p show ?thesis by simp
qed

subsection \<open>Facts about walking\<close>

text \<open>Every name on the way is a directory and no link.\<close>

definition all_dirs :: "fs_tree \<Rightarrow> string list \<Rightarrow> bool" where
  "all_dirs F cs \<longleftrightarrow> (\<forall>k<length cs. F (take (Suc k) cs) = Some DirNode)"

lemma all_dirs_Nil [simp]: "all_dirs F []" by (simp add: all_dirs_def)

lemma all_dirs_snoc: "all_dirs F (cs @ [c]) \<longleftrightarrow> all_dirs F cs \<and> F (cs @ [c]) = Some DirNode"
  by (auto simp: all_dirs_def less_Suc_eq)

lemma all_dirs_butlast: "all_dirs F cs \<Longrightarrow> all_dirs F (butlast cs)"
  by (cases cs rule: rev_cases) (simp_all add: all_dirs_snoc)

definition walked :: "fs_tree \<Rightarrow> string list \<Rightarrow> bool" where
  "walked F cs \<longleftrightarrow> plain_names cs \<and> all_dirs F (butlast cs)
     \<and> (cs = [] \<or> (\<exists>x. F cs = Some x \<and> x \<noteq> DeniedNode \<and> (\<forall>t. x \<noteq> SymLink t)))"

lemma walked_dirs: "plain_names cs \<Longrightarrow> all_dirs F cs \<Longrightarrow> walked F cs"
  by (cases cs rule: rev_cases) (auto simp: walked_def all_dirs_snoc)

lemma walk_walked:
  assumes "plain_names dest" and "all_dirs F dest" and "\<forall>c\<in>set cs. CHR ''/'' \<notin> set c" and "walk F n dest cs = Inr r"
  shows "walked F r"
  using assms
proof (induction F n dest cs rule: walk.induct)
  case (1 F n dest)
  then show ?case by (simp add: walked_dirs)
next
  case (2 F n dest c cs)
  have plain: "plain_names (dest @ [c])" if "c \<noteq> []" "c \<noteq> ''.''" "c \<noteq> ''..''"
    using that 2 by (auto simp: plain_names_def)
  have popped: "plain_names (butlast dest)" using "2.prems"(1) by (auto simp: plain_names_def dest: in_set_butlastD)
  consider (skip) "c = [] \<or> c = ''.''"
    | (up) "c = ''..''"
    | (down) "c \<noteq> [] \<and> c \<noteq> ''.'' \<and> c \<noteq> ''..''" by blast
  then show ?case
  proof cases
    case skip
    with 2 show ?thesis by auto
  next
    case up
    then show ?thesis using "2.IH"(2) "2.prems" popped by (auto intro: all_dirs_butlast)
  next
    case down
    note down = conjunct1 [OF down] conjunct1 [OF conjunct2 [OF down]] conjunct2 [OF conjunct2 [OF down]]
    have last: "walked F (dest @ [c])" if "F (dest @ [c]) = Some x" "x \<noteq> DeniedNode" "\<forall>t. x \<noteq> SymLink t" for x
      using that plain down "2.prems"(2) by (simp add: walked_def)
    show ?thesis
    proof (cases "F (dest @ [c])")
      case None
      with down "2.prems" show ?thesis by auto
    next
      case (Some x)
      show ?thesis
      proof (cases x)
        case DirNode
        with down Some "2.prems" "2.IH"(3) plain show ?thesis by (auto simp: all_dirs_snoc)
      next
        case (SymLink t)
        then have n: "\<not> n \<le> 0" and w: "walk F (n - 1) (if prefix ''/'' t then [] else dest) (split_on (CHR ''/'') t @ cs) = Inr r"
          using down Some "2.prems"(4) by (auto split: if_splits)
        have "\<forall>c\<in>set (split_on (CHR ''/'') t @ cs). CHR ''/'' \<notin> set c"
          using "2.prems"(3) split_on_no_sep by fastforce
        then show ?thesis
          using "2.IH"(4) [of x t] down Some SymLink n w "2.prems"(1,2) by (auto simp: plain_names_def)
      qed (use down Some "2.prems" last in \<open>auto split: if_splits\<close>)
    qed
  qed
qed

lemma walk_split: "walk F n [] (split_on (CHR ''/'') p) = Inr r \<Longrightarrow> walked F r"
  using walk_walked [of "[]" F "split_on (CHR ''/'') p" n r] split_on_no_sep by (auto simp: plain_names_def)

text \<open>What has been walked is found again under its path, whatever number of links is allowed.\<close>

lemma walk_again:
  assumes "plain_names (ds @ cs)" and "all_dirs F (butlast (ds @ cs))" and "cs \<noteq> [] \<Longrightarrow> walked F (ds @ cs)"
  shows "walk F n ds cs = Inr (ds @ cs)"
  using assms
proof (induction cs arbitrary: ds)
  case (Cons c cs)
  have c: "c \<noteq> []" "c \<noteq> ''.''" "c \<noteq> ''..''" using Cons.prems(1) by (auto simp: plain_names_def)
  show ?case
  proof (cases cs)
    case Nil
    obtain x where "F (ds @ [c]) = Some x" "x \<noteq> DeniedNode" "\<forall>t. x \<noteq> SymLink t"
      using Cons.prems(3) Nil by (auto simp: walked_def)
    with c Nil show ?thesis by (cases x) auto
  next
    case (Cons c2 cs2)
    have "take (Suc (length ds)) (butlast (ds @ c # cs)) = ds @ [c]" using Cons by (simp add: butlast_append)
    moreover have "length ds < length (butlast (ds @ c # cs))" using Cons by simp
    ultimately have "F (ds @ [c]) = Some DirNode" using Cons.prems(2) unfolding all_dirs_def by metis
    with c Cons.IH [of "ds @ [c]"] Cons.prems show ?thesis by simp
  qed
qed simp

lemma stat_full:
  assumes "walked F cs" and "cs \<noteq> []"
  shows "stat F (full_path cs) = Inr (the (F cs))"
proof -
  have p: "plain_names cs" and d: "all_dirs F (butlast cs)" and "\<exists>x. F cs = Some x" using assms by (auto simp: walked_def)
  then have "walk F 40 [] (split_on (CHR ''/'') (full_path cs)) = Inr cs"
    using walk_again [of "[]" cs F 40] assms by (simp add: full_path_names(1))
  then show ?thesis using assms(2) \<open>\<exists>x. F cs = Some x\<close> by (auto simp: stat_def split: list.splits)
qed

subsection \<open>Facts about the published file\<close>

lemma resolve_name_ok:
  assumes "resolve_name F dir name = Inr path"
  shows "cdb_name_allowed name" and "\<exists>d r b t. walk F 255 [] (split_on (CHR ''/'') dir) = Inr d \<and> path = full_path (d @ r)
      \<and> walked F (d @ r) \<and> F (d @ r) = Some (RegFile b t) \<and> stat F path = Inr (RegFile b t)"
proof -
  from assms obtain real b t where r: "cdb_name_allowed name" "eval_symlinks F dir = Inr real"
    "eval_symlinks F (path_join dir name) = Inr path" "cdb_within_dir real path" "stat F path = Inr (RegFile b t)"
    by (auto simp: resolve_name_def Let_def split: if_splits sum.splits fs_node.splits)
  show "cdb_name_allowed name" by (fact r(1))
  from r(2) obtain d where d: "walk F 255 [] (split_on (CHR ''/'') dir) = Inr d" "real = full_path d"
    by (auto simp: eval_symlinks_def split: sum.splits)
  from r(3) obtain cs where cs: "walk F 255 [] (split_on (CHR ''/'') (path_join dir name)) = Inr cs" "path = full_path cs"
    by (auto simp: eval_symlinks_def split: sum.splits)
  have w: "walked F d" "walked F cs" using walk_split d(1) cs(1) by blast+
  then obtain rs where rs: "cs = d @ rs" using within_names r(4) d(2) cs(2) unfolding walked_def by blast
  have "cs \<noteq> []"
  proof
    assume "cs = []"
    then have "stat F path = Inr DirNode" by (simp add: cs(2) full_path_def stat_def)
    with r(5) show False by simp
  qed
  with stat_full [OF w(2)] r(5) cs(2) w(2) have "F cs = Some (RegFile b t)" by (auto simp: walked_def)
  with d(1) cs(2) w(2) rs r(5) show "\<exists>d r b t. walk F 255 [] (split_on (CHR ''/'') dir) = Inr d \<and> path = full_path (d @ r)
      \<and> walked F (d @ r) \<and> F (d @ r) = Some (RegFile b t) \<and> stat F path = Inr (RegFile b t)" by blast
qed

lemma resolve_cdb_path_ok:
  assumes "resolve_cdb_path F dir name = Inr path"
  shows "\<exists>d r b t. walk F 255 [] (split_on (CHR ''/'') dir) = Inr d \<and> path = full_path (d @ r)
      \<and> walked F (d @ r) \<and> F (d @ r) = Some (RegFile b t) \<and> stat F path = Inr (RegFile b t)"
    and "name = [] \<or> cdb_name_allowed name"
  using assms resolve_name_ok [of F dir _ path] by (auto simp: resolve_cdb_path_def split: if_splits option.splits)

text \<open>
  C37: whatever a client asks for, the publisher answers only with the whole content of one regular file
  whose name is one of the permitted ones and whose real place lies below the real place of the files
  directory: every name on the way from the root is a directory and none is a link, so neither the
  parameter nor a link inside the directory leads outside.
\<close>

theorem published_files_only:
  assumes "fst (handle_cdb_blacklist cf F rd q l) = CdbFile path content"
  shows "(trim_space (cq_file q) = [] \<or> cdb_name_allowed (trim_space (cq_file q)))
      \<and> (\<exists>d r t. walk F 255 [] (split_on (CHR ''/'') (cdb_files_dir (cp_dir cf))) = Inr d
           \<and> path = full_path (d @ r) \<and> plain_names (d @ r) \<and> all_dirs F (butlast (d @ r))
           \<and> F (d @ r) = Some (RegFile content t))"
proof -
  from assms obtain t where p: "query_path cf F q = Inr path" "read_regular F path = Some (content, t)"
    by (auto simp: handle_cdb_blacklist_def cdb_error_reply_def split: prod.splits option.splits sum.splits if_splits cdb_reply.splits)
      (auto simp: cdb_guard_def split: if_splits prod.splits cdb_access.splits)
  note ok = resolve_cdb_path_ok [OF p(1) [unfolded query_path_def]]
  from ok(1) p(2) show ?thesis using ok(2) by (fastforce simp: read_regular_def walked_def)
qed

subsection \<open>Facts about digests\<close>

text \<open>The digest of a file: the one in its name when it is named after a digest, else the one of its bytes.\<close>

definition file_digest :: "lib \<Rightarrow> string \<Rightarrow> bytes \<Rightarrow> string" where
  "file_digest L path b = (case content_addressed (path_base path) of Some x \<Rightarrow> x | None \<Rightarrow> sha256_hex L b)"

text \<open>A file that is not named after its digest and was changed has another size or another time.\<close>

definition changes_show :: "fs_tree \<Rightarrow> fs_tree \<Rightarrow> bool" where
  "changes_show F F' \<longleftrightarrow>
     (\<forall>p b t b'. content_addressed (path_base p) = None \<longrightarrow> stat F p = Inr (RegFile b t) \<longrightarrow> stat F' p = Inr (RegFile b' t)
        \<longrightarrow> length b = length b' \<longrightarrow> b = b')"

definition cache_ok :: "lib \<Rightarrow> fs_tree set \<Rightarrow> hash_cache \<Rightarrow> bool" where
  "cache_ok L T c \<longleftrightarrow>
     (hc_sum c \<noteq> [] \<longrightarrow> content_addressed (path_base (hc_path c)) = None \<longrightarrow>
       (\<forall>F\<in>T. \<forall>b. stat F (hc_path c) = Inr (RegFile b (hc_mtime c)) \<longrightarrow> int (length b) = hc_size c \<longrightarrow> hc_sum c = sha256_hex L b))"

lemma file_sha256_ok:
  assumes "cache_ok L T c" and "F \<in> T" and "\<forall>F'\<in>T. changes_show F F'"
    and "resolve_cdb_path F dir name = Inr path" and "cdb_file_sha256 L F rd path c = (res, c')"
  shows "cache_ok L T c'"
    and "res = Inr (m, n) \<Longrightarrow> \<exists>b t. stat F path = Inr (RegFile b t) \<and> m = file_digest L path b \<and> n = int (length b)"
proof -
  from resolve_cdb_path_ok(1) [OF assms(4)] obtain b t where st: "stat F path = Inr (RegFile b t)" by blast
  have same: "b' = b" if "content_addressed (path_base path) = None" "F' \<in> T" "stat F' path = Inr (RegFile b' t)" "length b' = length b" for F' b'
    using assms(3) st that unfolding changes_show_def by metis
  have fresh: "cache_ok L T \<lparr>hc_path = path, hc_size = int (length b), hc_mtime = t, hc_sum = sha256_hex L b\<rparr>"
    using same by (auto simp: cache_ok_def)
  have hit: "hc_sum c = sha256_hex L b" if "content_addressed (path_base path) = None" "hc_sum c \<noteq> []" "hc_path c = path"
      "hc_size c = int (length b)" "hc_mtime c = t"
    using assms(1,2) st that by (auto simp: cache_ok_def)
  show "cache_ok L T c'"
    using assms(1,5) fresh st by (auto simp: cdb_file_sha256_def Let_def split: option.splits if_splits)
  show "\<exists>b t. stat F path = Inr (RegFile b t) \<and> m = file_digest L path b \<and> n = int (length b)" if "res = Inr (m, n)"
    using assms(5) that st hit by (auto simp: cdb_file_sha256_def file_digest_def Let_def split: option.splits if_splits)
qed

fun manifest_run ::
  "lib \<Rightarrow> cdb_conf \<Rightarrow> (fs_tree \<times> bool \<times> cdb_query) list \<Rightarrow> cdb_limiter \<times> hash_cache \<Rightarrow> cdb_reply list" where
  "manifest_run L cf [] s = []"
| "manifest_run L cf ((F, rd, q) # rs) s =
     (let (rep, s') = handle_cdb_manifest L cf F rd q s in rep # manifest_run L cf rs s')"

definition describes :: "lib \<Rightarrow> cdb_conf \<Rightarrow> fs_tree \<Rightarrow> cdb_query \<Rightarrow> cdb_manifest \<Rightarrow> bool" where
  "describes L cf F q m \<longleftrightarrow>
     (\<exists>path content. mf_sha256 m = file_digest L path content \<and> mf_size m = int (length content) \<and> mf_filename m = path_base path
        \<and> (\<forall>l l'. cdb_guard cf q l = (None, l') \<longrightarrow> handle_cdb_blacklist cf F True q l = (CdbFile path content, l')))"

lemma merge_filename: "mf_filename (cdb_merge_sidecar cf F m) = mf_filename m"
  by (simp add: cdb_merge_sidecar_def merge_sidecar_def split: option.splits prod.splits)

lemma manifest_step:
  assumes "cache_ok L T (snd s)" and "F \<in> T" and "\<forall>F'\<in>T. changes_show F F'"
    and "handle_cdb_manifest L cf F rd q s = (rep, s')"
  shows "cache_ok L T (snd s')" and "rep = CdbManifest m \<Longrightarrow> describes L cf F q m"
proof -
  note step = file_sha256_ok [OF assms(1-3), of "cdb_files_dir (cp_dir cf)" "trim_space (cq_file q)"]
  show "cache_ok L T (snd s')"
    using assms(1,4) step(1)
    by (auto simp: handle_cdb_manifest_def query_path_def Let_def split: prod.splits option.splits sum.splits)
  assume rep: "rep = CdbManifest m"
  have no: "cdb_guard cf q (fst s) \<noteq> (Some (CdbManifest m), l)" for l
    by (auto simp: cdb_guard_def split: prod.splits cdb_access.splits)
  from assms(4) rep no obtain path digest len c
    where p: "query_path cf F q = Inr path" "cdb_file_sha256 L F rd path (snd s) = (Inr (digest, len), c)"
      and g: "cq_method q \<noteq> HeadMethod" and m: "mf_sha256 m = digest" "mf_size m = len" "mf_filename m = path_base path"
    by (auto simp: handle_cdb_manifest_def Let_def cdb_error_reply_def merge_filename
        split: prod.splits option.splits sum.splits if_splits)
  from step(2) [OF p(1) [unfolded query_path_def] p(2) refl] obtain b t
    where b: "stat F path = Inr (RegFile b t)" "digest = file_digest L path b" "len = int (length b)" by blast
  have "handle_cdb_blacklist cf F True q l = (CdbFile path b, l')" if "cdb_guard cf q l = (None, l')" for l l'
    using that p(1) b(1) g by (simp add: handle_cdb_blacklist_def read_regular_def)
  with b m show "describes L cf F q m" unfolding describes_def by blast
qed

text \<open>
  C38: in any series of requests, over any changes of the file system that show in the size or the time
  of a changed file (what the cache of digests goes by), every manifest the publisher answers with
  states the size and the name of the file that a download with the same parameter \<open>file\<close> gets at that
  moment, and as its digest the one in the name of a file that is named after a digest, as the builder
  names its databases (\<open>built_database_published\<close> shows that it is then the digest of the bytes), or
  else the digest of the bytes. With a parameter \<open>file\<close> the download address in the manifest is still
  the one without it (\<open>manifest_of_any_file\<close>).
\<close>

theorem manifest_describes_download:
  assumes "\<forall>(F, rd, q)\<in>set rs. (\<forall>(F', rd', q')\<in>set rs. changes_show F F')"
    and "i < length rs" and "rs ! i = (F, rd, q)" and "manifest_run L cf rs (l, hash_cache0) ! i = CdbManifest m"
  shows "describes L cf F q m"
proof -
  have run: "describes L cf F q m"
    if "cache_ok L T (snd s)" "\<forall>(F, rd, q)\<in>set rs. F \<in> T \<and> (\<forall>F'\<in>T. changes_show F F')"
      "i < length rs" "rs ! i = (F, rd, q)" "manifest_run L cf rs s ! i = CdbManifest m" for T s
    using that
  proof (induction rs arbitrary: i s)
    case (Cons r rs)
    obtain F0 rd0 q0 where r: "r = (F0, rd0, q0)" by (cases r)
    obtain rep s' where h: "handle_cdb_manifest L cf F0 rd0 q0 s = (rep, s')" by (cases "handle_cdb_manifest L cf F0 rd0 q0 s")
    have F0: "F0 \<in> T" "\<forall>F'\<in>T. changes_show F0 F'" using Cons.prems(2) r by auto
    note step = manifest_step [OF Cons.prems(1) F0 h]
    show ?case
    proof (cases i)
      case 0
      with Cons.prems r h step(2) show ?thesis by simp
    next
      case (Suc j)
      with Cons.prems r h Cons.IH [OF step(1), of j] show ?thesis by auto
    qed
  qed simp
  have "cache_ok L (fst ` set rs) (snd (l, hash_cache0))" by (simp add: cache_ok_def hash_cache0_def)
  moreover have "F \<in> fst ` set rs \<and> (\<forall>F'\<in>fst ` set rs. changes_show F F')"
    if "(F, rd, q) \<in> set rs" for F rd q
  proof -
    from assms(1) that have "\<forall>(F', rd', q')\<in>set rs. changes_show F F'" by blast
    then have "\<forall>F'\<in>fst ` set rs. changes_show F F'" by (simp add: split_def)
    with that show ?thesis by force
  qed
  then have "\<forall>(F, rd, q)\<in>set rs. F \<in> fst ` set rs \<and> (\<forall>F'\<in>fst ` set rs. changes_show F F')" by blast
  ultimately show ?thesis using run assms(2-4) by blast
qed

definition example_publisher :: cdb_conf where
  "example_publisher = \<lparr>cp_token = [], cp_dir = ''/f'', cp_fallback = [], cp_sidecar = (\<lambda>_. None), cp_rfc3339 = (\<lambda>_. ''t'')\<rparr>"

definition example_query :: cdb_query where
  "example_query = \<lparr>cr_token = [], cr_remote = ''10.0.0.1:5'', cr_now = 0, cr_order = [], cq_method = GetMethod, cq_file = [],
     cq_host = ''m'', cq_tls = True, cq_proto = []\<rparr>"

text \<open>The directory \<open>/f\<close> with \<open>trust.db\<close> as a link to \<open>a.db\<close>, and a link that leads out of it.\<close>

definition example_tree :: "bytes \<Rightarrow> time \<Rightarrow> fs_tree" where
  "example_tree b t cs =
     (if cs \<in> {[''f''], [''e'']} then Some DirNode
      else if cs = [''f'', ''trust.db''] then Some (SymLink ''a.db'')
      else if cs = [''f'', ''a.db''] then Some (RegFile b t)
      else if cs = [''f'', ''blacklist.db''] then Some (SymLink ''../e/secret'')
      else if cs = [''e'', ''secret''] then Some (RegFile ''s'' t)
      else None)"

lemma example_file:
  "fst (handle_cdb_blacklist example_publisher (example_tree ''data'' 7) True example_query fmempty) = CdbFile ''/f/a.db'' ''data''"
  by code_simp

text \<open>The other permitted name is a link to a file outside and is refused.\<close>

lemma example_escape:
  "fst (handle_cdb_blacklist example_publisher (example_tree ''data'' 7) True (example_query\<lparr>cq_file := ''blacklist.db''\<rparr>) fmempty) = CdbStatus 403"
  by code_simp

lemma published_files_only_witness:
  "(trim_space (cq_file example_query) = [] \<or> cdb_name_allowed (trim_space (cq_file example_query)))
   \<and> (\<exists>d r t. walk (example_tree ''data'' 7) 255 [] (split_on (CHR ''/'') (cdb_files_dir (cp_dir example_publisher))) = Inr d
        \<and> ''/f/a.db'' = full_path (d @ r) \<and> plain_names (d @ r) \<and> all_dirs (example_tree ''data'' 7) (butlast (d @ r))
        \<and> example_tree ''data'' 7 (d @ r) = Some (RegFile ''data'' t))"
  by (rule published_files_only [OF example_file])

text \<open>Two manifests, before and after the file was replaced.\<close>

definition example_lib :: lib where "example_lib = build_lib\<lparr>sha256_hex := (\<lambda>b. ''h'' @ b)\<rparr>"

definition example_manifests :: "(fs_tree \<times> bool \<times> cdb_query) list" where
  "example_manifests = [(example_tree ''data'' 7, True, example_query), (example_tree ''atad'' 8, True, example_query)]"

definition example_manifest :: cdb_manifest where
  "example_manifest = \<lparr>mf_version = 1, mf_sha256 = ''hatad'', mf_size = 4, mf_built_at = ''t'', mf_filename = ''a.db'',
     mf_entries = 0, mf_source = [], mf_download = ''/cdb/blacklist.db''\<rparr>"

lemma example_manifest_answer:
  "(case manifest_run example_lib example_publisher example_manifests (fmempty, hash_cache0) ! 1 of
      CdbManifest m \<Rightarrow> (mf_sha256 m, mf_size m, mf_filename m) | _ \<Rightarrow> ([], 0, [])) = (''hatad'', 4, ''a.db'')"
  by code_simp

subsection \<open>Publishing what the master has built\<close>

text \<open>The file system that a \<^typ>\<open>disk\<close> of the builder stands for, with its directories and times.\<close>

definition disk_tree :: "(string list \<Rightarrow> bool) \<Rightarrow> (string \<Rightarrow> time) \<Rightarrow> disk \<Rightarrow> fs_tree" where
  "disk_tree dirs mtime w cs =
     (if dirs cs then Some DirNode
      else
        (case dk_links w (full_path cs) of
           Some t \<Rightarrow> Some (SymLink t)
         | None \<Rightarrow> map_option (\<lambda>b. RegFile b (mtime (full_path cs))) (dk_files w (full_path cs))))"

lemma walk_dirs:
  assumes "plain_names (ds @ cs)" and "all_dirs F (ds @ cs)"
  shows "walk F n ds (cs @ rest) = walk F n (ds @ cs) rest"
  using assms
proof (induction cs arbitrary: ds)
  case (Cons c cs)
  have c: "c \<noteq> []" "c \<noteq> ''.''" "c \<noteq> ''..''" using Cons.prems(1) by (auto simp: plain_names_def)
  have "take (Suc (length ds)) (ds @ c # cs) = ds @ [c]" by simp
  with Cons.prems(2) have "F (ds @ [c]) = Some DirNode" unfolding all_dirs_def by (metis length_append less_add_Suc1 list.size(4) add_Suc_right)
  with c Cons.IH [of "ds @ [c]"] Cons.prems show ?case by simp
qed simp

lemma join_full_path:
  assumes "plain_names d" and "plain_names [n]"
  shows "path_join (full_path d) n = full_path (d @ [n])"
proof -
  have n: "n \<noteq> []" "CHR ''/'' \<notin> set n" using assms(2) by (auto simp: plain_names_def)
  have p: "plain_names (d @ [n])" using assms by (auto simp: plain_names_def)
  have j: "path_join (full_path d) n = path_clean (full_path d @ ''/'' @ n)" using n(1) by (simp add: path_join_def full_path_def)
  show ?thesis
  proof (cases "d = []")
    case True
    have "split_on (CHR ''/'') (full_path d @ ''/'' @ n) = [[], [], n]" using n(2) by (simp add: True full_path_def split_on_none)
    then have "path_clean (full_path d @ ''/'' @ n) = full_path [n]"
      using assms(2) by (simp add: path_clean_def True full_path_def clean_step_def plain_names_def)
    with j True show ?thesis by simp
  next
    case False
    have "join ''/'' (cs @ [n]) = join ''/'' cs @ ''/'' @ n" if "cs \<noteq> []" for cs
      using that by (induction "''/''" cs rule: join.induct) simp_all
    with False have "full_path d @ ''/'' @ n = full_path (d @ [n])" by (simp add: full_path_def)
    with j full_path_names(3) [OF p] show ?thesis by simp
  qed
qed

lemma within_child:
  assumes "plain_names d" and "plain_names [n]" and "hd n \<noteq> CHR ''.''"
  shows "cdb_within_dir (full_path d) (full_path (d @ [n]))"
proof -
  have p: "plain_names (d @ [n])" using assms by (auto simp: plain_names_def)
  have ne: "full_path d \<noteq> full_path (d @ [n])"
    using full_path_names(2) [OF assms(1)] full_path_names(2) [OF p] by (metis append_self_conv not_Cons_self2)
  have "strip_common d (d @ [n]) = ([], [n])" by (induction d) simp_all
  moreover have "prefix ''/'' (full_path d)" "prefix ''/'' (full_path (d @ [n]))" by (simp_all add: full_path_def)
  ultimately have "path_rel (full_path d) (full_path (d @ [n])) = Some n"
    using ne full_path_names(2,3) [OF assms(1)] full_path_names(2,3) [OF p] by (simp add: path_rel_def Let_def)
  moreover have "n \<noteq> []" using assms(2) by (simp add: plain_names_def)
  ultimately show ?thesis using assms(3) by (cases n) (auto simp: cdb_within_dir_def)
qed

text \<open>A directory whose \<open>trust.db\<close> is a link to a file beside it.\<close>

definition linked_database :: "fs_tree \<Rightarrow> string list \<Rightarrow> string \<Rightarrow> bytes \<Rightarrow> time \<Rightarrow> bool" where
  "linked_database F d target b t \<longleftrightarrow>
     plain_names d \<and> all_dirs F d \<and> plain_names [target] \<and> hd target \<noteq> CHR ''.''
     \<and> F (d @ [''trust.db'']) = Some (SymLink (full_path (d @ [target]))) \<and> F (d @ [target]) = Some (RegFile b t)"

lemma linked_walks:
  assumes "linked_database F d target b t" and "0 < n"
  shows "walk F n [] (split_on (CHR ''/'') (full_path (d @ [target]))) = Inr (d @ [target])"
    and "walk F n [] (split_on (CHR ''/'') (full_path (d @ [''trust.db'']))) = Inr (d @ [target])"
    and "walk F n [] (split_on (CHR ''/'') (full_path d)) = Inr d"
proof -
  note l = assms(1) [unfolded linked_database_def]
  have p: "plain_names (d @ [target])" "plain_names (d @ [''trust.db''])" "plain_names d" using l by (auto simp: plain_names_def)
  have t: "target \<noteq> []" "target \<noteq> ''.''" "target \<noteq> ''..''" using l by (auto simp: plain_names_def)
  note wd = walk_dirs [of "[]" d F, simplified]
  have own: "walk F m [] (split_on (CHR ''/'') (full_path (d @ [target]))) = Inr (d @ [target])" for m
    using l t wd by (simp add: full_path_names(1) [OF p(1)])
  show "walk F n [] (split_on (CHR ''/'') (full_path (d @ [target]))) = Inr (d @ [target])" by (rule own)
  have "prefix ''/'' (full_path (d @ [target]))" by (simp add: full_path_def)
  then show "walk F n [] (split_on (CHR ''/'') (full_path (d @ [''trust.db'']))) = Inr (d @ [target])"
    using l wd assms(2) own [of "n - 1"] by (simp add: full_path_names(1) [OF p(2)])
  show "walk F n [] (split_on (CHR ''/'') (full_path d)) = Inr d"
    using wd [of n "[]"] l by (simp add: full_path_names(1) [OF p(3)])
qed

lemma linked_resolved:
  assumes "linked_database F d target b t"
  shows "resolve_cdb_path F (full_path d) [] = Inr (full_path (d @ [target]))"
    and "stat F (full_path (d @ [target])) = Inr (RegFile b t)"
proof -
  note l = assms [unfolded linked_database_def] and w = linked_walks [OF assms]
  have tr: "plain_names [''trust.db'']" by (simp add: plain_names_def)
  have st: "stat F (full_path (d @ [x])) = Inr (RegFile b t)" if "x \<in> {target, ''trust.db''}" for x
    using that w(1,2) [of 40] l by (auto simp: stat_def split: list.splits)
  then show "stat F (full_path (d @ [target])) = Inr (RegFile b t)" by simp
  have j: "path_join (full_path d) ''trust.db'' = full_path (d @ [''trust.db''])" using l tr by (simp add: join_full_path)
  have active: "cdb_active_name F (full_path d) = Some ''trust.db''"
    using st by (simp add: cdb_active_name_def cdb_active_names_def j is_file_stat_def)
  have "eval_symlinks F (full_path d) = Inr (full_path d)" "eval_symlinks F (full_path (d @ [''trust.db''])) = Inr (full_path (d @ [target]))"
    using w(2,3) [of 255] by (simp_all add: eval_symlinks_def)
  moreover have "cdb_within_dir (full_path d) (full_path (d @ [''trust.db'']))" "cdb_within_dir (full_path d) (full_path (d @ [target]))"
    using l tr by (simp_all add: within_child)
  ultimately have "resolve_name F (full_path d) ''trust.db'' = Inr (full_path (d @ [target]))"
    using st by (simp add: resolve_name_def Let_def j cdb_name_allowed_def)
  then show "resolve_cdb_path F (full_path d) [] = Inr (full_path (d @ [target]))"
    by (simp add: resolve_cdb_path_def active)
qed

lemma base_full_path: "plain_names [n] \<Longrightarrow> path_base (full_path (d @ [n])) = n"
proof -
  assume "plain_names [n]"
  then have n: "n \<noteq> []" "CHR ''/'' \<notin> set n" by (auto simp: plain_names_def)
  have "\<exists>p. full_path (d @ [n]) = p @ ''/'' @ n"
  proof (cases "d = []")
    case False
    have "join ''/'' (cs @ [n]) = join ''/'' cs @ ''/'' @ n" if "cs \<noteq> []" for cs
      using that by (induction "''/''" cs rule: join.induct) simp_all
    with False show ?thesis by (auto simp: full_path_def intro: exI [of _ "CHR ''/'' # join ''/'' d"])
  qed (simp add: full_path_def)
  then obtain p where p: "full_path (d @ [n]) = p @ ''/'' @ n" by blast
  have nr: "rev n \<noteq> []" "hd (rev n) \<noteq> CHR ''/''" using n by (metis hd_rev last_in_set rev_is_Nil_conv)+
  then have t: "trim_right_byte (full_path (d @ [n])) (CHR ''/'') = full_path (d @ [n])"
    using p by (cases "rev n") (auto simp: trim_right_byte_def)
  have "\<And>x. x \<in> set (rev n) \<Longrightarrow> x \<noteq> CHR ''/''" using n(2) by auto
  then have "takeWhile (\<lambda>c. c \<noteq> CHR ''/'') (rev n @ CHR ''/'' # rev p) = rev n"
    by (subst takeWhile_append2) simp_all
  then show ?thesis using t p n by (simp add: path_base_def Let_def)
qed

lemma trust_name_addressed: "content_addressed (trust_name sha) = Some x \<Longrightarrow> x = sha"
proof -
  assume a: "content_addressed (trust_name sha) = Some x"
  have nb: "\<not> prefix ''blacklist.'' (trust_name sha)" by (simp add: trust_name_def)
  have d: "drop (length ''trust.'') (trust_name sha) = sha @ ''.db''" "drop (length ''trust.'' + 64) (trust_name sha) = drop 64 (sha @ ''.db'')"
    by (simp_all add: trust_name_def)
  have "drop 64 (sha @ ''.db'') = ''.db''" "x = take 64 (sha @ ''.db'')"
    using a nb unfolding content_addressed_def Let_def d by (auto simp del: drop_append take_append split: if_splits)
  then show ?thesis by (metis append_eq_append_conv append_take_drop_id)
qed

text \<open>
  C36: after a build of the master that reports success and whose renames and symbolic link succeeded
  (their errors are ignored, so a build can report success and leave the old database in place), from
  feeds with plain names only, the publisher over the same directory answers a plain request with the
  database that was built: its lookups are those of the feeds, and the digest and the size of the
  manifest and the digest of the master's status are those of the bytes that are served.
\<close>

theorem built_database_published:
  assumes "build_master_cdb L c e m w = Some (None, m', w')" and "build_feeds L c e w = Some (wl, fs)"
    and "build_world_ok L c e wl fs" and "CHR ''/'' \<notin> set (ms_sha m')"
    and "bc_out c = full_path d" and "plain_names d" and "\<forall>k<length d. dirs (take (Suc k) d)"
    and "\<not> dirs (d @ [''trust.db''])" and "\<not> dirs (d @ [trust_name (ms_sha m')])"
    and "cp_dir cf = bc_out c" and "trim_space (cq_file q) = []" and "cq_method q = GetMethod"
    and "cdb_guard cf q l = (None, l')"
    and "link_calls_ok e" and "\<forall>p \<in> feed_names L (\<lambda>d. d \<in> set wl) fs. plain_name p"
  shows "\<exists>db man k. handle_cdb_blacklist cf (disk_tree dirs mtime w') True q l
        = (CdbFile (full_path (d @ [trust_name (ms_sha m')])) db, l')
      \<and> handle_cdb_manifest L cf (disk_tree dirs mtime w') True q (l, hash_cache0) = (CdbManifest man, l', k)
      \<and> ms_sha m' = sha256_hex L db \<and> mf_sha256 man = sha256_hex L db \<and> mf_size man = int (length db)
      \<and> (\<forall>n. plain_name n \<longrightarrow>
          cdb_contains L db n = Some (n \<in> feed_names L (\<lambda>x. x \<in> set wl) fs \<and> cdb_hash (the (wire_of n)) \<noteq> 0))"
proof -
  define F where "F = disk_tree dirs mtime w'"
  define img where "img = cdb_image L (build_entries L wl fs)"
  obtain w2 where w2: "w' = publish_build L c e img (length (build_entries L wl fs)) w2"
    "dk_files w2 (path_join (bc_out c) ''trust_building.tmp'') = Some img"
    "dk_links w2 (path_join (bc_out c) ''trust_building.tmp'') = None" "ms_sha m' = sha256_hex L img"
    using build_success [OF assms(1,2)] unfolding img_def by metis
  have ok: "link_calls_ok e" "build_paths c (sha256_hex L img) (be_listing e)"
    using assms(3,14) by (simp_all add: build_world_ok_def img_def)
  have names: "plain_names [trust_name (ms_sha m')]" "plain_names [''trust.db'']" "hd (trust_name (ms_sha m')) \<noteq> CHR ''.''"
    using assms(4) by (simp_all add: plain_names_def trust_name_def)
  have paths: "path_join (bc_out c) ''trust.db'' = full_path (d @ [''trust.db''])"
    "path_join (bc_out c) (trust_name (ms_sha m')) = full_path (d @ [trust_name (ms_sha m')])"
    using assms(5,6) names by (simp_all add: join_full_path)
  note lay = publish_build_layout [OF ok w2(2,3), of "length (build_entries L wl fs)",
      folded w2(1), folded w2(4), unfolded paths]
  have linked: "linked_database F d (trust_name (ms_sha m')) img (mtime (full_path (d @ [trust_name (ms_sha m')])))"
    using lay assms(6-9) names by (simp add: linked_database_def F_def disk_tree_def all_dirs_def)
  have dir: "cdb_files_dir (cp_dir cf) = full_path d"
    using assms(5,6,10) by (simp add: cdb_files_dir_def full_path_names(3))
  have path: "query_path cf F q = Inr (full_path (d @ [trust_name (ms_sha m')]))"
    using linked_resolved(1) [OF linked] dir assms(11) by (simp add: query_path_def)
  note st = linked_resolved(2) [OF linked]
  have served: "handle_cdb_blacklist cf F True q l = (CdbFile (full_path (d @ [trust_name (ms_sha m')])) img, l')"
    using path st assms(12,13) by (simp add: handle_cdb_blacklist_def read_regular_def)
  have base: "path_base (full_path (d @ [trust_name (sha256_hex L img)])) = trust_name (sha256_hex L img)"
    using base_full_path [OF names(1)] w2(4) by simp
  have "\<exists>k. cdb_file_sha256 L F True (full_path (d @ [trust_name (ms_sha m')])) hash_cache0 = (Inr (sha256_hex L img, int (length img)), k)"
    using st trust_name_addressed [of "ms_sha m'"] w2(4)
    by (auto simp: cdb_file_sha256_def base hash_cache0_def Let_def split: option.splits)
  then obtain k man where man: "handle_cdb_manifest L cf F True q (l, hash_cache0) = (CdbManifest man, l', k)"
    "mf_sha256 man = sha256_hex L img" "mf_size man = int (length img)"
    using path assms(12,13) by (auto simp: handle_cdb_manifest_def Let_def)
  have "cdb_contains L img n = Some (n \<in> feed_names L (\<lambda>x. x \<in> set wl) fs \<and> cdb_hash (the (wire_of n)) \<noteq> 0)"
    if "plain_name n" for n
    using assms(3,15) that unfolding build_world_ok_def writer_ok_def build_entries_keys img_def by (metis feed_database)
  with served man w2(4) show ?thesis unfolding F_def by blast
qed

lemma built_database_published_witness:
  "\<exists>m' w' db. build_master_cdb build_lib example_build example_build_env example_master example_disk = Some (None, m', w')
     \<and> fst (handle_cdb_blacklist example_publisher (disk_tree (\<lambda>cs. cs = [''f'']) (\<lambda>_. 0) w') True example_query cdb_limiter0)
       = CdbFile (full_path [''f'', trust_name (ms_sha m')]) db
     \<and> cdb_contains build_lib db ''a.b'' = Some True"
proof -
  obtain m' w' where b: "build_master_cdb build_lib example_build example_build_env example_master example_disk = Some (None, m', w')"
    using build_result_any [OF example_gather] by blast
  have sha: "ms_sha m' = ''00''"
    using build_success [OF b example_feeds] by (metis build_lib_simps(2))
  have out: "bc_out example_build = full_path [''f'']" by (simp add: example_build_def full_path_def)
  have g: "cdb_guard example_publisher example_query cdb_limiter0 = (None, cdb_limiter0)"
    by (simp add: cdb_guard_def cdb_authorize_def example_publisher_def example_query_def cdb_request.defs) 
  have t: "trim_space [] = []" by code_simp
  have "\<exists>db man k. handle_cdb_blacklist example_publisher (disk_tree (\<lambda>cs. cs = [''f'']) (\<lambda>_. 0) w') True example_query cdb_limiter0
        = (CdbFile (full_path ([''f''] @ [trust_name (ms_sha m')])) db, cdb_limiter0)
      \<and> handle_cdb_manifest build_lib example_publisher (disk_tree (\<lambda>cs. cs = [''f'']) (\<lambda>_. 0) w') True example_query (cdb_limiter0, hash_cache0)
        = (CdbManifest man, cdb_limiter0, k)
      \<and> ms_sha m' = sha256_hex build_lib db \<and> mf_sha256 man = sha256_hex build_lib db \<and> mf_size man = int (length db)
      \<and> (\<forall>n. plain_name n \<longrightarrow>
          cdb_contains build_lib db n = Some (n \<in> feed_names build_lib (\<lambda>x. x \<in> set [''x.y'']) [Some example_feed] \<and> cdb_hash (the (wire_of n)) \<noteq> 0))"
    by (rule built_database_published [OF b example_feeds example_build_ok(1) _ out _ _ _ _ _ _ _ g example_build_ok(2,3)])
      (simp_all add: sha t plain_names_def trust_name_def example_publisher_def example_build_def example_query_def)
  then show ?thesis using b example_name unfolding example_feed_names by (auto simp: example_key_hash)
qed

lemma example_tree_files: "example_tree b t cs = Some (RegFile x u) \<Longrightarrow> u = t \<and> cs \<in> {[''f'', ''a.db''], [''e'', ''secret'']}"
  by (simp add: example_tree_def split: if_splits)

lemma stat_tree: "stat F p = Inr (RegFile b t) \<Longrightarrow> \<exists>cs. F cs = Some (RegFile b t)"
  by (auto simp: stat_def split: sum.splits list.splits option.splits)

lemma manifest_describes_download_witness:
  "\<exists>m. manifest_run example_lib example_publisher example_manifests (fmempty, hash_cache0) ! 1 = CdbManifest m
     \<and> mf_sha256 m = ''hatad'' \<and> describes example_lib example_publisher (example_tree ''atad'' 8) example_query m"
proof -
  obtain m where m: "manifest_run example_lib example_publisher example_manifests (fmempty, hash_cache0) ! 1 = CdbManifest m"
    "mf_sha256 m = ''hatad''"
    using example_manifest_answer by (auto split: cdb_reply.splits)
  have times: "changes_show (example_tree b t) (example_tree b' t')" if "t \<noteq> t' \<or> b = b'" for b t b' t'
    unfolding changes_show_def
  proof (intro allI impI)
    fix p x u x'
    assume "content_addressed (path_base p) = None"
    assume s: "stat (example_tree b t) p = Inr (RegFile x u)" "stat (example_tree b' t') p = Inr (RegFile x' u)"
    then have "u = t" "u = t'" using stat_tree example_tree_files by blast+
    with that s show "x = x'" by simp
  qed
  have "describes example_lib example_publisher (example_tree ''atad'' 8) example_query m"
    by (rule manifest_describes_download [OF _ _ _ m(1)])
      (simp_all add: example_manifests_def times)
  with m show ?thesis by blast
qed

subsection \<open>Behaviours worth knowing\<close>

text \<open>
  The manifest of any file points to the route of the active one and carries the counters of the sidecar,
  also when a client asked for an older database by its name.
\<close>

lemma manifest_of_any_file:
  assumes "handle_cdb_manifest L cf F rd q s = (CdbManifest m, s')"
  shows "mf_download m = download_route"
    and "read_regular F (path_join (cdb_files_dir (cp_dir cf)) ''manifest.json'') = Some (b, t) \<Longrightarrow> cp_sidecar cf b = Some sd
      \<Longrightarrow> 0 < sd_entries sd \<Longrightarrow> mf_entries m = sd_entries sd"
proof -
  have no: "cdb_guard cf q (fst s) \<noteq> (Some (CdbManifest m), l)" for l
    by (auto simp: cdb_guard_def split: prod.splits cdb_access.splits)
  from assms no obtain m0 digest len where m: "m = (cdb_merge_sidecar cf F m0)\<lparr>mf_sha256 := digest, mf_size := len, mf_download := download_route\<rparr>"
    by (auto simp: handle_cdb_manifest_def Let_def cdb_error_reply_def split: prod.splits option.splits sum.splits if_splits)
  then show "mf_download m = download_route" by simp
  show "mf_entries m = sd_entries sd"
    if "read_regular F (path_join (cdb_files_dir (cp_dir cf)) ''manifest.json'') = Some (b, t)" "cp_sidecar cf b = Some sd" "0 < sd_entries sd"
    using that m by (simp add: cdb_merge_sidecar_def merge_sidecar_def)
qed

text \<open>The advertised sources: this publisher first, then different addresses of web servers.\<close>

lemma add_fallbacks_ok:
  "distinct out \<and> (\<forall>u\<in>set out. http_url u) \<Longrightarrow> distinct (add_fallbacks out ps) \<and> (\<forall>u\<in>set (add_fallbacks out ps). http_url u)"
proof (induction ps arbitrary: out)
  case (Cons part ps)
  define u where "u = trim_space part"
  show ?case
  proof (cases "u = [] \<or> \<not> http_url u \<or> u \<in> set out")
    case True
    then have "add_fallbacks out (part # ps) = add_fallbacks out ps" by (simp add: u_def Let_def)
    with Cons show ?thesis by metis
  next
    case False
    then have "add_fallbacks out (part # ps) = add_fallbacks (out @ [u]) ps" by (simp add: u_def Let_def)
    moreover have "distinct (out @ [u]) \<and> (\<forall>v\<in>set (out @ [u]). http_url v)" using False Cons.prems by simp
    ultimately show ?thesis using Cons.IH [of "out @ [u]"] by metis
  qed
qed simp

lemma sources_ordered:
  assumes "cq_host q \<noteq> []"
  shows "so_all (sources_doc cf q) = so_primary (sources_doc cf q) # so_fallback (sources_doc cf q)"
    and "distinct (so_fallback (sources_doc cf q))" and "\<forall>u\<in>set (so_all (sources_doc cf q)). http_url u"
proof -
  have self: "cdb_self_url q \<noteq> []" "http_url (cdb_self_url q @ r)" for r
    using assms by (auto simp: cdb_self_url_def Let_def http_url_def)
  have "distinct (parse_fallback_urls (cp_fallback cf)) \<and> (\<forall>u\<in>set (parse_fallback_urls (cp_fallback cf)). http_url u)"
    unfolding parse_fallback_urls_def by (rule add_fallbacks_ok) simp
  with self show "so_all (sources_doc cf q) = so_primary (sources_doc cf q) # so_fallback (sources_doc cf q)"
    "distinct (so_fallback (sources_doc cf q))" "\<forall>u\<in>set (so_all (sources_doc cf q)). http_url u"
    by (simp_all add: sources_doc_def Let_def)
qed

end
