(* ===== verification/Tproxy.thy ===== *)
theory Tproxy
  imports Go_Net
begin

text \<open>
  The transparent proxy (\<open>tools/dnsdist-tproxy/main_linux.go\<close>): the PROXYv2 header, the socket control
  messages that carry the original destination and the source of the answer, the admission of UDP
  queries and TCP sessions, one UDP exchange, and the deadlines of a TCP session. The machine is
  little-endian with 64 bits.
\<close>

subsection \<open>Numbers in bytes\<close>

type_synonym octets = "8 word list"

fun le_val :: "octets \<Rightarrow> int" where
  "le_val [] = 0"
| "le_val (b # bs) = uint b + 256 * le_val bs"

fun put_le :: "nat \<Rightarrow> int \<Rightarrow> octets" where
  "put_le 0 v = []"
| "put_le (Suc k) v = word_of_int v # put_le k (v div 256)"

definition be_val :: "octets \<Rightarrow> int" where "be_val bs = le_val (rev bs)"
definition put_be16 :: "int \<Rightarrow> octets" where "put_be16 v = rev (put_le 2 v)"

subsection \<open>Addresses\<close>

datatype go_addr = UdpAddr ip int | TcpAddr ip int | OtherAddr

definition address :: "go_addr \<Rightarrow> (ip \<times> int) option" where
  "address a =
     (let chk = (\<lambda>i p. if to4 i = [] \<or> p < 0 \<or> 65535 < p then None else Some (to4 i, p))
      in case a of UdpAddr i p \<Rightarrow> chk i p | TcpAddr i p \<Rightarrow> chk i p | OtherAddr \<Rightarrow> None)"

text \<open>\<open>net.IPv4\<close>\<close>

definition ipv4 :: "octets \<Rightarrow> ip" where "ipv4 q = v4_in_v6 @ q"

definition is_loopback4 :: "ip \<Rightarrow> bool" where "is_loopback4 i \<longleftrightarrow> i \<noteq> [] \<and> hd i = 127"

subsection \<open>The PROXYv2 header\<close>

definition proxy_signature :: octets where
  "proxy_signature = [13, 10, 13, 10, 0, 13, 10, 81, 85, 73, 84, 10]"

definition proxy_v2 :: "go_addr \<Rightarrow> go_addr \<Rightarrow> bool \<Rightarrow> octets option" where
  "proxy_v2 src dst tcp =
     (case address src of
        None \<Rightarrow> None
      | Some (src_ip, src_port) \<Rightarrow>
          (case address dst of
             None \<Rightarrow> None
           | Some (dst_ip, dst_port) \<Rightarrow>
               Some (proxy_signature @ [0x21, (if tcp then 0x11 else 0x12)] @ put_be16 12
                 @ take 4 src_ip @ take 4 dst_ip @ put_be16 src_port @ put_be16 dst_port)))"

subsection \<open>Socket control messages\<close>

record cmsg =
  cm_level :: int
  cm_type :: int
  cm_data :: octets

definition cmsg_align :: "nat \<Rightarrow> nat" where "cmsg_align n = (n + 7) div 8 * 8"

text \<open>\<open>syscall.ParseSocketControlMessage\<close>: a header of 16 bytes, the data, padding to eight bytes.\<close>

function parse_cmsgs :: "octets \<Rightarrow> cmsg list option" where
  "parse_cmsgs b =
     (if length b < 16 then Some []
      else
        (let len = nat (le_val (take 8 b))
         in if len < 16 \<or> length b < len then None
            else
              map_option (\<lambda>ms. \<lparr>cm_level = le_val (take 4 (drop 8 b)), cm_type = le_val (take 4 (drop 12 b)),
                                cm_data = drop 16 (take len b)\<rparr> # ms)
                (parse_cmsgs (drop (cmsg_align len) b))))"
  by pat_completeness auto
termination
  by (relation "measure length") (auto simp: cmsg_align_def Let_def)

declare parse_cmsgs.simps [simp del]

text \<open>\<open>putCmsg\<close> into a buffer of \<open>CmsgSpace\<close> zero bytes; the level is always \<open>IPPROTO_IP\<close>.\<close>

definition put_cmsg :: "int \<Rightarrow> octets \<Rightarrow> octets" where
  "put_cmsg typ data =
     (let len = 16 + length data
      in put_le 8 (int len) @ put_le 4 0 @ put_le 4 typ @ data @ replicate (cmsg_align len - len) 0)"

definition ip_orig_dst_addr :: int where "ip_orig_dst_addr = 20"
definition ip_pktinfo :: int where "ip_pktinfo = 8"

definition carries_destination :: "cmsg \<Rightarrow> bool" where
  "carries_destination m \<longleftrightarrow>
     cm_level m = 0 \<and> cm_type m = ip_orig_dst_addr \<and> 8 \<le> length (cm_data m) \<and> le_val (take 2 (cm_data m)) = 2"

definition original_destination :: "octets \<Rightarrow> go_addr option" where
  "original_destination oob =
     (case parse_cmsgs oob of
        None \<Rightarrow> None
      | Some ms \<Rightarrow>
          map_option (\<lambda>m. UdpAddr (ipv4 (take 4 (drop 4 (cm_data m)))) (be_val (take 2 (drop 2 (cm_data m)))))
            (List.find carries_destination ms))"

definition addr_ip :: "go_addr \<Rightarrow> ip" where
  "addr_ip a = (case a of UdpAddr i p \<Rightarrow> i | TcpAddr i p \<Rightarrow> i | OtherAddr \<Rightarrow> [])"

definition source_control :: "ip \<Rightarrow> octets" where
  "source_control i =
     put_cmsg ip_pktinfo (replicate 4 0 @ (if to4 i = [] then replicate 4 0 else to4 i) @ replicate 4 0)"

subsection \<open>Configuration\<close>

record tp_config =
  tc_source :: string
  tc_timeout :: duration
  tc_max :: int

text \<open>The checks of \<open>run\<close>; \<open>resolved\<close> tells whether the addresses of the listener and the backend resolve.\<close>

definition config_ok :: "bool \<Rightarrow> tp_config \<Rightarrow> bool" where
  "config_ok resolved c \<longleftrightarrow>
     1 \<le> tc_max c \<and> 0 < tc_timeout c \<and> resolved \<and> to4 (parse_ip (tc_source c)) \<noteq> [] \<and> is_loopback4 (to4 (parse_ip (tc_source c)))"

subsection \<open>Admission\<close>

datatype session = UdpSession octets go_addr go_addr | TcpSession go_addr go_addr

text \<open>A datagram with its control data and its sender, a connection with its two ends, the end of a session.\<close>

datatype tp_event = Datagram octets octets go_addr | Connection go_addr go_addr | Finished nat

datatype tp_action = Ignored | NoDestination | Overloaded | Started session | Ended

definition serve_udp :: "int \<Rightarrow> octets \<Rightarrow> octets \<Rightarrow> go_addr \<Rightarrow> session list \<Rightarrow> tp_action \<times> session list" where
  "serve_udp max_inflight buf oob client ss =
     (if length buf < 12 then (Ignored, ss)
      else
        (case original_destination oob of
           None \<Rightarrow> (NoDestination, ss)
         | Some dst \<Rightarrow>
             if int (length ss) < max_inflight
             then (Started (UdpSession buf client dst), ss @ [UdpSession buf client dst])
             else (Overloaded, ss)))"

definition serve_tcp :: "int \<Rightarrow> go_addr \<Rightarrow> go_addr \<Rightarrow> session list \<Rightarrow> tp_action \<times> session list" where
  "serve_tcp max_inflight client dst ss =
     (if int (length ss) < max_inflight then (Started (TcpSession client dst), ss @ [TcpSession client dst])
      else (Overloaded, ss))"

inductive tp_step :: "int \<Rightarrow> session list \<Rightarrow> tp_event \<Rightarrow> tp_action \<Rightarrow> session list \<Rightarrow> bool" for mx where
  datagram: "serve_udp mx buf oob client ss = (a, ss') \<Longrightarrow> tp_step mx ss (Datagram buf oob client) a ss'"
| connection: "serve_tcp mx client dst ss = (a, ss') \<Longrightarrow> tp_step mx ss (Connection client dst) a ss'"
| finished: "i < length ss \<Longrightarrow> tp_step mx ss (Finished i) Ended (take i ss @ drop (Suc i) ss)"

inductive_simps tp_step_simps: "tp_step mx ss (Datagram buf oob client) a ss'" "tp_step mx ss (Connection client dst) a ss'"
  "tp_step mx ss (Finished i) a ss'"

inductive_cases tp_stepE: "tp_step mx ss ev a ss'"

inductive tp_reach :: "int \<Rightarrow> session list \<Rightarrow> bool" for mx where
  start: "tp_reach mx []"
| step: "tp_reach mx ss \<Longrightarrow> tp_step mx ss ev a ss' \<Longrightarrow> tp_reach mx ss'"

subsection \<open>Exchanges\<close>

datatype udp_outcome = NoBackend | BadAddress | BackendFailed | ShortResponse | Answered octets octets go_addr

text \<open>
  \<open>proxyUDP\<close>: what is sent to the backend, and what becomes of it. \<open>dial\<close> tells whether the socket to the
  backend opens; \<open>backend\<close> is its answer to a datagram, absent on an error or after the timeout.
\<close>

definition proxy_udp :: "bool \<Rightarrow> (octets \<Rightarrow> octets option) \<Rightarrow> octets \<Rightarrow> go_addr \<Rightarrow> go_addr \<Rightarrow> octets option \<times> udp_outcome" where
  "proxy_udp dial backend query client dst =
     (if \<not> dial then (None, NoBackend)
      else
        (case proxy_v2 client dst False of
           None \<Rightarrow> (None, BadAddress)
         | Some header \<Rightarrow>
             (Some (header @ query),
              (case backend (header @ query) of
                 None \<Rightarrow> BackendFailed
               | Some r \<Rightarrow> if length r < 12 then ShortResponse else Answered r (source_control (addr_ip dst)) client))))"

text \<open>
  \<open>io.Copy\<close> from one connection to another: it ends when the source ends or its read deadline passes;
  when the destination takes nothing more from \<open>stall\<close> on, it ends at the write deadline. \<^const>\<open>None\<close> is
  never.
\<close>

definition earlier :: "time option \<Rightarrow> time option \<Rightarrow> time option" where
  "earlier a b = (case a of None \<Rightarrow> b | Some x \<Rightarrow> (case b of None \<Rightarrow> a | Some y \<Rightarrow> Some (min x y)))"

definition copy_end :: "time option \<Rightarrow> time option \<Rightarrow> time option \<Rightarrow> time option \<Rightarrow> time option" where
  "copy_end read_deadline source_end write_deadline stall =
     (let r = earlier read_deadline source_end
      in case stall of
           None \<Rightarrow> r
         | Some t \<Rightarrow>
             (case r of
                Some x \<Rightarrow> if x \<le> t then r else map_option (max t) write_deadline
              | None \<Rightarrow> map_option (max t) write_deadline))"

text \<open>
  What the two ends of a TCP session do: when each stops sending, and when each stops receiving.
\<close>

record tcp_peers =
  tp_client_end :: "time option"
  tp_client_stall :: "time option"
  tp_upstream_end :: "time option"
  tp_upstream_stall :: "time option"

text \<open>
  The end of \<open>proxyTCP\<close> after the header was written: both copies have to end. The write deadline of the
  upstream connection has been removed.
\<close>

definition tcp_session_end :: "time \<Rightarrow> time \<Rightarrow> duration \<Rightarrow> tcp_peers \<Rightarrow> time option" where
  "tcp_session_end accepted connected timeout p =
     (let cl = Some (accepted + timeout);
          up = copy_end cl (tp_client_end p) None (tp_upstream_stall p);
          down = copy_end (Some (connected + timeout)) (tp_upstream_end p) cl (tp_client_stall p)
      in case (up, down) of (Some a, Some b) \<Rightarrow> Some (max a b) | _ \<Rightarrow> None)"

subsection \<open>Facts about bytes\<close>

lemma put_le_length [simp]: "length (put_le k v) = k"
  by (induction k arbitrary: v) simp_all

lemma le_put: "0 \<le> v \<Longrightarrow> v < 256 ^ k \<Longrightarrow> le_val (put_le k v) = v"
proof (induction k arbitrary: v)
  case (Suc k)
  have "v div 256 < 256 ^ k" using Suc.prems by (auto simp: div_less_iff_less_mult mult.commute)
  moreover have "0 \<le> v div 256" using Suc.prems by (simp add: pos_imp_zdiv_nonneg_iff)
  moreover have "uint (word_of_int v :: 8 word) = v mod 256" by (simp add: uint_word_of_int)
  ultimately show ?case using Suc.IH by simp
qed simp

lemma be_put: "0 \<le> v \<Longrightarrow> v < 65536 \<Longrightarrow> be_val (put_be16 v) = v"
  by (simp add: be_val_def put_be16_def le_put)

lemma put_be16_length [simp]: "length (put_be16 v) = 2"
  by (simp add: put_be16_def)

lemma cmsg_align_ge: "n \<le> cmsg_align n"
  by (simp add: cmsg_align_def)

lemma put_cmsg_length [simp]: "length (put_cmsg typ data) = cmsg_align (16 + length data)"
  using cmsg_align_ge [of "16 + length data"] by (simp add: put_cmsg_def Let_def)

text \<open>A message that was put is parsed back, with what follows it.\<close>

lemma parse_put:
  assumes "0 \<le> typ" and "typ < 2 ^ 31" and "length data < 2 ^ 31"
  shows "parse_cmsgs (put_cmsg typ data @ rest) = map_option ((#) \<lparr>cm_level = 0, cm_type = typ, cm_data = data\<rparr>) (parse_cmsgs rest)"
proof -
  let ?b = "put_cmsg typ data @ rest" and ?n = "16 + length data"
  have ge: "?n \<le> cmsg_align ?n" by (rule cmsg_align_ge)
  have b: "?b = put_le 8 (int ?n) @ put_le 4 0 @ put_le 4 typ @ data @ replicate (cmsg_align ?n - ?n) 0 @ rest"
    by (simp add: put_cmsg_def Let_def)
  have len: "nat (le_val (take 8 ?b)) = ?n" using assms(3) by (simp add: b le_put)
  have "take 4 (drop 8 ?b) = put_le 4 0" "take 4 (drop 12 ?b) = put_le 4 typ" by (simp_all add: b)
  then have fields: "le_val (take 4 (drop 8 ?b)) = 0" "le_val (take 4 (drop 12 ?b)) = typ"
    using assms(1,2) by (simp_all add: le_put)
  have body: "drop 16 (take ?n ?b) = data" by (simp add: b)
  have rest: "drop (cmsg_align ?n) ?b = rest" by simp
  have "\<not> length ?b < 16" "\<not> (?n < 16 \<or> length ?b < ?n)" using ge by simp_all
  then show ?thesis
    by (subst parse_cmsgs.simps) (simp only: Let_def len fields body rest if_False option.map_comp o_def)
qed

lemma parse_empty [simp]: "parse_cmsgs [] = Some []"
  by (subst parse_cmsgs.simps) simp

subsection \<open>A reader of the header\<close>

text \<open>The PROXY protocol, version 2, as its specification reads it: IPv4 over TCP or UDP, then the payload.\<close>

definition read_proxy_v2 :: "octets \<Rightarrow> (bool \<times> (octets \<times> int) \<times> (octets \<times> int) \<times> octets) option" where
  "read_proxy_v2 b =
     (let n = nat (be_val (take 2 (drop 14 b))); body = take n (drop 16 b)
      in if length b < 16 \<or> take 12 b \<noteq> [0x0D, 0x0A, 0x0D, 0x0A, 0x00, 0x0D, 0x0A, 0x51, 0x55, 0x49, 0x54, 0x0A] then None
         else if b ! 12 \<noteq> 0x21 \<or> b ! 13 \<notin> {0x11, 0x12} \<or> n < 12 \<or> length body < n then None
         else Some (b ! 13 = 0x11, (take 4 body, be_val (take 2 (drop 8 body))),
                    (take 4 (drop 4 body), be_val (take 2 (drop 10 body))), drop (16 + n) b))"

lemma to4_length: "to4 i \<noteq> [] \<Longrightarrow> length (to4 i) = 4"
  by (auto simp: to4_def split: if_splits)

lemma address_range: "address a = Some (i, p) \<Longrightarrow> length i = 4 \<and> 0 \<le> p \<and> p \<le> 65535"
  by (auto simp: address_def Let_def to4_length split: go_addr.splits if_splits)

lemma header_read:
  assumes "address src = Some (sip, sport)" and "address dst = Some (dip, dport)"
  shows "\<exists>h. proxy_v2 src dst tcp = Some h \<and> length h = 28
    \<and> read_proxy_v2 (h @ payload) = Some (tcp, (sip, sport), (dip, dport), payload)"
proof -
  note s = address_range [OF assms(1)] and d = address_range [OF assms(2)]
  define fam :: "8 word" where "fam = (if tcp then 0x11 else 0x12)"
  define h where "h = proxy_signature @ [0x21, fam] @ put_be16 12 @ sip @ dip @ put_be16 sport @ put_be16 dport"
  have h: "proxy_v2 src dst tcp = Some h" using assms s d by (simp add: proxy_v2_def h_def fam_def)
  have sig: "length proxy_signature = 12" by (simp add: proxy_signature_def)
  have len: "length h = 28" using s d by (simp add: h_def sig)
  have "take 2 (drop 14 (h @ payload)) = put_be16 12" by (simp add: h_def sig)
  then have n: "nat (be_val (take 2 (drop 14 (h @ payload)))) = 12" by (simp add: be_put)
  have body: "take 12 (drop 16 (h @ payload)) = sip @ dip @ put_be16 sport @ put_be16 dport"
    using s d by (simp add: h_def sig)
  have fields: "take 12 (h @ payload) = proxy_signature" "(h @ payload) ! 12 = 0x21" "(h @ payload) ! 13 = fam"
    by (simp_all add: h_def sig nth_append)
  have ports: "be_val (put_be16 sport) = sport" "be_val (put_be16 dport) = dport" using s d by (simp_all add: be_put)
  have rest: "drop 28 (h @ payload) = payload" using len by simp
  have sigs: "proxy_signature = [0x0D, 0x0A, 0x0D, 0x0A, 0x00, 0x0D, 0x0A, 0x51, 0x55, 0x49, 0x54, 0x0A]"
    by (simp add: proxy_signature_def)
  have "read_proxy_v2 (h @ payload) = Some (fam = 0x11, (sip, sport), (dip, dport), payload)"
    unfolding read_proxy_v2_def Let_def n body fields sigs [symmetric]
    using s d len rest ports by (simp add: fam_def)
  moreover have "(fam = 0x11) = tcp" by (simp add: fam_def)
  ultimately show ?thesis using h len by simp
qed

text \<open>The control data of a datagram: other messages, then the address the kernel saved, then anything that parses.\<close>

definition kernel_oob :: "(int \<times> octets) list \<Rightarrow> octets \<Rightarrow> int \<Rightarrow> octets \<Rightarrow> octets" where
  "kernel_oob ms dip dport rest =
     concat (map (\<lambda>(t, d). put_cmsg t d) ms) @ put_cmsg ip_orig_dst_addr (put_le 2 2 @ put_be16 dport @ dip @ replicate 8 0) @ rest"

lemma kernel_destination:
  assumes "length dip = 4" and "0 \<le> dport" and "dport \<le> 65535" and "parse_cmsgs rest \<noteq> None"
    and "\<forall>(t, d)\<in>set ms. 0 \<le> t \<and> t < 2 ^ 31 \<and> t \<noteq> ip_orig_dst_addr \<and> length d < 2 ^ 31"
  shows "original_destination (kernel_oob ms dip dport rest) = Some (UdpAddr (ipv4 dip) dport)"
proof -
  let ?d = "put_le 2 2 @ put_be16 dport @ dip @ replicate 8 0"
  let ?m = "\<lparr>cm_level = 0, cm_type = ip_orig_dst_addr, cm_data = ?d\<rparr>"
  obtain rs where "parse_cmsgs rest = Some rs" using assms(4) by blast
  moreover have "0 \<le> ip_orig_dst_addr" "ip_orig_dst_addr < 2 ^ 31" "length ?d < 2 ^ 31"
    using assms(1) by (simp_all add: ip_orig_dst_addr_def)
  ultimately have p: "parse_cmsgs (put_cmsg ip_orig_dst_addr ?d @ rest) = Some (?m # rs)" by (simp only: parse_put option.map)
  have all: "parse_cmsgs (kernel_oob ms dip dport rest) = Some (map (\<lambda>(t, d). \<lparr>cm_level = 0, cm_type = t, cm_data = d\<rparr>) ms @ ?m # rs)"
    using assms(5)
  proof (induction ms)
    case Nil
    with p show ?case by (simp add: kernel_oob_def)
  next
    case (Cons x ms)
    obtain t d where x: "x = (t, d)" by (cases x)
    have "kernel_oob (x # ms) dip dport rest = put_cmsg t d @ kernel_oob ms dip dport rest" by (simp add: kernel_oob_def x)
    with Cons x show ?case by (simp add: parse_put)
  qed
  have two: "le_val (take 2 ?d) = 2" using le_put [of 2 2] by simp
  have m: "carries_destination ?m" using assms(1) two by (simp add: carries_destination_def del: put_le.simps)
  have "List.find carries_destination (map (\<lambda>(t, d). \<lparr>cm_level = 0, cm_type = t, cm_data = d\<rparr>) ms @ ?m # rs) = Some ?m"
    using assms(5) m by (induction ms) (auto simp: carries_destination_def)
  with all assms(1-3) show ?thesis by (simp add: original_destination_def be_put)
qed

lemma source_control_read: "length dip = 4 \<Longrightarrow>
  parse_cmsgs (source_control (ipv4 dip)) = Some [\<lparr>cm_level = 0, cm_type = ip_pktinfo, cm_data = replicate 4 0 @ dip @ replicate 4 0\<rparr>]"
proof -
  assume l: "length dip = 4"
  have "to4 (ipv4 dip) = dip" "dip \<noteq> []" using l by (auto simp: ipv4_def)
  with l parse_put [of ip_pktinfo "replicate 4 0 @ dip @ replicate 4 0" "[]"] show ?thesis
    by (simp add: source_control_def ip_pktinfo_def)
qed

text \<open>
  C39: a DNS query that arrives while there is room is started with the destination its control data
  names; the datagram sent to the backend reads, as PROXYv2, as a UDP query from the client to that
  destination with the same bytes; and an answer of the backend goes to the client unchanged, with
  control data that makes the kernel send it from the original destination.
\<close>

theorem transparent_udp:
  assumes "address client = Some (cip, cport)" and "length dip = 4" and "0 \<le> dport" and "dport \<le> 65535"
    and "12 \<le> length query" and "int (length ss) < mx" and "parse_cmsgs rest \<noteq> None"
    and "\<forall>(t, d)\<in>set ms. 0 \<le> t \<and> t < 2 ^ 31 \<and> t \<noteq> ip_orig_dst_addr \<and> length d < 2 ^ 31"
  shows "\<exists>dst dgram. tp_step mx ss (Datagram query (kernel_oob ms dip dport rest) client)
        (Started (UdpSession query client dst)) (ss @ [UdpSession query client dst])
      \<and> fst (proxy_udp True backend query client dst) = Some dgram
      \<and> read_proxy_v2 dgram = Some (False, (cip, cport), (dip, dport), query)
      \<and> (\<forall>r. backend dgram = Some r \<longrightarrow> 12 \<le> length r \<longrightarrow>
          (\<exists>ctl. snd (proxy_udp True backend query client dst) = Answered r ctl client
            \<and> parse_cmsgs ctl = Some [\<lparr>cm_level = 0, cm_type = ip_pktinfo, cm_data = replicate 4 0 @ dip @ replicate 4 0\<rparr>]))"
proof -
  let ?dst = "UdpAddr (ipv4 dip) dport"
  have dst: "original_destination (kernel_oob ms dip dport rest) = Some ?dst"
    using assms by (intro kernel_destination)
  have "address ?dst = Some (dip, dport)" using assms(2-4) by (auto simp: address_def ipv4_def)
  from header_read [OF assms(1) this, of False query] obtain h
    where h: "proxy_v2 client ?dst False = Some h" "read_proxy_v2 (h @ query) = Some (False, (cip, cport), (dip, dport), query)" by blast
  have "tp_step mx ss (Datagram query (kernel_oob ms dip dport rest) client) (Started (UdpSession query client ?dst))
      (ss @ [UdpSession query client ?dst])"
    using assms(5,6) dst by (simp add: tp_step_simps serve_udp_def)
  with h source_control_read [OF assms(2)] show ?thesis
    by (intro exI [of _ ?dst] exI [of _ "h @ query"]) (simp add: proxy_udp_def addr_ip_def)
qed

definition wit_backend :: "octets \<Rightarrow> octets option" where "wit_backend d = Some (replicate 12 7)"

lemma transparent_udp_witness:
  "\<exists>dst dgram. tp_step 1 [] (Datagram (replicate 12 1) (kernel_oob [(8, replicate 12 0)] [8, 8, 4, 4] 53 []) (UdpAddr [192, 0, 2, 10] 12345))
        (Started (UdpSession (replicate 12 1) (UdpAddr [192, 0, 2, 10] 12345) dst)) ([] @ [UdpSession (replicate 12 1) (UdpAddr [192, 0, 2, 10] 12345) dst])
      \<and> fst (proxy_udp True wit_backend (replicate 12 1) (UdpAddr [192, 0, 2, 10] 12345) dst) = Some dgram
      \<and> read_proxy_v2 dgram = Some (False, ([192, 0, 2, 10], 12345), ([8, 8, 4, 4], 53), replicate 12 1)"
proof -
  have a: "address (UdpAddr [192, 0, 2, 10] 12345) = Some ([192, 0, 2, 10], 12345)" by (simp add: address_def to4_def)
  show ?thesis
    using transparent_udp [OF a, of "[8, 8, 4, 4]" 53 "replicate 12 1" "[]" 1 "[]" "[(8, replicate 12 0)]" wit_backend]
    by (simp add: ip_orig_dst_addr_def) blast
qed

subsection \<open>Facts about sessions\<close>

text \<open>Whatever arrives, at most the configured number of queries and connections is in flight.\<close>

lemma tp_reach_bound: "tp_reach mx ss \<Longrightarrow> 0 \<le> mx \<Longrightarrow> int (length ss) \<le> mx"
proof (induction rule: tp_reach.induct)
  case (step ss ev a ss')
  from step.hyps(2) step.IH step.prems show ?case
    by (cases rule: tp_stepE) (auto simp: serve_udp_def serve_tcp_def split: if_splits option.splits)
qed simp

lemma tp_reach_queries:
  assumes "tp_reach mx ss" and "UdpSession q c d \<in> set ss"
  shows "12 \<le> length q \<and> (\<exists>oob. original_destination oob = Some d)"
  using assms
proof (induction rule: tp_reach.induct)
  case (step ss ev a ss')
  from step.hyps(2) have "UdpSession q c d \<in> set ss \<or> 12 \<le> length q \<and> (\<exists>oob. original_destination oob = Some d)"
    using step.prems
    by (cases rule: tp_stepE)
      (auto simp: serve_udp_def serve_tcp_def dest: in_set_takeD in_set_dropD split: if_splits option.splits)
  with step.IH show ?case by blast
qed simp

text \<open>A TCP session ends with the timeout unless the backend stops receiving.\<close>

lemma tcp_session_bounded:
  assumes "tp_upstream_stall p = None"
  shows "\<exists>e. tcp_session_end a c t p = Some e \<and> e \<le> max (a + t) (c + t)"
  using assms by (auto simp: tcp_session_end_def copy_end_def earlier_def Let_def split: option.splits)

text \<open>With the write deadline removed, a backend that stops receiving keeps the session for ever.\<close>

lemma tcp_session_stuck:
  assumes "tp_upstream_stall p = Some s" and "s < a + t" and "tp_client_end p = None"
  shows "tcp_session_end a c t p = None"
  using assms by (simp add: tcp_session_end_def copy_end_def earlier_def Let_def)

text \<open>The end of the backend's stream is not passed on: an idle client holds the session until its deadline.\<close>

lemma backend_close_unseen:
  assumes "tp_client_end p = None" and "tp_upstream_end p = Some u" and "tp_client_stall p = None" and "tp_upstream_stall p = None"
    and "u \<le> a + t"
  shows "tcp_session_end a c t p = Some (a + t)"
  using assms by (simp add: tcp_session_end_def copy_end_def earlier_def Let_def)

end
