(* ===== verification/Panel_Status.thy ===== *)
theory Panel_Status
  imports Panel_Config Cluster_Api Go_Float
begin

text \<open>
  What the panel reports: the readers of \<open>panel/status.go\<close> (the state of the filter, the feeds, the
  upstreams, the test of a name, the cluster) and the statistics of \<open>panel/main.go\<close> (CPU, memory, queries,
  and the counters fetched from dnsdist). Texts of \<open>/proc\<close> and the answers of dnsdist, decoded, are
  arguments.
\<close>

subsection \<open>The filter\<close>

record rpz_feed =
  rf_name :: string
  rf_zone :: string
  rf_status :: string
  rf_rules :: int

definition blank_or_tab :: "char \<Rightarrow> bool" where "blank_or_tab c \<longleftrightarrow> byte c = 32 \<or> byte c = 9"

definition feed_line :: "string \<Rightarrow> rpz_feed option" where
  "feed_line raw =
     (let l = trim_space raw
      in if l = [] \<or> prefix ''#'' l then None
         else (let w = takeWhile (\<lambda>c. \<not> blank_or_tab c) l; name = (if w = [] then l else w)
               in Some \<lparr>rf_name = name, rf_zone = path_base name, rf_status = ''configured'', rf_rules = 0\<rparr>))"

definition load_rpz_feeds :: "string \<Rightarrow> fs \<Rightarrow> rpz_feed list" where
  "load_rpz_feeds path F =
     (if path = [] then []
      else (case F path of None \<Rightarrow> [] | Some b \<Rightarrow> List.map_filter feed_line (split_on LF b)))"

record rpz_status =
  rs_mode :: string
  rs_sinkhole :: "string list"
  rs_feeds :: "rpz_feed list"
  rs_rules :: int
  rs_size :: int
  rs_hash :: string

text \<open>\<open>manifest\<close> reads the digest of \<open>manifest.json\<close>; the time of the database is left out.\<close>

definition handle_rpz_status ::
  "(bytes \<Rightarrow> string option) \<Rightarrow> conf_flags \<Rightarrow> string \<Rightarrow> string \<Rightarrow> bool \<Rightarrow> fs \<Rightarrow> nat + rpz_status" where
  "handle_rpz_status manifest f files sources get F =
     (if \<not> get then Inl 405
      else
        (let cfg = load_node_config f F; feeds = load_rpz_feeds sources F;
             sz = (if files = [] then 0 else (case F (path_join files ''trust.db'') of None \<Rightarrow> 0 | Some b \<Rightarrow> int (length b)));
             h = (if files = [] then [] else
                   (case F (path_join files ''manifest.json'') of None \<Rightarrow> [] | Some b \<Rightarrow> or_else (manifest b) []))
         in Inr \<lparr>rs_mode = nc_block_mode cfg, rs_sinkhole = nc_sinkhole cfg, rs_feeds = feeds,
                 rs_rules = sum_list (map rf_rules feeds), rs_size = sz, rs_hash = h\<rparr>))"

subsection \<open>Upstreams\<close>

record upstream_detail =
  ud_address :: string
  ud_protocol :: string
  ud_weight :: int
  ud_health :: string

definition upstream_weight :: "int \<Rightarrow> int \<Rightarrow> int" where
  "upstream_weight n i =
     (if n \<le> 0 then 0
      else (let base = 100 div n; rem = 100 mod n in if i < rem then base + 1 else base))"

definition detect_upstream_protocol :: "string \<Rightarrow> string" where
  "detect_upstream_protocol addr =
     (if sublist '':853'' addr then ''DoT'' else if sublist '':443'' addr then ''DoH'' else ''UDP/TCP'')"

definition handle_upstream_status :: "conf_flags \<Rightarrow> bool \<Rightarrow> bool \<Rightarrow> fs \<Rightarrow> nat + upstream_detail list" where
  "handle_upstream_status f running get F =
     (if \<not> get then Inl 405
      else
        (let ups = nc_upstreams (load_node_config f F); health = (if running then ''unknown'' else ''inactive'')
         in Inr (map (\<lambda>i. \<lparr>ud_address = ups ! i, ud_protocol = detect_upstream_protocol (ups ! i),
                           ud_weight = upstream_weight (int (length ups)) (int i), ud_health = health\<rparr>) [0..<length ups])))"

subsection \<open>The cluster\<close>

text \<open>
  \<open>getClusterStorage\<close>: the storage of \<open>initClusterStore\<close>, which only runs on a master, or else the JSON
  store, which then does not exist. Listing a store that does not exist panics, here \<^const>\<open>None\<close>.
\<close>

definition get_cluster_storage :: "'s option \<Rightarrow> 's option \<Rightarrow> 's option" where
  "get_cluster_storage storage json = (case storage of Some s \<Rightarrow> Some s | None \<Rightarrow> json)"

definition handle_cluster_tokens ::
  "('s \<Rightarrow> node list \<times> aggregate) \<Rightarrow> bool \<Rightarrow> 's option \<Rightarrow> 's option \<Rightarrow> bool \<Rightarrow> (nat + bool \<times> nat \<times> nat) option" where
  "handle_cluster_tokens list master storage json get =
     (if \<not> get then Some (Inl 405)
      else map_option (\<lambda>s. Inr (master, ag_total (snd (list s)), ag_online (snd (list s)))) (get_cluster_storage storage json))"

definition parse_int_default :: "string \<Rightarrow> int \<Rightarrow> int" where
  "parse_int_default raw d =
     (if raw = [] then d else (case atoi raw of None \<Rightarrow> d | Some v \<Rightarrow> if v \<le> 0 then d else v))"

subsection \<open>The files of /proc\<close>

text \<open>\<open>strings.Fields\<close> and the lines of \<open>bufio.Scanner\<close> on texts in ASCII.\<close>

function fields :: "string \<Rightarrow> string list" where
  "fields s =
     (let t = dropWhile is_space_byte s
      in if t = [] then []
         else takeWhile (\<lambda>c. \<not> is_space_byte c) t # fields (dropWhile (\<lambda>c. \<not> is_space_byte c) t))"
  by pat_completeness auto
termination
proof (relation "measure length")
  fix s t :: string
  assume t: "t = dropWhile is_space_byte s" "t \<noteq> []"
  then have "\<not> is_space_byte (hd t)" using hd_dropWhile by metis
  then have "dropWhile (\<lambda>c. \<not> is_space_byte c) t = dropWhile (\<lambda>c. \<not> is_space_byte c) (tl t)" using t(2) by (cases t) auto
  then have "length (dropWhile (\<lambda>c. \<not> is_space_byte c) t) < length t"
    using t(2) length_dropWhile_le [of "\<lambda>c. \<not> is_space_byte c" "tl t"] by (cases t) auto
  also have "length t \<le> length s" unfolding t(1) by (rule length_dropWhile_le)
  finally show "(dropWhile (\<lambda>c. \<not> is_space_byte c) t, s) \<in> measure length" by simp
qed simp

declare fields.simps [simp del]

definition proc_lines :: "string \<Rightarrow> string list" where "proc_lines s = fst (scan_lines 65536 s)"

text \<open>
  The number \<open>strconv.ParseUint\<close> returns, with or without an error: 0 for other characters, the greatest
  number when the digits go beyond it.
\<close>

definition parse_uint64 :: "string \<Rightarrow> 64 word" where
  "parse_uint64 s =
     (let d = takeWhile is_digit s
      in if 18446744073709551615 < dec_val d then - 1
         else if d = [] \<or> d \<noteq> s then 0 else word_of_int (dec_val d))"

definition read_cpu_stat :: "string option \<Rightarrow> 64 word \<times> 64 word" where
  "read_cpu_stat text =
     (case List.find (prefix ''cpu '') (proc_lines (or_else text [])) of
        None \<Rightarrow> (0, 0)
      | Some l \<Rightarrow>
          (let vs = map parse_uint64 (tl (fields l)) in (if 4 \<le> length vs then vs ! 3 else 0, sum_list vs)))"

definition read_udp_in :: "string option \<Rightarrow> 64 word" where
  "read_udp_in text =
     (case filter (prefix ''Udp:'') (proc_lines (or_else text [])) of
        h # rest \<Rightarrow>
          (let hs = fields h;
               hits = concat (map (\<lambda>l. let fs = fields l in
                        map (\<lambda>i. parse_uint64 (fs ! i)) (filter (\<lambda>i. hs ! i = ''InDatagrams'' \<and> i < length fs) [0..<length hs])) rest)
           in (case hits of [] \<Rightarrow> 0 | v # _ \<Rightarrow> v))
      | [] \<Rightarrow> 0)"

text \<open>The last line of a name counts.\<close>

definition mem_value :: "string \<Rightarrow> string \<Rightarrow> 64 word" where
  "mem_value text key =
     (case filter (\<lambda>fs. 2 \<le> length fs \<and> trim_suffix (hd fs) '':'' = key) (map fields (proc_lines text)) of
        [] \<Rightarrow> 0 | ls \<Rightarrow> parse_uint64 (last ls ! 1))"

definition mem_mb :: "string option \<Rightarrow> 64 word \<times> 64 word" where
  "mem_mb text =
     (case text of
        None \<Rightarrow> (0, 0)
      | Some t \<Rightarrow>
          (let v = (\<lambda>k. mem_value t k div 1024); total = v ''MemTotal''
           in (total - v ''MemFree'' - v ''Buffers'' - v ''Cached'', total)))"

text \<open>\<open>pf\<close> is the value of \<open>strconv.ParseFloat\<close>.\<close>

definition uptime_sec :: "(string \<Rightarrow> rat) \<Rightarrow> string option \<Rightarrow> int" where
  "uptime_sec pf text =
     (case text of None \<Rightarrow> 0 | Some t \<Rightarrow> (case fields t of [] \<Rightarrow> 0 | w # _ \<Rightarrow> go_trunc (pf w)))"

subsection \<open>Statistics\<close>

record panel_stats =
  ps_idle :: "64 word"
  ps_total :: "64 word"
  ps_udp :: "64 word"
  ps_udp_at :: time
  ps_qps :: int
  ps_udp_sum :: "64 word"
  ps_blocked :: int
  ps_cache :: int
  ps_queries :: int

definition float_of :: "64 word \<Rightarrow> rat" where "float_of w = fl (of_int (uint w))"

text \<open>The conversion of a \<open>float64\<close> to \<open>int64\<close> on amd64, where a value out of range gives the least one.\<close>

definition to_int64 :: "rat \<Rightarrow> int" where
  "to_int64 x = (let n = go_trunc x in if - (2 ^ 63) \<le> n \<and> n < 2 ^ 63 then n else - (2 ^ 63))"

definition cpu_percent :: "64 word \<times> 64 word \<Rightarrow> panel_stats \<Rightarrow> rat \<times> panel_stats" where
  "cpu_percent cpu s =
     (let (idle, total) = cpu; s' = s\<lparr>ps_idle := idle, ps_total := total\<rparr>
      in if ps_total s = 0 \<or> total = ps_total s then (0, s')
         else (fl (fl (1 - fl (float_of (idle - ps_idle s) / float_of (total - ps_total s))) * 100), s'))"

definition update_qps :: "time \<Rightarrow> 64 word \<Rightarrow> panel_stats \<Rightarrow> panel_stats" where
  "update_qps now cur s =
     (let s' = s\<lparr>ps_udp := cur, ps_udp_at := now\<rparr>; dt = go_seconds (time_sub now (ps_udp_at s));
          q = fl (float_of (cur - ps_udp s) / dt)
      in if ps_udp s = 0 \<or> ps_udp_at s = 0 \<or> dt \<le> 0 then s'
         else s'\<lparr>ps_qps := to_int64 (if q < 0 then 0 else q), ps_udp_sum := ps_udp_sum s + (cur - ps_udp s)\<rparr>)"

datatype stat_value = StatNumber rat | StatText string | StatOther

definition stat_float_val :: "(string \<Rightarrow> rat option) \<Rightarrow> stat_value \<Rightarrow> rat" where
  "stat_float_val pf v = (case v of StatNumber x \<Rightarrow> x | StatText t \<Rightarrow> or_else (pf t) 0 | StatOther \<Rightarrow> 0)"

definition stat_float :: "(string \<Rightarrow> rat option) \<Rightarrow> (string \<rightharpoonup> stat_value) \<Rightarrow> string list \<Rightarrow> rat" where
  "stat_float pf m keys = (case List.map_filter m keys of [] \<Rightarrow> 0 | v # _ \<Rightarrow> stat_float_val pf v)"

record overview =
  ov_rules :: "(string \<times> rat) list"
  ov_pools :: "(rat \<times> rat) list"
  ov_stats :: "string \<rightharpoonup> stat_value"

definition fl_sum :: "rat list \<Rightarrow> rat" where "fl_sum xs = foldl (\<lambda>a x. fl (a + x)) 0 xs"

definition kvs_rule :: "lib \<Rightarrow> string \<Rightarrow> bool" where
  "kvs_rule L r = (let l = to_lower L r in sublist ''key-value store'' l \<or> sublist ''kvs'' l)"

definition overview_blocked :: "lib \<Rightarrow> (string \<Rightarrow> rat option) \<Rightarrow> overview \<Rightarrow> rat" where
  "overview_blocked L pf v =
     (let ks = filter (\<lambda>(r, n). kvs_rule L r) (ov_rules v)
      in if ks = [] then stat_float pf (ov_stats v) [''rule-drop'', ''rdrop''] else fl_sum (map snd ks))"

definition overview_cache :: "(string \<Rightarrow> rat option) \<Rightarrow> overview \<Rightarrow> rat \<times> rat" where
  "overview_cache pf v =
     (let h = fl_sum (map fst (ov_pools v)); m = fl_sum (map snd (ov_pools v))
      in if h = 0 \<and> m = 0
         then (stat_float pf (ov_stats v) [''cache-hits'', ''packetcache-hits''], stat_float pf (ov_stats v) [''cache-misses'', ''packetcache-misses''])
         else (h, m))"

definition store_cache :: "rat \<times> rat \<Rightarrow> panel_stats \<Rightarrow> panel_stats" where
  "store_cache hm s =
     (let total = fl (fst hm + snd hm)
      in if 0 < total then s\<lparr>ps_cache := to_int64 (fl (fl (fst hm / total) * 10000))\<rparr> else s)"

definition use_overview :: "lib \<Rightarrow> (string \<Rightarrow> rat option) \<Rightarrow> overview \<Rightarrow> panel_stats \<Rightarrow> panel_stats" where
  "use_overview L pf v s =
     (let s1 = store_cache (overview_cache pf v) (s\<lparr>ps_blocked := to_int64 (overview_blocked L pf v)\<rparr>);
          q = stat_float pf (ov_stats v) [''queries'']; r = stat_float pf (ov_stats v) [''queries-per-second''];
          s2 = (if 0 < q then s1\<lparr>ps_queries := to_int64 q\<rparr> else s1)
      in if 0 < r then s2\<lparr>ps_qps := to_int64 r\<rparr> else s2)"

text \<open>The fallback: the list of single statistics.\<close>

definition item_values :: "string list \<Rightarrow> (string \<times> rat) list \<Rightarrow> rat list" where
  "item_values keys items = map snd (filter (\<lambda>(n, x). n \<in> set keys) items)"

definition use_items :: "(string \<times> rat) list \<Rightarrow> panel_stats \<Rightarrow> panel_stats" where
  "use_items items s =
     (let rates = filter (\<lambda>x. 0 < x) (item_values [''queries-per-second''] items);
          qs = item_values [''queries''] items;
          s0 = (if rates = [] then s else s\<lparr>ps_qps := to_int64 (last rates)\<rparr>);
          s1 = (if qs \<noteq> [] \<and> 0 < last qs then s0\<lparr>ps_queries := to_int64 (last qs)\<rparr> else s0);
          b = fl_sum (item_values [''rdrop'', ''rule-drop''] items);
          s2 = (if 0 < b then s1\<lparr>ps_blocked := to_int64 b\<rparr> else s1)
      in store_cache (fl_sum (item_values [''cache-hits'', ''packetcache-hits''] items),
                      fl_sum (item_values [''cache-misses'', ''packetcache-misses''] items)) s2)"

text \<open>\<open>fetchDnsdistStats\<close>: the overview when it was answered and decodes, else the list.\<close>

definition fetch_dnsdist_stats ::
  "lib \<Rightarrow> (string \<Rightarrow> rat option) \<Rightarrow> overview option \<Rightarrow> (string \<times> rat) list option \<Rightarrow> panel_stats \<Rightarrow> panel_stats" where
  "fetch_dnsdist_stats L pf ov items s =
     (case ov of
        Some v \<Rightarrow> use_overview L pf v s
      | None \<Rightarrow> (case items of None \<Rightarrow> s | Some xs \<Rightarrow> use_items xs s))"

text \<open>The credentials for dnsdist: the flag, or what the configuration assigns first.\<close>

definition any_quote :: "char \<Rightarrow> bool" where "any_quote c \<longleftrightarrow> byte c = 39 \<or> byte c = 34"

definition match_assigned :: "string \<Rightarrow> string \<Rightarrow> string option" where
  "match_assigned key s =
     (if \<not> prefix key s then None
      else
        (let a = drop_spaces (drop (length key) s)
         in if \<not> prefix ''='' a then None
            else
              (let b = drop_spaces (tl a)
               in if b = [] \<or> \<not> any_quote (hd b) then None
                  else
                    (let g = takeWhile (\<lambda>c. \<not> any_quote c) (tl b)
                     in if g = [] \<or> length g = length (tl b) then None else Some g))))"

definition get_dnsdist_creds :: "string \<Rightarrow> conf_flags \<Rightarrow> fs \<Rightarrow> string \<times> string" where
  "get_dnsdist_creds flag f F =
     (case F (cf_conf f) of
        None \<Rightarrow> (flag, [])
      | Some conf \<Rightarrow>
          ((if flag \<noteq> [] then flag else or_else (find_any (match_assigned ''apiKey'') conf) []),
           or_else (find_any (match_assigned ''password'') conf) []))"

record stats_reply =
  sr_qps :: int
  sr_queries :: int
  sr_blocked :: int
  sr_cache :: rat
  sr_cpu :: rat
  sr_mem_used :: "64 word"
  sr_mem_total :: "64 word"

text \<open>\<open>math.Round\<close>: away from zero at the half.\<close>

definition go_round :: "rat \<Rightarrow> rat" where
  "go_round x = of_int (if 0 \<le> x then \<lfloor>x + 1 / 2\<rfloor> else \<lceil>x - 1 / 2\<rceil>)"

definition handle_stats :: "64 word \<times> 64 word \<Rightarrow> string option \<Rightarrow> panel_stats \<Rightarrow> stats_reply \<times> panel_stats" where
  "handle_stats cpu mem s =
     (case cpu_percent cpu s of
        (pct, s') \<Rightarrow>
          (\<lparr>sr_qps = ps_qps s,
            sr_queries = (if 0 < ps_queries s then ps_queries s else sint (ps_udp_sum s)),
            sr_blocked = ps_blocked s,
            sr_cache = fl (go_round (fl (fl (fl (of_int (ps_cache s)) / 100) * 10)) / 10),
            sr_cpu = fl (go_round (fl (pct * 10)) / 10),
            sr_mem_used = fst (mem_mb mem), sr_mem_total = snd (mem_mb mem)\<rparr>, s'))"

subsection \<open>Facts\<close>

text \<open>The weights of the upstreams add up to one hundred.\<close>

lemma upstream_weights_sum:
  assumes "0 < n"
  shows "(\<Sum>i<n. upstream_weight (int n) (int i)) = 100"
proof -
  define r where "r = nat (100 mod int n)"
  have ri: "int r = 100 mod int n" using assms by (simp add: r_def)
  then have "r \<le> n" using assms pos_mod_bound [of "int n" 100] by linarith
  note r = ri this
  have "upstream_weight (int n) (int i) = 100 div int n + (if i < r then 1 else 0)" for i
    using assms r(1) by (auto simp: upstream_weight_def Let_def)
  then have "(\<Sum>i<n. upstream_weight (int n) (int i)) = int n * (100 div int n) + (\<Sum>i<n. if i < r then 1 else 0)"
    by (simp add: sum.distrib)
  also have "(\<Sum>i<n. if i < r then 1 else (0::int)) = int (card {i \<in> {..<n}. i < r})"
    by (simp add: sum.If_cases) (simp add: Int_def)
  also have "{i \<in> {..<n}. i < r} = {..<r}" using r(2) by auto
  also have "int n * (100 div int n) + int (card {..<r}) = 100" using r(1) by simp
  finally show ?thesis .
qed

text \<open>With counters that only grow, the load is a percentage.\<close>

lemma cpu_percent_range:
  assumes "uint (fst cpu - ps_idle s) \<le> uint (snd cpu - ps_total s)" and "uint (snd cpu - ps_total s) < 9007199254740992"
  shows "0 \<le> fst (cpu_percent cpu s) \<and> fst (cpu_percent cpu s) \<le> 100"
proof -
  obtain idle total where cpu: "cpu = (idle, total)" by (cases cpu)
  define i t where "i = uint (idle - ps_idle s)" and "t = uint (total - ps_total s)"
  have it: "0 \<le> i" "i \<le> t" "t < 9007199254740992" using assms by (simp_all add: cpu i_def t_def)
  show ?thesis
  proof (cases "ps_total s = 0 \<or> total = ps_total s")
    case True
    then show ?thesis by (simp add: cpu_percent_def cpu)
  next
    case False
    then have "t \<noteq> 0" by (auto simp: t_def uint_0_iff)
    with it have t: "0 < t" by simp
    have ex: "float_of (idle - ps_idle s) = of_int i" "float_of (total - ps_total s) = of_int t"
      using it fl_int [of i] fl_int [of t] by (simp_all add: float_of_def i_def [symmetric] t_def [symmetric])
    define q where "q = fl (of_int i / of_int t)"
    have "(of_int i :: rat) / of_int t \<le> of_int 1" using it t by (simp add: pos_divide_le_eq)
    then have q: "0 \<le> q" "q \<le> 1" using fl_le_int [of "of_int i / of_int t" 1] it t by (simp_all add: q_def fl_nonneg)
    define d where "d = fl (1 - q)"
    have d: "0 \<le> d" "d \<le> 1" using fl_le_int [of "1 - q" 1] q by (simp_all add: d_def fl_nonneg)
    have "0 \<le> fl (d * 100)" "fl (d * 100) \<le> 100" using fl_le_int [of "d * 100" 100] d by (simp_all add: fl_nonneg)
    then show ?thesis using False by (simp add: cpu_percent_def cpu ex q_def [symmetric] d_def [symmetric])
  qed
qed

subsection \<open>Behaviours worth knowing\<close>

text \<open>On a node that is no master the cluster route panics.\<close>

lemma cluster_tokens_panic: "handle_cluster_tokens list False None None True = None"
  by (simp add: handle_cluster_tokens_def get_cluster_storage_def)

text \<open>The protocol is guessed from any part of the address.\<close>

lemma protocol_guess: "detect_upstream_protocol ''[2001:db8:853::1]:53'' = ''DoT''"
  by code_simp

text \<open>A counter that falls, or that cannot be read once, wraps around: the check for a negative rate never holds.\<close>

lemma rate_never_negative: "0 \<le> dt \<Longrightarrow> 0 \<le> fl (float_of w / dt)"
  unfolding float_of_def by (intro fl_nonneg divide_nonneg_nonneg) (simp_all del: of_int_uint)

definition falling_stats :: panel_stats where
  "falling_stats = \<lparr>ps_idle = 0, ps_total = 0, ps_udp = 1000, ps_udp_at = 1, ps_qps = 0, ps_udp_sum = 1000, ps_blocked = 0, ps_cache = 0, ps_queries = 0\<rparr>"

lemma falling_counter: "3000000000000000000 < ps_qps (update_qps (1 + seconds 5) 0 falling_stats)"
  by code_simp

lemma falling_counter_queries: "sr_queries (fst (handle_stats (0, 0) None (update_qps (1 + seconds 5) 1 (falling_stats\<lparr>ps_udp_sum := 0\<rparr>)))) = - 999"
  by code_simp

text \<open>The first report after the start has no load: the warm-up reading is not kept.\<close>

lemma first_load: "ps_total s = 0 \<Longrightarrow> fst (cpu_percent cpu s) = 0"
  by (simp add: cpu_percent_def split: prod.splits)

end
