(* ===== verification/Spec2Isabelle.thy ===== *)
theory Spec2Isabelle
  imports Rpz_Config Rpz_Http Panel_Routes Cluster_Api Profile_Api Edge_Agent Trust_Builder Panel_Auth Local_Block Dnstap_Agg Panel_Config Cdb_Publish Tproxy Panel_Status
begin

text \<open>
  A verification development of dnsdist-edge: a filtering DNS edge node, the master that feeds and
  configures it, and the tools that build block lists.

  \<^bold>\<open>The program.\<close> \<open>tools/rpz-master\<close> is a daemon that mirrors a response policy zone from an upstream
  server (SOA query, IXFR or AXFR over TCP with TSIG), keeps it as a sorted file of names, compiles it
  to a CDB database, serves the zone to its own clients and the files over HTTP. \<open>panel\<close> is the web panel
  that runs on a master and on every edge node: it builds databases from public feeds and publishes
  them, keeps the cluster of nodes (enrolment tokens, node keys, heartbeats) in a JSON file or an SQL
  database, keeps configuration profiles, assigns them to nodes and turns them into Lua; on a node its
  agent sends heartbeats, fetches the assigned profile and applies it to dnsdist; it edits the
  configuration of the node, shows its status and query statistics and serves the block page.
  \<open>tools/trust-builder\<close> and \<open>tools/gen-cdb-go\<close> build databases from the command line, and
  \<open>tools/dnsdist-tproxy\<close> hands intercepted DNS traffic to dnsdist and answers from the original address.

  \<^bold>\<open>Theories and sources.\<close>
  \<^item> \<open>Go_Prelude\<close>, \<open>Go_Net\<close>, \<open>Go_Utf8\<close>, \<open>Go_Base64\<close>, \<open>Go_Float\<close>: what the sources use of the language and the
    standard library (strings, scanner, paths, instants, atomic file replacement, addresses, runes, base64,
    rounding of \<open>float64\<close>).
  \<^item> \<open>Rpz_Domain\<close>, \<open>Rpz_Transfer\<close>, \<open>Rpz_Files\<close>, \<open>Rpz_Server\<close>, \<open>Rpz_App\<close>, \<open>Rpz_Config\<close>, \<open>Rpz_Http\<close>:
    \<open>tools/rpz-master\<close> in the files \<open>config.go\<close>, \<open>slave_client.go\<close>, \<open>builder.go\<close>, \<open>dns_server.go\<close>, \<open>main.go\<close> and
    \<open>http_server.go\<close>. The daemon is a step relation, so that a zone transfer or an HTTP request may be
    answered between any two steps of a running synchronisation; \<open>Rpz_Config\<close> holds the validation of the
    configuration and \<open>run\<close>.
  \<^item> \<open>Cluster_Base\<close>, \<open>Cluster_Store\<close>, \<open>Cluster_Sql\<close>, \<open>Cluster_Api\<close>: the node records and the three backends of
    \<open>panel/cluster.go\<close>, \<open>storage.go\<close> and \<open>pgstore.go\<close>, behind the locale \<open>cluster_storage\<close> (tokens are used
    once, a heartbeat needs the key of the registration), and the HTTP side.
  \<^item> \<open>Profile_Doc\<close>, \<open>Profile_Store\<close>, \<open>Lua_Text\<close>, \<open>Profile_Lua\<close>, \<open>Profile_Api\<close>: the documents and the store of
    \<open>panel/smartdist_profile.go\<close>, and the generated Lua of \<open>smartdist_lua.go\<close> and \<open>smartdist_dnsdist_lua.go\<close>,
    read back by a model of Lua's lexer.
  \<^item> \<open>Edge_Apply\<close>, \<open>Edge_Agent\<close>: \<open>smartdist_dnsdist_apply.go\<close>, \<open>smartdist_agent.go\<close> and the agent in \<open>cluster.go\<close>.
  \<^item> \<open>Cdb_Lookup\<close>: \<open>cdbContainsDomain\<close> of \<open>panel/status.go\<close> (bytes and 32 bit words) and \<open>tools/gen-cdb-go\<close>.
  \<^item> \<open>Feed_Build\<close>, \<open>Trust_Builder\<close>: \<open>panel/builder.go\<close> and \<open>tools/trust-builder\<close>.
  \<^item> \<open>Cdb_Limiter\<close>, \<open>Cdb_Publish\<close>: \<open>cdb_ratelimit.go\<close> (a token bucket on \<open>float64\<close>) and \<open>cdbpublisher.go\<close> over a
    tree of files with symbolic links.
  \<^item> \<open>Panel_Auth\<close>: \<open>login_limit.go\<close>, \<open>password.go\<close> and the session of \<open>main.go\<close>; \<open>Panel_Routes\<close>: start, route
    table, multiplexer and middleware of \<open>main.go\<close>.
  \<^item> \<open>Panel_Config\<close>: the settings of \<open>main.go\<close>, read from and written into the Lua of the node;
    \<open>Panel_Status\<close>: \<open>status.go\<close> and the counters of \<open>main.go\<close>; \<open>Dnstap_Agg\<close>: \<open>dnstap.go\<close>; \<open>Block_Page\<close>: \<open>blockpage.go\<close>.
  \<^item> \<open>Local_Block\<close>: \<open>localblock.go\<close>, \<open>localblock_http.go\<close>, \<open>master_custom_blacklist.go\<close> and the whitelist of
    \<open>main.go\<close>, behind the locale \<open>saved_list\<close> (what is written to the file is read back).
  \<^item> \<open>Tproxy\<close>: \<open>tools/dnsdist-tproxy\<close>, its UDP and TCP sessions as a step relation.

  \<^bold>\<open>How states and operations are modelled.\<close> A Go struct is a record, a handler or method a function from
  the state to a result and the new state; every early return is a branch. Files are a map from paths
  to byte strings; every call that can fail takes its outcome as an argument (\<^typ>\<open>write_result\<close>, a
  predicate over the calls of an operation), so each error path is reachable. Time and random bytes
  are arguments. Panics are \<^const>\<open>None\<close>. Serial numbers and hashes are 32 bit words.

  \<^bold>\<open>What is assumed.\<close> Code outside the repository is a parameter: the record \<^typ>\<open>lib\<close> (lower case beyond
  ASCII, the name functions of miekg/dns, SHA-256, the CDB writer), the JSON codecs, PBKDF2 and HMAC,
  the parsing of URLs, the HTTP servers that hold the feeds. What is used of them is stated where it is
  used: \<open>pack_ok\<close> (the wire form of a plain host name), \<open>cdb_file\<close> and \<open>writer_ok\<close> (the layout of a
  CDB file), \<open>serves\<close> (a server that honours ranges). Each is met by an instance in a witness.

  \<^bold>\<open>What the lemmas show.\<close> For the daemon: an accepted configuration cannot make a later part fail, the
  transfer parser has the net effect of the difference sequences, files, manifest and database agree after
  a publication and stay as they were when it fails, a client that transfers the zone from this server holds
  the same names, and the HTTP interface describes the zone outside a publication. For the cluster: each
  token enrols at most one node, a heartbeat is accepted exactly with the key of the registration. For
  profiles: the store refines an abstract one, what is generated from a document are string and number
  tokens, a profile is fetched only with the key of its node, and an assignment reaches the node with
  one heartbeat and is reported with the next. For databases: a lookup ends and answers exactly for
  the stored keys, the names found after a build are those of the feeds and of the administrator's
  lists, and a built database is the one that is published, under its digest, from below one directory and at
  a bounded rate. For the panel: a bound on the wrong passwords that are checked, the life of a token, no
  administrative handler without a session, settings that stay inside their Lua string, an uploaded block page
  that is served without markup from the client, statistics that count every query once. For the proxy:
  every datagram reaches dnsdist and every answer comes from the address the client asked.

  \<^bold>\<open>Bounds and fuel.\<close> No definition uses fuel: the loops are recursions over lists or have a measure
  (the probe of a CDB table over the number of slots left, trimming over the length of the text).

  \<^bold>\<open>Not modelled.\<close> The generator of the self-signed certificate (calls of crypto/x509), the set-up of sockets
  and their accept loops, timers and signals, range and conditional requests of \<open>net/http\<close>, command line
  parsing and help texts, the SQL of the schemas, the framestream decoder of dnstap. They are library calls
  around the modelled functions. Texts of log and error messages are modelled only where a caller looks at
  them.
\<close>

end
